(* ===== verification/Ground_Prelude.thy ===== *)
theory Ground_Prelude
  imports Main "HOL-Library.Word"
begin

text \<open>
  Shared vocabulary of the development: byte strings, the part of Python's \<^verbatim>\<open>struct\<close> module the
  codecs use (big-endian fixed-width integers, packed and unpacked by a format), Python's integer
  formatting (\<^verbatim>\<open>f"{n:02d}"\<close>, \<^verbatim>\<open>f"{n:08X}"\<close>, \<^verbatim>\<open>str(n)\<close>), aware and naive datetimes, and the
  sequencing operator of the fallible handlers. The generic facts proved here (round trips of the
  struct codec, fixed-width digits) carry the component proofs; the interface of a packed structure
  is the locale \<open>wire_struct\<close>, interpreted for every format the program declares.
\<close>

unbundle bit_operations_syntax

named_theorems wire_simps \<open>evaluation of the struct codec on concrete formats\<close>
named_theorems time_simps \<open>evaluation of datetime arithmetic\<close>

section \<open>Byte strings and the struct module\<close>

type_synonym byte = "8 word"
type_synonym bytes = "byte list"

text \<open>Dynamic Python values, where the code checks the type of an argument.\<close>

datatype py_value = PyNone | PyBool bool | PyInt int | PyBytes bytes | PyStr string

text \<open>
  The format characters used by the program, all in network order: \<^verbatim>\<open>B\<close>, \<^verbatim>\<open>H\<close>, \<^verbatim>\<open>h\<close>, \<^verbatim>\<open>I\<close>, \<^verbatim>\<open>i\<close>
  and \<^verbatim>\<open>Q\<close>.
\<close>

datatype struct_code = Fmt_B | Fmt_H | Fmt_h | Fmt_I | Fmt_i | Fmt_Q

fun code_size :: "struct_code \<Rightarrow> nat" where
  "code_size Fmt_B = 1"
| "code_size Fmt_H = 2"
| "code_size Fmt_h = 2"
| "code_size Fmt_I = 4"
| "code_size Fmt_i = 4"
| "code_size Fmt_Q = 8"

fun code_signed :: "struct_code \<Rightarrow> bool" where
  "code_signed Fmt_h = True"
| "code_signed Fmt_i = True"
| "code_signed _ = False"

text \<open>
  Big-endian bytes of an integer modulo \<open>256 ^ n\<close>; on a negative integer these are the bytes of its
  two's complement. \<open>be_value\<close> reads them back as an unsigned integer.
\<close>

fun be_bytes :: "nat \<Rightarrow> int \<Rightarrow> bytes" where
  "be_bytes 0 v = []"
| "be_bytes (Suc n) v = be_bytes n (v div 256) @ [word_of_int v]"

definition be_value :: "bytes \<Rightarrow> int" where
  "be_value bs = foldl (\<lambda>a b. a * 256 + uint b) 0 bs"

definition code_min :: "struct_code \<Rightarrow> int" where
  "code_min c = (if code_signed c then - (256 ^ code_size c div 2) else 0)"

definition code_limit :: "struct_code \<Rightarrow> int" where
  "code_limit c = (if code_signed c then 256 ^ code_size c div 2 else 256 ^ code_size c)"

definition pack_code :: "struct_code \<Rightarrow> int \<Rightarrow> bytes option" where
  "pack_code c v =
     (if code_min c \<le> v \<and> v < code_limit c then Some (be_bytes (code_size c) v) else None)"

definition unpack_code :: "struct_code \<Rightarrow> bytes \<Rightarrow> int" where
  "unpack_code c bs =
     (let u = be_value bs in if code_limit c \<le> u then u - 256 ^ code_size c else u)"

text \<open>
  \<^verbatim>\<open>Struct.pack\<close> and \<^verbatim>\<open>Struct.unpack\<close>; \<open>None\<close> is \<^verbatim>\<open>struct.error\<close> (a value out of range, a wrong
  number of values, a buffer of the wrong size).
\<close>

fun struct_size :: "struct_code list \<Rightarrow> nat" where
  "struct_size [] = 0"
| "struct_size (c # cs) = code_size c + struct_size cs"

fun struct_pack :: "struct_code list \<Rightarrow> int list \<Rightarrow> bytes option" where
  "struct_pack [] [] = Some []"
| "struct_pack (c # cs) (v # vs) =
     (case pack_code c v of
        None \<Rightarrow> None
      | Some b \<Rightarrow> (case struct_pack cs vs of None \<Rightarrow> None | Some bs \<Rightarrow> Some (b @ bs)))"
| "struct_pack _ _ = None"

fun struct_unpack :: "struct_code list \<Rightarrow> bytes \<Rightarrow> int list option" where
  "struct_unpack [] bs = (if bs = [] then Some [] else None)"
| "struct_unpack (c # cs) bs =
     (if length bs < code_size c then None
      else (case struct_unpack cs (drop (code_size c) bs) of
              None \<Rightarrow> None
            | Some vs \<Rightarrow> Some (unpack_code c (take (code_size c) bs) # vs)))"

section \<open>Integer formatting\<close>

fun nat_digits :: "nat \<Rightarrow> nat \<Rightarrow> nat list" where
  "nat_digits b n = (if b < 2 \<or> n < b then [n] else nat_digits b (n div b) @ [n mod b])"

declare nat_digits.simps [simp del]

text \<open>The last \<open>w\<close> digits of a number, most significant first.\<close>

fun fixed_digits :: "nat \<Rightarrow> nat \<Rightarrow> nat \<Rightarrow> nat list" where
  "fixed_digits b 0 n = []"
| "fixed_digits b (Suc w) n = fixed_digits b w (n div b) @ [n mod b]"

definition upper_digit :: "nat \<Rightarrow> char" where
  "upper_digit d = char_of (if d < 10 then 48 + d else 55 + d)"

definition lower_digit :: "nat \<Rightarrow> char" where
  "lower_digit d = char_of (if d < 10 then 48 + d else 87 + d)"

definition zero_fill :: "nat \<Rightarrow> nat list \<Rightarrow> nat list" where
  "zero_fill w ds = replicate (w - length ds) 0 @ ds"

text \<open>
  \<^verbatim>\<open>f"{v:0wd}"\<close> and \<^verbatim>\<open>f"{v:0wX}"\<close>: zero padding up to the width, which includes the sign.
\<close>

definition py_format :: "(nat \<Rightarrow> char) \<Rightarrow> nat \<Rightarrow> nat \<Rightarrow> int \<Rightarrow> string" where
  "py_format dc b w v =
     (if v < 0 then CHR ''-'' # map dc (zero_fill (w - 1) (nat_digits b (nat (- v))))
      else map dc (zero_fill w (nat_digits b (nat v))))"

abbreviation fmt_dec :: "nat \<Rightarrow> int \<Rightarrow> string" where
  "fmt_dec \<equiv> py_format upper_digit 10"

abbreviation fmt_HEX :: "nat \<Rightarrow> int \<Rightarrow> string" where
  "fmt_HEX \<equiv> py_format upper_digit 16"

abbreviation fmt_hex :: "nat \<Rightarrow> int \<Rightarrow> string" where
  "fmt_hex \<equiv> py_format lower_digit 16"

abbreviation py_str :: "int \<Rightarrow> string" where
  "py_str \<equiv> py_format upper_digit 10 0"

section \<open>Datetimes\<close>

text \<open>
  A \<^verbatim>\<open>datetime\<close> is its wall-clock reading in microseconds since 1970-01-01T00:00 and the offset of
  its zone from UTC in microseconds; a naive datetime has no offset. The range limits of Python's
  type (years 1 to 9999) are not modelled.
\<close>

record datetime =
  dt_wall :: int
  dt_offset :: "int option"

definition utc :: "int \<Rightarrow> datetime" where
  "utc us = \<lparr>dt_wall = us, dt_offset = Some 0\<rparr>"

text \<open>The normalised fields of a \<^verbatim>\<open>timedelta\<close> of \<open>us\<close> microseconds.\<close>

definition td_days :: "int \<Rightarrow> int" where
  "td_days us = us div 86400000000"

definition td_seconds :: "int \<Rightarrow> int" where
  "td_seconds us = us mod 86400000000 div 1000000"

definition td_microseconds :: "int \<Rightarrow> int" where
  "td_microseconds us = us mod 1000000"

text \<open>The instant a stored timestamp denotes; a naive one is read as UTC.\<close>

definition instant :: "datetime \<Rightarrow> int" where
  "instant t = dt_wall t - (case dt_offset t of None \<Rightarrow> 0 | Some off \<Rightarrow> off)"

text \<open>\<^verbatim>\<open>t + timedelta(seconds=s)\<close>.\<close>

definition add_seconds :: "datetime \<Rightarrow> int \<Rightarrow> datetime" where
  "add_seconds t s = t\<lparr>dt_wall := dt_wall t + s * 1000000\<rparr>"

section \<open>Sequencing of handlers\<close>

text \<open>
  A handler's step returns a result or an exception together with the state reached: what was
  committed before an exception stays.
\<close>

type_synonym ('e, 'a, 's) outcome = "('e + 'a) \<times> 's"

fun and_then :: "('e, 'a, 's) outcome \<Rightarrow> ('a \<Rightarrow> 's \<Rightarrow> ('e, 'b, 's) outcome) \<Rightarrow> ('e, 'b, 's) outcome" where
  "and_then (Inl e, s) k = (Inl e, s)"
| "and_then (Inr x, s) k = k x s"

text \<open>Sequencing of computations that raise and have no state of their own.\<close>

fun bindE :: "'e + 'a \<Rightarrow> ('a \<Rightarrow> 'e + 'b) \<Rightarrow> 'e + 'b" where
  "bindE (Inl e) k = Inl e"
| "bindE (Inr x) k = k x"

lemma bindE_Inr: "bindE m k = Inr y \<longleftrightarrow> (\<exists>x. m = Inr x \<and> k x = Inr y)"
  by (cases m) auto

lemma bindE_Inl: "bindE m k = Inl e \<longleftrightarrow> m = Inl e \<or> (\<exists>x. m = Inr x \<and> k x = Inl e)"
  by (cases m) auto

section \<open>Facts about the struct codec\<close>

lemma code_size_pos [simp]: "0 < code_size c"
  by (cases c) auto

lemma length_be_bytes [simp]: "length (be_bytes n v) = n"
  by (induction n arbitrary: v) auto

lemma be_bytes_widths [wire_simps]:
  "be_bytes 1 v = [word_of_int v]"
  "be_bytes 2 v = [word_of_int (v div 256), word_of_int v]"
  "be_bytes 4 v = [word_of_int (v div 16777216), word_of_int (v div 65536), word_of_int (v div 256), word_of_int v]"
  "be_bytes 8 v = [word_of_int (v div 72057594037927936), word_of_int (v div 281474976710656),
     word_of_int (v div 1099511627776), word_of_int (v div 4294967296),
     word_of_int (v div 16777216), word_of_int (v div 65536), word_of_int (v div 256), word_of_int v]"
  by (simp_all add: eval_nat_numeral div_mult2_eq [symmetric] zdiv_zmult2_eq [symmetric])

lemmas [wire_simps] = pack_code_def unpack_code_def code_min_def code_limit_def

lemma be_value_Nil [simp]: "be_value [] = 0"
  by (simp add: be_value_def)

lemma be_value_snoc [simp]: "be_value (bs @ [b]) = be_value bs * 256 + uint b"
  by (simp add: be_value_def)

lemma uint_byte_bounds [simp]: "0 \<le> uint (b :: byte)" "uint (b :: byte) < 256" "uint (b :: byte) \<le> 255"
  using uint_lt2p [of b] by (auto simp: uint_ge_0)

lemma be_value_bounds: "0 \<le> be_value bs \<and> be_value bs < 256 ^ length bs"
proof (induction bs rule: rev_induct)
  case Nil
  then show ?case by simp
next
  case (snoc b bs)
  have b: "uint b < 256" "0 \<le> uint b" by simp_all
  have "be_value bs \<le> 256 ^ length bs - 1" using snoc by simp
  then have "be_value bs * 256 + uint b < 256 * 256 ^ length bs" using b by linarith
  moreover have "0 \<le> be_value bs * 256 + uint b" using snoc b by simp
  ultimately show ?case by (simp only: be_value_snoc length_append_singleton power_Suc)
qed

lemma be_value_be_bytes: "be_value (be_bytes n v) = v mod 256 ^ n"
proof (induction n arbitrary: v)
  case 0
  then show ?case by simp
next
  case (Suc n)
  have "uint (word_of_int v :: byte) = v mod 256"
    by (simp add: uint_word_of_int)
  then have "be_value (be_bytes (Suc n) v) = (v div 256) mod 256 ^ n * 256 + v mod 256"
    by (simp add: Suc)
  also have "\<dots> = v mod (256 * 256 ^ n)"
    by (simp add: mod_mult2_eq' zmod_zmult2_eq algebra_simps)
  finally show ?case by simp
qed

lemma be_bytes_be_value: "be_bytes (length bs) (be_value bs) = bs"
proof (induction bs rule: rev_induct)
  case Nil
  then show ?case by simp
next
  case (snoc b bs)
  have "(be_value bs * 256 + uint b) div 256 = be_value bs"
    by (simp add: div_add1_eq)
  moreover have "word_of_int (be_value bs * 256 + uint b) = b"
  proof -
    have z: "(256 :: byte) = 0" by simp
    have "word_of_int (be_value bs * 256 + uint b) = word_of_int (be_value bs) * (256 :: byte) + b"
      by simp
    then show ?thesis unfolding z by simp
  qed
  ultimately show ?case
    using snoc by simp
qed

lemma be_bytes_mod: "be_bytes n (v mod 256 ^ n) = be_bytes n v"
  by (metis be_bytes_be_value be_value_be_bytes length_be_bytes)

lemma code_span: "code_limit c - code_min c = 256 ^ code_size c"
  by (cases c) (auto simp: code_limit_def code_min_def)

lemma unpack_pack_code: "pack_code c v = Some b \<Longrightarrow> unpack_code c b = v"
proof -
  assume p: "pack_code c v = Some b"
  then have lo: "code_min c \<le> v" and hi: "v < code_limit c" and b: "b = be_bytes (code_size c) v"
    by (auto simp: pack_code_def split: if_splits)
  have span: "code_limit c - code_min c = 256 ^ code_size c" by (rule code_span)
  have min: "code_min c \<le> 0" and lim: "0 < code_limit c" and le: "code_limit c \<le> 256 ^ code_size c"
    by (cases c; simp add: code_min_def code_limit_def)+
  have half: "code_min c = 0 \<or> - code_min c = code_limit c"
    unfolding code_min_def code_limit_def by (cases "code_signed c") simp_all
  show ?thesis
  proof (cases "0 \<le> v")
    case True
    then have "v mod 256 ^ code_size c = v" using hi le by simp
    then show ?thesis using True hi by (simp add: b unpack_code_def be_value_be_bytes)
  next
    case False
    have "(v + 256 ^ code_size c) mod 256 ^ code_size c = v + 256 ^ code_size c"
      using False lo span lim by (intro mod_pos_pos_trivial) auto
    then have m: "v mod 256 ^ code_size c = v + 256 ^ code_size c" by simp
    have "code_limit c \<le> v + 256 ^ code_size c" using lo span by simp
    then show ?thesis by (simp add: b unpack_code_def be_value_be_bytes m)
  qed
qed

lemma pack_unpack_code: "length b = code_size c \<Longrightarrow> pack_code c (unpack_code c b) = Some b"
proof -
  assume len: "length b = code_size c"
  let ?u = "be_value b"
  have bnd: "0 \<le> ?u" "?u < 256 ^ code_size c"
    using be_value_bounds [of b] len by auto
  have span: "code_limit c - code_min c = 256 ^ code_size c" by (rule code_span)
  have min: "code_min c \<le> 0" and lim: "0 < code_limit c"
    by (cases c; simp add: code_min_def code_limit_def)+
  have "be_bytes (code_size c) (unpack_code c b) = be_bytes (code_size c) ?u"
    using be_bytes_mod [of "code_size c" "?u - 256 ^ code_size c"] be_bytes_mod [of "code_size c" ?u]
    by (simp add: unpack_code_def Let_def)
  then have "be_bytes (code_size c) (unpack_code c b) = b"
    using be_bytes_be_value [of b] len by simp
  moreover have "code_min c \<le> unpack_code c b \<and> unpack_code c b < code_limit c"
    using bnd span min lim by (auto simp: unpack_code_def Let_def)
  ultimately show ?thesis by (simp add: pack_code_def)
qed

lemma pack_code_length: "pack_code c v = Some b \<Longrightarrow> length b = code_size c"
  by (auto simp: pack_code_def split: if_splits)

lemma pack_code_range: "(\<exists>b. pack_code c v = Some b) \<longleftrightarrow> code_min c \<le> v \<and> v < code_limit c"
  by (auto simp: pack_code_def)

lemma struct_pack_length: "struct_pack cs vs = Some b \<Longrightarrow> length b = struct_size cs"
  by (induction cs vs arbitrary: b rule: struct_pack.induct)
    (auto split: option.splits dest: pack_code_length)

lemma struct_unpack_pack: "struct_pack cs vs = Some b \<Longrightarrow> struct_unpack cs b = Some vs"
proof (induction cs vs arbitrary: b rule: struct_pack.induct)
  case (2 c cs v vs)
  then obtain b1 b2 where p: "pack_code c v = Some b1" and q: "struct_pack cs vs = Some b2"
    and b: "b = b1 @ b2"
    by (auto split: option.splits)
  from p have "length b1 = code_size c" by (rule pack_code_length)
  with "2.IH" [OF p q] p b show ?case by (simp add: unpack_pack_code)
qed auto

lemma struct_pack_unpack: "struct_unpack cs b = Some vs \<Longrightarrow> struct_pack cs vs = Some b"
proof (induction cs b arbitrary: vs rule: struct_unpack.induct)
  case (1 bs)
  then show ?case by (auto split: if_splits)
next
  case (2 c cs bs)
  then obtain ws where len: "\<not> length bs < code_size c"
    and ws: "struct_unpack cs (drop (code_size c) bs) = Some ws"
    and vs: "vs = unpack_code c (take (code_size c) bs) # ws"
    by (auto split: if_splits option.splits)
  from len have "pack_code c (unpack_code c (take (code_size c) bs)) = Some (take (code_size c) bs)"
    by (intro pack_unpack_code) simp
  with "2.IH" [OF len ws] vs show ?case by simp
qed

lemma struct_unpack_Some: "length b = struct_size cs \<Longrightarrow> \<exists>vs. struct_unpack cs b = Some vs"
proof (induction cs arbitrary: b)
  case Nil
  then show ?case by simp
next
  case (Cons c cs)
  then have "length (drop (code_size c) b) = struct_size cs" by simp
  then obtain vs where "struct_unpack cs (drop (code_size c) b) = Some vs"
    using Cons.IH by blast
  with Cons.prems show ?case by simp
qed

text \<open>
  The contract of a packed structure, as the codecs use it: packing fixes the size, and packing and
  unpacking are inverse to each other on the values that fit and on the buffers of that size.
\<close>

locale wire_struct =
  fixes pack :: "int list \<Rightarrow> bytes option"
    and unpack :: "bytes \<Rightarrow> int list option"
    and size :: nat
  assumes pack_size: "pack vs = Some b \<Longrightarrow> length b = size"
    and unpack_pack: "pack vs = Some b \<Longrightarrow> unpack b = Some vs"
    and pack_unpack: "unpack b = Some vs \<Longrightarrow> pack vs = Some b"
    and unpack_total: "length b = size \<Longrightarrow> \<exists>vs. unpack b = Some vs"
begin

lemma unpack_Some_iff: "(\<exists>vs. unpack b = Some vs) \<longleftrightarrow> length b = size"
  using pack_size pack_unpack unpack_total by blast

lemma pack_inject: "pack vs = Some b \<Longrightarrow> pack ws = Some b \<Longrightarrow> vs = ws"
  using unpack_pack [of vs b] unpack_pack [of ws b] by simp

lemma prefix_recovered: "pack vs = Some b \<Longrightarrow> take size (b @ rest) = b \<and> drop size (b @ rest) = rest"
  using pack_size by fastforce

lemma prefix_unpacked: "pack vs = Some b \<Longrightarrow> unpack (take size (b @ rest)) = Some vs"
  using prefix_recovered unpack_pack by fastforce

end

lemma struct_wire: "wire_struct (struct_pack cs) (struct_unpack cs) (struct_size cs)"
  by unfold_locales (auto intro: struct_pack_length struct_unpack_pack struct_pack_unpack struct_unpack_Some)

section \<open>Facts about formatting\<close>

lemma length_fixed_digits [simp]: "length (fixed_digits b w n) = w"
  by (induction w arbitrary: n) auto

lemma fixed_digits_bound: "0 < b \<Longrightarrow> d \<in> set (fixed_digits b w n) \<Longrightarrow> d < b"
  by (induction w arbitrary: n) auto

lemma fixed_digits_inject:
  "n < b ^ w \<Longrightarrow> m < b ^ w \<Longrightarrow> fixed_digits b w n = fixed_digits b w m \<Longrightarrow> n = m"
proof (induction w arbitrary: n m)
  case 0
  then show ?case by simp
next
  case (Suc w)
  from Suc.prems have "n div b < b ^ w" "m div b < b ^ w"
    by (auto simp: less_mult_imp_div_less mult.commute)
  with Suc have "n div b = m div b" and "n mod b = m mod b" by auto
  then show ?case by (metis div_mult_mod_eq)
qed

lemma fixed_digits_zero: "fixed_digits b w 0 = replicate w 0"
  by (induction w) (auto simp: replicate_append_same)

lemma nat_digits_fixed:
  "2 \<le> b \<Longrightarrow> n < b ^ w \<Longrightarrow> 0 < w \<Longrightarrow>
     length (nat_digits b n) \<le> w \<and> zero_fill w (nat_digits b n) = fixed_digits b w n"
proof (induction w arbitrary: n)
  case 0
  then show ?case by simp
next
  case (Suc w)
  show ?case
  proof (cases "n < b")
    case True
    then show ?thesis using Suc.prems
      by (simp add: nat_digits.simps [of b n] zero_fill_def fixed_digits_zero)
  next
    case False
    with Suc.prems have nd: "nat_digits b n = nat_digits b (n div b) @ [n mod b]"
      by (subst nat_digits.simps) auto
    from Suc.prems have lt: "n div b < b ^ w"
      by (auto simp: less_mult_imp_div_less mult.commute)
    have "0 < w"
    proof (rule ccontr)
      assume "\<not> 0 < w"
      with Suc.prems False show False by simp
    qed
    with Suc.IH [OF Suc.prems(1) lt] nd show ?thesis
      by (auto simp: zero_fill_def)
  qed
qed

lemma py_format_fixed:
  assumes "2 \<le> b" "0 \<le> v" "v < int (b ^ w)" "0 < w"
  shows "py_format dc b w v = map dc (fixed_digits b w (nat v))"
proof -
  have "nat v < b ^ w" using assms by linarith
  then show ?thesis
    using nat_digits_fixed [of b "nat v" w] assms by (simp add: py_format_def)
qed

lemma upper_digit_inject: "d < 16 \<Longrightarrow> e < 16 \<Longrightarrow> upper_digit d = upper_digit e \<Longrightarrow> d = e"
  by (auto simp: upper_digit_def char_of_eq_iff take_bit_eq_mod split: if_splits)

section \<open>Facts about datetimes\<close>

lemma timedelta_fields:
  "td_days us * 86400000000 + td_seconds us * 1000000 + td_microseconds us = us"
proof -
  have "us mod 86400000000 mod 1000000 = us mod (1000000 :: int)"
    by (rule mod_mod_cancel) simp
  then have "td_seconds us * 1000000 + td_microseconds us = us mod 86400000000"
    unfolding td_seconds_def td_microseconds_def
    by (metis div_mult_mod_eq)
  then show ?thesis
    unfolding td_days_def by (metis div_mult_mod_eq add.assoc)
qed

lemma instant_utc [simp]: "instant (utc t) = t"
  by (simp add: instant_def utc_def)

lemma instant_add_seconds [simp]: "instant (add_seconds t s) = instant t + s * 1000000"
  by (simp add: instant_def add_seconds_def)

end
