(* ===== verification/Crc32.thy ===== *)
theory Crc32
  imports Ground_Prelude
begin

text \<open>
  CRC-32/ISO-HDLC, the checksum \<^verbatim>\<open>zlib.crc32\<close> computes and every binary frame of the program carries
  (\<^verbatim>\<open>crc32_iso_hdlc\<close> of \<^verbatim>\<open>telemetry/codec.py\<close>, \<^verbatim>\<open>zlib.crc32\<close> in \<^verbatim>\<open>common/packet.py\<close>): the reflected
  shift register with polynomial \<open>0xEDB88320\<close>, preset and final complement of all ones. The facts
  shown here are the ones error detection rests on: one register step is a bijection of the
  register, one byte step is injective in the register and in the byte, hence two messages of the
  same length that differ in one byte have different checksums, and a buffer that ends with its own
  checksum is no longer one after the change of any of its bytes.
\<close>

definition crc_bit :: "32 word \<Rightarrow> 32 word" where
  "crc_bit r = (if bit r 0 then drop_bit 1 r XOR 0xEDB88320 else drop_bit 1 r)"

definition crc_byte :: "32 word \<Rightarrow> byte \<Rightarrow> 32 word" where
  "crc_byte r b = (crc_bit ^^ 8) (r XOR ucast b)"

definition crc_register :: "32 word \<Rightarrow> bytes \<Rightarrow> 32 word" where
  "crc_register r bs = foldl crc_byte r bs"

text \<open>\<^verbatim>\<open>zlib.crc32(data)\<close> as a Python integer.\<close>

definition zlib_crc32 :: "bytes \<Rightarrow> int" where
  "zlib_crc32 bs = uint (crc_register 0xFFFFFFFF bs XOR 0xFFFFFFFF)"

lemma xor_cancel_word: "(a :: 32 word) XOR c = b XOR c \<Longrightarrow> a = b"
proof -
  assume "a XOR c = b XOR c"
  then have "(a XOR c) XOR c = (b XOR c) XOR c" by simp
  then show "a = b" by (simp only: xor.assoc xor_self_eq xor.right_neutral)
qed

lemma crc_bit_top: "bit (crc_bit r) 31 = bit r 0"
proof -
  have d: "\<not> bit (drop_bit 1 r) 31" using bit_imp_le_length [of r 32] by (auto simp: bit_drop_bit_eq)
  have p: "bit (0xEDB88320 :: 32 word) 31" by simp
  show ?thesis using d p by (simp add: crc_bit_def bit_xor_iff)
qed

lemma crc_bit_inject: "crc_bit r = crc_bit s \<Longrightarrow> r = s"
proof -
  assume eq: "crc_bit r = crc_bit s"
  then have low: "bit r 0 = bit s 0" by (metis crc_bit_top)
  have "drop_bit 1 r = drop_bit 1 s"
  proof (cases "bit s 0")
    case True
    with eq low have "drop_bit 1 r XOR 0xEDB88320 = drop_bit 1 s XOR (0xEDB88320 :: 32 word)"
      by (simp add: crc_bit_def)
    then show ?thesis by (rule xor_cancel_word)
  next
    case False
    with eq low show ?thesis by (simp add: crc_bit_def)
  qed
  then have d: "drop_bit 1 r = drop_bit 1 s" .
  have shift: "bit r (Suc n) = bit s (Suc n)" for n
  proof -
    from d have "bit (drop_bit 1 r) n = bit (drop_bit 1 s) n" by simp
    then show ?thesis by (simp add: bit_drop_bit_eq)
  qed
  show "r = s"
  proof (rule bit_word_eqI)
    fix n assume "n < LENGTH(32)"
    show "bit r n = bit s n" using low shift by (cases n) auto
  qed
qed

lemma crc_bits_inject: "(crc_bit ^^ n) r = (crc_bit ^^ n) s \<Longrightarrow> r = s"
  by (induction n) (auto dest: crc_bit_inject)

lemma crc_byte_register_inject: "crc_byte r b = crc_byte s b \<Longrightarrow> r = s"
  unfolding crc_byte_def by (blast dest: crc_bits_inject xor_cancel_word)

lemma ucast_byte_inject: "(ucast (b :: byte) :: 32 word) = ucast c \<Longrightarrow> b = c"
proof (rule bit_word_eqI)
  fix n
  assume eq: "(ucast b :: 32 word) = ucast c" and n: "n < LENGTH(8)"
  from eq have "bit (ucast b :: 32 word) n = bit (ucast c :: 32 word) n" by simp
  with n show "bit b n = bit c n" by (simp add: bit_ucast_iff)
qed

lemma crc_byte_inject: "crc_byte r b = crc_byte r c \<Longrightarrow> b = c"
proof -
  assume "crc_byte r b = crc_byte r c"
  then have "r XOR ucast b = r XOR ucast c"
    unfolding crc_byte_def by (rule crc_bits_inject)
  then have "ucast b XOR r = ucast c XOR r" by (simp only: xor.commute)
  then show "b = c" by (blast dest: xor_cancel_word ucast_byte_inject)
qed

lemma crc_register_append: "crc_register r (xs @ ys) = crc_register (crc_register r xs) ys"
  by (simp add: crc_register_def)

lemma crc_register_Cons: "crc_register r (b # bs) = crc_register (crc_byte r b) bs"
  by (simp add: crc_register_def)

lemma crc_register_inject: "crc_register r bs = crc_register s bs \<Longrightarrow> r = s"
  by (induction bs arbitrary: r s) (auto simp: crc_register_def dest: crc_byte_register_inject)

lemma zlib_crc32_bounds: "0 \<le> zlib_crc32 bs \<and> zlib_crc32 bs < 2 ^ 32"
  using uint_lt2p [of "crc_register 0xFFFFFFFF bs XOR 0xFFFFFFFF"] by (simp add: zlib_crc32_def)

lemma zlib_crc32_eq: "zlib_crc32 xs = zlib_crc32 ys \<longleftrightarrow> crc_register 0xFFFFFFFF xs = crc_register 0xFFFFFFFF ys"
proof
  assume "zlib_crc32 xs = zlib_crc32 ys"
  then have "crc_register 0xFFFFFFFF xs XOR 0xFFFFFFFF = crc_register 0xFFFFFFFF ys XOR 0xFFFFFFFF"
    unfolding zlib_crc32_def by (rule word_uint_eqI)
  then show "crc_register 0xFFFFFFFF xs = crc_register 0xFFFFFFFF ys" by (rule xor_cancel_word)
qed (simp add: zlib_crc32_def)

text \<open>A change of one byte changes the checksum.\<close>

lemma zlib_crc32_one_byte:
  assumes i: "i < length bs" and b: "b \<noteq> bs ! i"
  shows "zlib_crc32 (bs[i := b]) \<noteq> zlib_crc32 bs"
proof
  assume "zlib_crc32 (bs[i := b]) = zlib_crc32 bs"
  then have "crc_register 0xFFFFFFFF (bs[i := b]) = crc_register 0xFFFFFFFF bs"
    by (simp add: zlib_crc32_eq)
  moreover have "bs[i := b] = take i bs @ [b] @ drop (Suc i) bs"
    using i by (simp add: upd_conv_take_nth_drop)
  moreover have "bs = take i bs @ [bs ! i] @ drop (Suc i) bs"
    using i by (simp add: id_take_nth_drop)
  ultimately have "crc_register 0xFFFFFFFF (take i bs @ [b] @ drop (Suc i) bs) =
      crc_register 0xFFFFFFFF (take i bs @ [bs ! i] @ drop (Suc i) bs)"
    by simp
  then have "crc_register (crc_byte (crc_register 0xFFFFFFFF (take i bs)) b) (drop (Suc i) bs) =
      crc_register (crc_byte (crc_register 0xFFFFFFFF (take i bs)) (bs ! i)) (drop (Suc i) bs)"
    by (simp add: crc_register_append crc_register_Cons)
  then show False using b by (blast dest: crc_register_inject crc_byte_inject)
qed

section \<open>Checksums as trailers\<close>

lemma zlib_crc32_mask: "zlib_crc32 data AND 0xFFFFFFFF = zlib_crc32 data"
proof -
  have "zlib_crc32 data AND mask 32 = take_bit 32 (zlib_crc32 data)"
    by (simp only: take_bit_eq_mask)
  also have "\<dots> = zlib_crc32 data"
    using zlib_crc32_bounds [of data] by (intro take_bit_int_eq_self) auto
  finally show ?thesis by (simp add: mask_eq_exp_minus_1)
qed

lemma be_value_eq_iff: "length b = n \<Longrightarrow> be_value b = v \<and> 0 \<le> v \<and> v < 256 ^ n \<longleftrightarrow> b = be_bytes n v \<and> 0 \<le> v \<and> v < 256 ^ n"
  using be_bytes_be_value [of b] be_value_be_bytes [of n v] by auto

lemma crc_field_iff: "length b = 4 \<Longrightarrow> be_value b = zlib_crc32 x \<longleftrightarrow> b = be_bytes 4 (zlib_crc32 x)"
  using be_value_eq_iff [of b 4 "zlib_crc32 x"] zlib_crc32_bounds [of x] by simp

lemma be_value_inject: "length a = length b \<Longrightarrow> be_value a = be_value b \<Longrightarrow> a = b"
  by (metis be_bytes_be_value)

lemma pack_word32: "0 \<le> v \<Longrightarrow> v < 2 ^ 32 \<Longrightarrow> struct_pack [Fmt_I] [v] = Some (be_bytes 4 v)"
  by (simp add: pack_code_def code_min_def code_limit_def)

lemma unpack_word32: "length b = 4 \<Longrightarrow> struct_unpack [Fmt_I] b = Some [be_value b]"
  using be_value_bounds [of b] by (simp add: unpack_code_def code_limit_def)

text \<open>
  A buffer whose last four bytes are the checksum of the others loses this property when one byte,
  of the data or of the checksum, changes.
\<close>

lemma crc_seal_broken:
  assumes ok: "be_value (drop n raw) = zlib_crc32 (take n raw)" and len: "length raw = n + 4"
    and i: "i < length raw" and b: "b \<noteq> raw ! i"
  shows "be_value (drop n (raw[i := b])) \<noteq> zlib_crc32 (take n (raw[i := b]))"
proof (cases "i < n")
  case True
  then have "take n (raw[i := b]) = (take n raw)[i := b]" by (simp add: take_update_swap)
  moreover have "zlib_crc32 ((take n raw)[i := b]) \<noteq> zlib_crc32 (take n raw)"
    using True len b by (intro zlib_crc32_one_byte) auto
  ultimately show ?thesis using True ok by (simp add: drop_update_cancel)
next
  case False
  then have d: "drop n (raw[i := b]) = (drop n raw)[i - n := b]" by (simp add: drop_update_swap)
  have "(drop n raw)[i - n := b] \<noteq> drop n raw"
  proof
    assume eq: "(drop n raw)[i - n := b] = drop n raw"
    have "(drop n raw)[i - n := b] ! (i - n) = b" using False i len by simp
    moreover have "drop n raw ! (i - n) = raw ! i" using False len i by simp
    ultimately show False using eq b by simp
  qed
  then have "be_value (drop n (raw[i := b])) \<noteq> be_value (drop n raw)"
    using d by (metis be_value_inject length_list_update)
  then show ?thesis using False ok by (simp add: take_update_cancel)
qed

text \<open>Evaluation of concrete checksums by the simplifier.\<close>

lemma funpow_8: "(f ^^ 8) x = f (f (f (f (f (f (f (f x)))))))"
  by (simp add: eval_nat_numeral)

lemmas crc_eval = zlib_crc32_def crc_register_def crc_byte_def funpow_8 crc_bit_def

end
