(* ===== verification/Telemetry_Codec.thy ===== *)
theory Telemetry_Codec
  imports Crc32
begin

text \<open>
  The binary telemetry frame, version 1 (\<^verbatim>\<open>mission_ground/telemetry/codec.py\<close>): constants, the
  \<^verbatim>\<open>TelemetryFrame\<close> dataclass, the ordered field validation, \<^verbatim>\<open>encode_telemetry\<close>,
  \<^verbatim>\<open>decode_telemetry\<close> and \<^verbatim>\<open>format_packet_id\<close>. A raised \<^verbatim>\<open>TelemetryValidationError\<close> is the value
  \<open>Rejected reason detail\<close>; the other exceptions of the module are the remaining constructors of
  \<open>codec_error\<close>. \<^verbatim>\<open>IntEnum\<close> and \<^verbatim>\<open>IntFlag\<close> members are Python integers, so the frame's mode and flags
  are integers here too.
\<close>

section \<open>Constants\<close>

definition PROTOCOL_VERSION :: int where "PROTOCOL_VERSION = 1"

definition SUPPORTED_PAYLOAD_ID :: int where "SUPPORTED_PAYLOAD_ID = 1"

definition TELEMETRY_V1_BODY :: "struct_code list" where
  "TELEMETRY_V1_BODY = [Fmt_B, Fmt_B, Fmt_I, Fmt_I, Fmt_Q, Fmt_h, Fmt_H, Fmt_B, Fmt_B]"

definition CRC32_BIG_ENDIAN :: "struct_code list" where
  "CRC32_BIG_ENDIAN = [Fmt_I]"

definition TELEMETRY_V1_BODY_SIZE :: nat where
  "TELEMETRY_V1_BODY_SIZE = struct_size TELEMETRY_V1_BODY"

definition TELEMETRY_V1_FRAME_SIZE :: nat where
  "TELEMETRY_V1_FRAME_SIZE = TELEMETRY_V1_BODY_SIZE + struct_size CRC32_BIG_ENDIAN"

definition UINT32_MAX :: int where "UINT32_MAX = push_bit 32 1 - 1"

text \<open>2026-01-01T00:00:00Z: 20454 days after the Unix epoch, in microseconds.\<close>

definition PROJECT_EPOCH_US :: int where "PROJECT_EPOCH_US = 20454 * 86400 * 1000000"

definition MAX_FUTURE_SKEW_US :: int where "MAX_FUTURE_SKEW_US = 5 * 60 * 1000000"

definition MIN_TEMPERATURE_CENTI_C :: int where "MIN_TEMPERATURE_CENTI_C = -10000"

definition MAX_TEMPERATURE_CENTI_C :: int where "MAX_TEMPERATURE_CENTI_C = 15000"

definition MIN_VOLTAGE_MV :: int where "MIN_VOLTAGE_MV = 0"

definition MAX_VOLTAGE_MV :: int where "MAX_VOLTAGE_MV = 50000"

section \<open>Modes, faults, errors and the frame\<close>

datatype OperatingMode = SAFE | STANDBY | SCIENCE | CALIBRATION

fun OperatingMode_int :: "OperatingMode \<Rightarrow> int" where
  "OperatingMode_int SAFE = 0"
| "OperatingMode_int STANDBY = 1"
| "OperatingMode_int SCIENCE = 2"
| "OperatingMode_int CALIBRATION = 3"

text \<open>The call \<^verbatim>\<open>OperatingMode(value)\<close>; \<open>None\<close> is its \<^verbatim>\<open>ValueError\<close>.\<close>

definition OperatingMode_of :: "int \<Rightarrow> OperatingMode option" where
  "OperatingMode_of v =
     (if v = 0 then Some SAFE else if v = 1 then Some STANDBY
      else if v = 2 then Some SCIENCE else if v = 3 then Some CALIBRATION else None)"

datatype FaultFlag = OVER_TEMPERATURE | UNDER_VOLTAGE | OVER_VOLTAGE
  | TEMPERATURE_SENSOR_FAULT | VOLTAGE_SENSOR_FAULT | INTERNAL_PAYLOAD_FAULT

fun FaultFlag_int :: "FaultFlag \<Rightarrow> int" where
  "FaultFlag_int OVER_TEMPERATURE = 0x01"
| "FaultFlag_int UNDER_VOLTAGE = 0x02"
| "FaultFlag_int OVER_VOLTAGE = 0x04"
| "FaultFlag_int TEMPERATURE_SENSOR_FAULT = 0x08"
| "FaultFlag_int VOLTAGE_SENSOR_FAULT = 0x10"
| "FaultFlag_int INTERNAL_PAYLOAD_FAULT = 0x20"

definition DEFINED_FAULT_MASK :: int where
  "DEFINED_FAULT_MASK =
     FaultFlag_int OVER_TEMPERATURE OR FaultFlag_int UNDER_VOLTAGE OR FaultFlag_int OVER_VOLTAGE
     OR FaultFlag_int TEMPERATURE_SENSOR_FAULT OR FaultFlag_int VOLTAGE_SENSOR_FAULT
     OR FaultFlag_int INTERNAL_PAYLOAD_FAULT"

definition RESERVED_FAULT_MASK :: int where "RESERVED_FAULT_MASK = 0xC0"

datatype TelemetryRejectionReason = EMPTY_BODY | UNSUPPORTED_PROTOCOL_VERSION
  | INVALID_FRAME_LENGTH | CRC_MISMATCH | UNSUPPORTED_PAYLOAD_ID | INVALID_BOOT_ID
  | TIMESTAMP_BEFORE_PROJECT_EPOCH | TIMESTAMP_TOO_FAR_IN_FUTURE | TEMPERATURE_OUT_OF_RANGE
  | VOLTAGE_OUT_OF_RANGE | INVALID_OPERATING_MODE | RESERVED_FAULT_BITS_SET

fun reason_value :: "TelemetryRejectionReason \<Rightarrow> string" where
  "reason_value EMPTY_BODY = ''EMPTY_BODY''"
| "reason_value UNSUPPORTED_PROTOCOL_VERSION = ''UNSUPPORTED_PROTOCOL_VERSION''"
| "reason_value INVALID_FRAME_LENGTH = ''INVALID_FRAME_LENGTH''"
| "reason_value CRC_MISMATCH = ''CRC_MISMATCH''"
| "reason_value UNSUPPORTED_PAYLOAD_ID = ''UNSUPPORTED_PAYLOAD_ID''"
| "reason_value INVALID_BOOT_ID = ''INVALID_BOOT_ID''"
| "reason_value TIMESTAMP_BEFORE_PROJECT_EPOCH = ''TIMESTAMP_BEFORE_PROJECT_EPOCH''"
| "reason_value TIMESTAMP_TOO_FAR_IN_FUTURE = ''TIMESTAMP_TOO_FAR_IN_FUTURE''"
| "reason_value TEMPERATURE_OUT_OF_RANGE = ''TEMPERATURE_OUT_OF_RANGE''"
| "reason_value VOLTAGE_OUT_OF_RANGE = ''VOLTAGE_OUT_OF_RANGE''"
| "reason_value INVALID_OPERATING_MODE = ''INVALID_OPERATING_MODE''"
| "reason_value RESERVED_FAULT_BITS_SET = ''RESERVED_FAULT_BITS_SET''"

datatype codec_error = Rejected TelemetryRejectionReason string | CodecValueError string | CodecStructError

record TelemetryFrame =
  payload_id :: int
  boot_id :: int
  sequence_number :: int
  timestamp_us :: int
  temperature_centi_c :: int
  voltage_mv :: int
  operating_mode :: int
  fault_flags :: int
  protocol_version :: int

section \<open>Operations\<close>

definition crc32_iso_hdlc :: "bytes \<Rightarrow> int" where
  "crc32_iso_hdlc data = zlib_crc32 data AND UINT32_MAX"

text \<open>\<^verbatim>\<open>_timestamp_us\<close>: microseconds since the Unix epoch of an aware datetime.\<close>

definition timestamp_us_of :: "datetime \<Rightarrow> codec_error + int" where
  "timestamp_us_of value =
     (case dt_offset value of
        None \<Rightarrow> Inl (CodecValueError ''ground_received_at must include a timezone'')
      | Some off \<Rightarrow>
          (let delta = dt_wall value - off
           in Inr (td_days delta * 86400000000 + td_seconds delta * 1000000 + td_microseconds delta)))"

definition validate_future_skew :: "int \<Rightarrow> datetime option \<Rightarrow> codec_error + unit" where
  "validate_future_skew ts ground_received_at =
     (case ground_received_at of
        None \<Rightarrow> Inr ()
      | Some value \<Rightarrow>
          (case timestamp_us_of value of
             Inl e \<Rightarrow> Inl e
           | Inr received_us \<Rightarrow>
               if ts > received_us + MAX_FUTURE_SKEW_US
               then Inl (Rejected TIMESTAMP_TOO_FAR_IN_FUTURE
                      ''sample timestamp is more than five minutes after ground receipt'')
               else Inr ()))"

definition validate_fields :: "TelemetryFrame \<Rightarrow> datetime option \<Rightarrow> codec_error + unit" where
  "validate_fields frame ground_received_at =
     (if protocol_version frame \<noteq> PROTOCOL_VERSION
      then Inl (Rejected UNSUPPORTED_PROTOCOL_VERSION
             (''protocol_version must be '' @ py_str PROTOCOL_VERSION @ '', got '' @ py_str (protocol_version frame)))
      else if payload_id frame \<noteq> SUPPORTED_PAYLOAD_ID
      then Inl (Rejected UNSUPPORTED_PAYLOAD_ID
             (''payload_id must be '' @ py_str SUPPORTED_PAYLOAD_ID @ '', got '' @ py_str (payload_id frame)))
      else if \<not> (1 \<le> boot_id frame \<and> boot_id frame \<le> UINT32_MAX)
      then Inl (Rejected INVALID_BOOT_ID
             (''boot_id must be between 1 and '' @ py_str UINT32_MAX @ '', got '' @ py_str (boot_id frame)))
      else if \<not> (0 \<le> sequence_number frame \<and> sequence_number frame \<le> UINT32_MAX)
      then Inl (CodecValueError
             (''sequence_number must be between 0 and '' @ py_str UINT32_MAX @ '', got '' @ py_str (sequence_number frame)))
      else if \<not> (0 \<le> timestamp_us frame \<and> timestamp_us frame < push_bit 64 1)
      then Inl (CodecValueError ''timestamp_us must fit an unsigned 64-bit integer'')
      else if timestamp_us frame < PROJECT_EPOCH_US
      then Inl (Rejected TIMESTAMP_BEFORE_PROJECT_EPOCH ''timestamp_us is before 2026-01-01T00:00:00Z'')
      else (case validate_future_skew (timestamp_us frame) ground_received_at of
        Inl e \<Rightarrow> Inl e
      | Inr _ \<Rightarrow>
      if \<not> (MIN_TEMPERATURE_CENTI_C \<le> temperature_centi_c frame \<and> temperature_centi_c frame \<le> MAX_TEMPERATURE_CENTI_C)
      then Inl (Rejected TEMPERATURE_OUT_OF_RANGE ''temperature_centi_c must be between -10000 and 15000'')
      else if \<not> (MIN_VOLTAGE_MV \<le> voltage_mv frame \<and> voltage_mv frame \<le> MAX_VOLTAGE_MV)
      then Inl (Rejected VOLTAGE_OUT_OF_RANGE ''voltage_mv must be between 0 and 50000'')
      else if OperatingMode_of (operating_mode frame) = None
      then Inl (Rejected INVALID_OPERATING_MODE
             (''operating_mode is not defined in version 1: '' @ py_str (operating_mode frame)))
      else if \<not> (0 \<le> fault_flags frame \<and> fault_flags frame \<le> 0xFF)
      then Inl (CodecValueError ''fault_flags must fit an unsigned 8-bit integer'')
      else if fault_flags frame AND RESERVED_FAULT_MASK \<noteq> 0
      then Inl (Rejected RESERVED_FAULT_BITS_SET
             (''reserved fault bits must be zero: 0x'' @ fmt_hex 2 (fault_flags frame)))
      else Inr ()))"

definition frame_values :: "TelemetryFrame \<Rightarrow> int list" where
  "frame_values frame =
     [protocol_version frame, payload_id frame, boot_id frame, sequence_number frame,
      timestamp_us frame, temperature_centi_c frame, voltage_mv frame, operating_mode frame,
      fault_flags frame]"

definition encode_telemetry :: "TelemetryFrame \<Rightarrow> datetime option \<Rightarrow> codec_error + bytes" where
  "encode_telemetry frame ground_received_at =
     (case validate_fields frame ground_received_at of
        Inl e \<Rightarrow> Inl e
      | Inr _ \<Rightarrow>
          (case struct_pack TELEMETRY_V1_BODY (frame_values frame) of
             None \<Rightarrow> Inl CodecStructError
           | Some body \<Rightarrow>
               (case struct_pack CRC32_BIG_ENDIAN [crc32_iso_hdlc body] of
                  None \<Rightarrow> Inl CodecStructError
                | Some crc \<Rightarrow> Inr (body @ crc))))"

text \<open>The tuple unpacked from the body, as a frame that still holds the raw mode and flag integers.\<close>

fun frame_of_values :: "int list \<Rightarrow> TelemetryFrame option" where
  "frame_of_values [pv, pid, bid, sn, ts, tc, mv, mode, flags] =
     Some \<lparr>payload_id = pid, boot_id = bid, sequence_number = sn, timestamp_us = ts,
           temperature_centi_c = tc, voltage_mv = mv, operating_mode = mode, fault_flags = flags,
           protocol_version = pv\<rparr>"
| "frame_of_values _ = None"

definition decode_body :: "bytes \<Rightarrow> datetime \<Rightarrow> codec_error + TelemetryFrame" where
  "decode_body body ground_received_at =
     (case struct_unpack TELEMETRY_V1_BODY body of
        None \<Rightarrow> Inl CodecStructError
      | Some values \<Rightarrow>
          (case frame_of_values values of
             None \<Rightarrow> Inl CodecStructError
           | Some frame \<Rightarrow>
               (case validate_fields frame (Some ground_received_at) of
                  Inl e \<Rightarrow> Inl e
                | Inr _ \<Rightarrow>
                    (case OperatingMode_of (operating_mode frame) of
                       None \<Rightarrow> Inl (CodecValueError ''not a valid OperatingMode'')
                     | Some m \<Rightarrow> Inr (frame\<lparr>operating_mode := OperatingMode_int m\<rparr>)))))"

definition decode_telemetry :: "bytes \<Rightarrow> datetime \<Rightarrow> codec_error + TelemetryFrame" where
  "decode_telemetry raw ground_received_at =
     (case raw of
        [] \<Rightarrow> Inl (Rejected EMPTY_BODY ''telemetry body is empty'')
      | version # _ \<Rightarrow>
          if uint version \<noteq> PROTOCOL_VERSION
          then Inl (Rejected UNSUPPORTED_PROTOCOL_VERSION
                 (''protocol_version must be '' @ py_str PROTOCOL_VERSION @ '', got '' @ py_str (uint version)))
          else if length raw \<noteq> TELEMETRY_V1_FRAME_SIZE
          then Inl (Rejected INVALID_FRAME_LENGTH
                 (''telemetry version 1 must be '' @ py_str (int TELEMETRY_V1_FRAME_SIZE) @ '' bytes, got ''
                  @ py_str (int (length raw))))
          else (let body = take TELEMETRY_V1_BODY_SIZE raw in
            (case struct_unpack CRC32_BIG_ENDIAN (drop TELEMETRY_V1_BODY_SIZE raw) of
               Some [expected_crc] \<Rightarrow>
                 (let actual_crc = crc32_iso_hdlc body in
                  if expected_crc \<noteq> actual_crc
                  then Inl (Rejected CRC_MISMATCH
                         (''expected CRC 0x'' @ fmt_HEX 8 expected_crc @ '', calculated 0x'' @ fmt_HEX 8 actual_crc))
                  else decode_body body ground_received_at)
             | _ \<Rightarrow> Inl CodecStructError)))"

definition format_packet_id :: "int \<Rightarrow> int \<Rightarrow> int \<Rightarrow> codec_error + string" where
  "format_packet_id pid bid sn =
     (if \<not> (0 \<le> pid \<and> pid \<le> 99)
      then Inl (CodecValueError ''payload_id must fit the two-digit display field'')
      else if \<not> (0 \<le> bid \<and> bid \<le> UINT32_MAX)
      then Inl (CodecValueError ''boot_id must fit an unsigned 32-bit integer'')
      else if \<not> (0 \<le> sn \<and> sn \<le> UINT32_MAX)
      then Inl (CodecValueError ''sequence_number must fit an unsigned 32-bit integer'')
      else Inr (''TLM-P'' @ fmt_dec 2 pid @ ''-B'' @ fmt_HEX 8 bid @ ''-S'' @ fmt_HEX 8 sn))"

definition frame_packet_id :: "TelemetryFrame \<Rightarrow> codec_error + string" where
  "frame_packet_id frame = format_packet_id (payload_id frame) (boot_id frame) (sequence_number frame)"

section \<open>Reference reading of the interface document\<close>

text \<open>
  The frame layout and the receiver's validation order as sections 6 and 7.1 of the interface
  document state them: each field is read at its byte offset, and the rules are a list in the order
  of the document; the reason of a rejection is the first rule the frame breaks.
\<close>

definition field_at :: "bytes \<Rightarrow> nat \<Rightarrow> nat \<Rightarrow> int" where
  "field_at raw off n = be_value (take n (drop off raw))"

definition signed16_at :: "bytes \<Rightarrow> nat \<Rightarrow> int" where
  "signed16_at raw off = (let u = field_at raw off 2 in if 32768 \<le> u then u - 65536 else u)"

definition icd_frame :: "bytes \<Rightarrow> TelemetryFrame" where
  "icd_frame raw =
     \<lparr>payload_id = field_at raw 1 1, boot_id = field_at raw 2 4, sequence_number = field_at raw 6 4,
      timestamp_us = field_at raw 10 8, temperature_centi_c = signed16_at raw 18,
      voltage_mv = field_at raw 20 2, operating_mode = field_at raw 22 1,
      fault_flags = field_at raw 23 1, protocol_version = field_at raw 0 1\<rparr>"

definition icd_rules :: "bytes \<Rightarrow> int \<Rightarrow> (TelemetryRejectionReason \<times> bool) list" where
  "icd_rules raw received_us =
     [(EMPTY_BODY, raw = []),
      (UNSUPPORTED_PROTOCOL_VERSION, field_at raw 0 1 \<noteq> 1),
      (INVALID_FRAME_LENGTH, length raw \<noteq> 28),
      (CRC_MISMATCH, field_at raw 24 4 \<noteq> zlib_crc32 (take 24 raw)),
      (UNSUPPORTED_PAYLOAD_ID, field_at raw 1 1 \<noteq> 1),
      (INVALID_BOOT_ID, field_at raw 2 4 = 0),
      (TIMESTAMP_BEFORE_PROJECT_EPOCH, field_at raw 10 8 < 1767225600000000),
      (TIMESTAMP_TOO_FAR_IN_FUTURE, field_at raw 10 8 > received_us + 300000000),
      (TEMPERATURE_OUT_OF_RANGE, signed16_at raw 18 < -10000 \<or> 15000 < signed16_at raw 18),
      (VOLTAGE_OUT_OF_RANGE, 50000 < field_at raw 20 2),
      (INVALID_OPERATING_MODE, 3 < field_at raw 22 1),
      (RESERVED_FAULT_BITS_SET, 63 < field_at raw 23 1)]"

definition icd_verdict :: "bytes \<Rightarrow> int \<Rightarrow> TelemetryRejectionReason + TelemetryFrame" where
  "icd_verdict raw received_us =
     (case find snd (icd_rules raw received_us) of
        Some (reason, _) \<Rightarrow> Inl reason
      | None \<Rightarrow> Inr (icd_frame raw))"

fun rejection_reason :: "codec_error \<Rightarrow> TelemetryRejectionReason option" where
  "rejection_reason (Rejected r m) = Some r"
| "rejection_reason _ = None"

text \<open>The golden vector of section 6 of the interface document and its receipt time.\<close>

definition golden_frame :: TelemetryFrame where
  "golden_frame =
     \<lparr>payload_id = 1, boot_id = 42, sequence_number = 1, timestamp_us = 1784203200000000,
      temperature_centi_c = 2840, voltage_mv = 28100, operating_mode = 2, fault_flags = 0,
      protocol_version = 1\<rparr>"

definition golden_raw :: bytes where
  "golden_raw =
     [0x01, 0x01, 0x00, 0x00, 0x00, 0x2a, 0x00, 0x00, 0x00, 0x01, 0x00, 0x06, 0x56, 0xb9, 0x2d, 0xf1,
      0x70, 0x00, 0x0b, 0x18, 0x6d, 0xc4, 0x02, 0x00, 0xcc, 0x6d, 0x02, 0x05]"

definition golden_received :: datetime where
  "golden_received = utc 1784203201000000"

section \<open>Facts\<close>

lemmas codec_constants =
  PROTOCOL_VERSION_def SUPPORTED_PAYLOAD_ID_def PROJECT_EPOCH_US_def MAX_FUTURE_SKEW_US_def
  MIN_TEMPERATURE_CENTI_C_def MAX_TEMPERATURE_CENTI_C_def MIN_VOLTAGE_MV_def MAX_VOLTAGE_MV_def
  RESERVED_FAULT_MASK_def

lemma UINT32_MAX_eq: "UINT32_MAX = 4294967295"
  by (simp add: UINT32_MAX_def push_bit_eq_mult)

lemma body_size [simp]: "TELEMETRY_V1_BODY_SIZE = 24"
  by (simp add: TELEMETRY_V1_BODY_SIZE_def TELEMETRY_V1_BODY_def)

lemma frame_size [simp]: "TELEMETRY_V1_FRAME_SIZE = 28"
  by (simp add: TELEMETRY_V1_FRAME_SIZE_def CRC32_BIG_ENDIAN_def)

lemma defined_fault_mask: "DEFINED_FAULT_MASK = 0x3F"
  by (simp add: DEFINED_FAULT_MASK_def)

interpretation body: wire_struct "struct_pack TELEMETRY_V1_BODY" "struct_unpack TELEMETRY_V1_BODY" 24
  using struct_wire [of TELEMETRY_V1_BODY] by (simp add: TELEMETRY_V1_BODY_def)

interpretation crc: wire_struct "struct_pack CRC32_BIG_ENDIAN" "struct_unpack CRC32_BIG_ENDIAN" 4
  using struct_wire [of CRC32_BIG_ENDIAN] by (simp add: CRC32_BIG_ENDIAN_def)

lemma crc32_iso_hdlc_eq: "crc32_iso_hdlc data = zlib_crc32 data"
  by (simp add: crc32_iso_hdlc_def UINT32_MAX_eq zlib_crc32_mask)

lemma OperatingMode_of_int [simp]: "OperatingMode_of (OperatingMode_int m) = Some m"
  by (cases m) (auto simp: OperatingMode_of_def)

lemma OperatingMode_of_Some: "OperatingMode_of v = Some m \<Longrightarrow> OperatingMode_int m = v"
  by (auto simp: OperatingMode_of_def split: if_splits)

lemma OperatingMode_of_None: "OperatingMode_of v = None \<longleftrightarrow> v < 0 \<or> 3 < v"
  by (auto simp: OperatingMode_of_def)

lemma timestamp_us_of_aware: "dt_offset t = Some off \<Longrightarrow> timestamp_us_of t = Inr (dt_wall t - off)"
  by (simp add: timestamp_us_of_def timedelta_fields)

lemma timestamp_us_of_utc [simp]: "timestamp_us_of (utc t) = Inr t"
  by (simp add: utc_def timestamp_us_of_aware)

lemma frame_of_values_Some: "frame_of_values vs = Some f \<Longrightarrow> frame_values f = vs"
  by (cases vs rule: frame_of_values.cases) (auto simp: frame_values_def)

lemma frame_of_frame_values [simp]: "frame_of_values (frame_values f) = Some f"
  by (cases f) (simp add: frame_values_def)

lemma pack_crc: "struct_pack CRC32_BIG_ENDIAN [zlib_crc32 b] = Some (be_bytes 4 (zlib_crc32 b))"
  using zlib_crc32_bounds [of b] pack_word32 by (simp only: CRC32_BIG_ENDIAN_def)

lemma unpack_crc: "length b = 4 \<Longrightarrow> struct_unpack CRC32_BIG_ENDIAN b = Some [be_value b]"
  using unpack_word32 by (simp only: CRC32_BIG_ENDIAN_def)

lemma validate_fields_mode: "validate_fields f t = Inr () \<Longrightarrow> \<exists>m. OperatingMode_of (operating_mode f) = Some m"
  by (auto simp: validate_fields_def split: if_splits sum.splits)

lemma validate_fields_version: "validate_fields f t = Inr () \<Longrightarrow> protocol_version f = 1"
  by (auto simp: validate_fields_def PROTOCOL_VERSION_def split: if_splits sum.splits)

lemma decode_body_Inr:
  "decode_body b t = Inr f \<longleftrightarrow>
     struct_pack TELEMETRY_V1_BODY (frame_values f) = Some b \<and> validate_fields f (Some t) = Inr ()"
proof
  assume "decode_body b t = Inr f"
  then obtain vs g m where u: "struct_unpack TELEMETRY_V1_BODY b = Some vs"
    and g: "frame_of_values vs = Some g" and v: "validate_fields g (Some t) = Inr ()"
    and m: "OperatingMode_of (operating_mode g) = Some m" and f: "f = g\<lparr>operating_mode := OperatingMode_int m\<rparr>"
    by (auto simp: decode_body_def split: option.splits sum.splits)
  from m f have "f = g" by (simp add: OperatingMode_of_Some)
  moreover have "struct_pack TELEMETRY_V1_BODY (frame_values g) = Some b"
    using body.pack_unpack [OF u] frame_of_values_Some [OF g] by simp
  ultimately show "struct_pack TELEMETRY_V1_BODY (frame_values f) = Some b \<and> validate_fields f (Some t) = Inr ()"
    using v by simp
next
  assume "struct_pack TELEMETRY_V1_BODY (frame_values f) = Some b \<and> validate_fields f (Some t) = Inr ()"
  then show "decode_body b t = Inr f"
    using validate_fields_mode [of f "Some t"]
    by (auto simp: decode_body_def OperatingMode_of_Some dest: body.unpack_pack)
qed

lemma encode_telemetry_Inr:
  "encode_telemetry f t = Inr raw \<longleftrightarrow>
     validate_fields f t = Inr () \<and>
     (\<exists>b. struct_pack TELEMETRY_V1_BODY (frame_values f) = Some b \<and> raw = b @ be_bytes 4 (zlib_crc32 b))"
  by (auto simp: encode_telemetry_def crc32_iso_hdlc_eq pack_crc split: option.splits sum.splits)

lemma decode_telemetry_framed:
  assumes nz: "raw \<noteq> []" and v: "uint (hd raw) = 1" and len: "length raw = 28"
  shows "decode_telemetry raw t =
    (if be_value (drop 24 raw) = zlib_crc32 (take 24 raw) then decode_body (take 24 raw) t
     else Inl (Rejected CRC_MISMATCH
       (''expected CRC 0x'' @ fmt_HEX 8 (be_value (drop 24 raw)) @ '', calculated 0x''
        @ fmt_HEX 8 (zlib_crc32 (take 24 raw)))))"
proof -
  obtain x xs where raw: "raw = x # xs" using nz by (cases raw) auto
  have "length (drop 24 raw) = 4" using len by simp
  note u = unpack_crc [OF this]
  show ?thesis
    using u v len raw by (simp add: decode_telemetry_def PROTOCOL_VERSION_def crc32_iso_hdlc_eq)
qed

lemma decode_telemetry_sealed:
  assumes "length b = 24" and "uint (hd b) = 1"
  shows "decode_telemetry (b @ be_bytes 4 (zlib_crc32 b)) t = decode_body b t"
proof -
  have "be_value (be_bytes 4 (zlib_crc32 b)) = zlib_crc32 b"
    using crc_field_iff [of "be_bytes 4 (zlib_crc32 b)" b] by simp
  moreover have "b \<noteq> []" using assms(1) by auto
  ultimately show ?thesis using assms by (simp add: decode_telemetry_framed)
qed

lemma decode_telemetry_Inr_framed:
  "decode_telemetry raw t = Inr f \<Longrightarrow> raw \<noteq> [] \<and> uint (hd raw) = 1 \<and> length raw = 28"
  by (auto simp: decode_telemetry_def PROTOCOL_VERSION_def split: list.splits if_splits)

lemma decode_telemetry_Inr_sealed:
  assumes d: "decode_telemetry raw t = Inr f"
  shows "\<exists>b. raw = b @ be_bytes 4 (zlib_crc32 b) \<and> length b = 24 \<and> uint (hd b) = 1 \<and> decode_body b t = Inr f"
proof -
  let ?b = "take 24 raw"
  from decode_telemetry_Inr_framed [OF d]
  have nz: "raw \<noteq> []" and v: "uint (hd raw) = 1" and len: "length raw = 28" by auto
  have l4: "length (drop 24 raw) = 4" using len by simp
  from d have c: "be_value (drop 24 raw) = zlib_crc32 ?b" and body: "decode_body ?b t = Inr f"
    unfolding decode_telemetry_framed [OF nz v len] by (auto split: if_splits)
  from c have "drop 24 raw = be_bytes 4 (zlib_crc32 ?b)" using crc_field_iff [OF l4] by simp
  then have "raw = ?b @ be_bytes 4 (zlib_crc32 ?b)" by (metis append_take_drop_id)
  moreover have "uint (hd ?b) = 1" using v nz by simp
  ultimately show ?thesis using body len by fastforce
qed

lemma packed_body_version:
  assumes "struct_pack TELEMETRY_V1_BODY (frame_values f) = Some b" and "protocol_version f = 1"
  shows "uint (hd b) = 1"
  using assms
  by (auto simp: TELEMETRY_V1_BODY_def frame_values_def pack_code_def code_min_def code_limit_def split: option.splits)

lemma decode_iff_encode:
  "decode_telemetry raw t = Inr f \<longleftrightarrow> encode_telemetry f (Some t) = Inr raw"
proof
  assume "decode_telemetry raw t = Inr f"
  from decode_telemetry_Inr_sealed [OF this] show "encode_telemetry f (Some t) = Inr raw"
    by (auto simp: decode_body_Inr encode_telemetry_Inr)
next
  assume "encode_telemetry f (Some t) = Inr raw"
  then obtain b where v: "validate_fields f (Some t) = Inr ()"
    and p: "struct_pack TELEMETRY_V1_BODY (frame_values f) = Some b"
    and raw: "raw = b @ be_bytes 4 (zlib_crc32 b)"
    by (auto simp: encode_telemetry_Inr)
  have "uint (hd b) = 1" using p validate_fields_version [OF v] by (rule packed_body_version)
  then show "decode_telemetry raw t = Inr f"
    using v p raw body.pack_size [OF p] by (simp add: decode_telemetry_sealed decode_body_Inr)
qed

text \<open>
  C12. Encoding and decoding are inverse to each other: a received byte string decodes to a frame at a
  receipt time exactly when that frame, validated against the same receipt time, encodes to these
  bytes. So every valid frame survives the wire unchanged, and no two byte strings decode to the
  same frame.
\<close>

theorem decode_encode_telemetry:
  "decode_telemetry raw t = Inr f \<longleftrightarrow> encode_telemetry f (Some t) = Inr raw"
  by (rule decode_iff_encode)

text \<open>One changed byte is always noticed: the version byte by the version rule, any other by the CRC.\<close>

lemma uint_byte_inject: "uint (a :: byte) = uint b \<Longrightarrow> a = b"
  by (rule word_uint_eqI)

lemma decode_corrupt_version:
  assumes d: "decode_telemetry raw t = Inr f" and b: "b \<noteq> raw ! 0"
  shows "\<exists>m. decode_telemetry (raw[0 := b]) t = Inl (Rejected UNSUPPORTED_PROTOCOL_VERSION m)"
proof -
  from decode_telemetry_Inr_framed [OF d] obtain x xs where raw: "raw = x # xs" and x: "uint x = 1"
    by (cases raw) auto
  with b have "uint b \<noteq> 1" by (metis uint_byte_inject nth_Cons_0)
  with raw show ?thesis by (simp add: decode_telemetry_def PROTOCOL_VERSION_def)
qed

lemma decode_corrupt_crc:
  assumes d: "decode_telemetry raw t = Inr f" and i: "0 < i" "i < 28" and b: "b \<noteq> raw ! i"
  shows "\<exists>m. decode_telemetry (raw[i := b]) t = Inl (Rejected CRC_MISMATCH m)"
proof -
  from decode_telemetry_Inr_framed [OF d]
  have nz: "raw \<noteq> []" and v: "uint (hd raw) = 1" and len: "length raw = 28" by auto
  have ok: "be_value (drop 24 raw) = zlib_crc32 (take 24 raw)"
    using d unfolding decode_telemetry_framed [OF nz v len] by (auto split: if_splits)
  have hd: "hd (raw[i := b]) = hd raw" using i nz by (cases raw; cases i) auto
  have "be_value (drop 24 (raw[i := b])) \<noteq> zlib_crc32 (take 24 (raw[i := b]))"
    using ok len i b by (intro crc_seal_broken) auto
  then show ?thesis using nz v len hd by (simp add: decode_telemetry_framed)
qed

text \<open>
  C13. Any change of a single byte of an accepted frame is rejected when the changed frame is received:
  a changed first byte as an unsupported protocol version, a changed byte anywhere else, the
  checksum field included, as a CRC mismatch.
\<close>

theorem single_byte_corruption_rejected:
  assumes "decode_telemetry raw t = Inr f" and "i < TELEMETRY_V1_FRAME_SIZE" and "b \<noteq> raw ! i"
  shows "\<exists>m. decode_telemetry (raw[i := b]) t =
    Inl (Rejected (if i = 0 then UNSUPPORTED_PROTOCOL_VERSION else CRC_MISMATCH) m)"
proof (cases i)
  case 0
  then show ?thesis using assms decode_corrupt_version by auto
next
  case (Suc j)
  then show ?thesis using assms decode_corrupt_crc [of raw t f i b] by simp
qed

text \<open>The struct layout is the offset table of the interface document.\<close>

lemma field_at_bounds: "0 \<le> field_at raw off n \<and> field_at raw off n < 256 ^ n"
proof -
  have "length (take n (drop off raw)) \<le> n" by simp
  then have "(256 :: int) ^ length (take n (drop off raw)) \<le> 256 ^ n" by (rule power_increasing) simp
  then show ?thesis using be_value_bounds [of "take n (drop off raw)"] unfolding field_at_def by linarith
qed

lemma field_at_take: "off + n \<le> k \<Longrightarrow> field_at (take k raw) off n = field_at raw off n"
  by (simp add: field_at_def drop_take min_def)

lemma icd_frame_take: "icd_frame (take 24 raw) = icd_frame raw"
  by (simp add: icd_frame_def signed16_at_def field_at_take)

lemma unpack_body_icd:
  assumes len: "length b = 24"
  shows "struct_unpack TELEMETRY_V1_BODY b = Some (frame_values (icd_frame b))"
proof -
  have bnd: "be_value (take n (drop off b)) < 256 ^ n" for n off
    using field_at_bounds [of b off n] by (simp add: field_at_def)
  have b1: "be_value (take 1 (drop off b)) < 256" for off using bnd [of 1 off] by simp
  have b2: "be_value (take 2 (drop off b)) < 65536" for off using bnd [of 2 off] by simp
  have b4: "be_value (take 4 (drop off b)) < 4294967296" for off using bnd [of 4 off] by simp
  have b8: "be_value (take 8 (drop off b)) < 18446744073709551616" for off using bnd [of 8 off] by simp
  show ?thesis
    using len b1 [of 0] b1 [of 1] b4 [of 2] b4 [of 6] b8 [of 10] b2 [of 20] b1 [of 22] b1 [of 23]
    by (simp add: TELEMETRY_V1_BODY_def frame_values_def icd_frame_def field_at_def signed16_at_def
        unpack_code_def code_limit_def Let_def numeral_2_eq_2 [symmetric])
qed

lemma decode_body_icd:
  assumes "length b = 24"
  shows "decode_body b t = (case validate_fields (icd_frame b) (Some t) of
           Inl e \<Rightarrow> Inl e | Inr _ \<Rightarrow> Inr (icd_frame b))"
  using validate_fields_mode [of "icd_frame b" "Some t"]
  by (auto simp: decode_body_def unpack_body_icd [OF assms] OperatingMode_of_Some split: sum.splits option.splits)

lemma reserved_bits: "0 \<le> x \<Longrightarrow> x < 256 \<Longrightarrow> (x AND RESERVED_FAULT_MASK \<noteq> 0) \<longleftrightarrow> 63 < x"
proof -
  assume "0 \<le> x" "x < 256"
  moreover have "\<forall>x \<in> set [0..255]. (x AND RESERVED_FAULT_MASK \<noteq> 0) \<longleftrightarrow> 63 < x"
    by code_simp
  ultimately show ?thesis by simp
qed

lemma validate_icd_frame:
  assumes v: "field_at raw 0 1 = 1"
  shows "map_sum rejection_reason (\<lambda>_. icd_frame raw)
           (validate_fields (icd_frame raw) (Some \<lparr>dt_wall = us + off, dt_offset = Some off\<rparr>)) =
         (case find snd (drop 4 (icd_rules raw us)) of
            Some (r, _) \<Rightarrow> Inl (Some r) | None \<Rightarrow> Inr (icd_frame raw))"
  using field_at_bounds [of raw 2 4] field_at_bounds [of raw 6 4] field_at_bounds [of raw 10 8]
    field_at_bounds [of raw 20 2] field_at_bounds [of raw 22 1] field_at_bounds [of raw 23 1]
    reserved_bits [of "field_at raw 23 1"]
  by (simp add: validate_fields_def validate_future_skew_def icd_rules_def v icd_frame_def
      timestamp_us_of_aware codec_constants UINT32_MAX_eq push_bit_eq_mult OperatingMode_of_None
      del: One_nat_def)

lemma decode_telemetry_icd_body:
  assumes nz: "raw \<noteq> []" and v: "field_at raw 0 1 = 1" and len: "length raw = 28"
    and crc: "field_at raw 24 4 = zlib_crc32 (take 24 raw)"
  shows "decode_telemetry raw t = map_sum id (\<lambda>_. icd_frame raw) (validate_fields (icd_frame raw) (Some t))"
proof -
  have "uint (hd raw) = 1" using v nz by (cases raw) (auto simp: field_at_def be_value_def)
  moreover have "be_value (drop 24 raw) = zlib_crc32 (take 24 raw)"
    using crc len by (simp add: field_at_def)
  ultimately show ?thesis
    using nz len decode_body_icd [of "take 24 raw" t]
    by (auto simp: decode_telemetry_framed icd_frame_take split: sum.splits)
qed

text \<open>
  C14. The decoder is the interface document: reading every field at its documented offset and taking the
  first broken rule in the documented order gives the same verdict as \<^verbatim>\<open>decode_telemetry\<close> at every
  timezone-aware receipt time, the same rejection reason or the same frame, for every byte string.
  In particular no other exception escapes and a frame that breaks no rule is never rejected.
\<close>

theorem decode_telemetry_follows_icd:
  "map_sum rejection_reason id (decode_telemetry raw \<lparr>dt_wall = us + off, dt_offset = Some off\<rparr>) =
   map_sum Some id (icd_verdict raw us)"
proof -
  consider "raw = []" | "raw \<noteq> []" "field_at raw 0 1 \<noteq> 1" | "raw \<noteq> []" "field_at raw 0 1 = 1" "length raw \<noteq> 28"
    | "raw \<noteq> []" "field_at raw 0 1 = 1" "length raw = 28" "field_at raw 24 4 \<noteq> zlib_crc32 (take 24 raw)"
    | "raw \<noteq> []" "field_at raw 0 1 = 1" "length raw = 28" "field_at raw 24 4 = zlib_crc32 (take 24 raw)"
    by blast
  then show ?thesis
  proof cases
    case 1
    then show ?thesis by (simp add: decode_telemetry_def icd_verdict_def icd_rules_def)
  next
    case 2
    then show ?thesis
      by (cases raw) (auto simp: decode_telemetry_def icd_verdict_def icd_rules_def field_at_def be_value_def PROTOCOL_VERSION_def)
  next
    case 3
    then show ?thesis
      by (cases raw) (auto simp: decode_telemetry_def icd_verdict_def icd_rules_def field_at_def be_value_def PROTOCOL_VERSION_def)
  next
    case 4
    then have "uint (hd raw) = 1" by (cases raw) (auto simp: field_at_def be_value_def)
    then show ?thesis using 4
      by (simp add: decode_telemetry_framed icd_verdict_def icd_rules_def field_at_def del: One_nat_def)
  next
    case 5
    then have "find snd (icd_rules raw us) = find snd (drop 4 (icd_rules raw us))"
      by (simp add: icd_rules_def)
    then show ?thesis
      using validate_icd_frame [OF 5(2), of us off] decode_telemetry_icd_body [OF 5]
      by (auto simp: icd_verdict_def map_sum.compositionality comp_def split: option.splits sum.splits)
  qed
qed

text \<open>The check value of the profile and the golden vector evaluate, checksum included.\<close>

lemma crc_check_value: "zlib_crc32 (map (\<lambda>c. of_nat (of_char c)) ''123456789'') = 0xCBF43926"
  by (simp add: crc_eval)

lemma golden_crc: "zlib_crc32 (take 24 golden_raw) = 0xcc6d0205"
  by (simp add: golden_raw_def crc_eval)

lemma golden_valid: "validate_fields golden_frame (Some golden_received) = Inr ()"
  by (simp add: golden_received_def golden_frame_def validate_fields_def validate_future_skew_def
      codec_constants UINT32_MAX_eq push_bit_eq_mult OperatingMode_of_def)

lemma golden_encodes: "encode_telemetry golden_frame (Some golden_received) = Inr golden_raw"
proof -
  have t: "take 24 golden_raw @ [0xcc, 0x6d, 0x02, 0x05] = golden_raw" by (simp add: golden_raw_def)
  have "struct_pack TELEMETRY_V1_BODY (frame_values golden_frame) = Some (take 24 golden_raw)"
    by (simp add: TELEMETRY_V1_BODY_def frame_values_def golden_frame_def golden_raw_def wire_simps)
  moreover have "be_bytes 4 0xcc6d0205 = [0xcc, 0x6d, 0x02, 0x05]" by (simp add: wire_simps)
  ultimately show ?thesis using golden_valid golden_crc t by (auto simp: encode_telemetry_Inr)
qed

theorem single_byte_corruption_rejected_witness:
  "\<exists>m. decode_telemetry (golden_raw[18 := 0x0a]) golden_received =
     Inl (Rejected (if (18 :: nat) = 0 then UNSUPPORTED_PROTOCOL_VERSION else CRC_MISMATCH) m)"
proof (rule single_byte_corruption_rejected)
  show "decode_telemetry golden_raw golden_received = Inr golden_frame"
    using golden_encodes by (simp add: decode_iff_encode)
  show "18 < TELEMETRY_V1_FRAME_SIZE" by simp
  show "0x0a \<noteq> golden_raw ! 18" by (simp add: golden_raw_def)
qed

section \<open>Packet identifiers\<close>

lemma format_packet_id_fixed:
  assumes "0 \<le> pid" "pid \<le> 99" "0 \<le> bid" "bid \<le> UINT32_MAX" "0 \<le> sn" "sn \<le> UINT32_MAX"
  shows "format_packet_id pid bid sn = Inr (''TLM-P'' @ map upper_digit (fixed_digits 10 2 (nat pid))
    @ ''-B'' @ map upper_digit (fixed_digits 16 8 (nat bid)) @ ''-S'' @ map upper_digit (fixed_digits 16 8 (nat sn)))"
  using assms by (simp add: format_packet_id_def py_format_fixed UINT32_MAX_eq)

lemma map_upper_digit_inject:
  "b \<le> 16 \<Longrightarrow> 0 < b \<Longrightarrow> map upper_digit (fixed_digits b w n) = map upper_digit (fixed_digits b w m) \<Longrightarrow>
   fixed_digits b w n = fixed_digits b w m"
proof (rule map_inj_on)
  assume b: "b \<le> 16" "0 < b"
  show "inj_on upper_digit (set (fixed_digits b w n) \<union> set (fixed_digits b w m))"
  proof (rule inj_onI)
    fix d e
    assume "d \<in> set (fixed_digits b w n) \<union> set (fixed_digits b w m)"
      and "e \<in> set (fixed_digits b w n) \<union> set (fixed_digits b w m)" and "upper_digit d = upper_digit e"
    then show "d = e" using b fixed_digits_bound upper_digit_inject by (metis UnE order_less_le_trans)
  qed
qed

lemma format_packet_id_inject:
  assumes "format_packet_id pid bid sn = Inr s" and "format_packet_id pid' bid' sn' = Inr s"
  shows "length s = 27 \<and> pid = pid' \<and> bid = bid' \<and> sn = sn'"
proof -
  from assms have r: "0 \<le> pid" "pid \<le> 99" "0 \<le> bid" "bid \<le> UINT32_MAX" "0 \<le> sn" "sn \<le> UINT32_MAX"
    and r': "0 \<le> pid'" "pid' \<le> 99" "0 \<le> bid'" "bid' \<le> UINT32_MAX" "0 \<le> sn'" "sn' \<le> UINT32_MAX"
    by (auto simp: format_packet_id_def split: if_splits)
  let ?P = "\<lambda>n. map upper_digit (fixed_digits 10 2 (nat n))"
  let ?H = "\<lambda>n. map upper_digit (fixed_digits 16 8 (nat n))"
  from assms have s: "s = ''TLM-P'' @ ?P pid @ ''-B'' @ ?H bid @ ''-S'' @ ?H sn"
    and s': "s = ''TLM-P'' @ ?P pid' @ ''-B'' @ ?H bid' @ ''-S'' @ ?H sn'"
    unfolding format_packet_id_fixed [OF r] format_packet_id_fixed [OF r'] by auto
  then have "?P pid = ?P pid'" "?H bid = ?H bid'" "?H sn = ?H sn'" by auto
  then have "fixed_digits 10 2 (nat pid) = fixed_digits 10 2 (nat pid')"
    "fixed_digits 16 8 (nat bid) = fixed_digits 16 8 (nat bid')"
    "fixed_digits 16 8 (nat sn) = fixed_digits 16 8 (nat sn')"
    by (auto intro: map_upper_digit_inject)
  then have "nat pid = nat pid'" "nat bid = nat bid'" "nat sn = nat sn'"
    using r r' fixed_digits_inject [of "nat pid" 10 2 "nat pid'"]
      fixed_digits_inject [of "nat bid" 16 8 "nat bid'"] fixed_digits_inject [of "nat sn" 16 8 "nat sn'"]
    unfolding UINT32_MAX_eq by simp_all
  then show ?thesis using r r' s by auto
qed

end
