(* ===== verification/Telemetry_Sequence.thy ===== *)
theory Telemetry_Sequence
  imports Ground_Prelude
begin

text \<open>
  Sequence tracking decisions (\<^verbatim>\<open>mission_ground/telemetry/sequence.py\<close>): the disposition of one
  validated frame from the stored high-water mark and the bytes stored under its key. The arguments
  are dynamic Python values, because the function checks their types. The rules the rest of the
  system relies on, when the mark advances and how many packets are missing, are the locale
  \<open>seq_classifier\<close>; its lemmas account for a whole stream of packets, and both implementations of
  the rules (this module and the inline one of the repository) interpret it.
\<close>

section \<open>Decisions\<close>

definition UINT32_MODULUS :: int where "UINT32_MODULUS = push_bit 32 1"

definition SEQ_UINT32_MAX :: int where "SEQ_UINT32_MAX = UINT32_MODULUS - 1"

definition HALF_RANGE :: int where "HALF_RANGE = push_bit 31 1"

datatype SequenceDisposition = FIRST_IN_ORDER | FIRST_WITH_GAP | IN_ORDER | GAP | DUPLICATE
  | CONFLICT | LATE_OR_OUT_OF_ORDER

datatype seq_error = SeqValueError string | SeqTypeError string | SequenceStateError string

record SequenceDecision =
  disposition :: SequenceDisposition
  accepted :: bool
  should_queue :: bool
  should_advance_high_water :: bool
  next_high_water :: "int option"
  missing_count :: int

definition is_unique :: "SequenceDecision \<Rightarrow> bool" where
  "is_unique d \<longleftrightarrow> disposition d \<notin> {DUPLICATE, CONFLICT}"

text \<open>\<^verbatim>\<open>_validate_uint32\<close>; the value of the checked integer is returned for the caller.\<close>

definition validate_uint32 :: "string \<Rightarrow> py_value \<Rightarrow> seq_error + int" where
  "validate_uint32 name value =
     (case value of
        PyInt n \<Rightarrow> if 0 \<le> n \<and> n \<le> SEQ_UINT32_MAX then Inr n
                   else Inl (SeqValueError (name @ '' must be an unsigned 32-bit integer''))
      | _ \<Rightarrow> Inl (SeqValueError (name @ '' must be an unsigned 32-bit integer'')))"

definition decide_existing :: "int option \<Rightarrow> bytes \<Rightarrow> bytes \<Rightarrow> SequenceDecision" where
  "decide_existing last_high_water incoming_bytes existing_packet_bytes =
     (if existing_packet_bytes = incoming_bytes
      then \<lparr>disposition = DUPLICATE, accepted = True, should_queue = False,
            should_advance_high_water = False, next_high_water = last_high_water, missing_count = 0\<rparr>
      else \<lparr>disposition = CONFLICT, accepted = False, should_queue = False,
            should_advance_high_water = False, next_high_water = last_high_water, missing_count = 0\<rparr>)"

definition decide_new :: "int option \<Rightarrow> int \<Rightarrow> seq_error + SequenceDecision" where
  "decide_new last_high_water current_sequence =
     (case last_high_water of
        None \<Rightarrow>
          Inr \<lparr>disposition = (if current_sequence = 0 then FIRST_IN_ORDER else FIRST_WITH_GAP),
               accepted = True, should_queue = True, should_advance_high_water = True,
               next_high_water = Some current_sequence, missing_count = current_sequence\<rparr>
      | Some high \<Rightarrow>
          (let forward_distance = (current_sequence - high) mod UINT32_MODULUS in
           if forward_distance = 0
           then Inl (SequenceStateError (''the current sequence equals the high-water mark, but its permanent ''
                  @ ''packet record was not supplied''))
           else if forward_distance = 1
           then Inr \<lparr>disposition = IN_ORDER, accepted = True, should_queue = True,
                     should_advance_high_water = True, next_high_water = Some current_sequence,
                     missing_count = 0\<rparr>
           else if 2 \<le> forward_distance \<and> forward_distance < HALF_RANGE
           then Inr \<lparr>disposition = GAP, accepted = True, should_queue = True,
                     should_advance_high_water = True, next_high_water = Some current_sequence,
                     missing_count = forward_distance - 1\<rparr>
           else Inr \<lparr>disposition = LATE_OR_OUT_OF_ORDER, accepted = True, should_queue = True,
                     should_advance_high_water = False, next_high_water = last_high_water,
                     missing_count = 0\<rparr>))"

definition decide_sequence ::
  "py_value \<Rightarrow> py_value \<Rightarrow> py_value \<Rightarrow> py_value \<Rightarrow> seq_error + SequenceDecision" where
  "decide_sequence last_high_water current_sequence incoming_bytes existing_packet_bytes =
     (case validate_uint32 ''current_sequence'' current_sequence of
        Inl e \<Rightarrow> Inl e
      | Inr current \<Rightarrow>
     (case (if last_high_water = PyNone then Inr None
            else map_sum id Some (validate_uint32 ''last_high_water'' last_high_water)) of
        Inl e \<Rightarrow> Inl e
      | Inr mark \<Rightarrow>
     (case incoming_bytes of
        PyBytes incoming \<Rightarrow>
          if incoming = [] then Inl (SeqValueError ''incoming_bytes must be non-empty bytes'')
          else (case existing_packet_bytes of
                  PyNone \<Rightarrow> decide_new mark current
                | PyBytes existing \<Rightarrow> Inr (decide_existing mark incoming existing)
                | _ \<Rightarrow> Inl (SeqTypeError ''existing_packet_bytes must be bytes or None''))
      | _ \<Rightarrow> Inl (SeqValueError ''incoming_bytes must be non-empty bytes''))))"

section \<open>Accounting for a stream of packets\<close>

text \<open>
  The totals a receiver keeps for one boot session: the high-water mark, the accepted packets, the
  packets recorded as missing, and the late ones among the accepted.
\<close>

record seq_totals =
  high_water :: "int option"
  accepted_total :: int
  missing_total :: int
  late_total :: int

definition no_packets :: seq_totals where
  "no_packets = \<lparr>high_water = None, accepted_total = 0, missing_total = 0, late_total = 0\<rparr>"

definition seq_track ::
  "(int option \<Rightarrow> int \<Rightarrow> bool) \<Rightarrow> (int option \<Rightarrow> int \<Rightarrow> int) \<Rightarrow> seq_totals \<Rightarrow> int \<Rightarrow> seq_totals" where
  "seq_track adv mis c s =
     (if adv (high_water c) s
      then c\<lparr>high_water := Some s, accepted_total := accepted_total c + 1,
             missing_total := missing_total c + mis (high_water c) s\<rparr>
      else c\<lparr>accepted_total := accepted_total c + 1, late_total := late_total c + 1\<rparr>)"

text \<open>The stream ends up consistent: marks in range, and every number up to the mark accounted for.\<close>

definition totals_balanced :: "seq_totals \<Rightarrow> bool" where
  "totals_balanced c \<longleftrightarrow>
     (case high_water c of
        None \<Rightarrow> accepted_total c = 0 \<and> missing_total c = 0 \<and> late_total c = 0
      | Some h \<Rightarrow> 0 \<le> h \<and> h < 2 ^ 32 \<and>
          (accepted_total c + missing_total c - late_total c) mod 2 ^ 32 = (h + 1) mod 2 ^ 32)"

text \<open>The forward distance of the interface document, and the numbers skipped between two marks.\<close>

definition seq_distance :: "int \<Rightarrow> int \<Rightarrow> int" where
  "seq_distance h s = (s - h) mod 2 ^ 32"

definition skipped :: "int \<Rightarrow> int \<Rightarrow> int set" where
  "skipped h s = {k. 0 \<le> k \<and> k < 2 ^ 32 \<and> 0 < seq_distance h k \<and> seq_distance h k < seq_distance h s}"

text \<open>The mark advances and counts the way \<open>decide_sequence\<close> says.\<close>

definition decision_advances :: "int option \<Rightarrow> int \<Rightarrow> bool" where
  "decision_advances h s = (case decide_new h s of Inl _ \<Rightarrow> False | Inr d \<Rightarrow> should_advance_high_water d)"

definition decision_missing :: "int option \<Rightarrow> int \<Rightarrow> int" where
  "decision_missing h s = (case decide_new h s of Inl _ \<Rightarrow> 0 | Inr d \<Rightarrow> missing_count d)"

section \<open>Facts\<close>

lemma sequence_constants:
  "UINT32_MODULUS = 4294967296" "SEQ_UINT32_MAX = 4294967295" "HALF_RANGE = 2147483648"
  by (simp_all add: UINT32_MODULUS_def SEQ_UINT32_MAX_def HALF_RANGE_def push_bit_eq_mult)

lemma seq_distance_bounds: "0 \<le> seq_distance h s \<and> seq_distance h s < 2 ^ 32"
  by (simp add: seq_distance_def)

lemma decide_sequence_new:
  "0 \<le> s \<Longrightarrow> s \<le> SEQ_UINT32_MAX \<Longrightarrow> (\<And>h. mark = Some h \<Longrightarrow> 0 \<le> h \<and> h \<le> SEQ_UINT32_MAX) \<Longrightarrow> raw \<noteq> [] \<Longrightarrow>
   decide_sequence (case mark of None \<Rightarrow> PyNone | Some h \<Rightarrow> PyInt h) (PyInt s) (PyBytes raw) PyNone = decide_new mark s"
  by (cases mark) (auto simp: decide_sequence_def validate_uint32_def)

lemma decide_new_cases:
  "decide_new (Some h) s =
     (let d = seq_distance h s in
      if d = 0 then decide_new (Some h) s
      else Inr \<lparr>disposition = (if d = 1 then IN_ORDER else if d < 2 ^ 31 then GAP else LATE_OR_OUT_OF_ORDER),
             accepted = True, should_queue = True, should_advance_high_water = (d < 2 ^ 31),
             next_high_water = Some (if d < 2 ^ 31 then s else h),
             missing_count = (if d < 2 ^ 31 then d - 1 else 0)\<rparr>)"
  using seq_distance_bounds [of h s]
  by (auto simp: decide_new_def sequence_constants seq_distance_def Let_def)

text \<open>What both implementations of the sequence rules promise.\<close>

locale seq_classifier =
  fixes adv :: "int option \<Rightarrow> int \<Rightarrow> bool"
    and mis :: "int option \<Rightarrow> int \<Rightarrow> int"
  assumes first_advances: "adv None s"
    and first_missing: "mis None s = s"
    and ahead_advances: "1 \<le> seq_distance h s \<Longrightarrow> seq_distance h s < 2 ^ 31 \<Longrightarrow> adv (Some h) s"
    and ahead_missing: "1 \<le> seq_distance h s \<Longrightarrow> seq_distance h s < 2 ^ 31 \<Longrightarrow> mis (Some h) s = seq_distance h s - 1"
    and behind_stays: "2 ^ 31 \<le> seq_distance h s \<Longrightarrow> \<not> adv (Some h) s"
    and equal_stays: "seq_distance h s = 0 \<Longrightarrow> \<not> adv (Some h) s"
begin

lemma advance_iff: "adv (Some h) s \<longleftrightarrow> 1 \<le> seq_distance h s \<and> seq_distance h s < 2 ^ 31"
  using ahead_advances behind_stays equal_stays seq_distance_bounds [of h s] by (metis int_one_le_iff_zero_less order_le_less not_less)

lemma track_balanced:
  assumes bal: "totals_balanced c" and s: "0 \<le> s" "s < 2 ^ 32"
  shows "totals_balanced (seq_track adv mis c s)"
proof (cases "high_water c")
  case None
  then show ?thesis using bal s
    by (simp add: totals_balanced_def seq_track_def first_advances first_missing add.commute)
next
  case (Some h)
  with bal have h: "0 \<le> h" "h < 2 ^ 32"
    and eq: "(accepted_total c + missing_total c - late_total c) mod 2 ^ 32 = (h + 1) mod 2 ^ 32"
    by (auto simp: totals_balanced_def)
  show ?thesis
  proof (cases "adv (Some h) s")
    case True
    then have m: "mis (Some h) s = seq_distance h s - 1" by (simp add: advance_iff ahead_missing)
    have sum: "(accepted_total c + missing_total c - late_total c + (s - h) mod 2 ^ 32) mod 2 ^ 32 = (h + 1 + (s - h)) mod 2 ^ 32"
      using eq by (metis mod_add_cong mod_mod_trivial)
    have "accepted_total c + 1 + (missing_total c + mis (Some h) s) - late_total c =
        accepted_total c + missing_total c - late_total c + (s - h) mod 2 ^ 32"
      by (simp add: m seq_distance_def)
    then have "(accepted_total c + 1 + (missing_total c + mis (Some h) s) - late_total c) mod 2 ^ 32 = (s + 1) mod 2 ^ 32"
      by (simp only: sum) (simp add: add.commute)
    then show ?thesis using True Some s by (simp add: totals_balanced_def seq_track_def)
  next
    case False
    with Some h eq show ?thesis by (simp add: totals_balanced_def seq_track_def add_diff_eq)
  qed
qed

lemma stream_balanced:
  "totals_balanced c \<Longrightarrow> (\<forall>s \<in> set ss. 0 \<le> s \<and> s < 2 ^ 32) \<Longrightarrow> totals_balanced (foldl (seq_track adv mis) c ss)"
  by (induction ss arbitrary: c) (simp_all add: track_balanced)

end

interpretation decision: seq_classifier decision_advances decision_missing
proof (unfold_locales, goal_cases)
  case (1 s)
  show ?case by (simp add: decision_advances_def decide_new_def)
next
  case (2 s)
  show ?case by (simp add: decision_missing_def decide_new_def)
next
  case (3 h s)
  then show ?case by (simp add: decision_advances_def decide_new_cases [of h s] Let_def)
next
  case (4 h s)
  then show ?case by (simp add: decision_missing_def decide_new_cases [of h s] Let_def)
next
  case (5 h s)
  then show ?case by (simp add: decision_advances_def decide_new_cases [of h s] Let_def)
next
  case (6 h s)
  then show ?case
    by (simp add: decision_advances_def decide_new_def sequence_constants seq_distance_def Let_def)
qed

text \<open>The missing count is the number of sequence values strictly between the mark and the packet.\<close>

lemma seq_distance_shift: "0 \<le> d \<Longrightarrow> d < 2 ^ 32 \<Longrightarrow> seq_distance h ((h + d) mod 2 ^ 32) = d"
  unfolding seq_distance_def by (metis add_diff_cancel_left' mod_diff_left_eq mod_pos_pos_trivial)

lemma seq_distance_inject:
  assumes "0 \<le> k" "k < 2 ^ 32" "0 \<le> l" "l < 2 ^ 32" "seq_distance h k = seq_distance h l"
  shows "k = l"
proof -
  have "((k - h) mod 2 ^ 32 + h) mod 2 ^ 32 = ((l - h) mod 2 ^ 32 + h) mod 2 ^ 32"
    using assms(5) by (simp add: seq_distance_def)
  then have "k mod 2 ^ 32 = l mod 2 ^ 32" by (simp add: mod_add_left_eq)
  then show ?thesis using assms by simp
qed

lemma card_skipped: "0 < seq_distance h s \<Longrightarrow> int (card (skipped h s)) = seq_distance h s - 1"
proof -
  assume pos: "0 < seq_distance h s"
  have "bij_betw (seq_distance h) (skipped h s) {1..<seq_distance h s}"
  proof (rule bij_betwI')
    fix k l assume "k \<in> skipped h s" "l \<in> skipped h s"
    then show "(seq_distance h k = seq_distance h l) = (k = l)"
      using seq_distance_inject by (auto simp: skipped_def)
  next
    fix k assume "k \<in> skipped h s"
    then show "seq_distance h k \<in> {1..<seq_distance h s}" by (auto simp: skipped_def)
  next
    fix d assume d: "d \<in> {1..<seq_distance h s}"
    then have "0 \<le> d" "d < 2 ^ 32" using seq_distance_bounds [of h s] by auto
    then have "seq_distance h ((h + d) mod 2 ^ 32) = d" by (rule seq_distance_shift)
    then show "\<exists>k \<in> skipped h s. d = seq_distance h k"
      using d by (intro bexI [of _ "(h + d) mod 2 ^ 32"]) (auto simp: skipped_def)
  qed
  then have "card (skipped h s) = nat (seq_distance h s - 1)"
    by (simp add: bij_betw_same_card)
  then show ?thesis using pos by simp
qed

lemma decide_new_sound:
  assumes "decide_new (Some h) s = Inr d"
  shows "0 < seq_distance h s \<and> accepted d \<and> should_queue d \<and> is_unique d
    \<and> should_advance_high_water d = (seq_distance h s < 2 ^ 31)
    \<and> next_high_water d = Some (if should_advance_high_water d then s else h)
    \<and> missing_count d = (if should_advance_high_water d then int (card (skipped h s)) else 0)
    \<and> disposition d = (if \<not> should_advance_high_water d then LATE_OR_OUT_OF_ORDER else if missing_count d = 0 then IN_ORDER else GAP)"
proof -
  have pos: "0 < seq_distance h s"
    using assms seq_distance_bounds [of h s]
    by (auto simp: decide_new_def seq_distance_def sequence_constants Let_def split: if_splits)
  then have "d = \<lparr>disposition = (if seq_distance h s = 1 then IN_ORDER else if seq_distance h s < 2 ^ 31 then GAP else LATE_OR_OUT_OF_ORDER),
             accepted = True, should_queue = True, should_advance_high_water = (seq_distance h s < 2 ^ 31),
             next_high_water = Some (if seq_distance h s < 2 ^ 31 then s else h),
             missing_count = (if seq_distance h s < 2 ^ 31 then seq_distance h s - 1 else 0)\<rparr>"
    using assms by (subst (asm) decide_new_cases) (simp add: Let_def)
  then show ?thesis using pos card_skipped [OF pos] by (simp add: is_unique_def)
qed

text \<open>The first packet of a boot session: everything before it is missing.\<close>

lemma decide_first_sound:
  assumes "decide_new None s = Inr d" "0 \<le> s"
  shows "accepted d \<and> should_queue d \<and> is_unique d \<and> should_advance_high_water d \<and> next_high_water d = Some s
    \<and> missing_count d = int (card {0..<s}) \<and> disposition d = (if s = 0 then FIRST_IN_ORDER else FIRST_WITH_GAP)"
  using assms by (auto simp: decide_new_def is_unique_def)

text \<open>The mark as the caller passes it.\<close>

definition mark_value :: "int option \<Rightarrow> py_value" where
  "mark_value mark = (case mark of None \<Rightarrow> PyNone | Some h \<Rightarrow> PyInt h)"

text \<open>How far ahead of the mark a number may be, and the numbers it passes over.\<close>

definition ahead :: "int option \<Rightarrow> int \<Rightarrow> bool" where
  "ahead mark s = (case mark of None \<Rightarrow> True | Some h \<Rightarrow> 0 < seq_distance h s \<and> seq_distance h s < 2 ^ 31)"

definition passed_over :: "int option \<Rightarrow> int \<Rightarrow> int set" where
  "passed_over mark s = (case mark of None \<Rightarrow> {0..<s} | Some h \<Rightarrow> skipped h s)"

lemma decide_sequence_Inr:
  assumes "decide_sequence mark current incoming stored = Inr d"
  obtains m s raw where "mark = mark_value m" "pred_option (\<lambda>h. 0 \<le> h \<and> h < 2 ^ 32) m" "current = PyInt s" "0 \<le> s" "s < 2 ^ 32" "incoming = PyBytes raw" "raw \<noteq> []"
    "stored = PyNone \<and> decide_new m s = Inr d \<or> (\<exists>old. stored = PyBytes old \<and> d = decide_existing m raw old)"
proof -
  obtain s where s: "current = PyInt s" "0 \<le> s" "s < 2 ^ 32"
    using assms by (auto simp: decide_sequence_def validate_uint32_def sequence_constants split: sum.splits py_value.splits if_splits)
  have "mark = PyNone \<or> (\<exists>h. mark = PyInt h \<and> 0 \<le> h \<and> h < 2 ^ 32)"
    using assms by (auto simp: decide_sequence_def validate_uint32_def sequence_constants split: sum.splits py_value.splits if_splits)
  then obtain m where m: "mark = mark_value m" "pred_option (\<lambda>h. 0 \<le> h \<and> h < 2 ^ 32) m"
  proof (elim disjE exE conjE)
    show "mark = PyNone \<Longrightarrow> thesis" by (rule that [of None]) (simp_all add: mark_value_def)
    show "mark = PyInt h \<Longrightarrow> 0 \<le> h \<Longrightarrow> h < 2 ^ 32 \<Longrightarrow> thesis" for h by (rule that [of "Some h"]) (simp_all add: mark_value_def)
  qed
  obtain raw where raw: "incoming = PyBytes raw" "raw \<noteq> []"
    using assms by (auto simp: decide_sequence_def split: sum.splits py_value.splits if_splits)
  have "stored = PyNone \<and> decide_new m s = Inr d \<or> (\<exists>old. stored = PyBytes old \<and> d = decide_existing m raw old)"
    using assms s raw m
    by (cases m) (auto simp: decide_sequence_def validate_uint32_def sequence_constants mark_value_def split: py_value.splits)
  then show ?thesis using that s m raw by blast
qed

text \<open>
  C15. Every decision is sound, for the first packet of a boot session (no mark) and against a stored mark.
  The arguments then had the right types and ranges. Work is queued exactly for packets that are new, that
  is when no bytes are stored under the key; only different bytes under a stored key are refused; the mark
  only ever moves to the packet's own number, and only forward, by less than half the range, or from no
  mark; otherwise it stays; the count of missing packets is the number of sequence values the mark passes
  over, modulo the 32-bit wrap; and the disposition says which case it was.
\<close>

theorem decide_sequence_sound:
  assumes "decide_sequence mark current incoming stored = Inr d"
  shows "\<exists>m s raw. mark = mark_value m \<and> pred_option (\<lambda>h. 0 \<le> h \<and> h < 2 ^ 32) m \<and> current = PyInt s \<and> 0 \<le> s \<and> s < 2 ^ 32 \<and> incoming = PyBytes raw \<and> raw \<noteq> []
    \<and> should_queue d = (stored = PyNone)
    \<and> is_unique d = (stored = PyNone)
    \<and> accepted d = (disposition d \<noteq> CONFLICT)
    \<and> should_advance_high_water d = (stored = PyNone \<and> ahead m s)
    \<and> next_high_water d = (if should_advance_high_water d then Some s else m)
    \<and> missing_count d = (if should_advance_high_water d then int (card (passed_over m s)) else 0)
    \<and> disposition d = (if stored \<noteq> PyNone then (if stored = PyBytes raw then DUPLICATE else CONFLICT)
        else case m of None \<Rightarrow> (if s = 0 then FIRST_IN_ORDER else FIRST_WITH_GAP)
          | Some h \<Rightarrow> (if \<not> ahead m s then LATE_OR_OUT_OF_ORDER else if missing_count d = 0 then IN_ORDER else GAP))"
proof -
  obtain m s raw where a: "mark = mark_value m" "pred_option (\<lambda>h. 0 \<le> h \<and> h < 2 ^ 32) m" "current = PyInt s" "0 \<le> s" "s < 2 ^ 32" "incoming = PyBytes raw" "raw \<noteq> []"
    and d: "stored = PyNone \<and> decide_new m s = Inr d \<or> (\<exists>old. stored = PyBytes old \<and> d = decide_existing m raw old)"
    by (rule decide_sequence_Inr [OF assms])
  consider (first) "stored = PyNone" "m = None" "decide_new None s = Inr d"
    | (later) h where "stored = PyNone" "m = Some h" "decide_new (Some h) s = Inr d"
    | (known) old where "stored = PyBytes old" "d = decide_existing m raw old" using d by (cases m) auto
  then show ?thesis
  proof cases
    case first
    then show ?thesis using a decide_first_sound [OF first(3) a(4)]
      by (intro exI [of _ None] exI [of _ s] exI [of _ raw]) (simp add: ahead_def passed_over_def)
  next
    case later
    then show ?thesis using a decide_new_sound [OF later(3)]
      by (intro exI [of _ "Some h"] exI [of _ s] exI [of _ raw]) (auto simp: ahead_def passed_over_def)
  next
    case known
    then show ?thesis using a by (intro exI [of _ m] exI [of _ s] exI [of _ raw]) (auto simp: decide_existing_def is_unique_def)
  qed
qed

theorem decide_sequence_sound_witness:
  "(\<exists>d. decide_sequence (PyInt 4294967290) (PyInt 3) (PyBytes [1]) PyNone = Inr d
      \<and> should_advance_high_water d \<and> missing_count d = int (card (skipped 4294967290 3)) \<and> missing_count d = 8)
   \<and> (\<exists>d. decide_sequence PyNone (PyInt 5) (PyBytes [1]) PyNone = Inr d
      \<and> should_queue d \<and> next_high_water d = Some 5 \<and> missing_count d = int (card {0..<5 :: int}))"
proof -
  let ?d = "\<lparr>disposition = GAP, accepted = True, should_queue = True, should_advance_high_water = True,
    next_high_water = Some 3, missing_count = 8\<rparr>"
  let ?f = "\<lparr>disposition = FIRST_WITH_GAP, accepted = True, should_queue = True, should_advance_high_water = True,
    next_high_water = Some 5, missing_count = 5\<rparr>"
  have d: "decide_sequence (PyInt 4294967290) (PyInt 3) (PyBytes [1]) PyNone = Inr ?d"
    by (simp add: decide_sequence_def validate_uint32_def decide_new_def sequence_constants Let_def)
  have f: "decide_sequence PyNone (PyInt 5) (PyBytes [1]) PyNone = Inr ?f"
    by (simp add: decide_sequence_def validate_uint32_def decide_new_def sequence_constants Let_def)
  have "missing_count ?d = int (card (skipped 4294967290 3))" using decide_sequence_sound [OF d]
    by (auto simp: mark_value_def passed_over_def split: option.splits)
  moreover have "missing_count ?f = int (card {0..<5 :: int})" using decide_sequence_sound [OF f]
    by (auto simp: mark_value_def passed_over_def split: option.splits)
  ultimately show ?thesis using d f by auto
qed

end
