(* ===== verification/Telemetry_Health.thy ===== *)
theory Telemetry_Health
  imports Telemetry_Codec
begin

text \<open>
  Health and staleness classification (\<^verbatim>\<open>mission_ground/telemetry/health.py\<close>). The severity ranking
  makes \<open>HealthClassification\<close> a linear order, so that the most-severe-wins rule is a maximum; the
  lemmas show that assessing a frame the decoder accepted never raises and gives that maximum.
\<close>

section \<open>Classifications\<close>

definition STALE_AFTER_US :: int where "STALE_AFTER_US = 24 * 3600 * 1000000"

datatype HealthClassification = NOMINAL | WARNING | CRITICAL

datatype Freshness = CURRENT | STALE

fun SEVERITY_RANK :: "HealthClassification \<Rightarrow> nat" where
  "SEVERITY_RANK NOMINAL = 0"
| "SEVERITY_RANK WARNING = 1"
| "SEVERITY_RANK CRITICAL = 2"

instantiation HealthClassification :: linorder
begin

definition less_eq_HealthClassification :: "HealthClassification \<Rightarrow> HealthClassification \<Rightarrow> bool" where
  "less_eq_HealthClassification a b \<longleftrightarrow> SEVERITY_RANK a \<le> SEVERITY_RANK b"

definition less_HealthClassification :: "HealthClassification \<Rightarrow> HealthClassification \<Rightarrow> bool" where
  "less_HealthClassification a b \<longleftrightarrow> SEVERITY_RANK a < SEVERITY_RANK b"

instance
proof
  fix a b c :: HealthClassification
  show "a < b \<longleftrightarrow> a \<le> b \<and> \<not> b \<le> a"
    by (auto simp: less_HealthClassification_def less_eq_HealthClassification_def)
  show "a \<le> a" by (simp add: less_eq_HealthClassification_def)
  show "a \<le> b \<Longrightarrow> b \<le> c \<Longrightarrow> a \<le> c" by (simp add: less_eq_HealthClassification_def)
  show "a \<le> b \<Longrightarrow> b \<le> a \<Longrightarrow> a = b"
    by (cases a; cases b) (auto simp: less_eq_HealthClassification_def)
  show "a \<le> b \<or> b \<le> a" by (auto simp: less_eq_HealthClassification_def)
qed

end

record HealthAssessment =
  classification :: HealthClassification
  freshness :: Freshness
  temperature :: HealthClassification
  voltage :: HealthClassification
  faults :: HealthClassification

definition is_stale :: "HealthAssessment \<Rightarrow> bool" where
  "is_stale a \<longleftrightarrow> freshness a = STALE"

definition classify_temperature :: "int \<Rightarrow> HealthClassification" where
  "classify_temperature centi =
     (if centi < -4000 \<or> centi \<ge> 8500 then CRITICAL
      else if centi < -2000 \<or> centi \<ge> 6200 then WARNING
      else NOMINAL)"

definition classify_voltage :: "int \<Rightarrow> HealthClassification" where
  "classify_voltage mv =
     (if mv < 22000 \<or> mv > 34000 then CRITICAL
      else if mv < 26000 \<or> mv > 30000 then WARNING
      else NOMINAL)"

definition classify_faults :: "int \<Rightarrow> codec_error + HealthClassification" where
  "classify_faults flag_value =
     (if \<not> (0 \<le> flag_value \<and> flag_value \<le> 0xFF) \<or> flag_value AND NOT DEFINED_FAULT_MASK \<noteq> 0
      then Inl (CodecValueError ''fault_flags contains a bit not defined by telemetry version 1'')
      else (let critical = FaultFlag_int TEMPERATURE_SENSOR_FAULT OR FaultFlag_int VOLTAGE_SENSOR_FAULT
                  OR FaultFlag_int INTERNAL_PAYLOAD_FAULT;
                warning = FaultFlag_int OVER_TEMPERATURE OR FaultFlag_int UNDER_VOLTAGE OR FaultFlag_int OVER_VOLTAGE
            in if flag_value AND critical \<noteq> 0 then Inr CRITICAL
               else if flag_value AND warning \<noteq> 0 then Inr WARNING
               else Inr NOMINAL))"

definition classify_staleness :: "int \<Rightarrow> datetime \<Rightarrow> codec_error + Freshness" where
  "classify_staleness sample_timestamp_us ground_received_at =
     (case timestamp_us_of ground_received_at of
        Inl e \<Rightarrow> Inl e
      | Inr received_us \<Rightarrow>
          (let age_us = received_us - sample_timestamp_us
           in if age_us > STALE_AFTER_US then Inr STALE else Inr CURRENT))"

text \<open>Python's \<^verbatim>\<open>max\<close> with a key keeps the first of several greatest items.\<close>

definition max_by_rank :: "HealthClassification \<Rightarrow> HealthClassification \<Rightarrow> HealthClassification \<Rightarrow> HealthClassification" where
  "max_by_rank a b c =
     (let m = (if SEVERITY_RANK b > SEVERITY_RANK a then b else a)
      in if SEVERITY_RANK c > SEVERITY_RANK m then c else m)"

definition assess_health :: "TelemetryFrame \<Rightarrow> datetime \<Rightarrow> codec_error + HealthAssessment" where
  "assess_health frame ground_received_at =
     (let t = classify_temperature (temperature_centi_c frame);
          v = classify_voltage (voltage_mv frame)
      in case classify_faults (fault_flags frame) of
           Inl e \<Rightarrow> Inl e
         | Inr f \<Rightarrow>
             (case classify_staleness (timestamp_us frame) ground_received_at of
                Inl e \<Rightarrow> Inl e
              | Inr fresh \<Rightarrow>
                  Inr \<lparr>classification = max_by_rank t v f, freshness = fresh, temperature = t,
                       voltage = v, faults = f\<rparr>))"

text \<open>The severity each defined fault bit demands by itself.\<close>

fun flag_severity :: "FaultFlag \<Rightarrow> HealthClassification" where
  "flag_severity OVER_TEMPERATURE = WARNING"
| "flag_severity UNDER_VOLTAGE = WARNING"
| "flag_severity OVER_VOLTAGE = WARNING"
| "flag_severity TEMPERATURE_SENSOR_FAULT = CRITICAL"
| "flag_severity VOLTAGE_SENSOR_FAULT = CRITICAL"
| "flag_severity INTERNAL_PAYLOAD_FAULT = CRITICAL"

definition all_fault_flags :: "FaultFlag list" where
  "all_fault_flags = [OVER_TEMPERATURE, UNDER_VOLTAGE, OVER_VOLTAGE, TEMPERATURE_SENSOR_FAULT,
     VOLTAGE_SENSOR_FAULT, INTERNAL_PAYLOAD_FAULT]"

definition reported_severity :: "int \<Rightarrow> HealthClassification" where
  "reported_severity flags =
     Max (insert NOMINAL (flag_severity ` {f \<in> set all_fault_flags. flags AND FaultFlag_int f \<noteq> 0}))"

section \<open>Facts\<close>

lemma classification_order [simp]: "NOMINAL \<le> c" "c \<le> CRITICAL" "\<not> c < NOMINAL"
  by (cases c; simp add: less_eq_HealthClassification_def less_HealthClassification_def)+

lemma max_by_rank_Max: "max_by_rank a b c = Max {a, b, c}"
proof -
  have "max_by_rank a b c = max a (max b c)"
    by (cases a; cases b; cases c)
      (auto simp: max_by_rank_def max_def less_eq_HealthClassification_def)
  then show ?thesis by simp
qed

lemma set_all_fault_flags: "f \<in> set all_fault_flags"
  by (cases f) (auto simp: all_fault_flags_def)

lemma defined_bits: "0 \<le> x \<Longrightarrow> x \<le> 63 \<Longrightarrow> x AND NOT DEFINED_FAULT_MASK = 0"
proof -
  assume "0 \<le> x" "x \<le> 63"
  moreover have "\<forall>x \<in> set [0..63]. x AND NOT DEFINED_FAULT_MASK = 0"
    unfolding defined_fault_mask by code_simp
  ultimately show ?thesis by simp
qed

lemma classify_faults_defined:
  assumes "0 \<le> flags" "flags \<le> 63"
  shows "classify_faults flags = Inr (reported_severity flags)"
proof -
  have or_bits: "flags AND (a OR b) \<noteq> 0 \<longleftrightarrow> flags AND a \<noteq> 0 \<or> flags AND b \<noteq> 0" for a b :: int
    by (metis and.right_neutral bit.conj_disj_distrib or_eq_0_iff)
  have set: "{f \<in> set all_fault_flags. flags AND FaultFlag_int f \<noteq> 0} = {f. flags AND FaultFlag_int f \<noteq> 0}"
    using set_all_fault_flags by auto
  show ?thesis
  proof (cases "\<exists>f \<in> {TEMPERATURE_SENSOR_FAULT, VOLTAGE_SENSOR_FAULT, INTERNAL_PAYLOAD_FAULT}. flags AND FaultFlag_int f \<noteq> 0")
    case True
    then obtain f where mem: "f \<in> {TEMPERATURE_SENSOR_FAULT, VOLTAGE_SENSOR_FAULT, INTERNAL_PAYLOAD_FAULT}"
      and f: "flags AND FaultFlag_int f \<noteq> 0" by blast
    from mem have "CRITICAL = flag_severity f" by auto
    with f have "CRITICAL \<in> insert NOMINAL (flag_severity ` {f \<in> set all_fault_flags. flags AND FaultFlag_int f \<noteq> 0})"
      using set_all_fault_flags [of f] by blast
    then have "reported_severity flags = CRITICAL"
      unfolding reported_severity_def by (intro Max_eqI) auto
    then show ?thesis using assms defined_bits True
      by (simp add: classify_faults_def Let_def or_bits del: FaultFlag_int.simps)
  next
    case no_crit: False
    show ?thesis
    proof (cases "\<exists>f \<in> {OVER_TEMPERATURE, UNDER_VOLTAGE, OVER_VOLTAGE}. flags AND FaultFlag_int f \<noteq> 0")
      case True
      have "flag_severity f \<le> WARNING" if "flags AND FaultFlag_int f \<noteq> 0" for f
        using no_crit that by (cases f) (auto simp: less_eq_HealthClassification_def)
      moreover obtain f where mem: "f \<in> {OVER_TEMPERATURE, UNDER_VOLTAGE, OVER_VOLTAGE}"
        and f: "flags AND FaultFlag_int f \<noteq> 0" using True by blast
      from mem have "WARNING = flag_severity f" by auto
      with f have "WARNING \<in> insert NOMINAL (flag_severity ` {f \<in> set all_fault_flags. flags AND FaultFlag_int f \<noteq> 0})"
        using set_all_fault_flags [of f] by blast
      ultimately have "reported_severity flags = WARNING"
        unfolding reported_severity_def by (intro Max_eqI) auto
      then show ?thesis using assms defined_bits True no_crit
        by (simp add: classify_faults_def Let_def or_bits del: FaultFlag_int.simps)
    next
      case False
      have none: "flags AND FaultFlag_int f = 0" for f
        using no_crit False by (cases f) (auto simp del: FaultFlag_int.simps)
      then have "reported_severity flags = NOMINAL" by (simp add: reported_severity_def)
      then show ?thesis using assms defined_bits none
        by (simp add: classify_faults_def Let_def or_bits del: FaultFlag_int.simps)
    qed
  qed
qed

lemma decoded_flags:
  assumes "decode_telemetry raw t = Inr f"
  shows "0 \<le> fault_flags f \<and> fault_flags f \<le> 63"
proof -
  from assms have "validate_fields f (Some t) = Inr ()"
    by (simp add: decode_iff_encode encode_telemetry_Inr)
  then show ?thesis using reserved_bits [of "fault_flags f"]
    by (auto simp: validate_fields_def split: if_splits sum.splits)
qed

lemma decoded_time_aware:
  assumes "decode_telemetry raw t = Inr f"
  shows "\<exists>off. dt_offset t = Some off"
proof -
  from assms have "validate_fields f (Some t) = Inr ()"
    by (simp add: decode_iff_encode encode_telemetry_Inr)
  then show ?thesis
    by (auto simp: validate_fields_def validate_future_skew_def timestamp_us_of_def
        split: if_splits sum.splits option.splits)
qed

text \<open>
  C37. A frame the decoder accepted can always be assessed at its receipt time: no exception is raised,
  the combined classification is the most severe of the temperature, voltage and fault decisions,
  the fault decision is the most severe demand of the reported fault bits, and the sample is stale
  exactly when it is more than 24 hours older than its receipt.
\<close>

theorem decoded_frame_assessed:
  assumes "decode_telemetry raw t = Inr f"
  shows "\<exists>a. assess_health f t = Inr a
    \<and> classification a = Max {classify_temperature (temperature_centi_c f), classify_voltage (voltage_mv f),
        reported_severity (fault_flags f)}
    \<and> (is_stale a \<longleftrightarrow> instant t - timestamp_us f > 86400000000)"
proof -
  obtain off where off: "dt_offset t = Some off" using decoded_time_aware [OF assms] by blast
  have cf: "classify_faults (fault_flags f) = Inr (reported_severity (fault_flags f))"
    using decoded_flags [OF assms] by (intro classify_faults_defined) auto
  have "instant t = dt_wall t - off" by (simp add: instant_def off)
  then show ?thesis
    by (auto simp: assess_health_def cf classify_staleness_def timestamp_us_of_aware [OF off]
        max_by_rank_Max is_stale_def STALE_AFTER_US_def Let_def)
qed

theorem decoded_frame_assessed_witness:
  "\<exists>a. assess_health golden_frame golden_received = Inr a
    \<and> classification a = Max {classify_temperature (temperature_centi_c golden_frame),
        classify_voltage (voltage_mv golden_frame), reported_severity (fault_flags golden_frame)}
    \<and> (is_stale a \<longleftrightarrow> instant golden_received - timestamp_us golden_frame > 86400000000)"
proof (rule decoded_frame_assessed)
  show "decode_telemetry golden_raw golden_received = Inr golden_frame"
    using golden_encodes by (simp add: decode_iff_encode)
qed

end
