(* ===== verification/Py_Text.thy ===== *)
theory Py_Text
  imports Ground_Prelude
begin

text \<open>
  The part of Python's text handling the services use: trimming, prefixes, removal of substrings,
  \<^verbatim>\<open>int(text, base)\<close> and the textual form of UUIDs. Text is Latin-1 (the repertoire of HTTP header
  values), one \<open>char\<close> per code point; within it Python's classes of white space and of digits are
  exactly the ones written out here.
\<close>

section \<open>Trimming, prefixes, removal\<close>

definition py_space :: "char \<Rightarrow> bool" where
  "py_space c \<longleftrightarrow> (let n = (of_char c :: nat) in (9 \<le> n \<and> n \<le> 13) \<or> (28 \<le> n \<and> n \<le> 32) \<or> n = 133 \<or> n = 160)"

text \<open>\<^verbatim>\<open>s.strip()\<close> and \<^verbatim>\<open>s.strip(chars)\<close>, with the set of trimmed characters as a predicate.\<close>

definition strip_by :: "(char \<Rightarrow> bool) \<Rightarrow> string \<Rightarrow> string" where
  "strip_by p s = rev (dropWhile p (rev (dropWhile p s)))"

abbreviation py_strip :: "string \<Rightarrow> string" where
  "py_strip \<equiv> strip_by py_space"

fun starts_with :: "string \<Rightarrow> string \<Rightarrow> bool" where
  "starts_with [] s = True"
| "starts_with (p # ps) [] = False"
| "starts_with (p # ps) (c # cs) = (p = c \<and> starts_with ps cs)"

definition removeprefix :: "string \<Rightarrow> string \<Rightarrow> string" where
  "removeprefix p s = (if starts_with p s then drop (length p) s else s)"

text \<open>\<^verbatim>\<open>s.replace(p, "")\<close> for a non-empty pattern.\<close>

fun py_remove :: "string \<Rightarrow> string \<Rightarrow> string" where
  "py_remove p [] = []"
| "py_remove p (c # cs) =
     (if p \<noteq> [] \<and> starts_with p (c # cs) then py_remove p (drop (length p - 1) cs)
      else c # py_remove p cs)"

text \<open>\<^verbatim>\<open>c.lower()\<close> on Latin-1.\<close>

definition lower_char :: "char \<Rightarrow> char" where
  "lower_char c = (let n = (of_char c :: nat) in
     if (65 \<le> n \<and> n \<le> 90) \<or> (192 \<le> n \<and> n \<le> 222 \<and> n \<noteq> 215) then char_of (n + 32) else c)"

definition py_lower :: "string \<Rightarrow> string" where
  "py_lower s = map lower_char s"

section \<open>Integer literals\<close>

definition digit_value :: "char \<Rightarrow> nat option" where
  "digit_value c = (let n = (of_char c :: nat) in
     if 48 \<le> n \<and> n \<le> 57 then Some (n - 48)
     else if 97 \<le> n \<and> n \<le> 122 then Some (n - 87)
     else if 65 \<le> n \<and> n \<le> 90 then Some (n - 55)
     else None)"

text \<open>
  The digits of a literal, single underscores allowed between digits; \<open>prev\<close> says whether the
  preceding character was a digit.
\<close>

fun int_digits :: "nat \<Rightarrow> string \<Rightarrow> int \<Rightarrow> bool \<Rightarrow> int option" where
  "int_digits b [] acc prev = (if prev then Some acc else None)"
| "int_digits b (c # cs) acc prev =
     (if c = CHR ''_'' then (if prev then int_digits b cs acc False else None)
      else case digit_value c of
             None \<Rightarrow> None
           | Some d \<Rightarrow> if d < b then int_digits b cs (acc * int b + int d) True else None)"

text \<open>
  A hexadecimal literal may carry the prefix \<^verbatim>\<open>0x\<close> and one underscore after it; a decimal one may
  have at most 4300 digits.
\<close>

definition hex_unprefixed :: "string \<Rightarrow> string" where
  "hex_unprefixed s =
     (case s of
        z # x # rest \<Rightarrow>
          if z = CHR ''0'' \<and> (x = CHR ''x'' \<or> x = CHR ''X'')
          then removeprefix ''_'' rest else s
      | _ \<Rightarrow> s)"

definition py_int_unsigned :: "nat \<Rightarrow> string \<Rightarrow> int option" where
  "py_int_unsigned b s =
     (if b = 16 then int_digits b (hex_unprefixed s) 0 False
      else if length (filter (\<lambda>c. c \<noteq> CHR ''_'') s) > 4300 then None
      else int_digits b s 0 False)"

definition py_int :: "nat \<Rightarrow> string \<Rightarrow> int option" where
  "py_int b text =
     (case py_strip text of
        [] \<Rightarrow> None
      | c # cs \<Rightarrow>
          if c = CHR ''+'' then py_int_unsigned b cs
          else if c = CHR ''-'' then map_option uminus (py_int_unsigned b cs)
          else py_int_unsigned b (c # cs))"

section \<open>UUIDs\<close>

type_synonym uuid = "128 word"

text \<open>\<^verbatim>\<open>str(u)\<close>: 32 lower-case hexadecimal digits in the groups 8-4-4-4-12.\<close>

definition uuid_hex :: "uuid \<Rightarrow> string" where
  "uuid_hex u = fmt_hex 32 (uint u)"

definition hyphenate :: "string \<Rightarrow> string" where
  "hyphenate h = take 8 h @ ''-'' @ take 4 (drop 8 h) @ ''-'' @ take 4 (drop 12 h) @ ''-''
     @ take 4 (drop 16 h) @ ''-'' @ drop 20 h"

definition uuid_str :: "uuid \<Rightarrow> string" where
  "uuid_str u = hyphenate (uuid_hex u)"

text \<open>\<^verbatim>\<open>uuid.UUID(text)\<close>; \<open>None\<close> is \<^verbatim>\<open>ValueError\<close>.\<close>

definition uuid_parse :: "string \<Rightarrow> uuid option" where
  "uuid_parse text =
     (let h = py_remove ''uuid:'' (py_remove ''urn:'' text);
          h = py_remove ''-'' (strip_by (\<lambda>c. c = CHR ''{'' \<or> c = CHR ''}'') h)
      in if length h \<noteq> 32 then None
         else (case py_int 16 h of
                 None \<Rightarrow> None
               | Some n \<Rightarrow> if 0 \<le> n \<and> n < 2 ^ 128 then Some (word_of_int n) else None))"

text \<open>\<^verbatim>\<open>u.version\<close>: defined for the RFC 4122 variant only.\<close>

definition uuid_version :: "uuid \<Rightarrow> nat option" where
  "uuid_version u =
     (if bit u 63 \<and> \<not> bit u 62 then Some (unat (drop_bit 76 u AND 15)) else None)"

section \<open>Facts\<close>

text \<open>The characters of printed UUIDs and identifiers.\<close>

definition hex_char :: "char \<Rightarrow> bool" where
  "hex_char c \<longleftrightarrow> (let n = (of_char c :: nat) in (48 \<le> n \<and> n \<le> 57) \<or> (97 \<le> n \<and> n \<le> 102))"

lemma hex_digit_value: "d < 16 \<Longrightarrow> digit_value (lower_digit d) = Some d"
  by (auto simp: digit_value_def lower_digit_def Let_def take_bit_eq_mod)

lemma lower_digit_hex [simp]: "d < 16 \<Longrightarrow> hex_char (lower_digit d)"
  by (auto simp: hex_char_def lower_digit_def Let_def take_bit_eq_mod)

lemma hex_char_plain:
  assumes "hex_char c"
  shows "\<not> py_space c" "c \<noteq> CHR ''-''" "c \<noteq> CHR ''+''" "c \<noteq> CHR ''_''" "c \<noteq> CHR '':''"
    "c \<noteq> CHR ''x''" "c \<noteq> CHR ''X''" "c \<noteq> CHR ''{''" "c \<noteq> CHR ''}''" "c \<noteq> CHR ''\"''"
  using assms by (auto simp: hex_char_def py_space_def Let_def)

lemma int_digits_hex:
  assumes "\<forall>d \<in> set ds. d < 16" "ds \<noteq> [] \<or> prev"
  shows "int_digits 16 (map lower_digit ds) acc prev = Some (foldl (\<lambda>a d. a * 16 + int d) acc ds)"
  using assms
proof (induction ds arbitrary: acc prev)
  case Nil
  then show ?case by simp
next
  case (Cons d ds)
  then have "hex_char (lower_digit d)" by simp
  then have "lower_digit d \<noteq> CHR ''_''" by (rule hex_char_plain)
  with Cons show ?case by (simp add: hex_digit_value)
qed

lemma foldl_fixed_digits:
  "2 \<le> b \<Longrightarrow> n < b ^ w \<Longrightarrow> foldl (\<lambda>a d. a * int b + int d) 0 (fixed_digits b w n) = int n"
proof (induction w arbitrary: n)
  case 0
  then show ?case by simp
next
  case (Suc w)
  then have "n div b < b ^ w" by (auto simp: less_mult_imp_div_less mult.commute)
  with Suc show ?case by (simp flip: of_nat_mult of_nat_add)
qed

lemma dropWhile_none: "\<forall>c \<in> set s. \<not> p c \<Longrightarrow> dropWhile p s = s"
  by (cases s) auto

lemma strip_by_none: "\<forall>c \<in> set s. \<not> p c \<Longrightarrow> strip_by p s = s"
  by (simp add: strip_by_def dropWhile_none)

lemma starts_with_set: "starts_with p s \<Longrightarrow> set p \<subseteq> set s"
  by (induction p s rule: starts_with.induct) auto

lemma py_remove_absent: "c \<in> set p \<Longrightarrow> c \<notin> set s \<Longrightarrow> py_remove p s = s"
proof (induction s)
  case Nil
  then show ?case by simp
next
  case (Cons d s)
  then have "\<not> starts_with p (d # s)" using starts_with_set [of p "d # s"] by auto
  with Cons show ?case by simp
qed

lemma py_remove_char: "py_remove [c] s = filter (\<lambda>d. d \<noteq> c) s"
  by (induction s) auto

lemma uuid_hex_digits: "uuid_hex u = map lower_digit (fixed_digits 16 32 (unat u))"
proof -
  have "uint u < int (16 ^ 32)" using uint_lt2p [of u] by simp
  then show ?thesis unfolding uuid_hex_def
    by (subst py_format_fixed) (auto simp: uint_ge_0 nat_uint_eq)
qed

lemma length_uuid_hex [simp]: "length (uuid_hex u) = 32"
  by (simp add: uuid_hex_digits)

lemma uuid_hex_char: "c \<in> set (uuid_hex u) \<Longrightarrow> hex_char c"
  by (auto simp: uuid_hex_digits dest: fixed_digits_bound [rotated])

lemma set_hyphenate: "set (hyphenate h) \<subseteq> insert (CHR ''-'') (set h)"
  unfolding hyphenate_def by (auto dest: in_set_takeD in_set_dropD)

lemma uuid_str_char: "c \<in> set (uuid_str u) \<Longrightarrow> hex_char c \<or> c = CHR ''-''"
  using set_hyphenate [of "uuid_hex u"] by (auto simp: uuid_str_def dest: uuid_hex_char)

lemma unhyphenate:
  assumes "CHR ''-'' \<notin> set h"
  shows "filter (\<lambda>d. d \<noteq> CHR ''-'') (hyphenate h) = h"
proof -
  have keep: "filter (\<lambda>d. d \<noteq> CHR ''-'') (take n (drop m h)) = take n (drop m h)"
    "filter (\<lambda>d. d \<noteq> CHR ''-'') (drop m h) = drop m h" for n m
    using assms by (auto simp: filter_id_conv dest: in_set_takeD in_set_dropD)
  have "filter (\<lambda>d. d \<noteq> CHR ''-'') (take 8 h) = take 8 h" using keep(1) [of 8 0] by simp
  with keep have "filter (\<lambda>d. d \<noteq> CHR ''-'') (hyphenate h)
      = take 8 h @ take 4 (drop 8 h) @ take 4 (drop 12 h) @ take 4 (drop 16 h) @ drop 20 h"
    by (simp add: hyphenate_def)
  also have "\<dots> = h"
    using append_take_drop_id [of 8 h] append_take_drop_id [of 4 "drop 8 h"]
      append_take_drop_id [of 4 "drop 12 h"] append_take_drop_id [of 4 "drop 16 h"] by simp
  finally show ?thesis .
qed

lemma py_int_hex:
  assumes "\<forall>d \<in> set ds. d < 16" "ds \<noteq> []"
  shows "py_int 16 (map lower_digit ds) = Some (foldl (\<lambda>a d. a * 16 + int d) 0 ds)"
proof -
  let ?h = "map lower_digit ds"
  have hex: "hex_char c" if "c \<in> set ?h" for c using that assms by auto
  then have "py_strip ?h = ?h" by (intro strip_by_none) (auto dest: hex_char_plain)
  moreover from assms obtain c cs where cs: "?h = c # cs" by (cases ds) auto
  moreover have "hex_unprefixed ?h = ?h"
    using hex by (force simp: hex_unprefixed_def dest: hex_char_plain split: list.splits)
  moreover have "c \<noteq> CHR ''+''" "c \<noteq> CHR ''-''" using hex cs hex_char_plain by auto
  ultimately show ?thesis using int_digits_hex [OF assms(1), of False] assms(2)
    by (simp add: py_int_def py_int_unsigned_def)
qed

lemma uuid_parse_str [simp]: "uuid_parse (uuid_str u) = Some u"
proof -
  have colon: "CHR '':'' \<notin> set (uuid_str u)" and brace: "\<forall>c \<in> set (uuid_str u). \<not> (c = CHR ''{'' \<or> c = CHR ''}'')"
    by (auto dest!: uuid_str_char simp: hex_char_def)
  have h: "py_remove ''-'' (uuid_str u) = uuid_hex u"
    unfolding py_remove_char uuid_str_def
    by (intro unhyphenate) (auto dest!: uuid_hex_char simp: hex_char_def)
  have lt: "unat u < 16 ^ 32" using unsigned_less [of u, where 'a = nat] by simp
  then have ne: "fixed_digits 16 32 (unat u) \<noteq> []"
    using length_fixed_digits [of 16 32 "unat u"] by (metis list.size(3) zero_neq_numeral)
  have dig: "\<forall>d \<in> set (fixed_digits 16 32 (unat u)). d < 16" using fixed_digits_bound [of 16] by auto
  have "py_int 16 (uuid_hex u) = Some (int (unat u))"
    unfolding uuid_hex_digits using py_int_hex [OF dig ne] foldl_fixed_digits [OF _ lt] by simp
  moreover have "int (unat u) < 2 ^ 128" using unsigned_less [of u, where 'a = int] by simp
  ultimately show ?thesis
    using py_remove_absent [of "CHR '':''" "''urn:''" "uuid_str u"]
      py_remove_absent [of "CHR '':''" "''uuid:''" "uuid_str u"] colon
    by (simp add: uuid_parse_def Let_def h strip_by_none [OF brace])
qed

lemma uuid_str_inject [simp]: "uuid_str u = uuid_str v \<longleftrightarrow> u = v"
proof
  assume "uuid_str u = uuid_str v"
  then have "uuid_parse (uuid_str u) = uuid_parse (uuid_str v)" by (rule arg_cong)
  then show "u = v" by simp
qed simp

lemma length_uuid_str [simp]: "length (uuid_str u) = 36"
  by (simp add: uuid_str_def hyphenate_def)

lemma uuid_str_trimmed: "py_strip (uuid_str u) = uuid_str u"
  by (intro strip_by_none) (auto dest!: uuid_str_char dest: hex_char_plain simp: py_space_def)

text \<open>Text that \<^verbatim>\<open>UUID\<close> reads and prints back unchanged is exactly the canonical text.\<close>

lemma uuid_canonical: "uuid_parse s = Some u \<and> uuid_str u = s \<longleftrightarrow> s = uuid_str u"
  by auto

section \<open>Decimal texts\<close>

lemma upper_digit_dec: "d < 10 \<Longrightarrow> digit_value (upper_digit d) = Some d"
  and upper_digit_plain: "d < 10 \<Longrightarrow> upper_digit d \<noteq> CHR ''_'' \<and> upper_digit d \<noteq> CHR ''+'' \<and> upper_digit d \<noteq> CHR ''-''
    \<and> \<not> py_space (upper_digit d)"
proof -
  assume d: "d < 10"
  then have c: "of_char (upper_digit d) = 48 + d" by (simp add: upper_digit_def take_bit_eq_mod)
  then show "digit_value (upper_digit d) = Some d" using d by (simp add: digit_value_def)
  show "upper_digit d \<noteq> CHR ''_'' \<and> upper_digit d \<noteq> CHR ''+'' \<and> upper_digit d \<noteq> CHR ''-'' \<and> \<not> py_space (upper_digit d)"
    using c d by (auto simp: py_space_def)
qed

lemma nat_digits_bound: "2 \<le> b \<Longrightarrow> d \<in> set (nat_digits b n) \<Longrightarrow> d < b"
proof (induction b n rule: nat_digits.induct)
  case (1 b n)
  then show ?case by (subst (asm) nat_digits.simps) (auto split: if_splits)
qed

lemma nat_digits_value: "2 \<le> b \<Longrightarrow> foldl (\<lambda>a d. a * int b + int d) 0 (nat_digits b n) = int n"
proof (induction b n rule: nat_digits.induct)
  case (1 b n)
  show ?case
  proof (cases "n < b")
    case True
    then show ?thesis by (subst nat_digits.simps) simp
  next
    case False
    have "int (n div b) * int b + int (n mod b) = int n" by (metis div_mult_mod_eq of_nat_add of_nat_mult)
    then show ?thesis using False 1 by (subst nat_digits.simps) simp
  qed
qed

lemma nat_digits_nonempty: "nat_digits b n \<noteq> []"
  by (subst nat_digits.simps) simp

lemma int_digits_dec:
  "\<forall>d \<in> set ds. d < 10 \<Longrightarrow> ds \<noteq> [] \<or> prev \<Longrightarrow>
     int_digits 10 (map upper_digit ds) acc prev = Some (foldl (\<lambda>a d. a * 10 + int d) acc ds)"
  by (induction ds arbitrary: acc prev) (simp_all add: upper_digit_dec upper_digit_plain)

lemma nat_digits_length: "n < 10 ^ w \<Longrightarrow> 0 < w \<Longrightarrow> length (nat_digits 10 n) \<le> w"
  using nat_digits_fixed [of 10 n w] by simp

lemma int_digits_str:
  assumes n: "n < 10 ^ w" "0 < w" "w \<le> 4300"
  shows "py_int_unsigned 10 (map upper_digit (nat_digits 10 n)) = Some (int n)"
proof -
  have dig: "\<forall>d \<in> set (nat_digits 10 n). d < 10" using nat_digits_bound [of 10] by simp
  have "length (filter (\<lambda>c. c \<noteq> CHR ''_'') (map upper_digit (nat_digits 10 n))) \<le> length (nat_digits 10 n)"
    by (metis length_filter_le length_map)
  also have "\<dots> \<le> 4300" using nat_digits_length [OF n(1,2)] n(3) by simp
  finally show ?thesis
    using int_digits_dec [OF dig, of False 0] nat_digits_nonempty nat_digits_value [of 10 n]
    by (simp add: py_int_unsigned_def)
qed

lemma py_int_str:
  assumes "\<bar>v\<bar> < 10 ^ w" "0 < w" "w \<le> 4300"
  shows "py_int 10 (py_str v) = Some v"
proof -
  let ?n = "nat \<bar>v\<bar>" and ?s = "map upper_digit (nat_digits 10 (nat \<bar>v\<bar>))"
  have n: "?n < 10 ^ w" using assms(1) by (simp add: nat_less_iff)
  have dig: "\<forall>c \<in> set ?s. \<not> py_space c \<and> c \<noteq> CHR ''+'' \<and> c \<noteq> CHR ''-''"
    using nat_digits_bound [of 10] upper_digit_plain by auto
  obtain c cs where s: "?s = c # cs" using nat_digits_nonempty [of 10 ?n] by (cases ?s) auto
  have str: "py_str v = (if v < 0 then CHR ''-'' # ?s else ?s)"
    by (auto simp: py_format_def zero_fill_def)
  have "py_strip (py_str v) = py_str v"
    unfolding str by (rule strip_by_none) (use dig in \<open>auto simp: py_space_def\<close>)
  then have "py_int 10 (py_str v) = (if v < 0 then map_option uminus (py_int_unsigned 10 ?s) else py_int_unsigned 10 ?s)"
    unfolding py_int_def str using dig unfolding s by simp
  then show ?thesis unfolding int_digits_str [OF n assms(2,3)] by simp
qed

end
