(* ===== verification/Py_Json.thy ===== *)
theory Py_Json
  imports Py_Text "HOL-Library.Char_ord" "HOL-Library.List_Lexorder"
begin

text \<open>
  The part of Python's \<^verbatim>\<open>json\<close> module the services use: \<^verbatim>\<open>dumps\<close> with sorted keys, compact
  separators and ASCII escapes, and \<^verbatim>\<open>loads\<close>. Text is Latin-1: input bytes above 127 and escapes
  above \<^verbatim>\<open>\u00ff\<close> have no counterpart here and are refused by \<open>json_loads\<close>, as are NUL bytes
  (which Python reads as UTF-16 or UTF-32). Numbers are kept as their literals. The parser recurses
  on fuel; twice the length of the text is always enough (\<open>json_value_fuel\<close>).
\<close>

section \<open>Values and printing\<close>

datatype json = JNull | JBool bool | JNum string | JStr string | JArr "json list" | JObj "(string \<times> json) list"

definition escape_char :: "char \<Rightarrow> string" where
  "escape_char c =
     (let n = (of_char c :: nat) in
      if c = CHR 0x22 then [CHR 0x5C, CHR 0x22]
      else if c = CHR 0x5C then [CHR 0x5C, CHR 0x5C]
      else if n = 10 then [CHR 0x5C, CHR ''n'']
      else if n = 13 then [CHR 0x5C, CHR ''r'']
      else if n = 9 then [CHR 0x5C, CHR ''t'']
      else if n = 12 then [CHR 0x5C, CHR ''f'']
      else if n = 8 then [CHR 0x5C, CHR ''b'']
      else if 32 \<le> n \<and> n \<le> 126 then [c]
      else [CHR 0x5C, CHR ''u''] @ fmt_hex 4 (int n))"

definition json_string :: "string \<Rightarrow> string" where
  "json_string s = [CHR 0x22] @ concat (map escape_char s) @ [CHR 0x22]"

fun join_with :: "string \<Rightarrow> string list \<Rightarrow> string" where
  "join_with sep [] = []"
| "join_with sep [x] = x"
| "join_with sep (x # y # ys) = x @ sep @ join_with sep (y # ys)"

text \<open>\<^verbatim>\<open>json.dumps(v, sort_keys=True, separators=(",", ":"), ensure_ascii=True)\<close>.\<close>

fun json_dumps :: "json \<Rightarrow> string" where
  "json_dumps JNull = ''null''"
| "json_dumps (JBool b) = (if b then ''true'' else ''false'')"
| "json_dumps (JNum s) = s"
| "json_dumps (JStr s) = json_string s"
| "json_dumps (JArr vs) = ''['' @ join_with '','' (map json_dumps vs) @ '']''"
| "json_dumps (JObj kvs) =
     ''{'' @ join_with '','' (map snd (sort_key fst (map (\<lambda>(k, v). (k, json_string k @ '':'' @ json_dumps v)) kvs))) @ ''}''"

section \<open>Parsing\<close>

definition json_space :: "char \<Rightarrow> bool" where
  "json_space c \<longleftrightarrow> c = CHR '' '' \<or> c = CHR 0x09 \<or> c = CHR 0x0A \<or> c = CHR 0x0D"

abbreviation skip_space :: "string \<Rightarrow> string" where
  "skip_space \<equiv> dropWhile json_space"

definition dec_char :: "char \<Rightarrow> bool" where
  "dec_char c \<longleftrightarrow> (let n = (of_char c :: nat) in 48 \<le> n \<and> n \<le> 57)"

text \<open>The four hexadecimal digits of an escape.\<close>

definition hex4 :: "char \<Rightarrow> char \<Rightarrow> char \<Rightarrow> char \<Rightarrow> nat option" where
  "hex4 a b c d =
     (case (digit_value a, digit_value b, digit_value c, digit_value d) of
        (Some i, Some j, Some k, Some l) \<Rightarrow>
          if i < 16 \<and> j < 16 \<and> k < 16 \<and> l < 16 then Some (((i * 16 + j) * 16 + k) * 16 + l) else None
      | _ \<Rightarrow> None)"

definition simple_escape :: "char \<Rightarrow> char option" where
  "simple_escape e =
     (if e = CHR 0x22 \<or> e = CHR 0x5C \<or> e = CHR ''/'' then Some e
      else if e = CHR ''n'' then Some (CHR 0x0A)
      else if e = CHR ''r'' then Some (CHR 0x0D)
      else if e = CHR ''t'' then Some (CHR 0x09)
      else if e = CHR ''f'' then Some (CHR 0x0C)
      else if e = CHR ''b'' then Some (CHR 0x08)
      else None)"

text \<open>The rest of a string literal, after its opening quote.\<close>

fun json_chars :: "string \<Rightarrow> (string \<times> string) option" where
  "json_chars [] = None"
| "json_chars (c # cs) =
     (if c = CHR 0x22 then Some ([], cs)
      else if c = CHR 0x5C then
        (case cs of
           [] \<Rightarrow> None
         | e # es \<Rightarrow>
             if e = CHR ''u'' then
               (case es of
                  w # x # y # z # zs \<Rightarrow>
                    (case hex4 w x y z of
                       None \<Rightarrow> None
                     | Some n \<Rightarrow> if n < 256 then map_option (map_prod ((#) (char_of n)) id) (json_chars zs) else None)
                | _ \<Rightarrow> None)
             else (case simple_escape e of
                     None \<Rightarrow> None
                   | Some d \<Rightarrow> map_option (map_prod ((#) d) id) (json_chars es)))
      else if (of_char c :: nat) < 32 then None
      else map_option (map_prod ((#) c) id) (json_chars cs))"

text \<open>Number literals: integer part, optional fraction, optional exponent.\<close>

definition json_fraction :: "string \<Rightarrow> string \<times> string" where
  "json_fraction s =
     (case s of
        c # cs \<Rightarrow> if c = CHR ''.'' \<and> takeWhile dec_char cs \<noteq> []
                  then (c # takeWhile dec_char cs, dropWhile dec_char cs) else ([], s)
      | [] \<Rightarrow> ([], s))"

definition json_exponent :: "string \<Rightarrow> string \<times> string" where
  "json_exponent s =
     (case s of
        c # cs \<Rightarrow>
          if c = CHR ''e'' \<or> c = CHR ''E'' then
            (let (sign, ds) = (case cs of
                 d # es \<Rightarrow> if d = CHR ''-'' \<or> d = CHR ''+'' then ([d], es) else ([], cs)
               | [] \<Rightarrow> ([], cs))
             in if takeWhile dec_char ds \<noteq> []
                then (c # sign @ takeWhile dec_char ds, dropWhile dec_char ds) else ([], s))
          else ([], s)
      | [] \<Rightarrow> ([], s))"

definition json_integer :: "string \<Rightarrow> (string \<times> string) option" where
  "json_integer s =
     (let (sign, r) = (if starts_with ''-'' s then (''-'', tl s) else ([], s))
      in case r of
           [] \<Rightarrow> None
         | c # cs \<Rightarrow>
             if c = CHR ''0'' then Some (sign @ [c], cs)
             else if dec_char c then Some (sign @ takeWhile dec_char r, dropWhile dec_char r)
             else None)"

definition json_number :: "string \<Rightarrow> (string \<times> string) option" where
  "json_number s =
     (case json_integer s of
        None \<Rightarrow> None
      | Some (i, r) \<Rightarrow>
          (let (f, r') = json_fraction r; (e, r'') = json_exponent r' in Some (i @ f @ e, r'')))"

definition json_word :: "string \<Rightarrow> (json \<times> string) option" where
  "json_word s =
     (if starts_with ''null'' s then Some (JNull, drop 4 s)
      else if starts_with ''true'' s then Some (JBool True, drop 4 s)
      else if starts_with ''false'' s then Some (JBool False, drop 5 s)
      else case json_number s of
             Some (n, r) \<Rightarrow> Some (JNum n, r)
           | None \<Rightarrow>
               if starts_with ''NaN'' s then Some (JNum ''NaN'', drop 3 s)
               else if starts_with ''Infinity'' s then Some (JNum ''Infinity'', drop 8 s)
               else if starts_with ''-Infinity'' s then Some (JNum ''-Infinity'', drop 9 s)
               else None)"

text \<open>
  One value; the elements of an array and the members of an object after their opening bracket and
  white space.
\<close>

fun json_value :: "nat \<Rightarrow> string \<Rightarrow> (json \<times> string) option"
and json_elements :: "nat \<Rightarrow> string \<Rightarrow> (json list \<times> string) option"
and json_members :: "nat \<Rightarrow> string \<Rightarrow> ((string \<times> json) list \<times> string) option"
where
  "json_value 0 s = None"
| "json_value (Suc n) s =
     (case s of
        [] \<Rightarrow> None
      | c # cs \<Rightarrow>
          if c = CHR 0x22 then map_option (map_prod JStr id) (json_chars cs)
          else if c = CHR ''{'' then
            (if starts_with ''}'' (skip_space cs) then Some (JObj [], tl (skip_space cs))
             else map_option (map_prod JObj id) (json_members n (skip_space cs)))
          else if c = CHR ''['' then
            (if starts_with '']'' (skip_space cs) then Some (JArr [], tl (skip_space cs))
             else map_option (map_prod JArr id) (json_elements n (skip_space cs)))
          else json_word s)"
| "json_elements 0 s = None"
| "json_elements (Suc n) s =
     (case json_value n s of
        None \<Rightarrow> None
      | Some (v, r) \<Rightarrow>
          (case skip_space r of
             [] \<Rightarrow> None
           | c # cs \<Rightarrow>
               if c = CHR '']'' then Some ([v], cs)
               else if c = CHR '','' then map_option (map_prod ((#) v) id) (json_elements n (skip_space cs))
               else None))"
| "json_members 0 s = None"
| "json_members (Suc n) s =
     (case s of
        [] \<Rightarrow> None
      | q # qs \<Rightarrow>
          if q \<noteq> CHR 0x22 then None
          else (case json_chars qs of
                  None \<Rightarrow> None
                | Some (k, r) \<Rightarrow>
                    if \<not> starts_with '':'' (skip_space r) then None
                    else (case json_value n (skip_space (tl (skip_space r))) of
                            None \<Rightarrow> None
                          | Some (v, r') \<Rightarrow>
                              (case skip_space r' of
                                 [] \<Rightarrow> None
                               | c # cs \<Rightarrow>
                                   if c = CHR ''}'' then Some ([(k, v)], cs)
                                   else if c = CHR '','' then
                                     map_option (map_prod ((#) (k, v)) id) (json_members n (skip_space cs))
                                   else None))))"

definition ascii_bytes :: "string \<Rightarrow> bytes" where
  "ascii_bytes s = map of_char s"

definition ascii_text :: "bytes \<Rightarrow> string option" where
  "ascii_text bs = (if \<forall>b \<in> set bs. 0 < b \<and> b < 128 then Some (map (\<lambda>b. char_of (unat b)) bs) else None)"

text \<open>\<^verbatim>\<open>json.loads(raw)\<close>; \<open>None\<close> is \<^verbatim>\<open>JSONDecodeError\<close>.\<close>

definition json_loads :: "bytes \<Rightarrow> json option" where
  "json_loads raw =
     (case ascii_text raw of
        None \<Rightarrow> None
      | Some s \<Rightarrow>
          (case json_value (2 * length s + 2) (skip_space s) of
             None \<Rightarrow> None
           | Some (v, r) \<Rightarrow> if skip_space r = [] then Some v else None))"

text \<open>The Python dictionary of an object's members: a repeated key keeps its last value.\<close>

definition json_dict :: "(string \<times> json) list \<Rightarrow> string \<Rightarrow> json option" where
  "json_dict kvs = map_of (rev kvs)"

section \<open>Facts\<close>

lemma length_skip: "length (skip_space s) \<le> length s"
  by (simp add: length_dropWhile_le)

lemma json_chars_shrinks: "json_chars s = Some (k, r) \<Longrightarrow> length r < length s"
proof (induction s arbitrary: k r rule: json_chars.induct)
  case (2 c cs)
  from 2(4) show ?case
    apply (auto split: if_splits list.splits option.splits)
    using 2 by fastforce+
qed simp

lemma json_integer_shrinks: "json_integer s = Some (i, r) \<Longrightarrow> length r < length s"
  by (cases s) (auto simp: json_integer_def Let_def length_dropWhile_le less_Suc_eq_le
      split: if_splits list.splits intro: le_SucI)

lemma json_fraction_shrinks: "json_fraction s = (f, r) \<Longrightarrow> length r \<le> length s"
  by (auto simp: json_fraction_def length_dropWhile_le le_SucI split: if_splits list.splits)

lemma json_exponent_shrinks: "json_exponent s = (f, r) \<Longrightarrow> length r \<le> length s"
  by (auto simp: json_exponent_def Let_def length_dropWhile_le le_SucI split: if_splits list.splits)

lemma starts_with_length: "starts_with p s \<Longrightarrow> length p \<le> length s"
  by (induction p s rule: starts_with.induct) auto

lemma json_number_shrinks: "json_number s = Some (i, r) \<Longrightarrow> length r < length s"
  by (auto simp: json_number_def Let_def split: option.splits prod.splits
      dest!: json_integer_shrinks json_fraction_shrinks json_exponent_shrinks)

lemma json_word_shrinks: "json_word s = Some (v, r) \<Longrightarrow> length r < length s"
  by (auto simp: json_word_def dest: json_number_shrinks starts_with_length split: if_splits option.splits)

lemma starts_with_single: "starts_with [c] s \<longleftrightarrow> (\<exists>cs. s = c # cs)"
  by (cases s) auto

lemma skip_tail: "skip_space s = c # cs \<Longrightarrow> length cs < length s"
  using length_skip [of s] by simp

lemma json_parse_shrinks:
  "json_value n s = Some (v, r) \<Longrightarrow> length r < length s"
  "json_elements n s = Some (vs, r) \<Longrightarrow> length r < length s"
  "json_members n s = Some (kvs, r) \<Longrightarrow> length r < length s"
proof (induction n s and n s and n s arbitrary: v r and vs r and kvs r
    rule: json_value_json_elements_json_members.induct)
  case (2 n s)
  then show ?case
  proof (cases s)
    case (Cons c cs)
    have sk: "length (skip_space cs) \<le> length cs" by (rule length_skip)
    consider (str) k where "json_chars cs = Some (k, r)"
      | (empty) d where "skip_space cs = d # r"
      | (obj) kvs where "c = CHR ''{''" "\<not> starts_with ''}'' (skip_space cs)" "json_members n (skip_space cs) = Some (kvs, r)"
      | (arr) vs where "c = CHR ''[''" "\<not> starts_with '']'' (skip_space cs)" "json_elements n (skip_space cs) = Some (vs, r)"
      | (word) "json_word s = Some (v, r)"
      using "2.prems" Cons by (auto simp: starts_with_single split: if_splits)
    then show ?thesis
    proof cases
      case str
      then show ?thesis using json_chars_shrinks Cons by fastforce
    next
      case empty
      then show ?thesis using skip_tail Cons by fastforce
    next
      case obj
      have "length r < length (skip_space cs)"
        by (rule "2.IH"(1) [OF Cons _ obj(1,2,3)]) (simp add: obj(1))
      with sk show ?thesis unfolding Cons by simp
    next
      case arr
      have "length r < length (skip_space cs)"
        by (rule "2.IH"(2) [OF Cons _ _ arr(1,2,3)]) (simp_all add: arr(1))
      with sk show ?thesis unfolding Cons by simp
    next
      case word
      then show ?thesis by (rule json_word_shrinks)
    qed
  qed simp
next
  case (4 n s)
  from "4.prems" obtain v r1 c cs where v: "json_value n s = Some (v, r1)" and c: "skip_space r1 = c # cs"
    and e: "r = cs \<or> (\<exists>ws. json_elements n (skip_space cs) = Some (ws, r)) \<and> c = CHR '',''"
    by (auto split: option.splits list.splits if_splits)
  have cs: "length cs < length s" using "4.IH"(1) [OF v] skip_tail [OF c] by simp
  from e show ?case
  proof
    assume "(\<exists>ws. json_elements n (skip_space cs) = Some (ws, r)) \<and> c = CHR '',''"
    then obtain ws where ws: "json_elements n (skip_space cs) = Some (ws, r)" and comma: "c = CHR '',''" by blast
    have "length r < length (skip_space cs)"
      by (rule "4.IH"(2) [OF v refl c _ comma ws]) (simp add: comma)
    then show ?case using cs length_skip [of cs] by simp
  qed (simp add: cs)
next
  case (6 n s)
  from "6.prems" obtain q qs k r0 r1 v r2 c cs where s: "s = q # qs" and q: "q = CHR 0x22"
    and k: "json_chars qs = Some (k, r0)"
    and col: "skip_space r0 = CHR '':'' # r1" and v: "json_value n (skip_space r1) = Some (v, r2)"
    and c: "skip_space r2 = c # cs"
    and e: "r = cs \<or> (\<exists>ws. json_members n (skip_space cs) = Some (ws, r)) \<and> c = CHR '',''"
    by (auto split: option.splits list.splits if_splits simp: starts_with_single)
  have v': "json_value n (skip_space (tl (skip_space r0))) = Some (v, r2)" using v col by simp
  have cl: "\<not> \<not> starts_with '':'' (skip_space r0)" and nq: "\<not> q \<noteq> CHR 0x22" using col q by simp_all
  have "length r2 < length (skip_space (tl (skip_space r0)))"
    by (rule "6.IH"(1) [OF s nq k refl cl v'])
  then have cs: "length cs < length s"
    using json_chars_shrinks [OF k] skip_tail [OF col] skip_tail [OF c] length_skip [of r1] s col by simp
  from e show ?case
  proof
    assume "(\<exists>ws. json_members n (skip_space cs) = Some (ws, r)) \<and> c = CHR '',''"
    then obtain ws where ws: "json_members n (skip_space cs) = Some (ws, r)" and comma: "c = CHR '',''" by blast
    have "length r < length (skip_space cs)"
      by (rule "6.IH"(2) [OF s nq k refl cl v' refl c _ comma ws]) (simp add: comma)
    then show ?case using cs length_skip [of cs] by simp
  qed (simp add: cs)
qed simp_all

text \<open>Fuel beyond twice the length of the text never changes a result.\<close>

lemma json_fuel:
  "(\<forall>n m. 2 * length s < n \<and> 2 * length s < m \<longrightarrow> json_value n s = json_value m s)
   \<and> (\<forall>n m. 2 * length s + 1 < n \<and> 2 * length s + 1 < m \<longrightarrow> json_elements n s = json_elements m s)
   \<and> (\<forall>n m. 2 * length s < n \<and> 2 * length s < m \<longrightarrow> json_members n s = json_members m s)"
proof (induction "length s" arbitrary: s rule: less_induct)
  case less
  have IHv: "length t < length s \<Longrightarrow> 2 * length t < n \<Longrightarrow> 2 * length t < m \<Longrightarrow> json_value n t = json_value m t"
    and IHe: "length t < length s \<Longrightarrow> 2 * length t + 1 < n \<Longrightarrow> 2 * length t + 1 < m \<Longrightarrow> json_elements n t = json_elements m t"
    and IHm: "length t < length s \<Longrightarrow> 2 * length t < n \<Longrightarrow> 2 * length t < m \<Longrightarrow> json_members n t = json_members m t" for t n m
    using less by blast+
  have val: "json_value n s = json_value m s" if lim: "2 * length s < n" "2 * length s < m" for n m
  proof (cases s)
    case Nil
    then show ?thesis using lim by (cases n; cases m) auto
  next
    case (Cons c cs)
    obtain n' m' where nm: "n = Suc n'" "m = Suc m'" using lim by (cases n; cases m) auto
    have "json_members n' (skip_space cs) = json_members m' (skip_space cs)"
      "json_elements n' (skip_space cs) = json_elements m' (skip_space cs)"
      using length_skip [of cs] Cons lim nm by (auto intro!: IHm IHe)
    then show ?thesis by (simp add: nm Cons)
  qed
  have elem: "json_elements n s = json_elements m s" if lim: "2 * length s + 1 < n" "2 * length s + 1 < m" for n m
  proof -
    obtain n' m' where nm: "n = Suc n'" "m = Suc m'" using lim by (cases n; cases m) auto
    have same: "json_value n' s = json_value m' s" using lim nm by (intro val) auto
    have "json_elements n' (skip_space cs) = json_elements m' (skip_space cs)"
      if "json_value m' s = Some (v, r)" "skip_space r = c # cs" for v r c cs
      using json_parse_shrinks(1) [OF that(1)] skip_tail [OF that(2)] length_skip [of cs]
        lim nm by (intro IHe) auto
    then show ?thesis by (auto simp: nm same simp del: dropWhile_eq_Nil_conv split: option.splits list.splits)
  qed
  have memb: "json_members n s = json_members m s" if lim: "2 * length s < n" "2 * length s < m" for n m
  proof (cases s)
    case Nil
    then show ?thesis using lim by (cases n; cases m) auto
  next
    case (Cons q qs)
    obtain n' m' where nm: "n = Suc n'" "m = Suc m'" using lim by (cases n; cases m) auto
    have lens: "length (skip_space r1) + 2 < length s"
      if "json_chars qs = Some (k, r0)" "skip_space r0 = CHR '':'' # r1" for k r0 r1
      using json_chars_shrinks [OF that(1)] skip_tail [OF that(2)] length_skip [of r1] Cons by simp
    have v: "json_value n' (skip_space r1) = json_value m' (skip_space r1)"
      if "json_chars qs = Some (k, r0)" "skip_space r0 = CHR '':'' # r1" for k r0 r1
      using lens [OF that] lim nm by (intro IHv) auto
    have rest: "json_members n' (skip_space cs) = json_members m' (skip_space cs)"
      if "json_chars qs = Some (k, r0)" "skip_space r0 = CHR '':'' # r1"
        "json_value m' (skip_space r1) = Some (v, r2)" "skip_space r2 = c # cs" for k r0 r1 v r2 c cs
      using lens [OF that(1,2)] json_parse_shrinks(1) [OF that(3)] skip_tail [OF that(4)] length_skip [of cs]
        lim nm by (intro IHm) auto
    show ?thesis
      by (auto simp: nm Cons starts_with_single v rest simp del: dropWhile_eq_Nil_conv split: option.splits list.splits)
  qed
  from val elem memb show ?case by blast
qed

lemma json_value_fuel:
  "2 * length s < n \<Longrightarrow> 2 * length s < m \<Longrightarrow> json_value n s = json_value m s"
  using json_fuel [of s] by blast

section \<open>Plain strings are read back\<close>

text \<open>Characters that are printed as they are.\<close>

definition plain_char :: "char \<Rightarrow> bool" where
  "plain_char c \<longleftrightarrow> 32 \<le> (of_char c :: nat) \<and> (of_char c :: nat) \<le> 126 \<and> c \<noteq> CHR 0x22 \<and> c \<noteq> CHR 0x5C"

lemma escape_plain: "plain_char c \<Longrightarrow> escape_char c = [c]"
  by (auto simp: plain_char_def escape_char_def Let_def)

lemma json_string_plain: "\<forall>c \<in> set s. plain_char c \<Longrightarrow> json_string s = CHR 0x22 # s @ [CHR 0x22]"
  unfolding json_string_def by (induction s) (auto simp: escape_plain)

lemma json_chars_plain:
  "\<forall>c \<in> set s. plain_char c \<Longrightarrow> json_chars (s @ CHR 0x22 # rest) = Some (s, rest)"
  by (induction s) (auto simp: plain_char_def)

lemma ascii_text_bytes:
  "\<forall>c \<in> set s. 0 < (of_char c :: nat) \<and> (of_char c :: nat) < 128 \<Longrightarrow> ascii_text (ascii_bytes s) = Some s"
proof -
  assume a: "\<forall>c \<in> set s. 0 < (of_char c :: nat) \<and> (of_char c :: nat) < 128"
  have u: "unat (of_char c :: byte) = of_char c" for c
    by (cases c) (simp add: of_char_def)
  have "\<forall>b \<in> set (ascii_bytes s). 0 < b \<and> b < 128"
    using a by (auto simp: ascii_bytes_def word_less_nat_alt u)
  moreover have "map (\<lambda>b. char_of (unat b)) (ascii_bytes s) = s"
    unfolding ascii_bytes_def by (simp add: u comp_def)
  ultimately show ?thesis by (simp add: ascii_text_def)
qed

end
