(* ===== verification/Redis_Service.thy ===== *)
theory Redis_Service
  imports Py_Text "HOL-Library.AList"
begin

text \<open>
  The Redis server is outside the repository. The services use it through ten commands, which are
  the parameter \<open>'r redis\<close> of every definition that talks to it; \<open>'r\<close> is the server's state. What
  the services rely on is the locale \<open>redis_service\<close>: the documented effect of each command, stated
  for keys used with one kind of value only. The repository's own stand-in for Redis, the class
  \<^verbatim>\<open>FakeRedis\<close> of \<^verbatim>\<open>tests/test_telemetry_queue.py\<close>, is modelled here and interprets the locale.
\<close>

section \<open>Commands\<close>

record 'r redis =
  r_get :: "string \<Rightarrow> 'r \<Rightarrow> bytes option"
  r_set :: "string \<Rightarrow> bytes \<Rightarrow> 'r \<Rightarrow> 'r"
  r_del :: "string \<Rightarrow> 'r \<Rightarrow> 'r"
  r_lpush :: "string \<Rightarrow> bytes \<Rightarrow> 'r \<Rightarrow> 'r"
  r_lrem :: "string \<Rightarrow> bytes \<Rightarrow> 'r \<Rightarrow> nat \<times> 'r"
  r_rpoplpush :: "string \<Rightarrow> string \<Rightarrow> 'r \<Rightarrow> bytes option \<times> 'r"
  r_llen :: "string \<Rightarrow> 'r \<Rightarrow> nat"
  r_hincrby :: "string \<Rightarrow> string \<Rightarrow> int \<Rightarrow> 'r \<Rightarrow> 'r"
  r_hgetall :: "string \<Rightarrow> 'r \<Rightarrow> (string \<times> string) list"
  r_ping :: "'r \<Rightarrow> bool"

text \<open>
  \<open>r_lrem k v\<close> is \<^verbatim>\<open>LREM k 1 v\<close>: it removes the first occurrence from the head. A call reaches the
  server and is answered, or fails with \<^verbatim>\<open>RedisError\<close> either before it took effect or after (the
  answer was lost).
\<close>

datatype availability = Up | DownBefore | DownAfter

definition redis_call :: "'e \<Rightarrow> availability \<Rightarrow> ('r \<Rightarrow> 'a \<times> 'r) \<Rightarrow> 'r \<Rightarrow> ('e, 'a, 'r) outcome" where
  "redis_call err av f r =
     (case av of
        Up \<Rightarrow> map_prod Inr id (f r)
      | DownBefore \<Rightarrow> (Inl err, r)
      | DownAfter \<Rightarrow> (Inl err, snd (f r)))"

section \<open>Laws\<close>

datatype redis_kind = KString | KList | KHash

text \<open>
  \<open>kind\<close> says with which kind of value the application uses a key; states in which a key holds a
  value of another kind are outside \<open>'r\<close>. \<open>val_at\<close>, \<open>list_at\<close> and \<open>hash_at\<close> read the value of a key
  (absent lists are empty). A counter in a hash is a 64-bit signed integer.
\<close>

definition int64 :: "int \<Rightarrow> bool" where
  "int64 n \<longleftrightarrow> - (2 ^ 63) \<le> n \<and> n < 2 ^ 63"

definition field_value :: "int option \<Rightarrow> int" where
  "field_value v = (case v of None \<Rightarrow> 0 | Some n \<Rightarrow> n)"

locale redis_service =
  fixes R :: "'r redis"
    and kind :: "string \<Rightarrow> redis_kind"
    and val_at :: "'r \<Rightarrow> string \<Rightarrow> bytes option"
    and list_at :: "'r \<Rightarrow> string \<Rightarrow> bytes list"
    and hash_at :: "'r \<Rightarrow> string \<Rightarrow> string \<Rightarrow> int option"
  assumes get_value: "kind k = KString \<Longrightarrow> r_get R k r = val_at r k"
    and set_value: "kind k = KString \<Longrightarrow> val_at (r_set R k v r) = (val_at r)(k := Some v)"
    and set_lists: "kind k = KString \<Longrightarrow> list_at (r_set R k v r) = list_at r"
    and set_hashes: "kind k = KString \<Longrightarrow> hash_at (r_set R k v r) = hash_at r"
    and del_value: "kind k = KString \<Longrightarrow> val_at (r_del R k r) = (val_at r)(k := None)"
    and del_lists: "kind k = KString \<Longrightarrow> list_at (r_del R k r) = list_at r"
    and del_hashes: "kind k = KString \<Longrightarrow> hash_at (r_del R k r) = hash_at r"
    and lpush_lists: "kind k = KList \<Longrightarrow> list_at (r_lpush R k v r) = (list_at r)(k := v # list_at r k)"
    and lpush_value: "kind k = KList \<Longrightarrow> val_at (r_lpush R k v r) = val_at r"
    and lpush_hashes: "kind k = KList \<Longrightarrow> hash_at (r_lpush R k v r) = hash_at r"
    and lrem_count: "kind k = KList \<Longrightarrow> fst (r_lrem R k v r) = (if v \<in> set (list_at r k) then 1 else 0)"
    and lrem_lists: "kind k = KList \<Longrightarrow> list_at (snd (r_lrem R k v r)) = (list_at r)(k := remove1 v (list_at r k))"
    and lrem_value: "kind k = KList \<Longrightarrow> val_at (snd (r_lrem R k v r)) = val_at r"
    and lrem_hashes: "kind k = KList \<Longrightarrow> hash_at (snd (r_lrem R k v r)) = hash_at r"
    and move_result: "kind k = KList \<Longrightarrow> kind l = KList \<Longrightarrow> k \<noteq> l \<Longrightarrow>
      fst (r_rpoplpush R k l r) = (if list_at r k = [] then None else Some (last (list_at r k)))"
    and move_lists: "kind k = KList \<Longrightarrow> kind l = KList \<Longrightarrow> k \<noteq> l \<Longrightarrow>
      list_at (snd (r_rpoplpush R k l r)) =
        (if list_at r k = [] then list_at r
         else (list_at r)(k := butlast (list_at r k), l := last (list_at r k) # list_at r l))"
    and move_value: "kind k = KList \<Longrightarrow> kind l = KList \<Longrightarrow> val_at (snd (r_rpoplpush R k l r)) = val_at r"
    and move_hashes: "kind k = KList \<Longrightarrow> kind l = KList \<Longrightarrow> hash_at (snd (r_rpoplpush R k l r)) = hash_at r"
    and llen_list: "kind k = KList \<Longrightarrow> r_llen R k r = length (list_at r k)"
    and hincrby_hashes: "kind k = KHash \<Longrightarrow> int64 (field_value (hash_at r k f) + n) \<Longrightarrow>
      hash_at (r_hincrby R k f n r) = (hash_at r)(k := (hash_at r k)(f := Some (field_value (hash_at r k f) + n)))"
    and hincrby_value: "kind k = KHash \<Longrightarrow> val_at (r_hincrby R k f n r) = val_at r"
    and hincrby_lists: "kind k = KHash \<Longrightarrow> list_at (r_hincrby R k f n r) = list_at r"
    and hgetall_hash: "kind k = KHash \<Longrightarrow>
      map_of (r_hgetall R k r) = (\<lambda>f. map_option py_str (hash_at r k f))"
    and hgetall_fields: "kind k = KHash \<Longrightarrow> distinct (map fst (r_hgetall R k r))"
begin

lemmas string_laws = get_value set_value set_lists set_hashes del_value del_lists del_hashes
lemmas list_laws = lpush_lists lpush_value lpush_hashes lrem_count lrem_lists lrem_value lrem_hashes
  move_result move_lists move_value move_hashes llen_list
lemmas hash_laws = hincrby_hashes hincrby_value hincrby_lists hgetall_hash hgetall_fields

end

section \<open>The repository's stand-in\<close>

text \<open>
  \<^verbatim>\<open>FakeRedis\<close>: a dictionary of values, a default dictionary of lists; the hash commands, which the
  metrics tests fake separately, are kept beside them.
\<close>

record FakeRedis =
  fr_values :: "(string \<times> bytes) list"
  fr_lists :: "(string \<times> bytes list) list"
  fr_hashes :: "(string \<times> (string \<times> int) list) list"
  fr_ping_result :: bool

definition assoc_list :: "(string \<times> 'a list) list \<Rightarrow> string \<Rightarrow> 'a list" where
  "assoc_list al k = (case map_of al k of None \<Rightarrow> [] | Some xs \<Rightarrow> xs)"

definition assoc_put :: "'k \<Rightarrow> 'v \<Rightarrow> ('k \<times> 'v) list \<Rightarrow> ('k \<times> 'v) list" where
  "assoc_put k v al = (k, v) # filter (\<lambda>p. fst p \<noteq> k) al"

definition assoc_del :: "'k \<Rightarrow> ('k \<times> 'v) list \<Rightarrow> ('k \<times> 'v) list" where
  "assoc_del k al = filter (\<lambda>p. fst p \<noteq> k) al"

definition fake_put_list :: "string \<Rightarrow> bytes list \<Rightarrow> FakeRedis \<Rightarrow> FakeRedis" where
  "fake_put_list k xs r = r\<lparr>fr_lists := assoc_put k xs (fr_lists r)\<rparr>"

definition fake_redis :: "FakeRedis redis" where
  "fake_redis = \<lparr>
     r_get = (\<lambda>k r. map_of (fr_values r) k),
     r_set = (\<lambda>k v r. r\<lparr>fr_values := assoc_put k v (fr_values r)\<rparr>),
     r_del = (\<lambda>k r. r\<lparr>fr_values := assoc_del k (fr_values r)\<rparr>),
     r_lpush = (\<lambda>k v r. fake_put_list k (v # assoc_list (fr_lists r) k) r),
     r_lrem = (\<lambda>k v r. let xs = assoc_list (fr_lists r) k
                       in if v \<in> set xs then (1, fake_put_list k (remove1 v xs) r) else (0, r)),
     r_rpoplpush = (\<lambda>k l r. let xs = assoc_list (fr_lists r) k
                            in if xs = [] then (None, r)
                               else (let r' = fake_put_list k (butlast xs) r
                                     in (Some (last xs), fake_put_list l (last xs # assoc_list (fr_lists r') l) r'))),
     r_llen = (\<lambda>k r. length (assoc_list (fr_lists r) k)),
     r_hincrby = (\<lambda>k f n r. let h = assoc_list (fr_hashes r) k
                            in r\<lparr>fr_hashes := assoc_put k (assoc_put f ((case map_of h f of None \<Rightarrow> 0 | Some m \<Rightarrow> m) + n) h) (fr_hashes r)\<rparr>),
     r_hgetall = (\<lambda>k r. map (map_prod id py_str) (AList.clearjunk (assoc_list (fr_hashes r) k))),
     r_ping = fr_ping_result\<rparr>"

definition empty_redis :: FakeRedis where
  "empty_redis = \<lparr>fr_values = [], fr_lists = [], fr_hashes = [], fr_ping_result = True\<rparr>"

lemma map_of_assoc_del [simp]: "map_of (assoc_del k al) = (map_of al)(k := None)"
  by (induction al) (auto simp: assoc_del_def fun_eq_iff)

lemma map_of_assoc_put [simp]: "map_of (assoc_put k v al) = (map_of al)(k \<mapsto> v)"
  using map_of_assoc_del [of k al] by (auto simp: assoc_put_def assoc_del_def fun_eq_iff)

lemma map_of_map_prod_id: "map_of (map (map_prod id f) al) x = map_option f (map_of al x)"
  by (induction al) auto

lemma assoc_list_put [simp]: "assoc_list (assoc_put k xs al) = (assoc_list al)(k := xs)"
  by (auto simp: assoc_list_def fun_eq_iff)

lemma fake_put_list_simps [simp]:
  "fr_values (fake_put_list k xs r) = fr_values r"
  "fr_hashes (fake_put_list k xs r) = fr_hashes r"
  "assoc_list (fr_lists (fake_put_list k xs r)) = (assoc_list (fr_lists r))(k := xs)"
  by (simp_all add: fake_put_list_def)

interpretation fake: redis_service fake_redis kind "\<lambda>r. map_of (fr_values r)" "\<lambda>r. assoc_list (fr_lists r)"
    "\<lambda>r k. map_of (assoc_list (fr_hashes r) k)"
  by unfold_locales
    (auto simp: fake_redis_def Let_def fun_eq_iff map_of_map_prod_id remove1_idem field_value_def map_of_clearjunk
      distinct_clearjunk comp_def split: if_splits option.splits)

end
