(* ===== verification/Telemetry_Queue.thy ===== *)
theory Telemetry_Queue
  imports Py_Json Redis_Service Telemetry_Codec "HOL-Library.Multiset"
begin

text \<open>
  The Redis work queue (\<^verbatim>\<open>mission_ground/telemetry/queue.py\<close>): the two-field message and its JSON
  form, the key names, the five server-side scripts and the queue methods over them. The scripts run
  atomically, so each is one function on the server state; a method fails with \<^verbatim>\<open>RedisError\<close>
  according to the availability of its call.
\<close>

section \<open>Messages\<close>

datatype queue_error = QueueMessageError string | QueueConflictError string | QueueStateError string
  | QueueRedisError | QueueTypeError string | QueueValueError string

record QueueMessage =
  q_job_id :: string
  q_packet_id :: string

definition HEX_char :: "char \<Rightarrow> bool" where
  "HEX_char c \<longleftrightarrow> (let n = (of_char c :: nat) in (48 \<le> n \<and> n \<le> 57) \<or> (65 \<le> n \<and> n \<le> 70))"

text \<open>\<^verbatim>\<open>re.fullmatch(r"TLM-P\d{2}-B[0-9A-F]{8}-S[0-9A-F]{8}", s)\<close>.\<close>

definition packet_id_format :: "string \<Rightarrow> bool" where
  "packet_id_format s \<longleftrightarrow>
     length s = 27 \<and> take 5 s = ''TLM-P'' \<and> (\<forall>c \<in> set (take 2 (drop 5 s)). dec_char c)
     \<and> take 2 (drop 7 s) = ''-B'' \<and> (\<forall>c \<in> set (take 8 (drop 9 s)). HEX_char c)
     \<and> take 2 (drop 17 s) = ''-S'' \<and> (\<forall>c \<in> set (drop 19 s). HEX_char c)"

definition check_field :: "string \<Rightarrow> string \<Rightarrow> queue_error + unit" where
  "check_field name value =
     (if value = [] \<or> py_strip value \<noteq> value
      then Inl (QueueMessageError (name @ '' must be a non-empty, trimmed string''))
      else if length value > 128
      then Inl (QueueMessageError (name @ '' must not exceed 128 characters''))
      else Inr ())"

text \<open>The constructor, with the checks of \<^verbatim>\<open>__post_init__\<close>.\<close>

definition queue_message :: "string \<Rightarrow> string \<Rightarrow> queue_error + QueueMessage" where
  "queue_message job_id packet_id =
     (case check_field ''job_id'' job_id of
        Inl e \<Rightarrow> Inl e
      | Inr _ \<Rightarrow>
     (case check_field ''packet_id'' packet_id of
        Inl e \<Rightarrow> Inl e
      | Inr _ \<Rightarrow>
     (case uuid_parse job_id of
        None \<Rightarrow> Inl (QueueMessageError ''job_id must be a canonical UUID string'')
      | Some parsed_job_id \<Rightarrow>
          if uuid_str parsed_job_id \<noteq> job_id
          then Inl (QueueMessageError ''job_id must be a canonical lowercase UUID string'')
          else if \<not> packet_id_format packet_id
          then Inl (QueueMessageError ''packet_id must use the version 1 telemetry identifier format'')
          else Inr \<lparr>q_job_id = job_id, q_packet_id = packet_id\<rparr>)))"

definition to_json_bytes :: "QueueMessage \<Rightarrow> bytes" where
  "to_json_bytes m =
     ascii_bytes (json_dumps (JObj [(''job_id'', JStr (q_job_id m)), (''packet_id'', JStr (q_packet_id m))]))"

definition from_json_bytes :: "bytes \<Rightarrow> queue_error + QueueMessage" where
  "from_json_bytes raw =
     (case json_loads raw of
        None \<Rightarrow> Inl (QueueMessageError ''queue entry is not valid JSON'')
      | Some (JObj kvs) \<Rightarrow>
          if set (map fst kvs) \<noteq> {''job_id'', ''packet_id''}
          then Inl (QueueMessageError ''queue entry must contain only job_id and packet_id'')
          else (case (json_dict kvs ''job_id'', json_dict kvs ''packet_id'') of
                  (Some (JStr job_id), Some (JStr packet_id)) \<Rightarrow> queue_message job_id packet_id
                | _ \<Rightarrow> Inl (QueueMessageError ''job_id and packet_id must both be strings''))
      | Some _ \<Rightarrow> Inl (QueueMessageError ''queue entry must contain only job_id and packet_id''))"

section \<open>Keys\<close>

record QueueKeys =
  k_pending :: string
  k_processing :: string
  k_failed :: string
  k_marker_prefix :: string

definition for_namespace :: "string \<Rightarrow> queue_error + QueueKeys" where
  "for_namespace namespace =
     (let cleaned = strip_by (\<lambda>c. c = CHR '':'') namespace
      in if cleaned = [] then Inl (QueueValueError ''queue namespace must not be empty'')
         else Inr \<lparr>k_pending = cleaned @ '':pending'', k_processing = cleaned @ '':processing'',
                   k_failed = cleaned @ '':failed'', k_marker_prefix = cleaned @ '':marker''\<rparr>)"

definition marker :: "QueueKeys \<Rightarrow> string \<Rightarrow> string" where
  "marker K job_id = k_marker_prefix K @ '':'' @ job_id"

definition DEFAULT_NAMESPACE :: string where
  "DEFAULT_NAMESPACE = ''ground:telemetry:jobs''"

section \<open>Scripts\<close>

definition ENQUEUE_SCRIPT :: "'r redis \<Rightarrow> string \<Rightarrow> string \<Rightarrow> bytes \<Rightarrow> 'r \<Rightarrow> int \<times> 'r" where
  "ENQUEUE_SCRIPT R key1 key2 arg1 r =
     (case r_get R key1 r of
        None \<Rightarrow> (1, r_lpush R key2 arg1 (r_set R key1 arg1 r))
      | Some existing \<Rightarrow> if existing = arg1 then (0, r) else (-1, r))"

definition ACK_SCRIPT :: "'r redis \<Rightarrow> string \<Rightarrow> string \<Rightarrow> bytes \<Rightarrow> 'r \<Rightarrow> nat \<times> 'r" where
  "ACK_SCRIPT R key1 key2 arg1 r =
     (let (removed, r1) = r_lrem R key1 arg1 r
      in (removed, if removed = 1 then r_del R key2 r1 else r1))"

definition RETRY_SCRIPT :: "'r redis \<Rightarrow> string \<Rightarrow> string \<Rightarrow> bytes \<Rightarrow> 'r \<Rightarrow> nat \<times> 'r" where
  "RETRY_SCRIPT R key1 key2 arg1 r =
     (let (removed, r1) = r_lrem R key1 arg1 r
      in (removed, if removed = 1 then r_lpush R key2 arg1 r1 else r1))"

definition DEAD_LETTER_SCRIPT :: "'r redis \<Rightarrow> string \<Rightarrow> string \<Rightarrow> bytes \<Rightarrow> 'r \<Rightarrow> nat \<times> 'r" where
  "DEAD_LETTER_SCRIPT R key1 key2 arg1 r =
     (let (removed, r1) = r_lrem R key1 arg1 r
      in (removed, if removed = 1 then r_lpush R key2 arg1 r1 else r1))"

text \<open>The loop ends when the source list is empty; \<open>None\<close> would be a loop that never ends.\<close>

partial_function (option) RECOVER_PROCESSING_SCRIPT ::
  "'r redis \<Rightarrow> string \<Rightarrow> string \<Rightarrow> nat \<Rightarrow> 'r \<Rightarrow> (nat \<times> 'r) option" where
  "RECOVER_PROCESSING_SCRIPT R key1 key2 recovered r =
     (case r_rpoplpush R key1 key2 r of
        (None, r1) \<Rightarrow> Some (recovered, r1)
      | (Some item, r1) \<Rightarrow> RECOVER_PROCESSING_SCRIPT R key1 key2 (recovered + 1) r1)"

section \<open>Queue methods\<close>

abbreviation q_call :: "availability \<Rightarrow> ('r \<Rightarrow> 'a \<times> 'r) \<Rightarrow> 'r \<Rightarrow> (queue_error, 'a, 'r) outcome" where
  "q_call \<equiv> redis_call QueueRedisError"

definition not_processing :: "QueueMessage \<Rightarrow> queue_error" where
  "not_processing m = QueueStateError (''job '' @ [CHR 0x27] @ q_job_id m @ [CHR 0x27] @ '' is not in the processing list'')"

definition enqueue ::
  "'r redis \<Rightarrow> QueueKeys \<Rightarrow> availability \<Rightarrow> QueueMessage \<Rightarrow> 'r \<Rightarrow> (queue_error, bool, 'r) outcome" where
  "enqueue R K av m r =
     and_then (q_call av (ENQUEUE_SCRIPT R (marker K (q_job_id m)) (k_pending K) (to_json_bytes m)) r)
       (\<lambda>result r1.
          if result = -1
          then (Inl (QueueConflictError (''job_id '' @ [CHR 0x27] @ q_job_id m @ [CHR 0x27]
                  @ '' already identifies different queue bytes'')), r1)
          else (Inr (result = 1), r1))"

text \<open>
  \<open>claim\<close> waits up to its timeout for an entry (\<^verbatim>\<open>BRPOPLPUSH\<close>); the state is the one in which the
  command is served, with an empty list on a timeout. A malformed entry is moved to the failed list by
  a second call, and the original error is raised.
\<close>

definition checked_timeout :: "py_value \<Rightarrow> queue_error + int" where
  "checked_timeout timeout_seconds =
     (case timeout_seconds of
        PyInt t \<Rightarrow> if t < 0 then Inl (QueueValueError ''timeout_seconds must not be negative'') else Inr t
      | _ \<Rightarrow> Inl (QueueTypeError ''timeout_seconds must be an integer''))"

definition claim ::
  "'r redis \<Rightarrow> QueueKeys \<Rightarrow> availability \<Rightarrow> availability \<Rightarrow> py_value \<Rightarrow> 'r
     \<Rightarrow> (queue_error, QueueMessage option, 'r) outcome" where
  "claim R K av1 av2 timeout_seconds r =
     (case checked_timeout timeout_seconds of
        Inl e \<Rightarrow> (Inl e, r)
      | Inr _ \<Rightarrow> and_then (q_call av1 (r_rpoplpush R (k_pending K) (k_processing K)) r)
        (\<lambda>raw r1. case raw of
           None \<Rightarrow> (Inr None, r1)
         | Some raw \<Rightarrow>
             (case from_json_bytes raw of
                Inr m \<Rightarrow> (Inr (Some m), r1)
              | Inl e \<Rightarrow>
                  and_then (q_call av2 (DEAD_LETTER_SCRIPT R (k_processing K) (k_failed K) raw) r1)
                    (\<lambda>removed r2.
                       if removed \<noteq> 1
                       then (Inl (QueueStateError ''malformed queue entry could not be quarantined''), r2)
                       else (Inl e, r2)))))"

definition ack ::
  "'r redis \<Rightarrow> QueueKeys \<Rightarrow> availability \<Rightarrow> QueueMessage \<Rightarrow> 'r \<Rightarrow> (queue_error, unit, 'r) outcome" where
  "ack R K av m r =
     and_then (q_call av (ACK_SCRIPT R (k_processing K) (marker K (q_job_id m)) (to_json_bytes m)) r)
       (\<lambda>removed r1. if removed \<noteq> 1 then (Inl (not_processing m), r1) else (Inr (), r1))"

definition retry ::
  "'r redis \<Rightarrow> QueueKeys \<Rightarrow> availability \<Rightarrow> QueueMessage \<Rightarrow> 'r \<Rightarrow> (queue_error, unit, 'r) outcome" where
  "retry R K av m r =
     and_then (q_call av (RETRY_SCRIPT R (k_processing K) (k_pending K) (to_json_bytes m)) r)
       (\<lambda>removed r1. if removed \<noteq> 1 then (Inl (not_processing m), r1) else (Inr (), r1))"

definition dead_letter ::
  "'r redis \<Rightarrow> QueueKeys \<Rightarrow> availability \<Rightarrow> QueueMessage \<Rightarrow> 'r \<Rightarrow> (queue_error, unit, 'r) outcome" where
  "dead_letter R K av m r =
     and_then (q_call av (DEAD_LETTER_SCRIPT R (k_processing K) (k_failed K) (to_json_bytes m)) r)
       (\<lambda>removed r1. if removed \<noteq> 1 then (Inl (not_processing m), r1) else (Inr (), r1))"

definition recover_processing ::
  "'r redis \<Rightarrow> QueueKeys \<Rightarrow> availability \<Rightarrow> 'r \<Rightarrow> (queue_error, nat, 'r) outcome option" where
  "recover_processing R K av r =
     (case av of
        DownBefore \<Rightarrow> Some (Inl QueueRedisError, r)
      | _ \<Rightarrow> map_option (\<lambda>res. q_call av (\<lambda>_. res) r)
              (RECOVER_PROCESSING_SCRIPT R (k_processing K) (k_pending K) 0 r))"

definition queue_depth :: "'r redis \<Rightarrow> QueueKeys \<Rightarrow> availability \<Rightarrow> 'r \<Rightarrow> (queue_error, nat, 'r) outcome" where
  "queue_depth R K av r = q_call av (\<lambda>r. (r_llen R (k_pending K) r, r)) r"

definition processing_depth :: "'r redis \<Rightarrow> QueueKeys \<Rightarrow> availability \<Rightarrow> 'r \<Rightarrow> (queue_error, nat, 'r) outcome" where
  "processing_depth R K av r = q_call av (\<lambda>r. (r_llen R (k_processing K) r, r)) r"

definition failed_depth :: "'r redis \<Rightarrow> QueueKeys \<Rightarrow> availability \<Rightarrow> 'r \<Rightarrow> (queue_error, nat, 'r) outcome" where
  "failed_depth R K av r = q_call av (\<lambda>r. (r_llen R (k_failed K) r, r)) r"

definition queue_ping :: "'r redis \<Rightarrow> availability \<Rightarrow> 'r \<Rightarrow> (queue_error, bool, 'r) outcome" where
  "queue_ping R av r = q_call av (\<lambda>r. (r_ping R r, r)) r"

section \<open>Facts about messages\<close>

lemma HEX_char_plain: "HEX_char c \<Longrightarrow> plain_char c"
  by (auto simp: HEX_char_def plain_char_def Let_def)

lemma dec_char_plain: "dec_char c \<Longrightarrow> plain_char c"
  by (auto simp: dec_char_def plain_char_def Let_def)

lemma hex_char_json: "hex_char c \<Longrightarrow> plain_char c"
  by (auto simp: hex_char_def plain_char_def Let_def)

lemma plain_char_ascii: "plain_char c \<Longrightarrow> 0 < (of_char c :: nat) \<and> (of_char c :: nat) < 128"
  by (auto simp: plain_char_def)

lemma packet_id_split:
  assumes "packet_id_format s"
  shows "s = ''TLM-P'' @ take 2 (drop 5 s) @ ''-B'' @ take 8 (drop 9 s) @ ''-S'' @ drop 19 s"
proof -
  have "s = take 5 s @ take 2 (drop 5 s) @ take 2 (drop 7 s) @ take 8 (drop 9 s) @ take 2 (drop 17 s) @ drop 19 s"
    using append_take_drop_id [of 5 s] append_take_drop_id [of 2 "drop 5 s"] append_take_drop_id [of 2 "drop 7 s"]
      append_take_drop_id [of 8 "drop 9 s"] append_take_drop_id [of 2 "drop 17 s"] by simp
  then show ?thesis using assms unfolding packet_id_format_def by metis
qed

lemma packet_id_plain:
  assumes "packet_id_format s" "c \<in> set s"
  shows "plain_char c \<and> \<not> py_space c"
proof -
  let ?ok = "\<lambda>c. plain_char c \<and> \<not> py_space c"
  have "\<forall>c \<in> set (take 2 (drop 5 s)). ?ok c" "\<forall>c \<in> set (take 8 (drop 9 s)). ?ok c" "\<forall>c \<in> set (drop 19 s). ?ok c"
    using assms(1) unfolding packet_id_format_def
    by (auto simp: dec_char_plain HEX_char_plain; auto simp: py_space_def dec_char_def HEX_char_def Let_def)+
  moreover have "\<forall>c \<in> set (''TLM-P'' @ ''-B'' @ ''-S''). ?ok c"
    by (auto simp: plain_char_def py_space_def)
  ultimately show ?thesis
    using packet_id_split [OF assms(1)] assms(2) unfolding Un_iff set_append by (metis Un_iff set_append)
qed

lemma check_field_uuid: "check_field name (uuid_str u) = Inr ()"
  using length_uuid_str [of u] uuid_str_trimmed [of u]
  by (auto simp: check_field_def simp del: length_uuid_str)

lemma check_field_packet:
  assumes "packet_id_format s"
  shows "check_field name s = Inr ()"
proof -
  have "length s = 27" using assms by (simp add: packet_id_format_def)
  moreover have "py_strip s = s" using packet_id_plain [OF assms] by (intro strip_by_none) blast
  ultimately show ?thesis by (auto simp: check_field_def)
qed

text \<open>What the constructor accepts: a canonical UUID and a version 1 packet identifier.\<close>

lemma queue_message_iff:
  "queue_message j p = Inr m \<longleftrightarrow>
     (\<exists>u. j = uuid_str u) \<and> packet_id_format p \<and> m = \<lparr>q_job_id = j, q_packet_id = p\<rparr>"
proof
  assume "queue_message j p = Inr m"
  then show "(\<exists>u. j = uuid_str u) \<and> packet_id_format p \<and> m = \<lparr>q_job_id = j, q_packet_id = p\<rparr>"
    by (auto simp: queue_message_def split: sum.splits option.splits if_splits)
next
  assume "(\<exists>u. j = uuid_str u) \<and> packet_id_format p \<and> m = \<lparr>q_job_id = j, q_packet_id = p\<rparr>"
  then show "queue_message j p = Inr m"
    by (auto simp: queue_message_def check_field_uuid check_field_packet)
qed

definition valid_message :: "QueueMessage \<Rightarrow> bool" where
  "valid_message m \<longleftrightarrow> queue_message (q_job_id m) (q_packet_id m) = Inr m"

lemma valid_message_iff: "valid_message m \<longleftrightarrow> (\<exists>u. q_job_id m = uuid_str u) \<and> packet_id_format (q_packet_id m)"
  by (cases m) (auto simp: valid_message_def queue_message_iff)

lemma from_json_valid: "from_json_bytes raw = Inr m \<Longrightarrow> valid_message m"
  by (auto simp: from_json_bytes_def queue_message_iff valid_message_def
      split: option.splits json.splits if_splits)

definition message_text :: "QueueMessage \<Rightarrow> string" where
  "message_text m = CHR ''{'' # CHR 0x22 # ''job_id'' @ CHR 0x22 # CHR '':'' # CHR 0x22 # q_job_id m
     @ CHR 0x22 # CHR '','' # CHR 0x22 # ''packet_id'' @ CHR 0x22 # CHR '':'' # CHR 0x22 # q_packet_id m
     @ CHR 0x22 # [CHR ''}'']"

lemma message_plain:
  assumes "valid_message m"
  shows "\<forall>c \<in> set (q_job_id m). plain_char c" "\<forall>c \<in> set (q_packet_id m). plain_char c"
proof -
  from assms obtain u where u: "q_job_id m = uuid_str u" and p: "packet_id_format (q_packet_id m)"
    by (auto simp: valid_message_iff)
  show "\<forall>c \<in> set (q_job_id m). plain_char c"
  proof
    fix c
    assume "c \<in> set (q_job_id m)"
    then have "hex_char c \<or> c = CHR ''-''" unfolding u by (rule uuid_str_char)
    then show "plain_char c" by (auto intro: hex_char_json simp: plain_char_def [of "CHR ''-''"])
  qed
  show "\<forall>c \<in> set (q_packet_id m). plain_char c" using packet_id_plain [OF p] by blast
qed

lemma to_json_bytes_text:
  assumes "valid_message m"
  shows "to_json_bytes m = ascii_bytes (message_text m)"
proof -
  have k: "json_string ''job_id'' = CHR 0x22 # ''job_id'' @ [CHR 0x22]"
    "json_string ''packet_id'' = CHR 0x22 # ''packet_id'' @ [CHR 0x22]"
    by (subst json_string_plain; simp add: plain_char_def)+
  show ?thesis
    using message_plain [OF assms] by (simp add: to_json_bytes_def message_text_def k json_string_plain)
qed

lemma message_text_ascii:
  assumes "valid_message m"
  shows "ascii_text (ascii_bytes (message_text m)) = Some (message_text m)"
  using message_plain [OF assms] plain_char_ascii
  by (intro ascii_text_bytes) (auto simp: message_text_def)

lemma json_key:
  "\<forall>c \<in> set k. plain_char c \<Longrightarrow> \<forall>c \<in> set v. plain_char c \<Longrightarrow>
   json_members (Suc (Suc n)) (CHR 0x22 # k @ CHR 0x22 # CHR '':'' # CHR 0x22 # v @ CHR 0x22 # c # cs)
   = (if c = CHR ''}'' then Some ([(k, JStr v)], cs)
      else if c = CHR '','' then map_option (map_prod ((#) (k, JStr v)) id) (json_members (Suc n) (skip_space cs))
      else if json_space c then json_members (Suc (Suc n)) (CHR 0x22 # k @ CHR 0x22 # CHR '':'' # CHR 0x22 # v @ CHR 0x22 # c # cs)
      else None)"
  by (simp add: json_chars_plain json_space_def)

lemma json_loads_message:
  assumes "valid_message m"
  shows "json_loads (to_json_bytes m) =
    Some (JObj [(''job_id'', JStr (q_job_id m)), (''packet_id'', JStr (q_packet_id m))])"
proof -
  obtain n where n: "2 * length (message_text m) + 2 = Suc (Suc (Suc (Suc n)))"
    by (simp add: message_text_def)
  have sk: "skip_space (message_text m) = message_text m"
    by (simp add: message_text_def json_space_def)
  have pl: "\<forall>c \<in> set ''job_id''. plain_char c" "\<forall>c \<in> set ''packet_id''. plain_char c"
    by (simp_all add: plain_char_def)
  have q: "skip_space (CHR 0x22 # cs) = CHR 0x22 # cs" for cs by (simp add: json_space_def)
  have "json_value (2 * length (message_text m) + 2) (message_text m) =
    Some (JObj [(''job_id'', JStr (q_job_id m)), (''packet_id'', JStr (q_packet_id m))], [])"
    unfolding n unfolding message_text_def
    using json_key [OF pl(1) message_plain(1) [OF assms]] json_key [OF pl(2) message_plain(2) [OF assms]]
    by (simp add: q del: json_members.simps dropWhile.simps)
  then show ?thesis
    by (simp add: json_loads_def to_json_bytes_text [OF assms] message_text_ascii [OF assms] sk)
qed

lemma from_to_json:
  assumes "valid_message m"
  shows "from_json_bytes (to_json_bytes m) = Inr m"
  using assms by (auto simp: from_json_bytes_def json_loads_message json_dict_def valid_message_def)

lemma to_json_inject: "valid_message m \<Longrightarrow> valid_message n \<Longrightarrow> to_json_bytes m = to_json_bytes n \<longleftrightarrow> m = n"
  by (metis from_to_json sum.inject(2))


lemma packet_id_format_digits:
  "packet_id_format (''TLM-P'' @ map upper_digit (fixed_digits 10 2 p) @ ''-B'' @ map upper_digit (fixed_digits 16 8 b)
     @ ''-S'' @ map upper_digit (fixed_digits 16 8 n))"
proof -
  have dec: "dec_char (upper_digit d)" if "d < 10" for d
    using that by (auto simp: dec_char_def upper_digit_def Let_def take_bit_eq_mod)
  have hex: "HEX_char (upper_digit d)" if "d < 16" for d
    using that by (auto simp: HEX_char_def upper_digit_def Let_def take_bit_eq_mod)
  show ?thesis
    using fixed_digits_bound [of 10] fixed_digits_bound [of 16]
    by (auto simp: packet_id_format_def dec hex)
qed

lemma frame_packet_id_format:
  "format_packet_id p b n = Inr s \<Longrightarrow> packet_id_format s"
  by (auto simp: format_packet_id_def py_format_fixed UINT32_MAX_eq packet_id_format_digits [simplified] split: if_splits)

section \<open>The queue as three lists and a set of markers\<close>

text \<open>
  The abstract queue: the waiting, held and failed entries and the entry marked for each job. Its
  operations are the specification the methods implement.
\<close>

record queue_view =
  v_pending :: "bytes list"
  v_processing :: "bytes list"
  v_failed :: "bytes list"
  v_marked :: "string \<Rightarrow> bytes option"

definition spec_enqueue :: "QueueMessage \<Rightarrow> queue_view \<Rightarrow> (queue_error, bool, queue_view) outcome" where
  "spec_enqueue m v =
     (case v_marked v (q_job_id m) of
        None \<Rightarrow> (Inr True, v\<lparr>v_pending := to_json_bytes m # v_pending v,
                            v_marked := (v_marked v)(q_job_id m := Some (to_json_bytes m))\<rparr>)
      | Some e \<Rightarrow>
          (if e = to_json_bytes m then Inr False
           else Inl (QueueConflictError (''job_id '' @ [CHR 0x27] @ q_job_id m @ [CHR 0x27]
                  @ '' already identifies different queue bytes'')), v))"

definition spec_take :: "queue_view \<Rightarrow> (queue_error, bytes option, queue_view) outcome" where
  "spec_take v =
     (if v_pending v = [] then (Inr None, v)
      else (Inr (Some (last (v_pending v))),
            v\<lparr>v_pending := butlast (v_pending v), v_processing := last (v_pending v) # v_processing v\<rparr>))"

definition spec_ack :: "QueueMessage \<Rightarrow> queue_view \<Rightarrow> (queue_error, unit, queue_view) outcome" where
  "spec_ack m v =
     (if to_json_bytes m \<in> set (v_processing v)
      then (Inr (), v\<lparr>v_processing := remove1 (to_json_bytes m) (v_processing v),
                      v_marked := (v_marked v)(q_job_id m := None)\<rparr>)
      else (Inl (not_processing m), v))"

definition spec_retry :: "QueueMessage \<Rightarrow> queue_view \<Rightarrow> (queue_error, unit, queue_view) outcome" where
  "spec_retry m v =
     (if to_json_bytes m \<in> set (v_processing v)
      then (Inr (), v\<lparr>v_processing := remove1 (to_json_bytes m) (v_processing v),
                      v_pending := to_json_bytes m # v_pending v\<rparr>)
      else (Inl (not_processing m), v))"

definition spec_quarantine :: "'e \<Rightarrow> 'a \<Rightarrow> bytes \<Rightarrow> queue_view \<Rightarrow> ('e, 'a, queue_view) outcome" where
  "spec_quarantine err ok raw v =
     (if raw \<in> set (v_processing v)
      then (Inr ok, v\<lparr>v_processing := remove1 raw (v_processing v), v_failed := raw # v_failed v\<rparr>)
      else (Inl err, v))"

definition spec_recover :: "queue_view \<Rightarrow> (queue_error, nat, queue_view) outcome" where
  "spec_recover v =
     (Inr (length (v_processing v)), v\<lparr>v_pending := v_processing v @ v_pending v, v_processing := []\<rparr>)"

text \<open>An operation of the specification under an unreliable connection.\<close>

definition spec_call ::
  "availability \<Rightarrow> (queue_view \<Rightarrow> (queue_error, 'a, queue_view) outcome) \<Rightarrow> queue_view \<Rightarrow> (queue_error, 'a, queue_view) outcome" where
  "spec_call av f v =
     (case av of Up \<Rightarrow> f v | DownBefore \<Rightarrow> (Inl QueueRedisError, v) | DownAfter \<Rightarrow> (Inl QueueRedisError, snd (f v)))"

definition spec_claim ::
  "availability \<Rightarrow> availability \<Rightarrow> py_value \<Rightarrow> queue_view \<Rightarrow> (queue_error, QueueMessage option, queue_view) outcome" where
  "spec_claim av1 av2 timeout_seconds v =
     (case checked_timeout timeout_seconds of
        Inl e \<Rightarrow> (Inl e, v)
      | Inr _ \<Rightarrow> and_then (spec_call av1 spec_take v) (\<lambda>raw v1. case raw of
        None \<Rightarrow> (Inr None, v1)
      | Some raw \<Rightarrow>
          (case from_json_bytes raw of
             Inr m \<Rightarrow> (Inr (Some m), v1)
           | Inl e \<Rightarrow>
               and_then (spec_call av2 (spec_quarantine (QueueStateError ''malformed queue entry could not be quarantined'') () raw) v1)
                 (\<lambda>_ v2. (Inl e, v2)))))"

text \<open>The abstract queue a server state represents.\<close>

definition view_of ::
  "('r \<Rightarrow> string \<Rightarrow> bytes option) \<Rightarrow> ('r \<Rightarrow> string \<Rightarrow> bytes list) \<Rightarrow> QueueKeys \<Rightarrow> 'r \<Rightarrow> queue_view" where
  "view_of val_at list_at K r =
     \<lparr>v_pending = list_at r (k_pending K), v_processing = list_at r (k_processing K),
      v_failed = list_at r (k_failed K), v_marked = (\<lambda>j. val_at r (marker K j))\<rparr>"

text \<open>
  A queue over a Redis server that keeps its laws: the keys come from one namespace, and they are used
  as lists and as strings.
\<close>

locale redis_queue = redis_service R kind val_at list_at hash_at
  for R :: "'r redis" and kind val_at list_at hash_at +
  fixes K :: QueueKeys
  assumes namespaced: "\<exists>namespace. for_namespace namespace = Inr K"
    and list_keys: "kind (k_pending K) = KList" "kind (k_processing K) = KList" "kind (k_failed K) = KList"
    and marker_keys: "kind (marker K j) = KString"
begin

abbreviation view :: "'r \<Rightarrow> queue_view" where
  "view \<equiv> view_of val_at list_at K"

lemma keys_distinct:
  "k_pending K \<noteq> k_processing K" "k_pending K \<noteq> k_failed K" "k_processing K \<noteq> k_failed K"
  "k_processing K \<noteq> k_pending K" "k_failed K \<noteq> k_pending K" "k_failed K \<noteq> k_processing K"
  using namespaced by (auto simp: for_namespace_def Let_def split: if_splits)

lemma marker_inject: "marker K i = marker K j \<longleftrightarrow> i = j"
  by (simp add: marker_def)

lemmas key_laws = list_keys marker_keys keys_distinct marker_inject string_laws list_laws

lemma enqueue_refines: "map_prod id view (enqueue R K av m r) = spec_call av (spec_enqueue m) (view r)"
  by (cases av) (auto simp: enqueue_def redis_call_def ENQUEUE_SCRIPT_def spec_call_def spec_enqueue_def
      view_of_def key_laws fun_eq_iff split: option.splits)

lemma ack_refines: "map_prod id view (ack R K av m r) = spec_call av (spec_ack m) (view r)"
  by (cases av) (auto simp: ack_def redis_call_def ACK_SCRIPT_def spec_call_def spec_ack_def
      view_of_def key_laws fun_eq_iff remove1_idem Let_def split_beta split: option.splits)

lemma retry_refines: "map_prod id view (retry R K av m r) = spec_call av (spec_retry m) (view r)"
  by (cases av) (auto simp: retry_def redis_call_def RETRY_SCRIPT_def spec_call_def spec_retry_def
      view_of_def key_laws fun_eq_iff remove1_idem Let_def split_beta split: option.splits)

lemma dead_letter_refines:
  "map_prod id view (dead_letter R K av m r) =
   spec_call av (spec_quarantine (not_processing m) () (to_json_bytes m)) (view r)"
  by (cases av) (auto simp: dead_letter_def redis_call_def DEAD_LETTER_SCRIPT_def spec_call_def spec_quarantine_def
      view_of_def key_laws fun_eq_iff remove1_idem Let_def split_beta split: option.splits)

lemma take_refines:
  "map_prod id view (q_call av (r_rpoplpush R (k_pending K) (k_processing K)) r) = spec_call av spec_take (view r)"
  by (cases av) (auto simp: redis_call_def spec_call_def spec_take_def view_of_def key_laws fun_eq_iff prod_eq_iff)

lemma quarantine_refines:
  "map_prod id view (and_then (q_call av (DEAD_LETTER_SCRIPT R (k_processing K) (k_failed K) raw) r)
     (\<lambda>removed r1. if removed \<noteq> 1 then (Inl err, r1) else (Inl e, r1)))
   = and_then (spec_call av (spec_quarantine err () raw) (view r)) (\<lambda>_ v. (Inl e, v))"
  by (cases av) (auto simp: redis_call_def DEAD_LETTER_SCRIPT_def spec_call_def spec_quarantine_def
      view_of_def key_laws fun_eq_iff remove1_idem Let_def split_beta)

lemma claim_refines: "map_prod id view (claim R K av1 av2 t r) = spec_claim av1 av2 t (view r)"
proof (cases "checked_timeout t")
  case (Inl e)
  then show ?thesis by (simp add: claim_def spec_claim_def)
next
  case (Inr u)
  obtain x r1 where c: "q_call av1 (r_rpoplpush R (k_pending K) (k_processing K)) r = (x, r1)" by fastforce
  have s: "spec_call av1 spec_take (view r) = (x, view r1)"
    using take_refines [of av1 r] c by simp
  show ?thesis
    using Inr quarantine_refines
    by (cases x) (auto simp: claim_def spec_claim_def c s split: option.split sum.split)
qed

lemma recover_script_result:
  "\<exists>r'. RECOVER_PROCESSING_SCRIPT R (k_processing K) (k_pending K) n r = Some (n + length (list_at r (k_processing K)), r')
     \<and> view r' = snd (spec_recover (view r))"
proof (induction "length (list_at r (k_processing K))" arbitrary: n r)
  case 0
  obtain x r1 where m: "r_rpoplpush R (k_processing K) (k_pending K) r = (x, r1)" by fastforce
  have "x = None" "list_at r1 = list_at r" "val_at r1 = val_at r"
    using move_result [of "k_processing K" "k_pending K" r] move_lists [of "k_processing K" "k_pending K" r]
      move_value [of "k_processing K" "k_pending K" r] 0 by (simp_all add: m key_laws)
  with 0 m show ?case
    by (subst RECOVER_PROCESSING_SCRIPT.simps) (simp add: view_of_def spec_recover_def)
next
  case (Suc k)
  let ?P = "list_at r (k_processing K)"
  obtain x r1 where m: "r_rpoplpush R (k_processing K) (k_pending K) r = (x, r1)" by fastforce
  from Suc(2) have ne: "?P \<noteq> []" by auto
  have x: "x = Some (last ?P)" and v: "val_at r1 = val_at r"
    and l: "list_at r1 = (list_at r)(k_processing K := butlast ?P, k_pending K := last ?P # list_at r (k_pending K))"
    using move_result [of "k_processing K" "k_pending K" r] move_lists [of "k_processing K" "k_pending K" r]
      move_value [of "k_processing K" "k_pending K" r] ne by (simp_all add: m key_laws)
  have len: "k = length (list_at r1 (k_processing K))" using Suc(2) by (simp add: l keys_distinct)
  obtain r' where rec: "RECOVER_PROCESSING_SCRIPT R (k_processing K) (k_pending K) (n + 1) r1
      = Some (n + 1 + length (list_at r1 (k_processing K)), r')" and vw: "view r' = snd (spec_recover (view r1))"
    using Suc(1) [OF len, of "n + 1"] by blast
  have "snd (spec_recover (view r1)) = snd (spec_recover (view r))"
    using ne by (simp add: spec_recover_def view_of_def l v keys_distinct)
  with rec vw len Suc(2) show ?case
    by (subst RECOVER_PROCESSING_SCRIPT.simps) (simp add: m x)
qed

lemma recover_refines:
  "map_option (map_prod id view) (recover_processing R K av r) = Some (spec_call av spec_recover (view r))"
proof -
  obtain r' where "RECOVER_PROCESSING_SCRIPT R (k_processing K) (k_pending K) 0 r = Some (length (list_at r (k_processing K)), r')"
    and "view r' = snd (spec_recover (view r))"
    using recover_script_result [of 0 r] by auto
  then show ?thesis
    by (cases av) (auto simp: recover_processing_def redis_call_def spec_call_def spec_recover_def view_of_def)
qed

lemmas queue_refines = enqueue_refines ack_refines retry_refines dead_letter_refines claim_refines recover_refines

end

section \<open>Every job is queued once\<close>

definition entries :: "queue_view \<Rightarrow> bytes list" where
  "entries v = v_pending v @ v_processing v @ v_failed v"

text \<open>
  The lists hold each entry once, and they hold exactly the marked entries; every entry is the printed
  form of a valid message, marked under its own job.
\<close>

definition queue_inv :: "queue_view \<Rightarrow> bool" where
  "queue_inv v \<longleftrightarrow> distinct (entries v)
     \<and> (\<forall>e \<in> set (entries v). \<exists>m. valid_message m \<and> e = to_json_bytes m \<and> v_marked v (q_job_id m) = Some e)
     \<and> (\<forall>j e. v_marked v j = Some e \<longrightarrow>
          e \<in> set (entries v) \<and> (\<exists>m. valid_message m \<and> q_job_id m = j \<and> e = to_json_bytes m))"

lemma queue_inv_enqueue: "queue_inv v \<Longrightarrow> valid_message m \<Longrightarrow> queue_inv (snd (spec_enqueue m v))"
proof -
  assume inv: "queue_inv v" and m: "valid_message m"
  show ?thesis
  proof (cases "v_marked v (q_job_id m)")
    case None
    have fresh: "to_json_bytes m \<notin> set (entries v)"
    proof
      assume "to_json_bytes m \<in> set (entries v)"
      then obtain n where "valid_message n" "to_json_bytes m = to_json_bytes n" "v_marked v (q_job_id n) \<noteq> None"
        using inv unfolding queue_inv_def by auto
      then show False using None m to_json_inject [of m n] by auto
    qed
    have others: "q_job_id n \<noteq> q_job_id m" if "v_marked v (q_job_id n) = Some e" for n e using that None by auto
    have ent: "entries (snd (spec_enqueue m v)) = to_json_bytes m # entries v"
      and mk: "v_marked (snd (spec_enqueue m v)) = (v_marked v)(q_job_id m := Some (to_json_bytes m))"
      using None by (simp_all add: spec_enqueue_def entries_def)
    have "\<exists>n. valid_message n \<and> e = to_json_bytes n \<and> v_marked (snd (spec_enqueue m v)) (q_job_id n) = Some e"
      if "e \<in> set (entries v)" for e
    proof -
      from that inv obtain n where "valid_message n" "e = to_json_bytes n" "v_marked v (q_job_id n) = Some e"
        unfolding queue_inv_def by blast
      with others show ?thesis unfolding mk by (intro exI [of _ n]) auto
    qed
    then show ?thesis using inv m fresh unfolding queue_inv_def ent mk by auto
  next
    case (Some e)
    then show ?thesis using inv by (simp add: spec_enqueue_def)
  qed
qed

text \<open>Moving an entry between the lists keeps the invariant.\<close>

lemma queue_inv_move:
  assumes "queue_inv v" "mset (entries w) = mset (entries v)" "v_marked w = v_marked v"
  shows "queue_inv w"
  using assms mset_eq_setD [OF assms(2)] mset_eq_imp_distinct_iff [OF assms(2)] unfolding queue_inv_def by simp

lemma mset_take: "mset (entries (snd (spec_take v))) = mset (entries v)"
  by (cases "v_pending v" rule: rev_cases) (simp_all add: spec_take_def entries_def)

lemma mset_retry: "mset (entries (snd (spec_retry m v))) = mset (entries v)"
  by (simp add: spec_retry_def entries_def)

lemma mset_quarantine: "mset (entries (snd (spec_quarantine err ok raw v))) = mset (entries v)"
  by (simp add: spec_quarantine_def entries_def)

lemma mset_recover: "mset (entries (snd (spec_recover v))) = mset (entries v)"
  by (simp add: spec_recover_def entries_def)

lemma mset_call: "mset (entries (snd (f v))) = mset (entries v) \<Longrightarrow> mset (entries (snd (spec_call av f v))) = mset (entries v)"
  by (cases av) (auto simp: spec_call_def)

lemma mset_calls:
  "mset (entries (snd (spec_call av (spec_retry m) v))) = mset (entries v)"
  "mset (entries (snd (spec_call av (spec_quarantine err ok raw) v))) = mset (entries v)"
  "mset (entries (snd (spec_call av spec_recover v))) = mset (entries v)"
  by (rule mset_call mset_retry mset_quarantine mset_recover)+

lemma set_calls:
  "set (entries (snd (spec_call av (spec_retry m) v))) = set (entries v)"
  "set (entries (snd (spec_call av (spec_quarantine err ok raw) v))) = set (entries v)"
  "set (entries (snd (spec_call av spec_recover v))) = set (entries v)"
  by (rule mset_eq_setD, rule mset_calls)+

lemma quarantine_call_state:
  "snd (and_then (spec_call av (spec_quarantine err () raw) w) (\<lambda>_ v2. (Inl e, v2)))
   = snd (spec_call av (spec_quarantine err () raw) w)"
  by (metis and_then.simps prod.collapse snd_conv sum.exhaust_sel)

lemma mset_claim: "mset (entries (snd (spec_claim av1 av2 t v))) = mset (entries v)"
proof (cases "spec_call av1 spec_take v")
  case (Pair x w)
  have "mset (entries w) = mset (entries v)" using mset_call [of spec_take v av1] mset_take Pair by simp
  moreover have "mset (entries (snd (spec_call av2 (spec_quarantine err () raw) w))) = mset (entries w)" for err raw
    by (intro mset_call mset_quarantine)
  ultimately show ?thesis
    by (cases x) (auto simp: spec_claim_def Pair quarantine_call_state split: option.splits sum.splits)
qed

lemma marked_moves:
  "v_marked (snd (spec_retry m v)) = v_marked v"
  "v_marked (snd (spec_quarantine err ok raw v)) = v_marked v"
  "v_marked (snd (spec_recover v)) = v_marked v"
  by (simp_all add: spec_retry_def spec_quarantine_def spec_recover_def)

lemma queue_inv_moves:
  assumes "queue_inv v"
  shows "queue_inv (snd (spec_retry m v))" "queue_inv (snd (spec_quarantine err ok raw v))"
    "queue_inv (snd (spec_recover v))"
  by (rule queue_inv_move [OF assms] mset_retry mset_quarantine mset_recover marked_moves)+

lemma marked_claim: "v_marked (snd (spec_claim av1 av2 t v)) = v_marked v"
proof (cases "spec_call av1 spec_take v")
  case (Pair x w)
  then have "v_marked w = v_marked v" by (cases av1) (auto simp: spec_call_def spec_take_def split: if_splits)
  moreover have "v_marked (snd (spec_call av2 (spec_quarantine err () raw) w)) = v_marked w" for err raw
    by (cases av2) (simp_all add: spec_call_def marked_moves)
  ultimately show ?thesis
    by (cases x) (auto simp: spec_claim_def Pair quarantine_call_state split: option.splits sum.splits)
qed

lemma queue_inv_ack: "queue_inv v \<Longrightarrow> valid_message m \<Longrightarrow> queue_inv (snd (spec_ack m v))"
proof -
  assume inv: "queue_inv v" and m: "valid_message m"
  show ?thesis
  proof (cases "to_json_bytes m \<in> set (v_processing v)")
    case True
    let ?w = "snd (spec_ack m v)"
    have dist: "distinct (entries v)" using inv by (simp add: queue_inv_def)
    have ent: "set (entries ?w) = set (entries v) - {to_json_bytes m}" "distinct (entries ?w)"
      using True dist by (auto simp: spec_ack_def entries_def set_remove1_eq)
    have mk: "v_marked ?w = (v_marked v)(q_job_id m := None)" using True by (simp add: spec_ack_def)
    have own: "n = m \<longleftrightarrow> q_job_id n = q_job_id m"
      if "valid_message n" "v_marked v (q_job_id n) = Some (to_json_bytes n)" for n
    proof -
      have "to_json_bytes m \<in> set (entries v)" using True by (simp add: entries_def)
      then have "v_marked v (q_job_id m) = Some (to_json_bytes m)"
        using inv m to_json_inject [of m] unfolding queue_inv_def by metis
      then show ?thesis using that m to_json_inject [of n m] by auto
    qed
    have "\<exists>n. valid_message n \<and> e = to_json_bytes n \<and> v_marked ?w (q_job_id n) = Some e"
      if "e \<in> set (entries ?w)" for e
    proof -
      from that inv obtain n where n: "valid_message n" "e = to_json_bytes n" "v_marked v (q_job_id n) = Some e"
        and "e \<noteq> to_json_bytes m"
        unfolding queue_inv_def ent by blast
      then have "q_job_id n \<noteq> q_job_id m" using own [of n] by auto
      with n show ?thesis unfolding mk by auto
    qed
    moreover have "e \<in> set (entries ?w) \<and> (\<exists>n. valid_message n \<and> q_job_id n = j \<and> e = to_json_bytes n)"
      if "v_marked ?w j = Some e" for j e
    proof -
      from that have "v_marked v j = Some e" "j \<noteq> q_job_id m" by (auto simp: mk split: if_splits)
      then obtain n where "valid_message n" "q_job_id n = j" "e = to_json_bytes n" "e \<in> set (entries v)"
        using inv unfolding queue_inv_def by blast
      then show ?thesis using \<open>j \<noteq> q_job_id m\<close> m to_json_inject [of n m] unfolding ent by auto
    qed
    ultimately show ?thesis using ent unfolding queue_inv_def by blast
  next
    case False
    then show ?thesis using inv by (simp add: spec_ack_def)
  qed
qed

lemma queue_inv_call: "queue_inv v \<Longrightarrow> queue_inv (snd (f v)) \<Longrightarrow> queue_inv (snd (spec_call av f v))"
  by (cases av) (auto simp: spec_call_def)

text \<open>One step of some client of the queue, its call answered or not.\<close>

inductive queue_step :: "'r redis \<Rightarrow> QueueKeys \<Rightarrow> 'r \<Rightarrow> 'r \<Rightarrow> bool" for R K where
  step_enqueue: "valid_message m \<Longrightarrow> queue_step R K r (snd (enqueue R K av m r))"
| step_claim: "queue_step R K r (snd (claim R K av1 av2 t r))"
| step_ack: "valid_message m \<Longrightarrow> queue_step R K r (snd (ack R K av m r))"
| step_retry: "valid_message m \<Longrightarrow> queue_step R K r (snd (retry R K av m r))"
| step_dead_letter: "valid_message m \<Longrightarrow> queue_step R K r (snd (dead_letter R K av m r))"
| step_recover: "recover_processing R K av r = Some (x, r') \<Longrightarrow> queue_step R K r r'"

inductive_cases queue_stepE: "queue_step R K r r'"

context redis_queue
begin

lemma views:
  "view (snd (enqueue R K av m r)) = snd (spec_call av (spec_enqueue m) (view r))"
  "view (snd (ack R K av m r)) = snd (spec_call av (spec_ack m) (view r))"
  "view (snd (retry R K av m r)) = snd (spec_call av (spec_retry m) (view r))"
  "view (snd (dead_letter R K av m r)) = snd (spec_call av (spec_quarantine (not_processing m) () (to_json_bytes m)) (view r))"
  "view (snd (claim R K av1 av2 t r)) = snd (spec_claim av1 av2 t (view r))"
  by (metis enqueue_refines snd_map_prod, metis ack_refines snd_map_prod, metis retry_refines snd_map_prod,
      metis dead_letter_refines snd_map_prod, metis claim_refines snd_map_prod)

lemma recover_view:
  "recover_processing R K av r = Some (x, r') \<Longrightarrow> view r' = snd (spec_call av spec_recover (view r))"
  using recover_refines [of av r] by (metis map_option_eq_Some option.inject snd_conv snd_map_prod)

lemma step_keeps_inv: "queue_step R K r r' \<Longrightarrow> queue_inv (view r) \<Longrightarrow> queue_inv (view r')"
  by (induction rule: queue_step.induct)
    (auto simp: views recover_view mset_claim marked_claim
      intro: queue_inv_call queue_inv_enqueue queue_inv_ack queue_inv_moves intro: queue_inv_move)

lemma reachable_inv: "(queue_step R K)\<^sup>*\<^sup>* r0 r \<Longrightarrow> queue_inv (view r0) \<Longrightarrow> queue_inv (view r)"
  by (induction rule: rtranclp_induct) (auto intro: step_keeps_inv)

lemma step_entries:
  assumes "queue_step R K r r'" "e \<in> set (entries (view r))"
  shows "e \<in> set (entries (view r'))
    \<or> (\<exists>m av. valid_message m \<and> e = to_json_bytes m \<and> e \<in> set (v_processing (view r)) \<and> r' = snd (ack R K av m r))"
  using assms
proof cases
  case (step_enqueue m av)
  then show ?thesis using assms(2)
    by (cases av) (auto simp: views spec_call_def spec_enqueue_def entries_def split: option.splits)
next
  case (step_claim av1 av2 t)
  then show ?thesis using assms(2) mset_eq_setD [OF mset_claim] by (simp add: views)
next
  case (step_ack m av)
  show ?thesis
  proof (cases "e = to_json_bytes m \<and> e \<in> set (v_processing (view r))")
    case False
    then have "e \<in> set (entries (snd (spec_ack m (view r))))"
      using assms(2) by (auto simp: spec_ack_def entries_def in_set_remove1)
    then show ?thesis using step_ack assms(2) by (cases av) (auto simp: views spec_call_def)
  qed (use step_ack in blast)
next
  case (step_retry m av)
  then show ?thesis using assms(2) by (simp add: set_calls views)
next
  case (step_dead_letter m av)
  then show ?thesis using assms(2) by (simp add: set_calls views)
next
  case (step_recover av x)
  then show ?thesis using assms(2) by (simp add: set_calls recover_view)
qed

lemma reachable_exactly_once:
  assumes "(queue_step R K)\<^sup>*\<^sup>* r0 r" "queue_inv (view r0)" "valid_message m"
  shows "count_list (entries (view r)) (to_json_bytes m) = (if v_marked (view r) (q_job_id m) = Some (to_json_bytes m) then 1 else 0)"
proof -
  have inv: "queue_inv (view r)" by (rule reachable_inv [OF assms(1,2)])
  then have "count_list (entries (view r)) e = (if e \<in> set (entries (view r)) then 1 else 0)" for e
    unfolding queue_inv_def by (simp add: count_list_eq_length_filter distinct_length_filter flip: count_mset)
  moreover have "to_json_bytes m \<in> set (entries (view r)) \<longleftrightarrow> v_marked (view r) (q_job_id m) = Some (to_json_bytes m)"
    using inv assms(3) to_json_inject unfolding queue_inv_def by metis
  ultimately show ?thesis by simp
qed

end

text \<open>The production keys, and the kind of value each key of the application holds.\<close>

definition DEFAULT_KEYS :: QueueKeys where
  "DEFAULT_KEYS = \<lparr>k_pending = ''ground:telemetry:jobs:pending'', k_processing = ''ground:telemetry:jobs:processing'',
     k_failed = ''ground:telemetry:jobs:failed'', k_marker_prefix = ''ground:telemetry:jobs:marker''\<rparr>"

definition key_kind :: "string \<Rightarrow> redis_kind" where
  "key_kind k =
     (if k \<in> {k_pending DEFAULT_KEYS, k_processing DEFAULT_KEYS, k_failed DEFAULT_KEYS} then KList
      else if starts_with (k_marker_prefix DEFAULT_KEYS) k then KString else KHash)"

lemma starts_with_append: "starts_with p (p @ s)"
  by (induction p) auto

interpretation fake_queue: redis_queue fake_redis key_kind "\<lambda>r. map_of (fr_values r)" "\<lambda>r. assoc_list (fr_lists r)"
    "\<lambda>r k. map_of (assoc_list (fr_hashes r) k)" DEFAULT_KEYS
proof unfold_locales
  show "\<exists>namespace. for_namespace namespace = Inr DEFAULT_KEYS"
    by (rule exI [of _ DEFAULT_NAMESPACE])
      (simp add: for_namespace_def DEFAULT_NAMESPACE_def DEFAULT_KEYS_def strip_by_def)
  show "key_kind (marker DEFAULT_KEYS j) = KString" for j
    using starts_with_append [of "k_marker_prefix DEFAULT_KEYS" "'':'' @ j"]
    by (auto simp: key_kind_def marker_def DEFAULT_KEYS_def)
qed (simp_all add: key_kind_def)

definition sample_message :: QueueMessage where
  "sample_message = \<lparr>q_job_id = ''00000000-0000-0000-0000-000000000001'', q_packet_id = ''TLM-P01-B0000002A-S00000001''\<rparr>"

lemma sample_message_ok: "queue_message (q_job_id sample_message) (q_packet_id sample_message) = Inr sample_message"
  by code_simp

lemma empty_view:
  "view_of (\<lambda>r. map_of (fr_values r)) (\<lambda>r. assoc_list (fr_lists r)) DEFAULT_KEYS empty_redis
   = \<lparr>v_pending = [], v_processing = [], v_failed = [], v_marked = (\<lambda>_. None)\<rparr>"
  by (simp add: view_of_def empty_redis_def assoc_list_def)

section \<open>Properties of the queue\<close>

text \<open>
  C10. The methods implement the abstract queue of three lists and a set of markers, whether or not
  their calls are answered: enqueue adds an unmarked job at the tail and marks it, claim moves the
  oldest entry to the held list and moves a malformed one on to the failed list, ack removes a held
  entry and its mark, retry and dead_letter move it, and the recovery loop terminates, returning the
  held entries to the waiting list in their order.
\<close>

theorem queue_implements_lists:
  assumes "redis_queue R kind val_at list_at hash_at K"
  shows "map_prod id (view_of val_at list_at K) (enqueue R K av m r) = spec_call av (spec_enqueue m) (view_of val_at list_at K r)
    \<and> map_prod id (view_of val_at list_at K) (claim R K av av' t r) = spec_claim av av' t (view_of val_at list_at K r)
    \<and> map_prod id (view_of val_at list_at K) (ack R K av m r) = spec_call av (spec_ack m) (view_of val_at list_at K r)
    \<and> map_prod id (view_of val_at list_at K) (retry R K av m r) = spec_call av (spec_retry m) (view_of val_at list_at K r)
    \<and> map_prod id (view_of val_at list_at K) (dead_letter R K av m r)
        = spec_call av (spec_quarantine (not_processing m) () (to_json_bytes m)) (view_of val_at list_at K r)
    \<and> map_option (map_prod id (view_of val_at list_at K)) (recover_processing R K av r)
        = Some (spec_call av spec_recover (view_of val_at list_at K r))"
  by (intro conjI redis_queue.queue_refines [OF assms])

theorem queue_implements_lists_witness:
  "map_prod id (view_of (\<lambda>r. map_of (fr_values r)) (\<lambda>r. assoc_list (fr_lists r)) DEFAULT_KEYS)
     (enqueue fake_redis DEFAULT_KEYS DownAfter sample_message empty_redis)
   = (Inl QueueRedisError, \<lparr>v_pending = [to_json_bytes sample_message], v_processing = [], v_failed = [],
        v_marked = [q_job_id sample_message \<mapsto> to_json_bytes sample_message]\<rparr>)"
  using queue_implements_lists [OF fake_queue.redis_queue_axioms, of DownAfter sample_message empty_redis Up "PyInt 0"]
  by (simp add: empty_view spec_call_def spec_enqueue_def)

text \<open>
  C11. From an empty queue, after any sequence of operations by any clients with any pattern of lost
  calls: a valid message is in the lists exactly once if it is marked and not at all otherwise, and a
  step makes an entry disappear only if it acknowledges that held entry.
\<close>

theorem jobs_queued_exactly_once:
  assumes "redis_queue R kind val_at list_at hash_at K"
    and "view_of val_at list_at K r0 = \<lparr>v_pending = [], v_processing = [], v_failed = [], v_marked = (\<lambda>_. None)\<rparr>"
    and "(queue_step R K)\<^sup>*\<^sup>* r0 r"
    and "valid_message m"
  shows "count_list (entries (view_of val_at list_at K r)) (to_json_bytes m)
      = (if v_marked (view_of val_at list_at K r) (q_job_id m) = Some (to_json_bytes m) then 1 else 0)
    \<and> (\<forall>r'. queue_step R K r r' \<and> to_json_bytes m \<in> set (entries (view_of val_at list_at K r))
          \<and> to_json_bytes m \<notin> set (entries (view_of val_at list_at K r')) \<longrightarrow>
          to_json_bytes m \<in> set (v_processing (view_of val_at list_at K r)) \<and> (\<exists>av. r' = snd (ack R K av m r)))"
proof -
  have "queue_inv (view_of val_at list_at K r0)"
    unfolding assms(2) by (simp add: queue_inv_def entries_def)
  moreover have "n = m" if "valid_message n" "to_json_bytes n = to_json_bytes m" for n
    using that assms(4) to_json_inject by blast
  ultimately show ?thesis
    using redis_queue.reachable_exactly_once [OF assms(1,3) _ assms(4)]
      redis_queue.step_entries [OF assms(1), of r _ "to_json_bytes m"] by metis
qed

theorem jobs_queued_exactly_once_witness:
  "count_list (entries (view_of (\<lambda>r. map_of (fr_values r)) (\<lambda>r. assoc_list (fr_lists r)) DEFAULT_KEYS
      (snd (enqueue fake_redis DEFAULT_KEYS Up sample_message empty_redis)))) (to_json_bytes sample_message) = 1"
proof -
  have valid: "valid_message sample_message" using sample_message_ok by (simp add: valid_message_def)
  let ?r = "snd (enqueue fake_redis DEFAULT_KEYS Up sample_message empty_redis)"
  have "(queue_step fake_redis DEFAULT_KEYS)\<^sup>*\<^sup>* empty_redis ?r"
    by (intro r_into_rtranclp step_enqueue valid)
  then show ?thesis
    using jobs_queued_exactly_once [OF fake_queue.redis_queue_axioms empty_view _ valid, of ?r]
    by (simp add: fake_queue.views empty_view spec_call_def spec_enqueue_def)
qed

text \<open>
  The two-field JSON contract: a valid message is read back unchanged from its queue entry, and
  whatever bytes are read as a message, they give a valid one.
\<close>

lemma queue_entry_round_trip:
  assumes "queue_message j p = Inr m"
  shows "from_json_bytes (to_json_bytes m) = Inr m
    \<and> (\<forall>raw m'. from_json_bytes raw = Inr m' \<longrightarrow>
        queue_message (q_job_id m') (q_packet_id m') = Inr m' \<and> length (q_packet_id m') = 27 \<and> length (q_job_id m') = 36)"
proof -
  from assms have "valid_message m" by (auto simp: valid_message_def queue_message_iff)
  moreover have "length (q_packet_id n) = 27 \<and> length (q_job_id n) = 36" if "valid_message n" for n
    using that by (auto simp: valid_message_iff packet_id_format_def)
  ultimately show ?thesis
    using from_to_json from_json_valid valid_message_def by blast
qed

end
