(* ===== verification/Db_Tables.thy ===== *)
theory Db_Tables
  imports Ground_Prelude
begin

text \<open>
  Tables of the relational database as lists of rows, in insertion order: lookup by key, insertion
  and replacement by key, and the column types of the schema. The facts that every table needs, that
  distinct keys stay distinct and that a lookup sees exactly the last write, are proved once.
\<close>

definition get_row :: "('r \<Rightarrow> 'k) \<Rightarrow> 'k \<Rightarrow> 'r list \<Rightarrow> 'r option" where
  "get_row key k rows = find (\<lambda>r. key r = k) rows"

definition has_row :: "('r \<Rightarrow> 'k) \<Rightarrow> 'k \<Rightarrow> 'r list \<Rightarrow> bool" where
  "has_row key k rows \<longleftrightarrow> (\<exists>r \<in> set rows. key r = k)"

definition put_row :: "('r \<Rightarrow> 'k) \<Rightarrow> 'r \<Rightarrow> 'r list \<Rightarrow> 'r list" where
  "put_row key row rows = map (\<lambda>r. if key r = key row then row else r) rows"

text \<open>A nullable foreign key.\<close>

definition has_row_opt :: "('r \<Rightarrow> 'k) \<Rightarrow> 'k option \<Rightarrow> 'r list \<Rightarrow> bool" where
  "has_row_opt key ko rows = (case ko of None \<Rightarrow> True | Some k \<Rightarrow> has_row key k rows)"

text \<open>Column types: \<^verbatim>\<open>String(n)\<close> and \<^verbatim>\<open>Text\<close> (no NUL), \<^verbatim>\<open>Integer\<close>, \<^verbatim>\<open>BigInteger\<close>.\<close>

definition pg_text :: "string \<Rightarrow> bool" where
  "pg_text s \<longleftrightarrow> CHR 0x00 \<notin> set s"

definition varchar :: "nat \<Rightarrow> string \<Rightarrow> bool" where
  "varchar n s \<longleftrightarrow> length s \<le> n \<and> pg_text s"

definition opt_ok :: "('a \<Rightarrow> bool) \<Rightarrow> 'a option \<Rightarrow> bool" where
  "opt_ok p x = (case x of None \<Rightarrow> True | Some a \<Rightarrow> p a)"

definition int4 :: "int \<Rightarrow> bool" where
  "int4 n \<longleftrightarrow> - 2147483648 \<le> n \<and> n \<le> 2147483647"

definition int8 :: "int \<Rightarrow> bool" where
  "int8 n \<longleftrightarrow> - 9223372036854775808 \<le> n \<and> n \<le> 9223372036854775807"

section \<open>Facts\<close>

lemma get_row_Some: "get_row key k rows = Some r \<Longrightarrow> r \<in> set rows \<and> key r = k"
  by (auto simp: get_row_def find_Some_iff)

lemma get_row_None: "get_row key k rows = None \<longleftrightarrow> \<not> has_row key k rows"
  by (auto simp: get_row_def has_row_def find_None_iff)

lemma has_row_key: "has_row key k rows \<longleftrightarrow> k \<in> key ` set rows"
  by (auto simp: has_row_def)

lemma get_row_unique: "distinct (map key rows) \<Longrightarrow> r \<in> set rows \<Longrightarrow> get_row key (key r) rows = Some r"
  by (induction rows) (auto simp: get_row_def)

lemma row_unique: "distinct (map key rows) \<Longrightarrow> r \<in> set rows \<Longrightarrow> r' \<in> set rows \<Longrightarrow> key r = key r' \<Longrightarrow> r = r'"
  by (metis get_row_unique option.inject)

lemma get_row_iff: "distinct (map key rows) \<Longrightarrow> get_row key k rows = Some r \<longleftrightarrow> r \<in> set rows \<and> key r = k"
  using get_row_Some get_row_unique by fastforce

lemma keys_put_row [simp]: "map key (put_row key row rows) = map key rows"
  by (auto simp: put_row_def)

lemma set_keys_put_row [simp]: "key ` set (put_row key row rows) = key ` set rows"
  using keys_put_row [of key row rows] by (metis list.set_map)

lemma get_put_row:
  "get_row key k (put_row key row rows) =
     (if k = key row then (if has_row key k rows then Some row else None) else get_row key k rows)"
  by (induction rows) (auto simp: put_row_def get_row_def has_row_def)

lemma has_put_row [simp]: "has_row key k (put_row key row rows) = has_row key k rows"
  by (simp add: has_row_key)

lemma get_add_row:
  "get_row key k (rows @ [row]) = (case get_row key k rows of Some r \<Rightarrow> Some r | None \<Rightarrow> if key row = k then Some row else None)"
  by (induction rows) (auto simp: get_row_def)

lemma has_add_row [simp]: "has_row key k (rows @ [row]) \<longleftrightarrow> has_row key k rows \<or> key row = k"
  by (auto simp: has_row_def)

lemma has_row_get: "get_row key k rows = Some r \<Longrightarrow> has_row key k rows"
  by (metis get_row_None option.distinct(1))

lemma set_put_row: "r \<in> set (put_row key row rows) \<Longrightarrow> r = row \<or> r \<in> set rows"
  by (auto simp: put_row_def split: if_splits)

lemma put_row_other: "r \<in> set rows \<Longrightarrow> key r \<noteq> key row \<Longrightarrow> r \<in> set (put_row key row rows)"
  by (force simp: put_row_def)

lemma put_row_mem: "has_row key (key row) rows \<Longrightarrow> row \<in> set (put_row key row rows)"
  by (force simp: put_row_def has_row_def)

lemma put_row_same: "(\<And>r. r \<in> set rows \<Longrightarrow> key r = key row \<Longrightarrow> f r = f row) \<Longrightarrow> map f (put_row key row rows) = map f rows"
  by (auto simp: put_row_def)

end
