(* ===== verification/Sha256.thy ===== *)
theory Sha256
  imports Ground_Prelude
begin

text \<open>
  \<^verbatim>\<open>hashlib.sha256(data).hexdigest()\<close> of Python's standard library: SHA-256 as FIPS 180-4 defines it,
  on 32-bit words. The services store the digest beside the raw bytes; no proof depends on its values.
\<close>

type_synonym word32 = "32 word"

text \<open>
  The constants are the leading fractional bits of square and cube roots of the first primes:
  \<open>root_bits k b n x\<close> fixes the lowest \<open>b\<close> bits of the \<open>k\<close>-th root of \<open>n\<close>, and a 32-bit word keeps the
  fraction of a root scaled by 2 to the 32.
\<close>

fun root_bits :: "nat \<Rightarrow> nat \<Rightarrow> int \<Rightarrow> int \<Rightarrow> int" where
  "root_bits k 0 n x = x"
| "root_bits k (Suc b) n x = root_bits k b n (if (x + 2 ^ b) ^ k \<le> n then x + 2 ^ b else x)"

definition root_word :: "nat \<Rightarrow> int \<Rightarrow> word32" where
  "root_word k p = word_of_int (root_bits k 36 (p * 2 ^ (32 * k)) 0)"

definition sha_primes :: "int list" where
  "sha_primes = filter (\<lambda>n. list_all (\<lambda>d. n = d \<or> n mod d \<noteq> 0) [2, 3, 5, 7, 11, 13, 17]) [2..311]"

definition sha_K :: "word32 list" where
  "sha_K = map (root_word 3) sha_primes"

definition sha_H0 :: "word32 list" where
  "sha_H0 = map (root_word 2) (take 8 sha_primes)"

definition rotr :: "nat \<Rightarrow> word32 \<Rightarrow> word32" where
  "rotr n x = drop_bit n x OR push_bit (32 - n) x"

definition sha_Ch :: "word32 \<Rightarrow> word32 \<Rightarrow> word32 \<Rightarrow> word32" where
  "sha_Ch x y z = (x AND y) XOR (NOT x AND z)"

definition sha_Maj :: "word32 \<Rightarrow> word32 \<Rightarrow> word32 \<Rightarrow> word32" where
  "sha_Maj x y z = (x AND y) XOR (x AND z) XOR (y AND z)"

definition sha_S0 :: "word32 \<Rightarrow> word32" where "sha_S0 x = rotr 2 x XOR rotr 13 x XOR rotr 22 x"
definition sha_S1 :: "word32 \<Rightarrow> word32" where "sha_S1 x = rotr 6 x XOR rotr 11 x XOR rotr 25 x"
definition sha_s0 :: "word32 \<Rightarrow> word32" where "sha_s0 x = rotr 7 x XOR rotr 18 x XOR drop_bit 3 x"
definition sha_s1 :: "word32 \<Rightarrow> word32" where "sha_s1 x = rotr 17 x XOR rotr 19 x XOR drop_bit 10 x"

text \<open>Padding to a multiple of 64 bytes with the bit length in the last eight.\<close>

definition sha_pad :: "bytes \<Rightarrow> bytes" where
  "sha_pad m = m @ [0x80] @ replicate ((119 - length m mod 64) mod 64) 0 @ be_bytes 8 (8 * int (length m))"

fun be_words :: "bytes \<Rightarrow> word32 list" where
  "be_words (a # b # c # d # rest) = word_of_int (be_value [a, b, c, d]) # be_words rest"
| "be_words _ = []"

text \<open>The message schedule, newest word first while it grows.\<close>

definition sha_extend :: "word32 list \<Rightarrow> word32 list" where
  "sha_extend ws = (sha_s1 (ws ! 1) + ws ! 6 + sha_s0 (ws ! 14) + ws ! 15) # ws"

definition sha_schedule :: "word32 list \<Rightarrow> word32 list" where
  "sha_schedule block = rev ((sha_extend ^^ 48) (rev block))"

fun sha_round :: "word32 list \<Rightarrow> word32 \<times> word32 \<Rightarrow> word32 list" where
  "sha_round [a, b, c, d, e, f, g, h] (k, w) =
     (let t1 = h + sha_S1 e + sha_Ch e f g + k + w; t2 = sha_S0 a + sha_Maj a b c
      in [t1 + t2, a, b, c, d + t1, e, f, g])"
| "sha_round st _ = st"

definition sha_block :: "word32 list \<Rightarrow> word32 list \<Rightarrow> word32 list" where
  "sha_block H block = map2 (+) H (foldl sha_round H (zip sha_K (sha_schedule block)))"

fun sha_blocks :: "nat \<Rightarrow> word32 list \<Rightarrow> word32 list \<Rightarrow> word32 list" where
  "sha_blocks 0 H ws = H"
| "sha_blocks (Suc n) H ws = sha_blocks n (sha_block H (take 16 ws)) (drop 16 ws)"

definition sha256 :: "bytes \<Rightarrow> word32 list" where
  "sha256 m = (let ws = be_words (sha_pad m) in sha_blocks (length ws div 16) sha_H0 ws)"

definition sha256_hexdigest :: "bytes \<Rightarrow> string" where
  "sha256_hexdigest m = concat (map (\<lambda>w. fmt_hex 8 (uint w)) (sha256 m))"

section \<open>The digest has 64 characters\<close>

lemma length_sha_round [simp]: "length (sha_round st kw) = length st"
  by (induction st kw rule: sha_round.induct) (simp_all add: Let_def)

lemma length_sha_rounds [simp]: "length (foldl sha_round st kws) = length st"
  by (induction kws arbitrary: st) simp_all

lemma length_sha_blocks [simp]: "length (sha_blocks n H ws) = length H"
  by (induction n arbitrary: H ws) (simp_all add: sha_block_def)

lemma length_primes: "8 \<le> length sha_primes"
  by code_simp

lemma length_sha256 [simp]: "length (sha256 m) = 8"
  by (simp add: sha256_def sha_H0_def Let_def length_primes)

lemma length_hex8: "length (fmt_hex 8 (uint (w :: word32))) = 8"
proof -
  have "uint w < int (16 ^ 8)" using uint_lt2p [of w] by simp
  then show ?thesis by (subst py_format_fixed) (auto simp: uint_ge_0)
qed

lemma length_hexdigest [simp]: "length (sha256_hexdigest m) = 64"
proof -
  have "length (concat (map (\<lambda>w. fmt_hex 8 (uint (w :: word32))) ws)) = 8 * length ws" for ws
    by (induction ws) (simp_all add: length_hex8)
  then show ?thesis by (simp add: sha256_hexdigest_def)
qed

end
