(* ===== verification/Py_Datetime.thy ===== *)
theory Py_Datetime
  imports Ground_Prelude
begin

text \<open>
  \<^verbatim>\<open>datetime.isoformat()\<close> of Python's standard library, and the normalisation to UTC the repository
  applies to stored timestamps.
\<close>

text \<open>Year, month and day of a day number counted from 1970-01-01 (proleptic Gregorian calendar).\<close>

definition civil_date :: "int \<Rightarrow> int \<times> int \<times> int" where
  "civil_date days =
     (let z = days + 719468; era = z div 146097; doe = z mod 146097;
          yoe = (doe - doe div 1460 + doe div 36524 - doe div 146096) div 365;
          doy = doe - (365 * yoe + yoe div 4 - yoe div 100);
          mp = (5 * doy + 2) div 153;
          d = doy - (153 * mp + 2) div 5 + 1;
          m = (if mp < 10 then mp + 3 else mp - 9);
          y = yoe + era * 400 + (if m \<le> 2 then 1 else 0)
      in (y, m, d))"

definition iso_offset :: "int \<Rightarrow> string" where
  "iso_offset off =
     (let a = abs off; us = a mod 1000000; s = a div 1000000 mod 60; mi = a div 60000000 mod 60; h = a div 3600000000
      in (if off < 0 then ''-'' else ''+'') @ fmt_dec 2 h @ '':'' @ fmt_dec 2 mi
         @ (if s = 0 \<and> us = 0 then [] else '':'' @ fmt_dec 2 s @ (if us = 0 then [] else ''.'' @ fmt_dec 6 us)))"

definition isoformat :: "datetime \<Rightarrow> string" where
  "isoformat t =
     (let (y, m, d) = civil_date (td_days (dt_wall t)); sec = td_seconds (dt_wall t); us = td_microseconds (dt_wall t)
      in fmt_dec 4 y @ ''-'' @ fmt_dec 2 m @ ''-'' @ fmt_dec 2 d @ ''T''
         @ fmt_dec 2 (sec div 3600) @ '':'' @ fmt_dec 2 (sec div 60 mod 60) @ '':'' @ fmt_dec 2 (sec mod 60)
         @ (if us = 0 then [] else ''.'' @ fmt_dec 6 us)
         @ (case dt_offset t of None \<Rightarrow> [] | Some off \<Rightarrow> iso_offset off))"

text \<open>\<^verbatim>\<open>_as_utc\<close> of the repository: a naive timestamp is read as UTC, an aware one is converted.\<close>

definition as_utc :: "datetime \<Rightarrow> datetime" where
  "as_utc value =
     (case dt_offset value of
        None \<Rightarrow> value\<lparr>dt_offset := Some 0\<rparr>
      | Some off \<Rightarrow> \<lparr>dt_wall = dt_wall value - off, dt_offset = Some 0\<rparr>)"

lemma instant_as_utc [simp]: "instant (as_utc t) = instant t"
  by (simp add: as_utc_def instant_def split: option.splits)

lemma as_utc_wall: "as_utc t = utc (instant t)"
  by (simp add: as_utc_def instant_def utc_def split: option.splits)

lemma as_utc_idem [simp]: "as_utc (as_utc t) = as_utc t"
  by (simp add: as_utc_wall)

end
