(* ===== verification/Telemetry_Storage.thy ===== *)
theory Telemetry_Storage
  imports Complex_Main Db_Tables Sha256 Py_Datetime Py_Json Telemetry_Health
begin

text \<open>
  The durable records and the transactional repository (\<^verbatim>\<open>mission_ground/telemetry/storage.py\<close>). The
  database is the seven tables the module declares; a row is a record with the declared columns, and
  an insertion or update enforces the declared column types (\<^verbatim>\<open>DataError\<close>) and the primary-key,
  unique, check and foreign-key constraints (\<^verbatim>\<open>IntegrityError\<close>). A repository operation is one
  transaction: it returns its result and the committed database, or an error and nothing changes.
  The clock is read once per transaction, and the random UUIDs a transaction draws are arguments.
\<close>

section \<open>Enumerations\<close>

definition MAX_UINT32 :: int where "MAX_UINT32 = 0xFFFFFFFF"
definition HALF_UINT32_RANGE :: int where "HALF_UINT32_RANGE = push_bit 31 1"
definition MAX_EVIDENCE_BODY_BYTES :: int where "MAX_EVIDENCE_BODY_BYTES = 1024"

datatype DeliveryValidationStatus = V_PENDING | V_ACCEPTED | V_REJECTED | V_DUPLICATE | V_CONFLICT

datatype DeliveryQueueStatus = Q_NOT_APPLICABLE | Q_PENDING_QUEUE | Q_QUEUED

datatype StoredDisposition = SD_FIRST | SD_IN_ORDER | SD_GAP | SD_LATE

datatype ProcessingJobState = J_PENDING_QUEUE | J_QUEUED | J_PROCESSING | J_RETRY_WAIT | J_COMPLETE | J_FAILED

fun validation_value :: "DeliveryValidationStatus \<Rightarrow> string" where
  "validation_value V_PENDING = ''PENDING''"
| "validation_value V_ACCEPTED = ''ACCEPTED''"
| "validation_value V_REJECTED = ''REJECTED''"
| "validation_value V_DUPLICATE = ''DUPLICATE''"
| "validation_value V_CONFLICT = ''CONFLICT''"

fun disposition_value :: "StoredDisposition \<Rightarrow> string" where
  "disposition_value SD_FIRST = ''FIRST''"
| "disposition_value SD_IN_ORDER = ''IN_ORDER''"
| "disposition_value SD_GAP = ''GAP''"
| "disposition_value SD_LATE = ''LATE''"

fun job_state_value :: "ProcessingJobState \<Rightarrow> string" where
  "job_state_value J_PENDING_QUEUE = ''PENDING_QUEUE''"
| "job_state_value J_QUEUED = ''QUEUED''"
| "job_state_value J_PROCESSING = ''PROCESSING''"
| "job_state_value J_RETRY_WAIT = ''RETRY_WAIT''"
| "job_state_value J_COMPLETE = ''COMPLETE''"
| "job_state_value J_FAILED = ''FAILED''"

fun classification_value :: "HealthClassification \<Rightarrow> string" where
  "classification_value NOMINAL = ''NOMINAL''"
| "classification_value WARNING = ''WARNING''"
| "classification_value CRITICAL = ''CRITICAL''"

section \<open>Rows\<close>

text \<open>Column prefixes: \<open>d_\<close> deliveries, \<open>i_\<close> request identities, \<open>p_\<close> packets, \<open>s_\<close> sequence states, \<open>j_\<close> jobs, \<open>t_\<close> processed telemetry, \<open>a_\<close> audit events.\<close>

record TelemetryDeliveryReceipt =
  d_receipt_id :: uuid
  d_presented_request_id :: "string option"
  d_canonical_request_id :: "uuid option"
  d_peer_certificate_identity :: string
  d_content_type :: "string option"
  d_vendor_sent_at :: "datetime option"
  d_received_at :: datetime
  d_updated_at :: datetime
  d_raw_body :: bytes
  d_raw_body_size :: int
  d_body_sha256 :: string
  d_validation_status :: DeliveryValidationStatus
  d_rejection_reason :: "string option"
  d_parsed_identifiers :: "json option"
  d_duplicate_of_receipt_id :: "uuid option"
  d_logical_packet_id :: "string option"
  d_queue_status :: DeliveryQueueStatus

record TelemetryRequestIdentity =
  i_request_id :: uuid
  i_first_receipt_id :: uuid
  i_body_sha256 :: string
  i_created_at :: datetime

record LogicalTelemetryPacket =
  p_packet_id :: string
  p_source_receipt_id :: uuid
  p_protocol_version :: int
  p_payload_id :: int
  p_boot_id :: int
  p_sequence_number :: int
  p_sample_timestamp_us :: int
  p_temperature_centi_c :: int
  p_voltage_mv :: int
  p_operating_mode :: int
  p_fault_flags :: int
  p_raw_sha256 :: string
  p_sequence_disposition :: StoredDisposition
  p_missing_before :: int
  p_accepted_at :: datetime

record TelemetrySequenceState =
  s_payload_id :: int
  s_boot_id :: int
  s_high_water_sequence :: int
  s_accepted_packet_count :: int
  s_missing_packet_count :: int
  s_last_high_water_packet_id :: string
  s_created_at :: datetime
  s_updated_at :: datetime

record TelemetryProcessingJob =
  j_job_id :: uuid
  j_packet_id :: string
  j_state :: ProcessingJobState
  j_queue_message_id :: "string option"
  j_attempt_count :: int
  j_max_attempts :: int
  j_claimed_by :: "string option"
  j_claimed_at :: "datetime option"
  j_lease_expires_at :: "datetime option"
  j_next_attempt_at :: "datetime option"
  j_last_error :: "string option"
  j_failed_at :: "datetime option"
  j_completed_at :: "datetime option"
  j_created_at :: datetime
  j_updated_at :: datetime

text \<open>Finite double-precision numbers are rationals.\<close>

type_synonym py_float = rat

record ProcessedTelemetry =
  t_packet_id :: string
  t_processing_job_id :: uuid
  t_temperature_c :: py_float
  t_voltage_v :: py_float
  t_operating_mode :: string
  t_fault_names :: "string list"
  t_classification :: HealthClassification
  t_is_stale :: bool
  t_processor_version :: string
  t_processed_at :: datetime

record TelemetryAuditEvent =
  a_event_id :: uuid
  a_occurred_at :: datetime
  a_service_name :: string
  a_event_name :: string
  a_actor_identity :: string
  a_outcome :: string
  a_reason :: "string option"
  a_receipt_id :: "uuid option"
  a_packet_id :: "string option"
  a_job_id :: "uuid option"
  a_event_data :: json

record telemetry_db =
  receipts :: "TelemetryDeliveryReceipt list"
  request_identities :: "TelemetryRequestIdentity list"
  packets :: "LogicalTelemetryPacket list"
  sequence_states :: "TelemetrySequenceState list"
  jobs :: "TelemetryProcessingJob list"
  processed :: "ProcessedTelemetry list"
  audit_events :: "TelemetryAuditEvent list"

definition create_schema :: telemetry_db where
  "create_schema = \<lparr>receipts = [], request_identities = [], packets = [], sequence_states = [],
     jobs = [], processed = [], audit_events = []\<rparr>"

section \<open>Result types and errors\<close>

record DeliveryRecordResult =
  dr_receipt_id :: uuid
  dr_validation_status :: DeliveryValidationStatus
  dr_queue_status :: DeliveryQueueStatus
  dr_request_replay :: bool
  dr_request_conflict :: bool
  dr_duplicate_of_receipt_id :: "uuid option"
  dr_logical_packet_id :: "string option"

record DecodedTelemetryValues =
  dv_protocol_version :: int
  dv_payload_id :: int
  dv_boot_id :: int
  dv_sequence_number :: int
  dv_sample_timestamp_us :: int
  dv_temperature_centi_c :: int
  dv_voltage_mv :: int
  dv_operating_mode :: int
  dv_fault_flags :: int

record PacketAcceptanceResult =
  pa_receipt_id :: uuid
  pa_packet_id :: "string option"
  pa_job_id :: "uuid option"
  pa_validation_status :: DeliveryValidationStatus
  pa_queue_status :: DeliveryQueueStatus
  pa_sequence_disposition :: "StoredDisposition option"
  pa_missing_before :: int
  pa_duplicate :: bool
  pa_conflict :: bool
  pa_duplicate_of_receipt_id :: "uuid option"

record TelemetryWorkItem =
  wi_job_id :: uuid
  wi_packet_id :: string
  wi_raw_body :: bytes
  wi_received_at :: datetime
  wi_values :: DecodedTelemetryValues
  wi_attempt_count :: int
  wi_max_attempts :: int

record ProcessingResultValues =
  pr_temperature_c :: py_float
  pr_voltage_v :: py_float
  pr_operating_mode :: string
  pr_fault_names :: "string list"
  pr_classification :: HealthClassification
  pr_is_stale :: bool
  pr_processor_version :: string

record ProcessingFailureResult =
  pf_job_id :: uuid
  pf_state :: ProcessingJobState
  pf_attempt_count :: int
  pf_next_attempt_at :: "datetime option"

datatype storage_error = StorageValueError string | TelemetryStorageError string
  | DeliveryNotFoundError string | InvalidDeliveryStateError string
  | ProcessingJobNotFoundError string | ProcessingResultConflictError string
  | IntegrityError | DataError | OperationalError

text \<open>The errors of the database layer, \<^verbatim>\<open>SQLAlchemyError\<close>.\<close>

fun is_sqlalchemy_error :: "storage_error \<Rightarrow> bool" where
  "is_sqlalchemy_error IntegrityError = True"
| "is_sqlalchemy_error DataError = True"
| "is_sqlalchemy_error OperationalError = True"
| "is_sqlalchemy_error _ = False"

definition dv_packet_id :: "DecodedTelemetryValues \<Rightarrow> string" where
  "dv_packet_id v = ''TLM-P'' @ fmt_dec 2 (dv_payload_id v) @ ''-B'' @ fmt_HEX 8 (dv_boot_id v)
     @ ''-S'' @ fmt_HEX 8 (dv_sequence_number v)"

abbreviation json_int :: "int \<Rightarrow> json" where
  "json_int n \<equiv> JNum (py_str n)"

definition identifiers :: "DecodedTelemetryValues \<Rightarrow> json" where
  "identifiers v = JObj [
     (''packet_id'', JStr (dv_packet_id v)),
     (''protocol_version'', json_int (dv_protocol_version v)),
     (''payload_id'', json_int (dv_payload_id v)),
     (''boot_id'', json_int (dv_boot_id v)),
     (''sequence_number'', json_int (dv_sequence_number v)),
     (''sample_timestamp_us'', json_int (dv_sample_timestamp_us v))]"

section \<open>Constraints\<close>

text \<open>
  What one transaction takes from outside: the clock, the UUID of a row it creates and the UUID of its
  audit event.
\<close>

record tx_env =
  now :: datetime
  row_id :: uuid
  event_id :: uuid

definition check_receipt :: "TelemetryDeliveryReceipt \<Rightarrow> storage_error option" where
  "check_receipt r =
     (if \<not> (opt_ok pg_text (d_presented_request_id r) \<and> varchar 512 (d_peer_certificate_identity r)
           \<and> opt_ok (varchar 255) (d_content_type r) \<and> int4 (d_raw_body_size r) \<and> varchar 64 (d_body_sha256 r)
           \<and> opt_ok pg_text (d_rejection_reason r) \<and> opt_ok (varchar 64) (d_logical_packet_id r))
      then Some DataError
      else if \<not> (0 \<le> d_raw_body_size r \<and> d_raw_body_size r \<le> MAX_EVIDENCE_BODY_BYTES) then Some IntegrityError
      else None)"

definition check_identity :: "TelemetryRequestIdentity \<Rightarrow> storage_error option" where
  "check_identity i = (if varchar 64 (i_body_sha256 i) then None else Some DataError)"

definition check_packet :: "LogicalTelemetryPacket \<Rightarrow> storage_error option" where
  "check_packet p =
     (if \<not> (varchar 64 (p_packet_id p) \<and> int4 (p_protocol_version p) \<and> int4 (p_payload_id p) \<and> int8 (p_boot_id p)
           \<and> int8 (p_sequence_number p) \<and> int8 (p_sample_timestamp_us p) \<and> int4 (p_temperature_centi_c p)
           \<and> int4 (p_voltage_mv p) \<and> int4 (p_operating_mode p) \<and> int4 (p_fault_flags p) \<and> varchar 64 (p_raw_sha256 p)
           \<and> int8 (p_missing_before p))
      then Some DataError
      else if \<not> (0 < p_payload_id p \<and> 0 < p_boot_id p \<and> 0 \<le> p_sequence_number p \<and> p_sequence_number p \<le> MAX_UINT32)
      then Some IntegrityError
      else None)"

definition check_state :: "TelemetrySequenceState \<Rightarrow> storage_error option" where
  "check_state s =
     (if \<not> (int4 (s_payload_id s) \<and> int8 (s_boot_id s) \<and> int8 (s_high_water_sequence s) \<and> int8 (s_accepted_packet_count s)
           \<and> int8 (s_missing_packet_count s) \<and> varchar 64 (s_last_high_water_packet_id s))
      then Some DataError
      else if \<not> (0 < s_payload_id s \<and> 0 < s_boot_id s \<and> 0 \<le> s_high_water_sequence s \<and> s_high_water_sequence s \<le> MAX_UINT32)
      then Some IntegrityError
      else None)"

definition check_job :: "TelemetryProcessingJob \<Rightarrow> storage_error option" where
  "check_job j =
     (if \<not> (varchar 64 (j_packet_id j) \<and> opt_ok (varchar 255) (j_queue_message_id j) \<and> int4 (j_attempt_count j)
           \<and> int4 (j_max_attempts j) \<and> opt_ok (varchar 255) (j_claimed_by j) \<and> opt_ok pg_text (j_last_error j))
      then Some DataError
      else if \<not> (0 \<le> j_attempt_count j \<and> 0 < j_max_attempts j) then Some IntegrityError
      else None)"

definition check_processed :: "ProcessedTelemetry \<Rightarrow> storage_error option" where
  "check_processed t =
     (if varchar 64 (t_packet_id t) \<and> varchar 32 (t_operating_mode t) \<and> varchar 64 (t_processor_version t)
      then None else Some DataError)"

definition check_audit :: "TelemetryAuditEvent \<Rightarrow> storage_error option" where
  "check_audit a =
     (if varchar 64 (a_service_name a) \<and> varchar 128 (a_event_name a) \<and> varchar 512 (a_actor_identity a)
         \<and> varchar 64 (a_outcome a) \<and> opt_ok pg_text (a_reason a)
         \<and> opt_ok (varchar 64) (a_packet_id a)
      then None else Some DataError)"

text \<open>A statement: the column checks, then the key constraints, then the new table.\<close>

definition checked :: "storage_error option \<Rightarrow> bool \<Rightarrow> telemetry_db \<Rightarrow> storage_error + telemetry_db" where
  "checked fault keys_ok db =
     (case fault of Some e \<Rightarrow> Inl e | None \<Rightarrow> if keys_ok then Inr db else Inl IntegrityError)"

definition insert_receipt :: "TelemetryDeliveryReceipt \<Rightarrow> telemetry_db \<Rightarrow> storage_error + telemetry_db" where
  "insert_receipt r db = checked (check_receipt r)
     (\<not> has_row d_receipt_id (d_receipt_id r) (receipts db)
      \<and> has_row_opt d_receipt_id (d_duplicate_of_receipt_id r) (receipts db @ [r]))
     (db\<lparr>receipts := receipts db @ [r]\<rparr>)"

definition save_receipt :: "TelemetryDeliveryReceipt \<Rightarrow> telemetry_db \<Rightarrow> storage_error + telemetry_db" where
  "save_receipt r db = checked (check_receipt r)
     (has_row_opt d_receipt_id (d_duplicate_of_receipt_id r) (receipts db))
     (db\<lparr>receipts := put_row d_receipt_id r (receipts db)\<rparr>)"

definition insert_identity :: "TelemetryRequestIdentity \<Rightarrow> telemetry_db \<Rightarrow> storage_error + telemetry_db" where
  "insert_identity i db = checked (check_identity i)
     (\<not> has_row i_request_id (i_request_id i) (request_identities db)
      \<and> \<not> has_row i_first_receipt_id (i_first_receipt_id i) (request_identities db)
      \<and> has_row d_receipt_id (i_first_receipt_id i) (receipts db))
     (db\<lparr>request_identities := request_identities db @ [i]\<rparr>)"

abbreviation source_key :: "LogicalTelemetryPacket \<Rightarrow> int \<times> int \<times> int" where
  "source_key p \<equiv> (p_payload_id p, p_boot_id p, p_sequence_number p)"

definition insert_packet :: "LogicalTelemetryPacket \<Rightarrow> telemetry_db \<Rightarrow> storage_error + telemetry_db" where
  "insert_packet p db = checked (check_packet p)
     (\<not> has_row p_packet_id (p_packet_id p) (packets db)
      \<and> \<not> has_row source_key (source_key p) (packets db)
      \<and> \<not> has_row p_source_receipt_id (p_source_receipt_id p) (packets db)
      \<and> has_row d_receipt_id (p_source_receipt_id p) (receipts db))
     (db\<lparr>packets := packets db @ [p]\<rparr>)"

abbreviation state_key :: "TelemetrySequenceState \<Rightarrow> int \<times> int" where
  "state_key s \<equiv> (s_payload_id s, s_boot_id s)"

definition insert_state :: "TelemetrySequenceState \<Rightarrow> telemetry_db \<Rightarrow> storage_error + telemetry_db" where
  "insert_state s db = checked (check_state s)
     (\<not> has_row state_key (state_key s) (sequence_states db)
      \<and> has_row p_packet_id (s_last_high_water_packet_id s) (packets db))
     (db\<lparr>sequence_states := sequence_states db @ [s]\<rparr>)"

definition save_state :: "TelemetrySequenceState \<Rightarrow> telemetry_db \<Rightarrow> storage_error + telemetry_db" where
  "save_state s db = checked (check_state s)
     (has_row p_packet_id (s_last_high_water_packet_id s) (packets db))
     (db\<lparr>sequence_states := put_row state_key s (sequence_states db)\<rparr>)"

definition insert_job :: "TelemetryProcessingJob \<Rightarrow> telemetry_db \<Rightarrow> storage_error + telemetry_db" where
  "insert_job j db = checked (check_job j)
     (\<not> has_row j_job_id (j_job_id j) (jobs db)
      \<and> \<not> has_row j_packet_id (j_packet_id j) (jobs db)
      \<and> has_row p_packet_id (j_packet_id j) (packets db))
     (db\<lparr>jobs := jobs db @ [j]\<rparr>)"

definition save_job :: "TelemetryProcessingJob \<Rightarrow> telemetry_db \<Rightarrow> storage_error + telemetry_db" where
  "save_job j db = checked (check_job j) True (db\<lparr>jobs := put_row j_job_id j (jobs db)\<rparr>)"

definition insert_processed :: "ProcessedTelemetry \<Rightarrow> telemetry_db \<Rightarrow> storage_error + telemetry_db" where
  "insert_processed t db = checked (check_processed t)
     (\<not> has_row t_packet_id (t_packet_id t) (processed db)
      \<and> \<not> has_row t_processing_job_id (t_processing_job_id t) (processed db)
      \<and> has_row p_packet_id (t_packet_id t) (packets db)
      \<and> has_row j_job_id (t_processing_job_id t) (jobs db))
     (db\<lparr>processed := processed db @ [t]\<rparr>)"

definition insert_audit :: "TelemetryAuditEvent \<Rightarrow> telemetry_db \<Rightarrow> storage_error + telemetry_db" where
  "insert_audit a db = checked (check_audit a)
     (\<not> has_row a_event_id (a_event_id a) (audit_events db)
      \<and> has_row_opt d_receipt_id (a_receipt_id a) (receipts db)
      \<and> has_row_opt p_packet_id (a_packet_id a) (packets db)
      \<and> has_row_opt j_job_id (a_job_id a) (jobs db))
     (db\<lparr>audit_events := audit_events db @ [a]\<rparr>)"

end
