(* ===== verification/Telemetry_Repository.thy ===== *)
theory Telemetry_Repository
  imports Telemetry_Storage
begin

text \<open>
  The operations of \<^verbatim>\<open>TelemetryRepository\<close> (\<^verbatim>\<open>mission_ground/telemetry/storage.py\<close>), each one
  transaction on the tables of \<open>Telemetry_Storage\<close>. The two operations that can lose a race with
  another process read from one state of the database and commit on a later one; they are retried
  once after an \<^verbatim>\<open>IntegrityError\<close>, as the code does.
\<close>

section \<open>Audit events\<close>

definition audit ::
  "tx_env \<Rightarrow> string \<Rightarrow> string \<Rightarrow> string \<Rightarrow> string \<Rightarrow> string option \<Rightarrow> uuid option \<Rightarrow> string option \<Rightarrow> uuid option
     \<Rightarrow> json option \<Rightarrow> telemetry_db \<Rightarrow> storage_error + telemetry_db" where
  "audit env service_name event_name actor_identity outcome reason rid pid jid event_data db =
     insert_audit \<lparr>a_event_id = event_id env, a_occurred_at = now env, a_service_name = service_name,
       a_event_name = event_name, a_actor_identity = actor_identity, a_outcome = outcome, a_reason = reason,
       a_receipt_id = rid, a_packet_id = pid, a_job_id = jid,
       a_event_data = (case event_data of None \<Rightarrow> JObj [] | Some data \<Rightarrow> data)\<rparr> db"

definition record_audit_event ::
  "tx_env \<Rightarrow> string \<Rightarrow> string \<Rightarrow> string \<Rightarrow> string \<Rightarrow> string option \<Rightarrow> uuid option \<Rightarrow> string option \<Rightarrow> uuid option
     \<Rightarrow> json option \<Rightarrow> telemetry_db \<Rightarrow> storage_error + (unit \<times> telemetry_db)" where
  "record_audit_event env service_name event_name actor_identity outcome reason rid pid jid event_data db =
     bindE (audit env service_name event_name actor_identity outcome reason rid pid jid event_data db)
       (\<lambda>db'. Inr ((), db'))"

section \<open>Deliveries\<close>

definition delivery_result :: "TelemetryDeliveryReceipt \<Rightarrow> bool \<Rightarrow> bool \<Rightarrow> DeliveryRecordResult" where
  "delivery_result receipt request_replay request_conflict =
     \<lparr>dr_receipt_id = d_receipt_id receipt, dr_validation_status = d_validation_status receipt,
      dr_queue_status = d_queue_status receipt, dr_request_replay = request_replay,
      dr_request_conflict = request_conflict, dr_duplicate_of_receipt_id = d_duplicate_of_receipt_id receipt,
      dr_logical_packet_id = d_logical_packet_id receipt\<rparr>"

text \<open>The arguments of \<^verbatim>\<open>record_delivery\<close>.\<close>

record delivery_input =
  in_raw_body :: bytes
  in_peer_certificate_identity :: string
  in_presented_request_id :: "string option"
  in_canonical_request_id :: "uuid option"
  in_content_type :: "string option"
  in_received_at :: "datetime option"
  in_vendor_sent_at :: "datetime option"
  in_receipt_id :: "uuid option"

text \<open>The new receipt; \<open>first\<close> is the receipt that already owns the request identifier.\<close>

definition new_receipt ::
  "tx_env \<Rightarrow> delivery_input \<Rightarrow> datetime \<Rightarrow> string \<Rightarrow> TelemetryDeliveryReceipt option \<Rightarrow> TelemetryDeliveryReceipt" where
  "new_receipt env inp receipt_time digest first =
     \<lparr>d_receipt_id = (case in_receipt_id inp of Some rid \<Rightarrow> rid | None \<Rightarrow> row_id env),
      d_presented_request_id = in_presented_request_id inp,
      d_canonical_request_id = in_canonical_request_id inp,
      d_peer_certificate_identity = in_peer_certificate_identity inp,
      d_content_type = in_content_type inp,
      d_vendor_sent_at = in_vendor_sent_at inp,
      d_received_at = receipt_time,
      d_updated_at = receipt_time,
      d_raw_body = in_raw_body inp,
      d_raw_body_size = int (length (in_raw_body inp)),
      d_body_sha256 = digest,
      d_validation_status = (if first = None then V_PENDING else V_CONFLICT),
      d_rejection_reason = (if first = None then None else Some ''REQUEST_ID_REUSED_WITH_DIFFERENT_BODY''),
      d_parsed_identifiers = None,
      d_duplicate_of_receipt_id = map_option d_receipt_id first,
      d_logical_packet_id = None,
      d_queue_status = Q_NOT_APPLICABLE\<rparr>"

definition store_delivery ::
  "tx_env \<Rightarrow> delivery_input \<Rightarrow> datetime \<Rightarrow> string \<Rightarrow> TelemetryDeliveryReceipt option \<Rightarrow> telemetry_db
     \<Rightarrow> storage_error + (DeliveryRecordResult \<times> telemetry_db)" where
  "store_delivery env inp receipt_time digest first db =
     (let receipt = new_receipt env inp receipt_time digest first; conflict = (first \<noteq> None) in
      bindE (insert_receipt receipt db) (\<lambda>db1.
      bindE (case in_canonical_request_id inp of
               Some request_id \<Rightarrow>
                 if conflict then Inr db1
                 else insert_identity \<lparr>i_request_id = request_id, i_first_receipt_id = d_receipt_id receipt,
                        i_body_sha256 = digest, i_created_at = receipt_time\<rparr> db1
             | None \<Rightarrow> Inr db1) (\<lambda>db2.
      bindE (audit env ''ground-api''
               (if conflict then ''telemetry.delivery.request_id_conflict'' else ''telemetry.delivery.received'')
               (in_peer_certificate_identity inp)
               (if conflict then ''CONFLICT'' else ''RECORDED'')
               (d_rejection_reason receipt) (Some (d_receipt_id receipt)) None None
               (Some (JObj [(''body_sha256'', JStr digest), (''raw_body_size'', json_int (int (length (in_raw_body inp))))])) db2)
        (\<lambda>db3. Inr (delivery_result receipt False conflict, db3)))))"

text \<open>One attempt, reading the request ledger in the state \<open>rd\<close> and committing on \<open>db\<close>.\<close>

definition delivery_attempt ::
  "delivery_input \<Rightarrow> datetime \<Rightarrow> string \<Rightarrow> tx_env \<times> telemetry_db \<times> telemetry_db
     \<Rightarrow> storage_error + (DeliveryRecordResult \<times> telemetry_db)" where
  "delivery_attempt inp receipt_time digest att =
     (case att of (env, rd, db) \<Rightarrow>
      (case (case in_canonical_request_id inp of
               None \<Rightarrow> None
             | Some request_id \<Rightarrow> get_row i_request_id request_id (request_identities rd)) of
         None \<Rightarrow> store_delivery env inp receipt_time digest None db
       | Some identity \<Rightarrow>
           (case get_row d_receipt_id (i_first_receipt_id identity) (receipts rd) of
              None \<Rightarrow> Inl (TelemetryStorageError ''request identity points to a missing receipt'')
            | Some first_receipt \<Rightarrow>
                if i_body_sha256 identity = digest \<and> d_raw_body first_receipt = in_raw_body inp
                then Inr (delivery_result first_receipt True False, db)
                else store_delivery env inp receipt_time digest (Some first_receipt) db)))"

text \<open>\<^verbatim>\<open>for attempt in range(2)\<close>: the second attempt runs only after an \<^verbatim>\<open>IntegrityError\<close> of the first.\<close>

definition retry_once :: "('t \<Rightarrow> storage_error + 'a) \<Rightarrow> 't \<Rightarrow> 't \<Rightarrow> storage_error + 'a" where
  "retry_once f att1 att2 = (case f att1 of Inl IntegrityError \<Rightarrow> f att2 | res \<Rightarrow> res)"

definition record_delivery_racing ::
  "delivery_input \<Rightarrow> tx_env \<times> telemetry_db \<times> telemetry_db \<Rightarrow> tx_env \<times> telemetry_db \<times> telemetry_db
     \<Rightarrow> storage_error + (DeliveryRecordResult \<times> telemetry_db)" where
  "record_delivery_racing inp att1 att2 =
     (if int (length (in_raw_body inp)) > MAX_EVIDENCE_BODY_BYTES
      then Inl (StorageValueError ''raw body exceeds 1024-byte evidence limit'')
      else if in_peer_certificate_identity inp = []
      then Inl (StorageValueError ''peer_certificate_identity must not be empty'')
      else (let digest = sha256_hexdigest (in_raw_body inp);
                receipt_time = (case in_received_at inp of Some t \<Rightarrow> t | None \<Rightarrow> now (fst att1))
            in retry_once (delivery_attempt inp receipt_time digest) att1 att2))"

text \<open>Without interference both attempts read and commit on the same state.\<close>

definition record_delivery ::
  "tx_env \<Rightarrow> tx_env \<Rightarrow> delivery_input \<Rightarrow> telemetry_db \<Rightarrow> storage_error + (DeliveryRecordResult \<times> telemetry_db)" where
  "record_delivery env env' inp db = record_delivery_racing inp (env, db, db) (env', db, db)"

definition rejected_receipt :: "tx_env \<Rightarrow> string \<Rightarrow> json option \<Rightarrow> TelemetryDeliveryReceipt \<Rightarrow> TelemetryDeliveryReceipt" where
  "rejected_receipt env reason parsed_identifiers receipt =
     receipt\<lparr>d_validation_status := V_REJECTED, d_rejection_reason := Some reason,
       d_parsed_identifiers := parsed_identifiers, d_queue_status := Q_NOT_APPLICABLE, d_updated_at := now env\<rparr>"

definition reject_delivery ::
  "tx_env \<Rightarrow> uuid \<Rightarrow> string \<Rightarrow> json option \<Rightarrow> string \<Rightarrow> telemetry_db
     \<Rightarrow> storage_error + (DeliveryRecordResult \<times> telemetry_db)" where
  "reject_delivery env rid reason parsed_identifiers actor_identity db =
     (case get_row d_receipt_id rid (receipts db) of
        None \<Rightarrow> Inl (DeliveryNotFoundError (uuid_str rid))
      | Some receipt \<Rightarrow>
          if d_validation_status receipt = V_REJECTED then
            (if d_rejection_reason receipt \<noteq> Some reason
             then Inl (InvalidDeliveryStateError ''delivery was already rejected for a different reason'')
             else Inr (delivery_result receipt True False, db))
          else if d_validation_status receipt \<noteq> V_PENDING
          then Inl (InvalidDeliveryStateError (''cannot reject a '' @ validation_value (d_validation_status receipt) @ '' delivery''))
          else (let receipt' = rejected_receipt env reason parsed_identifiers receipt
                in bindE (save_receipt receipt' db) (\<lambda>db1.
                   bindE (audit env ''ground-api'' ''telemetry.delivery.rejected'' actor_identity ''REJECTED''
                            (Some reason) (Some rid) None None parsed_identifiers db1) (\<lambda>db2.
                   Inr (delivery_result receipt' False False, db2)))))"

section \<open>Packet acceptance\<close>

fun job_state_to_queue_status :: "ProcessingJobState \<Rightarrow> DeliveryQueueStatus" where
  "job_state_to_queue_status J_PENDING_QUEUE = Q_PENDING_QUEUE"
| "job_state_to_queue_status _ = Q_QUEUED"

text \<open>The answer for a receipt that was accepted before.\<close>

definition accepted_before :: "TelemetryDeliveryReceipt \<Rightarrow> telemetry_db \<Rightarrow> PacketAcceptanceResult" where
  "accepted_before receipt db =
     (let packet = Option.bind (d_logical_packet_id receipt) (\<lambda>pid. get_row p_packet_id pid (packets db));
          job = Option.bind (d_logical_packet_id receipt) (\<lambda>pid. get_row j_packet_id pid (jobs db))
      in \<lparr>pa_receipt_id = d_receipt_id receipt, pa_packet_id = d_logical_packet_id receipt,
          pa_job_id = map_option j_job_id job,
          pa_validation_status = d_validation_status receipt,
          pa_queue_status = (case job of Some j \<Rightarrow> job_state_to_queue_status (j_state j) | None \<Rightarrow> d_queue_status receipt),
          pa_sequence_disposition = map_option p_sequence_disposition packet,
          pa_missing_before = (case packet of Some p \<Rightarrow> p_missing_before p | None \<Rightarrow> 0),
          pa_duplicate = (d_validation_status receipt = V_DUPLICATE), pa_conflict = False,
          pa_duplicate_of_receipt_id = d_duplicate_of_receipt_id receipt\<rparr>)"

text \<open>The key is taken: an exact duplicate or a conflict.\<close>

definition repeated_receipt ::
  "tx_env \<Rightarrow> DecodedTelemetryValues \<Rightarrow> LogicalTelemetryPacket \<Rightarrow> bool \<Rightarrow> TelemetryDeliveryReceipt \<Rightarrow> TelemetryDeliveryReceipt" where
  "repeated_receipt env values existing_packet exact_duplicate receipt =
     receipt\<lparr>d_logical_packet_id := Some (p_packet_id existing_packet),
       d_duplicate_of_receipt_id := Some (p_source_receipt_id existing_packet),
       d_parsed_identifiers := Some (identifiers values), d_updated_at := now env,
       d_validation_status := (if exact_duplicate then V_DUPLICATE else V_CONFLICT),
       d_queue_status := Q_NOT_APPLICABLE,
       d_rejection_reason := (if exact_duplicate then None else Some ''SEQUENCE_CONFLICT'')\<rparr>"

definition accept_existing ::
  "tx_env \<Rightarrow> TelemetryDeliveryReceipt \<Rightarrow> DecodedTelemetryValues \<Rightarrow> string \<Rightarrow> LogicalTelemetryPacket \<Rightarrow> telemetry_db
     \<Rightarrow> storage_error + (PacketAcceptanceResult \<times> telemetry_db)" where
  "accept_existing env receipt values actor_identity existing_packet db =
     (let exact_duplicate =
            (case get_row d_receipt_id (p_source_receipt_id existing_packet) (receipts db) of
               None \<Rightarrow> False
             | Some origin \<Rightarrow> p_raw_sha256 existing_packet = d_body_sha256 receipt \<and> d_raw_body origin = d_raw_body receipt);
          receipt2 = repeated_receipt env values existing_packet exact_duplicate receipt
      in if exact_duplicate then
           (let existing_job = get_row j_packet_id (p_packet_id existing_packet) (jobs db)
            in bindE (save_receipt receipt2 db) (\<lambda>db1.
               bindE (audit env ''ground-api'' ''telemetry.delivery.duplicate'' actor_identity ''DUPLICATE'' None
                        (Some (d_receipt_id receipt)) (Some (p_packet_id existing_packet)) (map_option j_job_id existing_job)
                        (Some (JObj [(''original_receipt_id'', JStr (uuid_str (p_source_receipt_id existing_packet)))])) db1) (\<lambda>db2.
               Inr (\<lparr>pa_receipt_id = d_receipt_id receipt, pa_packet_id = Some (p_packet_id existing_packet),
                     pa_job_id = map_option j_job_id existing_job, pa_validation_status = V_DUPLICATE,
                     pa_queue_status = (case existing_job of Some j \<Rightarrow> job_state_to_queue_status (j_state j) | None \<Rightarrow> Q_NOT_APPLICABLE),
                     pa_sequence_disposition = Some (p_sequence_disposition existing_packet),
                     pa_missing_before = p_missing_before existing_packet, pa_duplicate = True, pa_conflict = False,
                     pa_duplicate_of_receipt_id = Some (p_source_receipt_id existing_packet)\<rparr>, db2))))
         else
           bindE (save_receipt receipt2 db) (\<lambda>db1.
           bindE (audit env ''ground-api'' ''telemetry.delivery.sequence_conflict'' actor_identity ''CONFLICT''
                    (Some ''SEQUENCE_CONFLICT'') (Some (d_receipt_id receipt)) (Some (p_packet_id existing_packet)) None None db1) (\<lambda>db2.
               Inr (\<lparr>pa_receipt_id = d_receipt_id receipt, pa_packet_id = Some (p_packet_id existing_packet),
                     pa_job_id = None, pa_validation_status = V_CONFLICT, pa_queue_status = Q_NOT_APPLICABLE,
                     pa_sequence_disposition = None, pa_missing_before = 0, pa_duplicate = False, pa_conflict = True,
                     pa_duplicate_of_receipt_id = Some (p_source_receipt_id existing_packet)\<rparr>, db2))))"

text \<open>
  Where the packet stands relative to the stored mark, and how many packets are missing before it;
  \<open>None\<close> when it equals a mark whose packet is not stored.
\<close>

definition stored_disposition :: "int option \<Rightarrow> int \<Rightarrow> (StoredDisposition \<times> int) option" where
  "stored_disposition high_water seq =
     (case high_water of
        None \<Rightarrow> Some (SD_FIRST, seq)
      | Some h \<Rightarrow>
          (let forward_distance = (seq - h) AND MAX_UINT32 in
           if forward_distance = 0 then None
           else if forward_distance = 1 then Some (SD_IN_ORDER, 0)
           else if forward_distance < HALF_UINT32_RANGE then Some (SD_GAP, forward_distance - 1)
           else Some (SD_LATE, 0)))"

definition state_conflict_receipt :: "tx_env \<Rightarrow> DecodedTelemetryValues \<Rightarrow> TelemetryDeliveryReceipt \<Rightarrow> TelemetryDeliveryReceipt" where
  "state_conflict_receipt env values receipt =
     receipt\<lparr>d_validation_status := V_CONFLICT, d_rejection_reason := Some ''SEQUENCE_STATE_CONFLICT'',
       d_parsed_identifiers := Some (identifiers values), d_updated_at := now env\<rparr>"

definition accept_state_conflict ::
  "tx_env \<Rightarrow> TelemetryDeliveryReceipt \<Rightarrow> DecodedTelemetryValues \<Rightarrow> string \<Rightarrow> telemetry_db
     \<Rightarrow> storage_error + (PacketAcceptanceResult \<times> telemetry_db)" where
  "accept_state_conflict env receipt values actor_identity db =
     (let receipt1 = state_conflict_receipt env values receipt
      in bindE (save_receipt receipt1 db) (\<lambda>db1.
         bindE (audit env ''ground-api'' ''telemetry.sequence.state_conflict'' actor_identity ''CONFLICT''
                  (Some ''SEQUENCE_STATE_CONFLICT'') (Some (d_receipt_id receipt)) None None None db1) (\<lambda>db2.
         Inr (\<lparr>pa_receipt_id = d_receipt_id receipt, pa_packet_id = None, pa_job_id = None,
               pa_validation_status = V_CONFLICT, pa_queue_status = Q_NOT_APPLICABLE, pa_sequence_disposition = None,
               pa_missing_before = 0, pa_duplicate = False, pa_conflict = True, pa_duplicate_of_receipt_id = None\<rparr>, db2))))"

definition new_packet ::
  "tx_env \<Rightarrow> TelemetryDeliveryReceipt \<Rightarrow> DecodedTelemetryValues \<Rightarrow> StoredDisposition \<Rightarrow> int \<Rightarrow> LogicalTelemetryPacket" where
  "new_packet env receipt values disp missing_before =
     \<lparr>p_packet_id = dv_packet_id values, p_source_receipt_id = d_receipt_id receipt,
      p_protocol_version = dv_protocol_version values, p_payload_id = dv_payload_id values,
      p_boot_id = dv_boot_id values, p_sequence_number = dv_sequence_number values,
      p_sample_timestamp_us = dv_sample_timestamp_us values, p_temperature_centi_c = dv_temperature_centi_c values,
      p_voltage_mv = dv_voltage_mv values, p_operating_mode = dv_operating_mode values,
      p_fault_flags = dv_fault_flags values, p_raw_sha256 = d_body_sha256 receipt,
      p_sequence_disposition = disp, p_missing_before = missing_before, p_accepted_at = now env\<rparr>"

text \<open>The sequence state after the packet: created by the first packet of a boot session, else updated.\<close>

definition advanced_state ::
  "tx_env \<Rightarrow> DecodedTelemetryValues \<Rightarrow> StoredDisposition \<Rightarrow> int \<Rightarrow> TelemetrySequenceState \<Rightarrow> TelemetrySequenceState" where
  "advanced_state env values disp missing_before st =
     (let st1 = st\<lparr>s_accepted_packet_count := s_accepted_packet_count st + 1\<rparr>;
          st2 = (if disp = SD_IN_ORDER \<or> disp = SD_GAP
                 then st1\<lparr>s_high_water_sequence := dv_sequence_number values,
                          s_missing_packet_count := s_missing_packet_count st1 + missing_before,
                          s_last_high_water_packet_id := dv_packet_id values\<rparr>
                 else st1)
      in st2\<lparr>s_updated_at := now env\<rparr>)"

definition first_state :: "tx_env \<Rightarrow> DecodedTelemetryValues \<Rightarrow> int \<Rightarrow> TelemetrySequenceState" where
  "first_state env values missing_before =
     \<lparr>s_payload_id = dv_payload_id values, s_boot_id = dv_boot_id values,
      s_high_water_sequence = dv_sequence_number values, s_accepted_packet_count = 1,
      s_missing_packet_count = missing_before, s_last_high_water_packet_id = dv_packet_id values,
      s_created_at = now env, s_updated_at = now env\<rparr>"

definition store_state ::
  "tx_env \<Rightarrow> DecodedTelemetryValues \<Rightarrow> TelemetrySequenceState option \<Rightarrow> StoredDisposition \<Rightarrow> int \<Rightarrow> telemetry_db
     \<Rightarrow> storage_error + telemetry_db" where
  "store_state env values sequence_state disp missing_before db =
     (case sequence_state of
        None \<Rightarrow> insert_state (first_state env values missing_before) db
      | Some st \<Rightarrow> save_state (advanced_state env values disp missing_before st) db)"

definition new_job :: "tx_env \<Rightarrow> string \<Rightarrow> int \<Rightarrow> TelemetryProcessingJob" where
  "new_job env pid max_attempts =
     \<lparr>j_job_id = row_id env, j_packet_id = pid, j_state = J_PENDING_QUEUE, j_queue_message_id = None,
      j_attempt_count = 0, j_max_attempts = max_attempts, j_claimed_by = None, j_claimed_at = None,
      j_lease_expires_at = None, j_next_attempt_at = None, j_last_error = None, j_failed_at = None,
      j_completed_at = None, j_created_at = now env, j_updated_at = now env\<rparr>"

definition accepted_receipt :: "tx_env \<Rightarrow> DecodedTelemetryValues \<Rightarrow> TelemetryDeliveryReceipt \<Rightarrow> TelemetryDeliveryReceipt" where
  "accepted_receipt env values receipt =
     receipt\<lparr>d_validation_status := V_ACCEPTED, d_rejection_reason := None,
       d_parsed_identifiers := Some (identifiers values), d_logical_packet_id := Some (dv_packet_id values),
       d_queue_status := Q_PENDING_QUEUE, d_updated_at := now env\<rparr>"

definition accept_new ::
  "tx_env \<Rightarrow> TelemetryDeliveryReceipt \<Rightarrow> DecodedTelemetryValues \<Rightarrow> int \<Rightarrow> string \<Rightarrow> TelemetrySequenceState option
     \<Rightarrow> StoredDisposition \<Rightarrow> int \<Rightarrow> telemetry_db \<Rightarrow> storage_error + (PacketAcceptanceResult \<times> telemetry_db)" where
  "accept_new env receipt values max_attempts actor_identity sequence_state disp missing_before db =
     (let pid = dv_packet_id values; job = new_job env pid max_attempts
      in bindE (insert_packet (new_packet env receipt values disp missing_before) db) (\<lambda>db1.
         bindE (store_state env values sequence_state disp missing_before db1) (\<lambda>db2.
         bindE (insert_job job db2) (\<lambda>db3.
         bindE (save_receipt (accepted_receipt env values receipt) db3) (\<lambda>db4.
         bindE (audit env ''ground-api'' ''telemetry.packet.accepted'' actor_identity ''PENDING_QUEUE'' None
                  (Some (d_receipt_id receipt)) (Some pid) (Some (j_job_id job))
                  (Some (JObj [(''sequence_disposition'', JStr (disposition_value disp)),
                               (''missing_before'', json_int missing_before)])) db4) (\<lambda>db5.
         Inr (\<lparr>pa_receipt_id = d_receipt_id receipt, pa_packet_id = Some pid, pa_job_id = Some (j_job_id job),
               pa_validation_status = V_ACCEPTED, pa_queue_status = Q_PENDING_QUEUE,
               pa_sequence_disposition = Some disp, pa_missing_before = missing_before,
               pa_duplicate = False, pa_conflict = False, pa_duplicate_of_receipt_id = None\<rparr>, db5)))))))"

text \<open>
  One acceptance transaction. The receipt is locked first; the packet is looked up in the state \<open>rd\<close> of
  the database, the sequence state, locked from then on, in a later one \<open>ld\<close>, and the transaction
  commits on \<open>db\<close>.
\<close>

definition accept_packet_transaction ::
  "uuid \<Rightarrow> DecodedTelemetryValues \<Rightarrow> int \<Rightarrow> string \<Rightarrow> tx_env \<times> telemetry_db \<times> telemetry_db \<times> telemetry_db
     \<Rightarrow> storage_error + (PacketAcceptanceResult \<times> telemetry_db)" where
  "accept_packet_transaction rid values max_attempts actor_identity att =
     (case att of (env, rd, ld, db) \<Rightarrow>
      (case get_row d_receipt_id rid (receipts db) of
         None \<Rightarrow> Inl (DeliveryNotFoundError (uuid_str rid))
       | Some receipt \<Rightarrow>
           if d_validation_status receipt = V_ACCEPTED \<or> d_validation_status receipt = V_DUPLICATE
           then Inr (accepted_before receipt db, db)
           else if d_validation_status receipt \<noteq> V_PENDING
           then Inl (InvalidDeliveryStateError (''cannot accept a '' @ validation_value (d_validation_status receipt) @ '' delivery''))
           else
             (case get_row source_key (dv_payload_id values, dv_boot_id values, dv_sequence_number values) (packets rd) of
                Some existing_packet \<Rightarrow> accept_existing env receipt values actor_identity existing_packet db
              | None \<Rightarrow>
                  (let sequence_state = get_row state_key (dv_payload_id values, dv_boot_id values) (sequence_states ld)
                   in case stored_disposition (map_option s_high_water_sequence sequence_state) (dv_sequence_number values) of
                        None \<Rightarrow> accept_state_conflict env receipt values actor_identity db
                      | Some (disp, missing_before) \<Rightarrow>
                          accept_new env receipt values max_attempts actor_identity sequence_state disp missing_before db))))"

definition accept_packet_racing ::
  "uuid \<Rightarrow> DecodedTelemetryValues \<Rightarrow> int \<Rightarrow> string \<Rightarrow> tx_env \<times> telemetry_db \<times> telemetry_db \<times> telemetry_db
     \<Rightarrow> tx_env \<times> telemetry_db \<times> telemetry_db \<times> telemetry_db \<Rightarrow> storage_error + (PacketAcceptanceResult \<times> telemetry_db)" where
  "accept_packet_racing rid values max_attempts actor_identity att1 att2 =
     (if \<not> (0 \<le> dv_sequence_number values \<and> dv_sequence_number values \<le> MAX_UINT32)
      then Inl (StorageValueError ''sequence_number must be an unsigned 32-bit value'')
      else if dv_boot_id values \<le> 0 then Inl (StorageValueError ''boot_id must be nonzero'')
      else if max_attempts \<le> 0 then Inl (StorageValueError ''max_attempts must be positive'')
      else retry_once (accept_packet_transaction rid values max_attempts actor_identity) att1 att2)"

definition accept_packet_and_create_job ::
  "tx_env \<Rightarrow> tx_env \<Rightarrow> uuid \<Rightarrow> DecodedTelemetryValues \<Rightarrow> int \<Rightarrow> string \<Rightarrow> telemetry_db
     \<Rightarrow> storage_error + (PacketAcceptanceResult \<times> telemetry_db)" where
  "accept_packet_and_create_job env env' rid values max_attempts actor_identity db =
     accept_packet_racing rid values max_attempts actor_identity (env, db, db, db) (env', db, db, db)"

section \<open>Processing jobs\<close>

text \<open>The receipts of a packet follow its job into the queue.\<close>

fun save_receipts :: "TelemetryDeliveryReceipt list \<Rightarrow> telemetry_db \<Rightarrow> storage_error + telemetry_db" where
  "save_receipts [] db = Inr db"
| "save_receipts (r # rs) db = bindE (save_receipt r db) (\<lambda>db1. save_receipts rs db1)"

definition queued_job :: "tx_env \<Rightarrow> string \<Rightarrow> TelemetryProcessingJob \<Rightarrow> TelemetryProcessingJob" where
  "queued_job env queue_message_id job =
     job\<lparr>j_state := J_QUEUED, j_queue_message_id := Some queue_message_id, j_next_attempt_at := None,
       j_updated_at := now env\<rparr>"

definition queued_receipt :: "tx_env \<Rightarrow> TelemetryDeliveryReceipt \<Rightarrow> TelemetryDeliveryReceipt" where
  "queued_receipt env receipt = receipt\<lparr>d_queue_status := Q_QUEUED, d_updated_at := now env\<rparr>"

definition mark_job_queued ::
  "tx_env \<Rightarrow> uuid \<Rightarrow> string \<Rightarrow> string \<Rightarrow> telemetry_db \<Rightarrow> storage_error + (bool \<times> telemetry_db)" where
  "mark_job_queued env jid queue_message_id actor_identity db =
     (case get_row j_job_id jid (jobs db) of
        None \<Rightarrow> Inl (ProcessingJobNotFoundError (uuid_str jid))
      | Some job \<Rightarrow>
          if j_state job = J_QUEUED then
            (if j_queue_message_id job \<noteq> Some queue_message_id
             then Inl (InvalidDeliveryStateError ''job is already queued with a different queue message ID'')
             else Inr (False, db))
          else if j_state job \<noteq> J_PENDING_QUEUE \<and> j_state job \<noteq> J_RETRY_WAIT
          then Inl (InvalidDeliveryStateError (''cannot queue a '' @ job_state_value (j_state job) @ '' processing job''))
          else
            (let accepted = filter (\<lambda>r. d_logical_packet_id r = Some (j_packet_id job) \<and> d_validation_status r = V_ACCEPTED) (receipts db)
             in bindE (save_job (queued_job env queue_message_id job) db) (\<lambda>db1.
                bindE (save_receipts (map (queued_receipt env) accepted) db1) (\<lambda>db2.
                bindE (audit env ''ground-api'' ''telemetry.processing.queued'' actor_identity ''QUEUED'' None None
                         (Some (j_packet_id job)) (Some (j_job_id job))
                         (Some (JObj [(''queue_message_id'', JStr queue_message_id)])) db2) (\<lambda>db3.
                Inr (True, db3))))))"

text \<open>
  Queries for the recovery of the queue, in order of creation (equal creation times in insertion
  order). A comparison with a NULL retry time is not true.
\<close>

definition retry_due :: "datetime \<Rightarrow> TelemetryProcessingJob \<Rightarrow> bool" where
  "retry_due t job \<longleftrightarrow> j_state job = J_RETRY_WAIT
     \<and> (case j_next_attempt_at job of None \<Rightarrow> False | Some due \<Rightarrow> instant due \<le> instant t)"

definition oldest_jobs :: "(TelemetryProcessingJob \<Rightarrow> bool) \<Rightarrow> int \<Rightarrow> telemetry_db \<Rightarrow> uuid list" where
  "oldest_jobs p limit db = map j_job_id (take (nat limit) (sort_key (\<lambda>j. instant (j_created_at j)) (filter p (jobs db))))"

definition pending_queue_jobs :: "tx_env \<Rightarrow> int \<Rightarrow> telemetry_db \<Rightarrow> storage_error + (uuid list \<times> telemetry_db)" where
  "pending_queue_jobs env limit db =
     (if \<not> (1 \<le> limit \<and> limit \<le> 1000) then Inl (StorageValueError ''limit must be between 1 and 1000'')
      else Inr (oldest_jobs (\<lambda>j. j_state j = J_PENDING_QUEUE \<or> retry_due (now env) j) limit db, db))"

definition recoverable_queue_jobs :: "tx_env \<Rightarrow> int \<Rightarrow> telemetry_db \<Rightarrow> storage_error + (uuid list \<times> telemetry_db)" where
  "recoverable_queue_jobs env limit db =
     (if \<not> (1 \<le> limit \<and> limit \<le> 10000) then Inl (StorageValueError ''limit must be between 1 and 10000'')
      else Inr (oldest_jobs (\<lambda>j. j_state j = J_PENDING_QUEUE \<or> j_state j = J_QUEUED \<or> retry_due (now env) j) limit db, db))"

definition packet_values :: "LogicalTelemetryPacket \<Rightarrow> DecodedTelemetryValues" where
  "packet_values p =
     \<lparr>dv_protocol_version = p_protocol_version p, dv_payload_id = p_payload_id p, dv_boot_id = p_boot_id p,
      dv_sequence_number = p_sequence_number p, dv_sample_timestamp_us = p_sample_timestamp_us p,
      dv_temperature_centi_c = p_temperature_centi_c p, dv_voltage_mv = p_voltage_mv p,
      dv_operating_mode = p_operating_mode p, dv_fault_flags = p_fault_flags p\<rparr>"

text \<open>Whether a job may be claimed at a time: queued, its lease expired, or its retry due.\<close>

definition claimable :: "datetime \<Rightarrow> TelemetryProcessingJob \<Rightarrow> bool" where
  "claimable t job \<longleftrightarrow> j_state job = J_QUEUED
     \<or> (j_state job = J_PROCESSING \<and> (case j_lease_expires_at job of None \<Rightarrow> False | Some e \<Rightarrow> instant (as_utc e) \<le> instant t))
     \<or> (j_state job = J_RETRY_WAIT \<and> (case j_next_attempt_at job of None \<Rightarrow> False | Some e \<Rightarrow> instant (as_utc e) \<le> instant t))"

definition claimed_job :: "tx_env \<Rightarrow> string \<Rightarrow> int \<Rightarrow> TelemetryProcessingJob \<Rightarrow> TelemetryProcessingJob" where
  "claimed_job env worker_id lease_seconds job =
     job\<lparr>j_state := J_PROCESSING, j_attempt_count := j_attempt_count job + 1,
       j_claimed_by := Some worker_id, j_claimed_at := Some (now env),
       j_lease_expires_at := Some (add_seconds (now env) lease_seconds),
       j_next_attempt_at := None, j_updated_at := now env\<rparr>"

text \<open>A job whose result is already stored.\<close>

definition finished_job :: "tx_env \<Rightarrow> ProcessedTelemetry \<Rightarrow> TelemetryProcessingJob \<Rightarrow> TelemetryProcessingJob" where
  "finished_job env existing job =
     job\<lparr>j_state := J_COMPLETE, j_completed_at := Some (t_processed_at existing),
       j_lease_expires_at := None, j_updated_at := now env\<rparr>"

definition claim_processing_job ::
  "tx_env \<Rightarrow> uuid \<Rightarrow> string \<Rightarrow> int \<Rightarrow> telemetry_db \<Rightarrow> storage_error + (TelemetryWorkItem option \<times> telemetry_db)" where
  "claim_processing_job env jid worker_id lease_seconds db =
     (if worker_id = [] then Inl (StorageValueError ''worker_id must not be empty'')
      else if lease_seconds \<le> 0 then Inl (StorageValueError ''lease_seconds must be positive'')
      else
        (case get_row j_job_id jid (jobs db) of
           None \<Rightarrow> Inl (ProcessingJobNotFoundError (uuid_str jid))
         | Some job \<Rightarrow>
             (case get_row t_packet_id (j_packet_id job) (processed db) of
                Some done \<Rightarrow>
                  if j_state job \<noteq> J_COMPLETE
                  then bindE (save_job (finished_job env done job) db) (\<lambda>db1. Inr (None, db1))
                  else Inr (None, db)
              | None \<Rightarrow>
                  if \<not> claimable (now env) job then Inr (None, db)
                  else
                    (case get_row p_packet_id (j_packet_id job) (packets db) of
                       None \<Rightarrow> Inl (TelemetryStorageError (''job '' @ uuid_str jid @ '' points to a missing packet''))
                     | Some packet \<Rightarrow>
                         (case get_row d_receipt_id (p_source_receipt_id packet) (receipts db) of
                            None \<Rightarrow> Inl (TelemetryStorageError (''packet '' @ p_packet_id packet @ '' points to a missing raw receipt''))
                          | Some receipt \<Rightarrow>
                              (let job1 = claimed_job env worker_id lease_seconds job
                               in bindE (save_job job1 db) (\<lambda>db1.
                                  bindE (audit env ''payload-worker'' ''telemetry.processing.claimed'' worker_id ''PROCESSING'' None
                                           (Some (d_receipt_id receipt)) (Some (p_packet_id packet)) (Some (j_job_id job))
                                           (Some (JObj [(''attempt_count'', json_int (j_attempt_count job1))])) db1) (\<lambda>db2.
                                  Inr (Some \<lparr>wi_job_id = j_job_id job, wi_packet_id = p_packet_id packet,
                                         wi_raw_body = d_raw_body receipt, wi_received_at = as_utc (d_received_at receipt),
                                         wi_values = packet_values packet, wi_attempt_count = j_attempt_count job1,
                                         wi_max_attempts = j_max_attempts job\<rparr>, db2)))))))))"

definition same_processing_result :: "ProcessedTelemetry \<Rightarrow> ProcessingResultValues \<Rightarrow> bool" where
  "same_processing_result stored candidate \<longleftrightarrow>
     t_temperature_c stored = pr_temperature_c candidate \<and> t_voltage_v stored = pr_voltage_v candidate
     \<and> t_operating_mode stored = pr_operating_mode candidate \<and> t_fault_names stored = pr_fault_names candidate
     \<and> t_classification stored = pr_classification candidate \<and> t_is_stale stored = pr_is_stale candidate
     \<and> t_processor_version stored = pr_processor_version candidate"

definition processed_row :: "datetime \<Rightarrow> ProcessingResultValues \<Rightarrow> TelemetryProcessingJob \<Rightarrow> ProcessedTelemetry" where
  "processed_row completion_time res job =
     \<lparr>t_packet_id = j_packet_id job, t_processing_job_id = j_job_id job,
      t_temperature_c = pr_temperature_c res, t_voltage_v = pr_voltage_v res,
      t_operating_mode = pr_operating_mode res, t_fault_names = pr_fault_names res,
      t_classification = pr_classification res, t_is_stale = pr_is_stale res,
      t_processor_version = pr_processor_version res, t_processed_at = completion_time\<rparr>"

definition completed_job :: "datetime \<Rightarrow> TelemetryProcessingJob \<Rightarrow> TelemetryProcessingJob" where
  "completed_job completion_time job =
     job\<lparr>j_state := J_COMPLETE, j_completed_at := Some completion_time, j_lease_expires_at := None,
       j_next_attempt_at := None, j_last_error := None, j_updated_at := completion_time\<rparr>"

definition complete_processing_job ::
  "tx_env \<Rightarrow> uuid \<Rightarrow> ProcessingResultValues \<Rightarrow> string \<Rightarrow> datetime option \<Rightarrow> telemetry_db
     \<Rightarrow> storage_error + (ProcessedTelemetry \<times> telemetry_db)" where
  "complete_processing_job env jid res worker_id processed_at db =
     (let completion_time = (case processed_at of Some t \<Rightarrow> t | None \<Rightarrow> now env) in
      case get_row j_job_id jid (jobs db) of
        None \<Rightarrow> Inl (ProcessingJobNotFoundError (uuid_str jid))
      | Some job \<Rightarrow>
          (case get_row t_packet_id (j_packet_id job) (processed db) of
             Some existing \<Rightarrow>
               if \<not> same_processing_result existing res
               then Inl (ProcessingResultConflictError (''packet '' @ j_packet_id job @ '' already has a different processed result''))
               else bindE (save_job (finished_job env existing job) db) (\<lambda>db1. Inr (existing, db1))
           | None \<Rightarrow>
               if j_state job \<noteq> J_PROCESSING
               then Inl (InvalidDeliveryStateError (''cannot complete a '' @ job_state_value (j_state job) @ '' processing job''))
               else if j_claimed_by job \<noteq> Some worker_id
               then Inl (InvalidDeliveryStateError ''processing job is owned by another worker'')
               else
                 (let row = processed_row completion_time res job
                  in bindE (insert_processed row db) (\<lambda>db1.
                     bindE (save_job (completed_job completion_time job) db1) (\<lambda>db2.
                     bindE (audit env ''payload-worker'' ''telemetry.processing.completed'' worker_id ''COMPLETE'' None None
                              (Some (j_packet_id job)) (Some (j_job_id job))
                              (Some (JObj [(''classification'', JStr (classification_value (pr_classification res))),
                                           (''is_stale'', JBool (pr_is_stale res))])) db2) (\<lambda>db3.
                     Inr (row, db3)))))))"

definition backoff_delay :: "int \<Rightarrow> int \<Rightarrow> int" where
  "backoff_delay base_backoff_seconds attempt_count = min (base_backoff_seconds * 2 ^ nat (max (attempt_count - 1) 0)) 300"

definition failed_job :: "datetime \<Rightarrow> string \<Rightarrow> int \<Rightarrow> bool \<Rightarrow> TelemetryProcessingJob \<Rightarrow> TelemetryProcessingJob" where
  "failed_job failure_time reason base_backoff_seconds final job =
     (let job0 = job\<lparr>j_last_error := Some reason, j_lease_expires_at := None, j_updated_at := failure_time\<rparr>
      in if final
         then job0\<lparr>j_state := J_FAILED, j_failed_at := Some failure_time, j_next_attempt_at := None\<rparr>
         else job0\<lparr>j_state := J_RETRY_WAIT,
                j_next_attempt_at := Some (add_seconds failure_time (backoff_delay base_backoff_seconds (j_attempt_count job)))\<rparr>)"

definition fail_processing_attempt ::
  "tx_env \<Rightarrow> uuid \<Rightarrow> string \<Rightarrow> string \<Rightarrow> bool \<Rightarrow> int \<Rightarrow> datetime option \<Rightarrow> telemetry_db
     \<Rightarrow> storage_error + (ProcessingFailureResult \<times> telemetry_db)" where
  "fail_processing_attempt env jid worker_id reason temporary base_backoff_seconds failed_at db =
     (if base_backoff_seconds \<le> 0 then Inl (StorageValueError ''base_backoff_seconds must be positive'')
      else let failure_time = (case failed_at of Some t \<Rightarrow> t | None \<Rightarrow> now env) in
        case get_row j_job_id jid (jobs db) of
          None \<Rightarrow> Inl (ProcessingJobNotFoundError (uuid_str jid))
        | Some job \<Rightarrow>
            if j_state job = J_FAILED
            then Inr (\<lparr>pf_job_id = j_job_id job, pf_state = j_state job, pf_attempt_count = j_attempt_count job,
                       pf_next_attempt_at = None\<rparr>, db)
            else if j_state job \<noteq> J_PROCESSING
            then Inl (InvalidDeliveryStateError (''cannot fail a '' @ job_state_value (j_state job) @ '' processing job''))
            else if j_claimed_by job \<noteq> Some worker_id
            then Inl (InvalidDeliveryStateError ''processing job is owned by another worker'')
            else
              (let exhausted = (j_attempt_count job \<ge> j_max_attempts job);
                   final = (\<not> temporary \<or> exhausted);
                   job1 = failed_job failure_time reason base_backoff_seconds final job
               in bindE (save_job job1 db) (\<lambda>db1.
                  bindE (audit env ''payload-worker''
                           (if final then ''telemetry.processing.failed'' else ''telemetry.processing.retry_scheduled'')
                           worker_id (job_state_value (j_state job1)) (Some reason) None (Some (j_packet_id job)) (Some (j_job_id job))
                           (Some (JObj [(''attempt_count'', json_int (j_attempt_count job)),
                                        (''max_attempts'', json_int (j_max_attempts job)),
                                        (''next_attempt_at'', (case j_next_attempt_at job1 of None \<Rightarrow> JNull | Some t \<Rightarrow> JStr (isoformat t)))])) db1) (\<lambda>db2.
                  Inr (\<lparr>pf_job_id = j_job_id job, pf_state = j_state job1, pf_attempt_count = j_attempt_count job,
                        pf_next_attempt_at = j_next_attempt_at job1\<rparr>, db2)))))"

section \<open>Queries\<close>

definition get_delivery :: "uuid \<Rightarrow> telemetry_db \<Rightarrow> TelemetryDeliveryReceipt option" where
  "get_delivery rid db = get_row d_receipt_id rid (receipts db)"

definition get_packet :: "string \<Rightarrow> telemetry_db \<Rightarrow> LogicalTelemetryPacket option" where
  "get_packet pid db = get_row p_packet_id pid (packets db)"

definition get_processed :: "string \<Rightarrow> telemetry_db \<Rightarrow> ProcessedTelemetry option" where
  "get_processed pid db = get_row t_packet_id pid (processed db)"

definition get_job :: "uuid \<Rightarrow> telemetry_db \<Rightarrow> TelemetryProcessingJob option" where
  "get_job jid db = get_row j_job_id jid (jobs db)"

definition get_job_for_packet :: "string \<Rightarrow> telemetry_db \<Rightarrow> TelemetryProcessingJob option" where
  "get_job_for_packet pid db = get_row j_packet_id pid (jobs db)"

definition list_audit_events :: "int \<Rightarrow> telemetry_db \<Rightarrow> storage_error + TelemetryAuditEvent list" where
  "list_audit_events limit db =
     (if \<not> (1 \<le> limit \<and> limit \<le> 1000) then Inl (StorageValueError ''limit must be between 1 and 1000'')
      else Inr (take (nat limit) (sort_key (\<lambda>a. - instant (a_occurred_at a)) (audit_events db))))"

definition processing_queue_depth :: "telemetry_db \<Rightarrow> int" where
  "processing_queue_depth db =
     int (length (filter (\<lambda>j. j_state j \<noteq> J_COMPLETE \<and> j_state j \<noteq> J_FAILED) (jobs db)))"

end
