(* ===== verification/Repository_Evidence.thy ===== *)
theory Repository_Evidence
  imports Telemetry_Repository Telemetry_Sequence "HOL-Library.Sublist"
begin

text \<open>
  What every repository operation keeps (\<^verbatim>\<open>mission_ground/telemetry/storage.py\<close>): the well-formedness of
  the tables' keys, and that evidence is never changed or removed: one lemma per statement, and one
  per operation over them.
\<close>

named_theorems statement_simps \<open>the statements of a transaction\<close>

lemma checked_Inr [statement_simps]: "checked fault keys_ok db = Inr db' \<longleftrightarrow> fault = None \<and> keys_ok \<and> db' = db"
  by (auto simp: checked_def split: option.splits)

lemmas [statement_simps] = bindE_Inr insert_receipt_def save_receipt_def insert_identity_def insert_packet_def
  insert_state_def save_state_def insert_job_def save_job_def insert_processed_def insert_audit_def audit_def

section \<open>Growth: nothing recorded is changed or removed\<close>

text \<open>The columns of a receipt that are written once.\<close>

definition evidence :: "TelemetryDeliveryReceipt \<Rightarrow> TelemetryDeliveryReceipt" where
  "evidence r = r\<lparr>d_updated_at := utc 0, d_validation_status := V_PENDING, d_rejection_reason := None,
     d_parsed_identifiers := None, d_duplicate_of_receipt_id := None, d_logical_packet_id := None,
     d_queue_status := Q_NOT_APPLICABLE\<rparr>"

definition job_identity :: "TelemetryProcessingJob \<Rightarrow> uuid \<times> string \<times> int \<times> datetime" where
  "job_identity j = (j_job_id j, j_packet_id j, j_max_attempts j, j_created_at j)"

definition db_extends :: "telemetry_db \<Rightarrow> telemetry_db \<Rightarrow> bool" where
  "db_extends db db' \<longleftrightarrow>
     prefix (map evidence (receipts db)) (map evidence (receipts db'))
     \<and> prefix (request_identities db) (request_identities db')
     \<and> prefix (packets db) (packets db')
     \<and> prefix (map state_key (sequence_states db)) (map state_key (sequence_states db'))
     \<and> prefix (map job_identity (jobs db)) (map job_identity (jobs db'))
     \<and> prefix (processed db) (processed db')
     \<and> prefix (audit_events db) (audit_events db')"

lemma db_extends_refl [simp, intro]: "db_extends db db"
  by (simp add: db_extends_def)

lemma db_extends_trans [trans]: "db_extends a b \<Longrightarrow> db_extends b c \<Longrightarrow> db_extends a c"
  unfolding db_extends_def by (elim conjE, intro conjI) (erule (1) prefix_order.trans)+

lemma evidence_updates [simp]:
  "evidence (r\<lparr>d_updated_at := a\<rparr>) = evidence r" "evidence (r\<lparr>d_validation_status := b\<rparr>) = evidence r"
  "evidence (r\<lparr>d_rejection_reason := c\<rparr>) = evidence r" "evidence (r\<lparr>d_parsed_identifiers := d\<rparr>) = evidence r"
  "evidence (r\<lparr>d_duplicate_of_receipt_id := e\<rparr>) = evidence r" "evidence (r\<lparr>d_logical_packet_id := f\<rparr>) = evidence r"
  "evidence (r\<lparr>d_queue_status := g\<rparr>) = evidence r"
  by (simp_all add: evidence_def)

lemma evidence_eqD:
  assumes "evidence r = evidence r'"
  shows "d_receipt_id r = d_receipt_id r'" "d_raw_body r = d_raw_body r'" "d_body_sha256 r = d_body_sha256 r'"
    "d_received_at r = d_received_at r'" "d_canonical_request_id r = d_canonical_request_id r'"
    "d_raw_body_size r = d_raw_body_size r'" "d_presented_request_id r = d_presented_request_id r'"
    "d_peer_certificate_identity r = d_peer_certificate_identity r'" "d_content_type r = d_content_type r'"
  using assms by (cases r; cases r'; simp add: evidence_def)+

text \<open>A row update that keeps the permanent columns of the row it replaces.\<close>

definition same_evidence :: "TelemetryDeliveryReceipt \<Rightarrow> telemetry_db \<Rightarrow> bool" where
  "same_evidence r db \<longleftrightarrow> (\<forall>r0 \<in> set (receipts db). d_receipt_id r0 = d_receipt_id r \<longrightarrow> evidence r0 = evidence r)"

definition same_job :: "TelemetryProcessingJob \<Rightarrow> telemetry_db \<Rightarrow> bool" where
  "same_job j db \<longleftrightarrow> (\<forall>j0 \<in> set (jobs db). j_job_id j0 = j_job_id j \<longrightarrow> job_identity j0 = job_identity j)"

lemma inserts_extend:
  "insert_receipt r db = Inr db' \<Longrightarrow> db_extends db db'"
  "insert_identity i db = Inr db' \<Longrightarrow> db_extends db db'"
  "insert_packet p db = Inr db' \<Longrightarrow> db_extends db db'"
  "insert_state s db = Inr db' \<Longrightarrow> db_extends db db'"
  "insert_job j db = Inr db' \<Longrightarrow> db_extends db db'"
  "insert_processed t db = Inr db' \<Longrightarrow> db_extends db db'"
  "insert_audit a db = Inr db' \<Longrightarrow> db_extends db db'"
  "audit env sn en ai oc rs rid pid jid dt db = Inr db' \<Longrightarrow> db_extends db db'"
  by (auto simp: statement_simps db_extends_def)

lemma save_receipt_extends: "save_receipt r db = Inr db' \<Longrightarrow> same_evidence r db \<Longrightarrow> db_extends db db'"
  using put_row_same [of "receipts db" d_receipt_id r evidence]
  by (auto simp: statement_simps db_extends_def same_evidence_def)

lemma save_job_extends: "save_job j db = Inr db' \<Longrightarrow> same_job j db \<Longrightarrow> db_extends db db'"
  using put_row_same [of "jobs db" j_job_id j job_identity]
  by (auto simp: statement_simps db_extends_def same_job_def)

lemma save_state_extends: "save_state s db = Inr db' \<Longrightarrow> db_extends db db'"
  by (auto simp: statement_simps db_extends_def)

section \<open>Keys\<close>

definition keys_ok :: "telemetry_db \<Rightarrow> bool" where
  "keys_ok db \<longleftrightarrow>
     distinct (map d_receipt_id (receipts db))
     \<and> distinct (map i_request_id (request_identities db)) \<and> distinct (map i_first_receipt_id (request_identities db))
     \<and> distinct (map p_packet_id (packets db)) \<and> distinct (map source_key (packets db))
     \<and> distinct (map p_source_receipt_id (packets db))
     \<and> distinct (map state_key (sequence_states db))
     \<and> distinct (map j_job_id (jobs db)) \<and> distinct (map j_packet_id (jobs db))
     \<and> distinct (map t_packet_id (processed db)) \<and> distinct (map t_processing_job_id (processed db))
     \<and> distinct (map a_event_id (audit_events db))"

definition keyed_step :: "telemetry_db \<Rightarrow> telemetry_db \<Rightarrow> bool" where
  "keyed_step db db' \<longleftrightarrow> keys_ok db' \<and> db_extends db db'"

lemma distinct_snoc_row: "distinct (map key rows) \<Longrightarrow> \<not> has_row key (key r) rows \<Longrightarrow> distinct (map key (rows @ [r]))"
  by (auto simp: has_row_def)

lemma insert_keys:
  assumes "keys_ok db"
  shows "insert_receipt r db = Inr db' \<Longrightarrow> keys_ok db'"
    "insert_identity i db = Inr db' \<Longrightarrow> keys_ok db'"
    "insert_packet p db = Inr db' \<Longrightarrow> keys_ok db'"
    "insert_state s db = Inr db' \<Longrightarrow> keys_ok db'"
    "insert_job j db = Inr db' \<Longrightarrow> keys_ok db'"
    "insert_processed t db = Inr db' \<Longrightarrow> keys_ok db'"
    "audit env sn en ai oc rs rid pid jid dt db = Inr db' \<Longrightarrow> keys_ok db'"
    "save_receipt r db = Inr db' \<Longrightarrow> keys_ok db'"
    "save_state s db = Inr db' \<Longrightarrow> keys_ok db'"
    "insert_audit a db = Inr db' \<Longrightarrow> keys_ok db'"
  using assms unfolding keys_ok_def
  by (auto simp: statement_simps has_row_def)

lemma save_job_keys: "keys_ok db \<Longrightarrow> save_job j db = Inr db' \<Longrightarrow> same_job j db \<Longrightarrow> keys_ok db'"
  using put_row_same [of "jobs db" j_job_id j j_packet_id]
  by (auto simp: statement_simps keys_ok_def same_job_def job_identity_def)

lemma statement_step:
  assumes "keys_ok db"
  shows "insert_receipt r db = Inr db' \<Longrightarrow> keyed_step db db'"
    "insert_identity i db = Inr db' \<Longrightarrow> keyed_step db db'"
    "insert_packet p db = Inr db' \<Longrightarrow> keyed_step db db'"
    "insert_state s db = Inr db' \<Longrightarrow> keyed_step db db'"
    "insert_job j db = Inr db' \<Longrightarrow> keyed_step db db'"
    "insert_processed t db = Inr db' \<Longrightarrow> keyed_step db db'"
    "audit env sn en ai oc rs rid pid jid dt db = Inr db' \<Longrightarrow> keyed_step db db'"
    "save_state s db = Inr db' \<Longrightarrow> keyed_step db db'"
    "save_receipt r db = Inr db' \<Longrightarrow> same_evidence r db \<Longrightarrow> keyed_step db db'"
    "save_job j db = Inr db' \<Longrightarrow> same_job j db \<Longrightarrow> keyed_step db db'"
    "insert_audit a db = Inr db' \<Longrightarrow> keyed_step db db'"
  using assms insert_keys [OF assms] save_job_keys [OF assms]
  by (auto simp: keyed_step_def intro: inserts_extend save_receipt_extends save_job_extends save_state_extends)

lemma keyed_step_trans: "keyed_step a b \<Longrightarrow> (keys_ok b \<Longrightarrow> keyed_step b c) \<Longrightarrow> keyed_step a c"
  by (auto simp: keyed_step_def intro: db_extends_trans)

lemma keyed_step_refl: "keys_ok a \<Longrightarrow> keyed_step a a"
  by (simp add: keyed_step_def)

lemma same_evidence_get:
  assumes "keys_ok db" "get_row d_receipt_id rid (receipts db) = Some r" "evidence r' = evidence r"
  shows "same_evidence r' db"
proof -
  have "d_receipt_id r' = d_receipt_id r" using assms(3) by (rule evidence_eqD)
  then show ?thesis
    using assms row_unique [of d_receipt_id "receipts db" _ r] get_row_Some [OF assms(2)]
    unfolding same_evidence_def keys_ok_def by metis
qed

lemma same_job_get:
  assumes "keys_ok db" "get_row j_job_id jid (jobs db) = Some j" "job_identity j' = job_identity j"
  shows "same_job j' db"
proof -
  have "j_job_id j' = j_job_id j" using assms(3) by (simp add: job_identity_def)
  then show ?thesis
    using assms row_unique [of j_job_id "jobs db" _ j] get_row_Some [OF assms(2)]
    unfolding same_job_def keys_ok_def by metis
qed

text \<open>A transaction is a chain of statements; the steps compose.\<close>

lemma bind_step:
  assumes "bindE m k = Inr (x, db')" and "\<And>db1. m = Inr db1 \<Longrightarrow> keyed_step db db1"
    and "\<And>db1. m = Inr db1 \<Longrightarrow> keys_ok db1 \<Longrightarrow> k db1 = Inr (x, db') \<Longrightarrow> keyed_step db1 db'"
  shows "keyed_step db db'"
proof -
  from assms(1) obtain db1 where "m = Inr db1" "k db1 = Inr (x, db')" by (auto simp: bindE_Inr)
  then show ?thesis using assms(2,3) [of db1] by (meson keyed_step_def keyed_step_trans)
qed

lemma same_evidence_frame: "receipts db' = receipts db \<Longrightarrow> same_evidence r db \<Longrightarrow> same_evidence r db'"
  by (simp add: same_evidence_def)

lemma same_job_frame: "jobs db' = jobs db \<Longrightarrow> same_job j db \<Longrightarrow> same_job j db'"
  by (simp add: same_job_def)

lemma statement_frames:
  "insert_packet p db = Inr db' \<Longrightarrow> receipts db' = receipts db"
  "store_state env v st d m db = Inr db' \<Longrightarrow> receipts db' = receipts db"
  "insert_job j db = Inr db' \<Longrightarrow> receipts db' = receipts db"
  "insert_processed t db = Inr db' \<Longrightarrow> jobs db' = jobs db"
  "save_job j db = Inr db' \<Longrightarrow> receipts db' = receipts db"
  by (auto simp: statement_simps store_state_def Let_def split: option.splits)

lemma store_state_step: "keys_ok db \<Longrightarrow> store_state env v st d m db = Inr db' \<Longrightarrow> keyed_step db db'"
  by (auto simp: store_state_def Let_def split: option.splits intro: statement_step)

lemma store_delivery_step:
  "keys_ok db \<Longrightarrow> store_delivery env inp t dg first db = Inr (x, db') \<Longrightarrow> keyed_step db db'"
  unfolding store_delivery_def Let_def
  by (erule bind_step, erule (1) statement_step, erule bind_step,
      force split: option.splits if_splits intro: statement_step keyed_step_refl,
      erule bind_step, erule (1) statement_step) (simp add: keyed_step_refl)

lemma delivery_attempt_step:
  "keys_ok db \<Longrightarrow> delivery_attempt inp t dg (env, rd, db) = Inr (x, db') \<Longrightarrow> keyed_step db db'"
  by (auto simp: delivery_attempt_def intro: store_delivery_step keyed_step_refl split: option.splits if_splits)

lemma receipt_update_step:
  assumes "keys_ok db" "get_row d_receipt_id rid (receipts db) = Some r" "evidence r' = evidence r"
    and "bindE (save_receipt r' db) (\<lambda>db1. bindE (audit env sn en ai oc rs ri pk ji dt db1) (\<lambda>db2. Inr (y, db2))) = Inr (x, db')"
  shows "keyed_step db db'"
  using assms(4)
proof (rule bind_step)
  show "keyed_step db db1" if "save_receipt r' db = Inr db1" for db1
    using statement_step(9) [OF assms(1) that] same_evidence_get [OF assms(1-3)] by simp
next
  fix db1
  assume "keys_ok db1" and "bindE (audit env sn en ai oc rs ri pk ji dt db1) (\<lambda>db2. Inr (y, db2)) = Inr (x, db')"
  then show "keyed_step db1 db'" by (auto simp: bindE_Inr intro: statement_step)
qed

lemma reject_delivery_step:
  "keys_ok db \<Longrightarrow> reject_delivery env rid reason ids actor db = Inr (x, db') \<Longrightarrow> keyed_step db db'"
  by (auto simp: reject_delivery_def Let_def split: option.splits if_splits
      intro: keyed_step_refl elim!: receipt_update_step [rotated 3] simp: rejected_receipt_def)

lemma accept_existing_step:
  assumes "keys_ok db" "get_row d_receipt_id rid (receipts db) = Some r"
    and "accept_existing env r v actor ep db = Inr (x, db')"
  shows "keyed_step db db'"
  using assms(3) unfolding accept_existing_def Let_def
  by (auto split: if_splits elim!: receipt_update_step [OF assms(1,2), rotated] simp: repeated_receipt_def)

lemma accept_state_conflict_step:
  assumes "keys_ok db" "get_row d_receipt_id rid (receipts db) = Some r"
    and "accept_state_conflict env r v actor db = Inr (x, db')"
  shows "keyed_step db db'"
  using assms(3) unfolding accept_state_conflict_def Let_def
  by (auto elim!: receipt_update_step [OF assms(1,2), rotated] simp: state_conflict_receipt_def)

lemma accept_newE:
  assumes "accept_new env r v ma actor st d m db = Inr (x, db')"
  obtains db1 db2 db3 db4 a where "insert_packet (new_packet env r v d m) db = Inr db1"
    and "store_state env v st d m db1 = Inr db2"
    and "insert_job (new_job env (dv_packet_id v) ma) db2 = Inr db3"
    and "save_receipt (accepted_receipt env v r) db3 = Inr db4"
    and "insert_audit a db4 = Inr db'"
    and "pa_validation_status x = V_ACCEPTED" "pa_queue_status x = Q_PENDING_QUEUE"
    and "pa_packet_id x = Some (dv_packet_id v)" "pa_job_id x = Some (row_id env)"
    and "pa_sequence_disposition x = Some d" "pa_missing_before x = m" "\<not> pa_duplicate x" "\<not> pa_conflict x"
    and "pa_receipt_id x = d_receipt_id r"
proof -
  from assms have "\<exists>db1 db2 db3 db4 a. insert_packet (new_packet env r v d m) db = Inr db1
    \<and> store_state env v st d m db1 = Inr db2 \<and> insert_job (new_job env (dv_packet_id v) ma) db2 = Inr db3
    \<and> save_receipt (accepted_receipt env v r) db3 = Inr db4 \<and> insert_audit a db4 = Inr db'"
    unfolding accept_new_def Let_def
    by (clarsimp simp: bindE_Inr audit_def) (intro exI conjI; assumption)
  moreover from assms have "pa_validation_status x = V_ACCEPTED" "pa_queue_status x = Q_PENDING_QUEUE"
    "pa_packet_id x = Some (dv_packet_id v)" "pa_job_id x = Some (row_id env)"
    "pa_sequence_disposition x = Some d" "pa_missing_before x = m" "\<not> pa_duplicate x" "\<not> pa_conflict x"
    "pa_receipt_id x = d_receipt_id r"
    unfolding accept_new_def Let_def by (clarsimp simp: bindE_Inr new_job_def)+
  ultimately show ?thesis using that by blast
qed

lemma accept_new_step:
  assumes "keys_ok db" "get_row d_receipt_id rid (receipts db) = Some r"
    and "accept_new env r v ma actor st d m db = Inr (x, db')"
  shows "keyed_step db db'"
proof -
  have ev: "same_evidence (accepted_receipt env v r) db"
    by (rule same_evidence_get [OF assms(1,2)]) (simp add: accepted_receipt_def)
  from assms(3) obtain db1 db2 db3 db4 a where
    1: "insert_packet (new_packet env r v d m) db = Inr db1" and 2: "store_state env v st d m db1 = Inr db2"
    and 3: "insert_job (new_job env (dv_packet_id v) ma) db2 = Inr db3"
    and 4: "save_receipt (accepted_receipt env v r) db3 = Inr db4" and 5: "insert_audit a db4 = Inr db'"
    by (rule accept_newE)
  have s1: "keyed_step db db1" by (rule statement_step(3) [OF assms(1) 1])
  have s2: "keyed_step db db2" using s1 store_state_step 2 by (metis keyed_step_def keyed_step_trans)
  have s3: "keyed_step db db3" using s2 statement_step(5) 3 by (metis keyed_step_def keyed_step_trans)
  have "same_evidence (accepted_receipt env v r) db3"
    using ev statement_frames(1) [OF 1] statement_frames(2) [OF 2] statement_frames(3) [OF 3] by (simp add: same_evidence_def)
  then have s4: "keyed_step db db4" using s3 statement_step(9) 4 by (metis keyed_step_def keyed_step_trans)
  then show ?thesis using 5 statement_step(11) by (metis keyed_step_def keyed_step_trans)
qed

lemma accept_packet_transaction_step:
  "keys_ok db \<Longrightarrow> accept_packet_transaction rid v ma actor (env, rd, ld, db) = Inr (x, db') \<Longrightarrow> keyed_step db db'"
  by (auto simp: accept_packet_transaction_def Let_def split: option.splits if_splits
      intro: keyed_step_refl accept_existing_step accept_state_conflict_step accept_new_step)

lemma save_receipts_step:
  "keys_ok db \<Longrightarrow> \<forall>r \<in> set rs. same_evidence r db \<Longrightarrow> save_receipts rs db = Inr db' \<Longrightarrow> keyed_step db db'"
proof (induction rs arbitrary: db)
  case Nil
  then show ?case by (simp add: keyed_step_refl)
next
  case (Cons r rs)
  from Cons.prems(3) obtain db1 where 1: "save_receipt r db = Inr db1" and 2: "save_receipts rs db1 = Inr db'"
    by (auto simp: bindE_Inr)
  have st: "keyed_step db db1" using statement_step(9) [OF Cons.prems(1) 1] Cons.prems(2) by simp
  have "same_evidence q db1" if "same_evidence q db" "same_evidence r db" for q
    using that 1 unfolding same_evidence_def by (auto simp: statement_simps put_row_def split: if_splits)
  then show ?case using st Cons.IH [of db1] 2 Cons.prems(2) by (auto simp: keyed_step_def intro: db_extends_trans)
qed

lemma mark_job_queuedE:
  assumes "mark_job_queued env jid qid actor db = Inr (x, db')"
  obtains (again) job where "get_row j_job_id jid (jobs db) = Some job" "j_state job = J_QUEUED"
      "j_queue_message_id job = Some qid" "x = False" "db' = db"
    | (queued) job db1 db2 a where "get_row j_job_id jid (jobs db) = Some job"
      "j_state job = J_PENDING_QUEUE \<or> j_state job = J_RETRY_WAIT"
      "save_job (queued_job env qid job) db = Inr db1"
      "save_receipts (map (queued_receipt env)
         (filter (\<lambda>r. d_logical_packet_id r = Some (j_packet_id job) \<and> d_validation_status r = V_ACCEPTED) (receipts db))) db1 = Inr db2"
      "insert_audit a db2 = Inr db'" "x = True"
  using assms unfolding mark_job_queued_def Let_def audit_def
  by (auto simp: bindE_Inr split: option.splits if_splits)

lemma mark_job_queued_step:
  assumes "keys_ok db" "mark_job_queued env jid qid actor db = Inr (x, db')"
  shows "keyed_step db db'"
  using assms(2)
proof (cases rule: mark_job_queuedE)
  case (again job)
  then show ?thesis by (simp add: keyed_step_refl assms(1))
next
  case (queued job db1 db2 a)
  note 1 = queued(3) and 2 = queued(4)
  have s1: "keyed_step db db1"
    by (rule statement_step(10) [OF assms(1) 1])
      (rule same_job_get [OF assms(1) queued(1)], simp add: job_identity_def queued_job_def)
  have "same_evidence (queued_receipt env r0) db1" if r0: "r0 \<in> set (receipts db)" for r0
  proof -
    have "get_row d_receipt_id (d_receipt_id r0) (receipts db) = Some r0"
      using assms(1) r0 by (intro get_row_unique) (auto simp: keys_ok_def)
    then have "same_evidence (queued_receipt env r0) db"
      by (rule same_evidence_get [OF assms(1)]) (simp add: queued_receipt_def)
    then show ?thesis using statement_frames(5) [OF 1] by (simp add: same_evidence_def)
  qed
  then have "keyed_step db1 db2" using s1 by (intro save_receipts_step [OF _ _ 2]) (auto simp: keyed_step_def)
  then have "keyed_step db db2" using s1 by (metis keyed_step_def keyed_step_trans)
  then show ?thesis using queued(5) statement_step(11) by (metis keyed_step_def keyed_step_trans)
qed

lemma job_update_step:
  assumes "save_job j' db = Inr db'" "keys_ok db" "get_row j_job_id jid (jobs db) = Some j" "job_identity j' = job_identity j"
  shows "keyed_step db db'"
  by (rule statement_step(10) [OF assms(2,1)]) (rule same_job_get [OF assms(2-4)])

lemma job_update_audit_step:
  assumes "save_job j' db = Inr db1" "insert_audit a db1 = Inr db'"
    and "keys_ok db" "get_row j_job_id jid (jobs db) = Some j" "job_identity j' = job_identity j"
  shows "keyed_step db db'"
  using job_update_step [OF assms(1,3,4,5)] statement_step(11) [of db1 a db'] assms(2)
  by (metis keyed_step_def keyed_step_trans)

lemma claim_processing_jobE:
  assumes "claim_processing_job env jid w lease db = Inr (x, db')"
  obtains (idle) job where "get_row j_job_id jid (jobs db) = Some job" "x = None" "db' = db"
      "get_row t_packet_id (j_packet_id job) (processed db) \<noteq> None \<longrightarrow> j_state job = J_COMPLETE"
      "get_row t_packet_id (j_packet_id job) (processed db) = None \<longrightarrow> \<not> claimable (now env) job"
    | (finished) job t where "get_row j_job_id jid (jobs db) = Some job" "x = None"
      "get_row t_packet_id (j_packet_id job) (processed db) = Some t" "j_state job \<noteq> J_COMPLETE"
      "save_job (finished_job env t job) db = Inr db'"
    | (claimed) job packet receipt db1 a where "get_row j_job_id jid (jobs db) = Some job"
      "get_row t_packet_id (j_packet_id job) (processed db) = None" "claimable (now env) job"
      "get_row p_packet_id (j_packet_id job) (packets db) = Some packet"
      "get_row d_receipt_id (p_source_receipt_id packet) (receipts db) = Some receipt"
      "save_job (claimed_job env w lease job) db = Inr db1" "insert_audit a db1 = Inr db'"
      "x = Some \<lparr>wi_job_id = j_job_id job, wi_packet_id = p_packet_id packet,
         wi_raw_body = d_raw_body receipt, wi_received_at = as_utc (d_received_at receipt),
         wi_values = packet_values packet, wi_attempt_count = j_attempt_count job + 1,
         wi_max_attempts = j_max_attempts job\<rparr>"
      "0 < lease" "w \<noteq> []"
  using assms unfolding claim_processing_job_def Let_def audit_def
  by (auto simp: bindE_Inr claimed_job_def split: option.splits if_splits)

lemma claim_processing_job_step:
  assumes "keys_ok db" "claim_processing_job env jid w lease db = Inr (x, db')"
  shows "keyed_step db db'"
  using assms(2)
proof (cases rule: claim_processing_jobE)
  case (finished job t)
  then show ?thesis using job_update_step [OF finished(5) assms(1) finished(1)]
    by (simp add: job_identity_def finished_job_def)
next
  case (claimed job packet receipt db1 a)
  then show ?thesis using job_update_audit_step [OF claimed(6,7) assms(1) claimed(1)]
    by (simp add: job_identity_def claimed_job_def)
qed (simp add: keyed_step_refl assms(1))

lemma fail_processing_attemptE:
  assumes "fail_processing_attempt env jid w reason temp base t db = Inr (x, db')"
  obtains (again) job where "get_row j_job_id jid (jobs db) = Some job" "j_state job = J_FAILED" "db' = db"
      "pf_state x = J_FAILED" "pf_next_attempt_at x = None"
    | (failed) job final db1 a where "get_row j_job_id jid (jobs db) = Some job" "j_state job = J_PROCESSING"
      "j_claimed_by job = Some w" "0 < base"
      "final \<longleftrightarrow> \<not> temp \<or> j_max_attempts job \<le> j_attempt_count job"
      "save_job (failed_job (case t of Some u \<Rightarrow> u | None \<Rightarrow> now env) reason base final job) db = Inr db1"
      "insert_audit a db1 = Inr db'"
      "pf_state x = (if final then J_FAILED else J_RETRY_WAIT)"
      "pf_next_attempt_at x = (if final then None
         else Some (add_seconds (case t of Some u \<Rightarrow> u | None \<Rightarrow> now env) (backoff_delay base (j_attempt_count job))))"
  using assms unfolding fail_processing_attempt_def Let_def audit_def
  by (auto simp: bindE_Inr failed_job_def Let_def split: option.splits if_splits)

lemma fail_processing_attempt_step:
  assumes "keys_ok db" "fail_processing_attempt env jid w reason temp base t db = Inr (x, db')"
  shows "keyed_step db db'"
  using assms(2)
proof (cases rule: fail_processing_attemptE)
  case (failed job final db1 a)
  then show ?thesis using job_update_audit_step [OF failed(6,7) assms(1) failed(1)]
    by (simp add: job_identity_def failed_job_def Let_def)
qed (simp add: keyed_step_refl assms(1))

lemma complete_processing_jobE:
  assumes "complete_processing_job env jid res w t db = Inr (x, db')"
  obtains (existing) job where "get_row j_job_id jid (jobs db) = Some job"
      "get_row t_packet_id (j_packet_id job) (processed db) = Some x" "same_processing_result x res"
      "save_job (finished_job env x job) db = Inr db'"
    | (completed) job db1 db2 a where "get_row j_job_id jid (jobs db) = Some job"
      "get_row t_packet_id (j_packet_id job) (processed db) = None" "j_state job = J_PROCESSING" "j_claimed_by job = Some w"
      "x = processed_row (case t of Some u \<Rightarrow> u | None \<Rightarrow> now env) res job"
      "insert_processed x db = Inr db1"
      "save_job (completed_job (case t of Some u \<Rightarrow> u | None \<Rightarrow> now env) job) db1 = Inr db2"
      "insert_audit a db2 = Inr db'"
  using assms unfolding complete_processing_job_def Let_def audit_def
  by (auto simp: bindE_Inr split: option.splits if_splits)

lemma complete_processing_job_step:
  assumes "keys_ok db" "complete_processing_job env jid res w t db = Inr (x, db')"
  shows "keyed_step db db'"
  using assms(2)
proof (cases rule: complete_processing_jobE)
  case (existing job)
  then show ?thesis using job_update_step [OF existing(4) assms(1) existing(1)]
    by (simp add: job_identity_def finished_job_def)
next
  case (completed job db1 db2 a)
  have s1: "keyed_step db db1" by (rule statement_step(6) [OF assms(1) completed(6)])
  have "get_row j_job_id jid (jobs db1) = Some job" using completed(1) statement_frames(4) [OF completed(6)] by simp
  then have "keyed_step db1 db'" using s1
    by (intro job_update_audit_step [OF completed(7,8)]) (auto simp: keyed_step_def job_identity_def completed_job_def)
  then show ?thesis using s1 by (metis keyed_step_def keyed_step_trans)
qed

end
