(* ===== verification/Repository_Invariants.thy ===== *)
theory Repository_Invariants
  imports Repository_Evidence
begin

text \<open>
  The well-formedness of the database (\<^verbatim>\<open>mission_ground/telemetry/storage.py\<close>): what the rows of the
  seven tables say about each other in every state the repository can reach.
\<close>

section \<open>The storage's sequence rule\<close>

definition stored_advances :: "int option \<Rightarrow> int \<Rightarrow> bool" where
  "stored_advances h s =
     (case stored_disposition h s of None \<Rightarrow> False | Some (d, _) \<Rightarrow> d = SD_FIRST \<or> d = SD_IN_ORDER \<or> d = SD_GAP)"

definition stored_missing :: "int option \<Rightarrow> int \<Rightarrow> int" where
  "stored_missing h s = (case stored_disposition h s of None \<Rightarrow> 0 | Some (_, m) \<Rightarrow> m)"

lemma storage_constants: "MAX_UINT32 = 4294967295" "HALF_UINT32_RANGE = 2147483648" "MAX_EVIDENCE_BODY_BYTES = 1024"
  by (simp_all add: MAX_UINT32_def HALF_UINT32_RANGE_def MAX_EVIDENCE_BODY_BYTES_def push_bit_eq_mult)

lemma and_uint32: "x AND MAX_UINT32 = x mod 2 ^ 32"
proof -
  have "x AND mask 32 = x mod 2 ^ 32" by (simp add: take_bit_eq_mask [symmetric] take_bit_eq_mod)
  then show ?thesis by (simp add: MAX_UINT32_def mask_eq_exp_minus_1)
qed

lemma stored_disposition_cases:
  "stored_disposition (Some h) s =
     (let d = seq_distance h s in
      if d = 0 then None else if d = 1 then Some (SD_IN_ORDER, 0)
      else if d < 2 ^ 31 then Some (SD_GAP, d - 1) else Some (SD_LATE, 0))"
  by (simp add: stored_disposition_def and_uint32 seq_distance_def storage_constants(2) Let_def)

interpretation stored: seq_classifier stored_advances stored_missing
proof (unfold_locales, goal_cases)
  case (3 h s)
  then show ?case by (auto simp: stored_advances_def stored_disposition_cases Let_def)
next
  case (4 h s)
  then show ?case by (auto simp: stored_missing_def stored_disposition_cases Let_def)
next
  case (5 h s)
  then show ?case by (auto simp: stored_advances_def stored_disposition_cases Let_def)
next
  case (6 h s)
  then show ?case by (auto simp: stored_advances_def stored_disposition_cases Let_def)
qed (simp_all add: stored_advances_def stored_missing_def stored_disposition_def)

section \<open>Well-formed rows\<close>

definition receipt_ok :: "TelemetryDeliveryReceipt \<Rightarrow> bool" where
  "receipt_ok r \<longleftrightarrow> d_raw_body_size r = int (length (d_raw_body r)) \<and> length (d_raw_body r) \<le> 1024
     \<and> d_body_sha256 r = sha256_hexdigest (d_raw_body r)"

text \<open>What the outcome of a delivery says about the packets and jobs.\<close>

definition delivery_ok :: "telemetry_db \<Rightarrow> TelemetryDeliveryReceipt \<Rightarrow> bool" where
  "delivery_ok db r \<longleftrightarrow>
     (d_validation_status r \<noteq> V_ACCEPTED \<longrightarrow>
        d_queue_status r = Q_NOT_APPLICABLE \<and> \<not> has_row p_source_receipt_id (d_receipt_id r) (packets db))
     \<and> (d_validation_status r = V_ACCEPTED \<longrightarrow>
        (\<exists>p \<in> set (packets db). \<exists>j \<in> set (jobs db). p_source_receipt_id p = d_receipt_id r
           \<and> d_logical_packet_id r = Some (p_packet_id p) \<and> j_packet_id j = p_packet_id p
           \<and> d_queue_status r = job_state_to_queue_status (j_state j)))
     \<and> (d_validation_status r = V_DUPLICATE \<longrightarrow>
        (\<exists>p \<in> set (packets db). \<exists>o' \<in> set (receipts db). d_logical_packet_id r = Some (p_packet_id p)
           \<and> d_duplicate_of_receipt_id r = Some (p_source_receipt_id p) \<and> d_receipt_id o' = p_source_receipt_id p
           \<and> d_raw_body o' = d_raw_body r))
     \<and> (d_validation_status r \<in> {V_REJECTED, V_CONFLICT} \<longrightarrow> d_rejection_reason r \<noteq> None)"

definition identity_ok :: "telemetry_db \<Rightarrow> TelemetryRequestIdentity \<Rightarrow> bool" where
  "identity_ok db i \<longleftrightarrow> (\<exists>r \<in> set (receipts db). d_receipt_id r = i_first_receipt_id i
     \<and> i_body_sha256 i = d_body_sha256 r \<and> d_canonical_request_id r = Some (i_request_id i))"

definition packet_ok :: "telemetry_db \<Rightarrow> LogicalTelemetryPacket \<Rightarrow> bool" where
  "packet_ok db p \<longleftrightarrow> check_packet p = None \<and> p_packet_id p = dv_packet_id (packet_values p)
     \<and> (\<exists>r \<in> set (receipts db). d_receipt_id r = p_source_receipt_id p \<and> p_raw_sha256 p = d_body_sha256 r
          \<and> d_validation_status r = V_ACCEPTED)
     \<and> has_row j_packet_id (p_packet_id p) (jobs db)
     \<and> has_row state_key (p_payload_id p, p_boot_id p) (sequence_states db)"

definition job_ok :: "telemetry_db \<Rightarrow> TelemetryProcessingJob \<Rightarrow> bool" where
  "job_ok db j \<longleftrightarrow>
     (j_state j = J_COMPLETE \<longleftrightarrow> has_row t_packet_id (j_packet_id j) (processed db))
     \<and> has_row p_packet_id (j_packet_id j) (packets db)
     \<and> 0 \<le> j_attempt_count j \<and> 0 < j_max_attempts j
     \<and> (j_state j = J_PENDING_QUEUE \<longrightarrow> j_attempt_count j = 0)
     \<and> (j_state j = J_PROCESSING \<longrightarrow> 0 < j_attempt_count j \<and> j_claimed_by j \<noteq> None \<and> j_lease_expires_at j \<noteq> None)
     \<and> (j_state j = J_RETRY_WAIT \<longrightarrow> j_attempt_count j < j_max_attempts j \<and> j_next_attempt_at j \<noteq> None)"

definition processed_ok :: "telemetry_db \<Rightarrow> ProcessedTelemetry \<Rightarrow> bool" where
  "processed_ok db t \<longleftrightarrow> (\<exists>j \<in> set (jobs db). j_job_id j = t_processing_job_id t \<and> j_packet_id j = t_packet_id t)"

text \<open>The packets of a boot session in order of acceptance, and the totals they amount to.\<close>

definition session_numbers :: "int \<times> int \<Rightarrow> LogicalTelemetryPacket list \<Rightarrow> int list" where
  "session_numbers k ps = map p_sequence_number (filter (\<lambda>p. (p_payload_id p, p_boot_id p) = k) ps)"

definition session_totals :: "int \<times> int \<Rightarrow> LogicalTelemetryPacket list \<Rightarrow> seq_totals" where
  "session_totals k ps = foldl (seq_track stored_advances stored_missing) no_packets (session_numbers k ps)"

definition state_ok :: "telemetry_db \<Rightarrow> TelemetrySequenceState \<Rightarrow> bool" where
  "state_ok db s \<longleftrightarrow>
     high_water (session_totals (state_key s) (packets db)) = Some (s_high_water_sequence s)
     \<and> accepted_total (session_totals (state_key s) (packets db)) = s_accepted_packet_count s
     \<and> missing_total (session_totals (state_key s) (packets db)) = s_missing_packet_count s
     \<and> (\<exists>p \<in> set (packets db). source_key p = (s_payload_id s, s_boot_id s, s_high_water_sequence s)
          \<and> p_packet_id p = s_last_high_water_packet_id s)"

definition rows_ok :: "telemetry_db \<Rightarrow> bool" where
  "rows_ok db \<longleftrightarrow>
     (\<forall>r \<in> set (receipts db). receipt_ok r \<and> delivery_ok db r)
     \<and> (\<forall>i \<in> set (request_identities db). identity_ok db i)
     \<and> (\<forall>p \<in> set (packets db). packet_ok db p)
     \<and> (\<forall>j \<in> set (jobs db). job_ok db j)
     \<and> (\<forall>t \<in> set (processed db). processed_ok db t)
     \<and> (\<forall>s \<in> set (sequence_states db). state_ok db s)"

definition db_inv :: "telemetry_db \<Rightarrow> bool" where
  "db_inv db \<longleftrightarrow> keys_ok db \<and> rows_ok db"

lemma db_inv_schema: "db_inv create_schema"
  by (simp add: db_inv_def keys_ok_def rows_ok_def create_schema_def)

lemma rows_ok_audit [simp]: "rows_ok (db\<lparr>audit_events := as\<rparr>) = rows_ok db"
  by (simp add: rows_ok_def delivery_ok_def identity_ok_def packet_ok_def job_ok_def processed_ok_def state_ok_def)

section \<open>Rows that survive a transaction\<close>

text \<open>The rows other rows refer to stay, and an accepted receipt stays accepted.\<close>

definition rows_stay :: "telemetry_db \<Rightarrow> telemetry_db \<Rightarrow> bool" where
  "rows_stay db db' \<longleftrightarrow>
     (\<forall>r \<in> set (receipts db). \<exists>r' \<in> set (receipts db'). evidence r' = evidence r
        \<and> (d_validation_status r = V_ACCEPTED \<longrightarrow> d_validation_status r' = V_ACCEPTED))
     \<and> set (packets db) \<subseteq> set (packets db')
     \<and> (\<forall>j \<in> set (jobs db). \<exists>j' \<in> set (jobs db'). job_identity j' = job_identity j)
     \<and> (\<forall>s \<in> set (sequence_states db). \<exists>s' \<in> set (sequence_states db'). state_key s' = state_key s)"

lemma identity_ok_mono: "rows_stay db db' \<Longrightarrow> identity_ok db i \<Longrightarrow> identity_ok db' i"
  unfolding rows_stay_def identity_ok_def by (metis evidence_eqD(1,3,5))

lemma packet_ok_mono: "rows_stay db db' \<Longrightarrow> packet_ok db p \<Longrightarrow> packet_ok db' p"
proof -
  assume st: "rows_stay db db'" and p: "packet_ok db p"
  have "has_row j_packet_id (p_packet_id p) (jobs db')"
    using st p unfolding rows_stay_def packet_ok_def has_row_def job_identity_def by (metis prod.inject)
  moreover have "has_row state_key (p_payload_id p, p_boot_id p) (sequence_states db')"
    using st p unfolding rows_stay_def packet_ok_def has_row_def by metis
  moreover have "\<exists>r \<in> set (receipts db'). d_receipt_id r = p_source_receipt_id p \<and> p_raw_sha256 p = d_body_sha256 r
      \<and> d_validation_status r = V_ACCEPTED"
    using st p unfolding rows_stay_def packet_ok_def by (metis evidence_eqD(1,3))
  ultimately show ?thesis using p by (simp add: packet_ok_def)
qed

lemma processed_ok_mono: "rows_stay db db' \<Longrightarrow> processed_ok db t \<Longrightarrow> processed_ok db' t"
  unfolding rows_stay_def processed_ok_def job_identity_def by (metis prod.inject)

text \<open>Receipts and identities added: nothing else depends on them.\<close>

lemma source_receipt_exists:
  "db_inv db \<Longrightarrow> p \<in> set (packets db) \<Longrightarrow> has_row d_receipt_id (p_source_receipt_id p) (receipts db)"
  by (auto simp: db_inv_def rows_ok_def packet_ok_def has_row_def)

lemma rows_stay_more:
  "set (receipts db) \<subseteq> set (receipts db') \<Longrightarrow> packets db' = packets db \<Longrightarrow> jobs db' = jobs db \<Longrightarrow>
   sequence_states db' = sequence_states db \<Longrightarrow> rows_stay db db'"
  unfolding rows_stay_def by auto

lemma delivery_ok_mono:
  "set (receipts db) \<subseteq> set (receipts db') \<Longrightarrow> packets db' = packets db \<Longrightarrow> jobs db' = jobs db \<Longrightarrow>
   delivery_ok db r \<Longrightarrow> delivery_ok db' r"
  unfolding delivery_ok_def by fastforce

lemma rows_ok_add_receipt:
  assumes inv: "db_inv db" and new: "\<not> has_row d_receipt_id (d_receipt_id r) (receipts db)"
    and r: "receipt_ok r" "d_validation_status r = V_PENDING \<or> d_validation_status r = V_CONFLICT \<and> d_rejection_reason r \<noteq> None"
      "d_queue_status r = Q_NOT_APPLICABLE"
    and db': "receipts db' = receipts db @ [r]" "packets db' = packets db" "sequence_states db' = sequence_states db"
      "jobs db' = jobs db" "processed db' = processed db"
    and ids: "\<forall>i \<in> set (request_identities db') - set (request_identities db). identity_ok db' i"
  shows "rows_ok db'"
proof -
  have stay: "rows_stay db db'" by (rule rows_stay_more) (auto simp: db')
  have old: "delivery_ok db' q" if "q \<in> set (receipts db)" for q
    using inv that by (intro delivery_ok_mono [of db db']) (auto simp: db_inv_def rows_ok_def db')
  have "\<not> has_row p_source_receipt_id (d_receipt_id r) (packets db)"
    using source_receipt_exists [OF inv] new by (force simp: has_row_def)
  then have "delivery_ok db' r" using r by (auto simp: delivery_ok_def db')
  moreover have "identity_ok db' i" if "i \<in> set (request_identities db')" for i
    using inv identity_ok_mono [OF stay] ids that by (auto simp: db_inv_def rows_ok_def)
  moreover have "job_ok db' j" if "j \<in> set (jobs db)" for j using inv that by (simp add: db_inv_def rows_ok_def job_ok_def db')
  moreover have "state_ok db' s" if "s \<in> set (sequence_states db)" for s
    using inv that by (simp add: db_inv_def rows_ok_def state_ok_def db')
  ultimately show ?thesis
    using inv old r(1) packet_ok_mono [OF stay] processed_ok_mono [OF stay] unfolding db_inv_def rows_ok_def by (auto simp: db')
qed

text \<open>A pending receipt that gets its final, not accepted, outcome.\<close>

lemma put_row_source: "r' \<in> set (put_row key row rows) \<Longrightarrow> r' = row \<or> (r' \<in> set rows \<and> key r' \<noteq> key row)"
  by (auto simp: put_row_def split: if_splits)

lemma rows_ok_put_receipt:
  assumes inv: "db_inv db" and mem: "r \<in> set (receipts db)" and ev: "evidence r' = evidence r"
    and pending: "d_validation_status r = V_PENDING" and ok: "delivery_ok db r'"
  shows "rows_ok (db\<lparr>receipts := put_row d_receipt_id r' (receipts db), audit_events := as\<rparr>)" (is "rows_ok ?db'")
proof -
  note id = evidence_eqD(1) [OF ev]
  have kept: "\<exists>q' \<in> set (receipts ?db'). evidence q' = evidence q \<and> (d_validation_status q = V_ACCEPTED \<longrightarrow> d_validation_status q' = V_ACCEPTED)"
    if "q \<in> set (receipts db)" for q
  proof (cases "d_receipt_id q = d_receipt_id r")
    case True
    with that mem inv have "q = r" unfolding db_inv_def keys_ok_def by (metis row_unique)
    then show ?thesis using pending ev put_row_mem [of d_receipt_id r' "receipts db"] mem id
      by (intro bexI [of _ r']) (auto simp: has_row_def)
  next
    case False
    then show ?thesis using put_row_other [OF that, of d_receipt_id r'] id by force
  qed
  have stay: "rows_stay db ?db'" using kept by (auto simp: rows_stay_def)
  have transfer: "delivery_ok ?db' q" if q: "delivery_ok db q" for q
  proof -
    have "\<exists>o' \<in> set (receipts ?db'). d_receipt_id o' = d_receipt_id a \<and> d_raw_body o' = d_raw_body a"
      if "a \<in> set (receipts db)" for a
      using kept [OF that] evidence_eqD(1,2) by blast
    then show ?thesis using q unfolding delivery_ok_def by simp metis
  qed
  have "receipt_ok r'" using inv mem evidence_eqD [OF ev] by (auto simp: db_inv_def rows_ok_def receipt_ok_def)
  then have "receipt_ok q \<and> delivery_ok ?db' q" if "q \<in> set (receipts ?db')" for q
    using put_row_source [of q d_receipt_id r' "receipts db"] that transfer ok inv by (auto simp: db_inv_def rows_ok_def)
  moreover have "job_ok ?db' j" if "j \<in> set (jobs db)" for j using inv that by (simp add: db_inv_def rows_ok_def job_ok_def)
  moreover have "state_ok ?db' s" if "s \<in> set (sequence_states db)" for s
    using inv that by (simp add: db_inv_def rows_ok_def state_ok_def)
  ultimately show ?thesis
    using inv identity_ok_mono [OF stay] packet_ok_mono [OF stay] processed_ok_mono [OF stay]
    unfolding db_inv_def rows_ok_def by simp
qed

section \<open>Operations on deliveries\<close>

lemma store_delivery_inv:
  assumes inv: "db_inv db" and dg: "dg = sha256_hexdigest (in_raw_body inp)" and len: "length (in_raw_body inp) \<le> 1024"
    and st: "store_delivery env inp t dg first db = Inr (x, db')"
  shows "db_inv db'"
proof -
  let ?r = "new_receipt env inp t dg first"
  have keys: "keys_ok db'" using store_delivery_step [OF _ st] inv by (simp add: db_inv_def keyed_step_def)
  have fields: "receipts db' = receipts db @ [?r]" "packets db' = packets db" "sequence_states db' = sequence_states db"
    "jobs db' = jobs db" "processed db' = processed db"
    and new: "\<not> has_row d_receipt_id (d_receipt_id ?r) (receipts db)"
    and ids: "request_identities db' = request_identities db \<or> (\<exists>q. in_canonical_request_id inp = Some q \<and> request_identities db' =
      request_identities db @ [\<lparr>i_request_id = q, i_first_receipt_id = d_receipt_id ?r, i_body_sha256 = dg, i_created_at = t\<rparr>])"
    using st unfolding store_delivery_def Let_def
    by (auto simp: statement_simps split: if_splits option.splits)
  have "rows_ok db'"
  proof (rule rows_ok_add_receipt [OF inv new _ _ _ fields])
    show "receipt_ok ?r" using len by (simp add: receipt_ok_def new_receipt_def dg)
    show "d_validation_status ?r = V_PENDING \<or> d_validation_status ?r = V_CONFLICT \<and> d_rejection_reason ?r \<noteq> None"
      by (simp add: new_receipt_def)
    show "d_queue_status ?r = Q_NOT_APPLICABLE" by (simp add: new_receipt_def)
    show "\<forall>i \<in> set (request_identities db') - set (request_identities db). identity_ok db' i"
      using ids by (auto simp: identity_ok_def new_receipt_def fields)
  qed
  with keys show ?thesis by (simp add: db_inv_def)
qed

lemma receipt_outcome_inv:
  assumes inv: "db_inv db" and get: "get_row d_receipt_id rid (receipts db) = Some r" and ev: "evidence r' = evidence r"
    and pending: "d_validation_status r = V_PENDING" and ok: "delivery_ok db r'"
    and st: "bindE (save_receipt r' db) (\<lambda>db1. bindE (audit env sn en ai oc rs ri pk ji dt db1) (\<lambda>db2. Inr (y, db2))) = Inr (x, db')"
  shows "db_inv db'"
proof -
  have keys: "keys_ok db'"
    using receipt_update_step [OF _ get ev st] inv by (simp add: db_inv_def keyed_step_def)
  from st obtain as where "db' = db\<lparr>receipts := put_row d_receipt_id r' (receipts db), audit_events := as\<rparr>"
    by (auto simp: statement_simps)
  moreover have "r \<in> set (receipts db)" using get_row_Some [OF get] by simp
  ultimately show ?thesis using keys rows_ok_put_receipt [OF inv _ ev pending ok] by (simp add: db_inv_def)
qed

lemma pending_source:
  "db_inv db \<Longrightarrow> get_row d_receipt_id rid (receipts db) = Some r \<Longrightarrow> d_validation_status r = V_PENDING \<Longrightarrow>
   \<not> has_row p_source_receipt_id (d_receipt_id r) (packets db) \<and> d_queue_status r = Q_NOT_APPLICABLE"
  by (auto dest!: get_row_Some simp: db_inv_def rows_ok_def delivery_ok_def)

lemma reject_delivery_inv:
  assumes inv: "db_inv db" and st: "reject_delivery env rid reason ids actor db = Inr (x, db')"
  shows "db_inv db'"
proof (cases "db' = db")
  case False
  with st obtain r where get: "get_row d_receipt_id rid (receipts db) = Some r" and pending: "d_validation_status r = V_PENDING"
    by (auto simp: reject_delivery_def split: option.splits if_splits)
  have "delivery_ok db (rejected_receipt env reason ids r)"
    using pending_source [OF inv get pending] by (simp add: delivery_ok_def rejected_receipt_def)
  moreover have "evidence (rejected_receipt env reason ids r) = evidence r" by (simp add: rejected_receipt_def)
  ultimately show ?thesis
    using st get pending by (auto simp: reject_delivery_def Let_def elim: receipt_outcome_inv [OF inv get _ pending])
qed (simp add: inv)

lemma accept_existing_inv:
  assumes inv: "db_inv db" and get: "get_row d_receipt_id rid (receipts db) = Some r"
    and pending: "d_validation_status r = V_PENDING" and ep: "ep \<in> set (packets db)"
    and st: "accept_existing env r v actor ep db = Inr (x, db')"
  shows "db_inv db'"
proof -
  define dup where "dup = (case get_row d_receipt_id (p_source_receipt_id ep) (receipts db) of None \<Rightarrow> False
    | Some origin \<Rightarrow> p_raw_sha256 ep = d_body_sha256 r \<and> d_raw_body origin = d_raw_body r)"
  have "delivery_ok db (repeated_receipt env v ep dup r)"
    using pending_source [OF inv get pending] ep
    by (auto simp: delivery_ok_def repeated_receipt_def dup_def split: option.splits if_splits dest!: get_row_Some)
  moreover have "evidence (repeated_receipt env v ep dup r) = evidence r" by (simp add: repeated_receipt_def)
  ultimately show ?thesis using st unfolding accept_existing_def Let_def dup_def [symmetric]
    by (cases dup) (auto elim: receipt_outcome_inv [OF inv get _ pending])
qed

lemma accept_state_conflict_inv:
  assumes inv: "db_inv db" and get: "get_row d_receipt_id rid (receipts db) = Some r"
    and pending: "d_validation_status r = V_PENDING"
    and st: "accept_state_conflict env r v actor db = Inr (x, db')"
  shows "db_inv db'"
proof -
  have "delivery_ok db (state_conflict_receipt env v r)"
    using pending_source [OF inv get pending] by (simp add: delivery_ok_def state_conflict_receipt_def)
  moreover have "evidence (state_conflict_receipt env v r) = evidence r" by (simp add: state_conflict_receipt_def)
  ultimately show ?thesis using st unfolding accept_state_conflict_def Let_def
    by (auto elim: receipt_outcome_inv [OF inv get _ pending])
qed

section \<open>Acceptance of a new packet\<close>

lemma session_numbers_snoc:
  "session_numbers k (ps @ [p]) =
     (if (p_payload_id p, p_boot_id p) = k then session_numbers k ps @ [p_sequence_number p] else session_numbers k ps)"
  by (simp add: session_numbers_def)

lemma session_totals_snoc:
  "session_totals k (ps @ [p]) =
     (if (p_payload_id p, p_boot_id p) = k then seq_track stored_advances stored_missing (session_totals k ps) (p_sequence_number p)
      else session_totals k ps)"
  by (simp add: session_totals_def session_numbers_snoc)

lemma session_empty:
  assumes "db_inv db" "get_row state_key k (sequence_states db) = None"
  shows "session_totals k (packets db) = no_packets"
proof -
  have "(p_payload_id p, p_boot_id p) \<noteq> k" if "p \<in> set (packets db)" for p
    using assms that unfolding get_row_None db_inv_def rows_ok_def packet_ok_def by blast
  then have "session_numbers k (packets db) = []" by (simp add: session_numbers_def filter_empty_conv)
  then show ?thesis by (simp add: session_totals_def)
qed

lemma packet_values_new: "packet_values (new_packet env r v d m) = v"
  by (simp add: packet_values_def new_packet_def)

text \<open>The sequence states after the packet.\<close>

lemma states_after_packet:
  assumes inv: "db_inv db" and st: "st = get_row state_key (dv_payload_id v, dv_boot_id v) (sequence_states db)"
    and disp: "stored_disposition (map_option s_high_water_sequence st) (dv_sequence_number v) = Some (d, m)"
    and store: "store_state env v st d m db1 = Inr db2" and db1: "sequence_states db1 = sequence_states db"
    and pk: "packets db' = packets db @ [new_packet env r v d m]"
    and s: "s \<in> set (sequence_states db2)"
  shows "state_ok db' s"
proof -
  let ?k = "(dv_payload_id v, dv_boot_id v)" and ?p = "new_packet env r v d m"
  have tot: "session_totals k (packets db') =
      (if ?k = k then seq_track stored_advances stored_missing (session_totals k (packets db)) (dv_sequence_number v)
       else session_totals k (packets db))" for k
    unfolding pk session_totals_snoc by (simp add: new_packet_def)
  have old: "state_ok db' q" if "q \<in> set (sequence_states db)" "state_key q \<noteq> ?k" for q
    using inv that unfolding db_inv_def rows_ok_def state_ok_def tot by (auto simp: pk)
  have own: "source_key ?p = (dv_payload_id v, dv_boot_id v, dv_sequence_number v)" "p_packet_id ?p = dv_packet_id v"
    "?p \<in> set (packets db')" by (simp_all add: new_packet_def pk)
  show ?thesis
  proof (cases st)
    case None
    with store db1 have "sequence_states db2 = sequence_states db @ [first_state env v m]"
      by (auto simp: store_state_def statement_simps)
    moreover have "state_ok db' (first_state env v m)"
    proof -
      have "session_totals ?k (packets db) = no_packets" using session_empty [OF inv] st None by simp
      moreover have "m = dv_sequence_number v" using disp None by (simp add: stored_disposition_def)
      ultimately show ?thesis using own unfolding state_ok_def tot
        by (auto simp: first_state_def seq_track_def no_packets_def stored.first_advances stored.first_missing)
    qed
    moreover have "state_key q \<noteq> ?k" if "q \<in> set (sequence_states db)" for q
      using st None that by (auto simp: get_row_None has_row_def dest!: sym [of None])
    ultimately show ?thesis using s old by auto
  next
    case (Some s0)
    then have s0: "s0 \<in> set (sequence_states db)" "state_key s0 = ?k" using st get_row_Some [of state_key] by metis+
    let ?s = "advanced_state env v d m s0"
    have st2: "sequence_states db2 = put_row state_key ?s (sequence_states db)"
      using store Some db1 by (auto simp: store_state_def statement_simps)
    have key: "state_key ?s = ?k" using s0 by (auto simp: advanced_state_def Let_def)
    have ok: "state_ok db s0" using inv s0 by (simp add: db_inv_def rows_ok_def)
    have "stored_advances (Some (s_high_water_sequence s0)) (dv_sequence_number v) \<longleftrightarrow> d = SD_IN_ORDER \<or> d = SD_GAP"
      "stored_missing (Some (s_high_water_sequence s0)) (dv_sequence_number v) = m"
      using disp Some by (auto simp: stored_advances_def stored_missing_def stored_disposition_def Let_def split: if_splits)
    then have "state_ok db' ?s"
      using ok s0(2) own unfolding state_ok_def tot key
      by (auto simp: advanced_state_def seq_track_def Let_def pk)
    then show ?thesis using s st2 old key put_row_source [of s state_key ?s] by force
  qed
qed

text \<open>Receipts when one of them is replaced by an accepted version.\<close>

lemma put_receipt_kept:
  assumes inv: "db_inv db" and mem: "r \<in> set (receipts db)" and ev: "evidence r' = evidence r"
    and acc: "d_validation_status r = V_ACCEPTED \<longrightarrow> d_validation_status r' = V_ACCEPTED" and q: "q \<in> set (receipts db)"
  shows "\<exists>q' \<in> set (put_row d_receipt_id r' (receipts db)). evidence q' = evidence q
    \<and> (d_validation_status q = V_ACCEPTED \<longrightarrow> d_validation_status q' = V_ACCEPTED)"
proof (cases "d_receipt_id q = d_receipt_id r")
  case True
  with q mem inv have "q = r" unfolding db_inv_def keys_ok_def by (metis row_unique)
  then show ?thesis using acc ev put_row_mem [of d_receipt_id r' "receipts db"] mem evidence_eqD(1) [OF ev]
    by (intro bexI [of _ r']) (auto simp: has_row_def)
next
  case False
  then show ?thesis using put_row_other [OF q, of d_receipt_id r'] evidence_eqD(1) [OF ev] by force
qed

lemma accept_new_inv:
  assumes inv: "db_inv db" and get: "get_row d_receipt_id rid (receipts db) = Some r"
    and pending: "d_validation_status r = V_PENDING"
    and st: "st = get_row state_key (dv_payload_id v, dv_boot_id v) (sequence_states db)"
    and disp: "stored_disposition (map_option s_high_water_sequence st) (dv_sequence_number v) = Some (d, m)"
    and ma: "0 < ma"
    and ac: "accept_new env r v ma actor st d m db = Inr (x, db')"
  shows "db_inv db'"
proof -
  let ?p = "new_packet env r v d m" and ?j = "new_job env (dv_packet_id v) ma" and ?r = "accepted_receipt env v r"
  have keys: "keys_ok db'" using accept_new_step [OF _ get ac] inv by (simp add: db_inv_def keyed_step_def)
  from ac obtain db1 db2 db3 db4 a where
    1: "insert_packet ?p db = Inr db1" and 2: "store_state env v st d m db1 = Inr db2"
    and 3: "insert_job ?j db2 = Inr db3" and 4: "save_receipt ?r db3 = Inr db4" and 5: "insert_audit a db4 = Inr db'"
    by (rule accept_newE)
  have p: "check_packet ?p = None" "\<not> has_row p_packet_id (p_packet_id ?p) (packets db)"
    "\<not> has_row p_source_receipt_id (p_source_receipt_id ?p) (packets db)" using 1 by (simp_all add: statement_simps)
  have s2: "receipts db2 = receipts db" "packets db2 = packets db @ [?p]" "jobs db2 = jobs db" "processed db2 = processed db"
    "request_identities db2 = request_identities db" and s1: "sequence_states db1 = sequence_states db"
    using 1 2 by (auto simp: statement_simps store_state_def split: option.splits)
  have f: "receipts db' = put_row d_receipt_id ?r (receipts db)" "packets db' = packets db @ [?p]"
    "jobs db' = jobs db @ [?j]" "processed db' = processed db" "request_identities db' = request_identities db"
    "sequence_states db' = sequence_states db2"
    using 3 4 5 by (auto simp: statement_simps s2)
  have mem: "r \<in> set (receipts db)" using get_row_Some [OF get] by simp
  have ev: "evidence ?r = evidence r" by (simp add: accepted_receipt_def)
  have rin: "?r \<in> set (receipts db')"
    unfolding f using mem evidence_eqD(1) [OF ev] by (intro put_row_mem) (auto simp: has_row_def)
  have kept: "\<exists>q' \<in> set (receipts db'). evidence q' = evidence q \<and> (d_validation_status q = V_ACCEPTED \<longrightarrow> d_validation_status q' = V_ACCEPTED)"
    if "q \<in> set (receipts db)" for q
    unfolding f by (rule put_receipt_kept [OF inv mem ev _ that]) (simp add: accepted_receipt_def)
  have states: "\<forall>s \<in> set (sequence_states db'). state_ok db' s"
    unfolding f(6) using states_after_packet [OF inv st disp 2 s1 f(2)] by blast
  have stkeys: "has_row state_key k (sequence_states db) \<longrightarrow> has_row state_key k (sequence_states db')"
    "has_row state_key (dv_payload_id v, dv_boot_id v) (sequence_states db')" for k
    unfolding f(6) using 2 s1 st
    by (auto simp: store_state_def statement_simps first_state_def advanced_state_def Let_def
        split: option.splits dest!: sym [of "Some _"] has_row_get)
  have "\<exists>s' \<in> set (sequence_states db'). state_key s' = state_key s" if "s \<in> set (sequence_states db)" for s
    using stkeys(1) [of "state_key s"] that unfolding has_row_def by blast
  then have stay: "rows_stay db db'" unfolding rows_stay_def using kept by (simp add: f(2,3)) blast
  have new_ok: "packet_ok db' ?p" unfolding packet_ok_def
  proof (intro conjI)
    show "\<exists>q \<in> set (receipts db'). d_receipt_id q = p_source_receipt_id ?p \<and> p_raw_sha256 ?p = d_body_sha256 q \<and> d_validation_status q = V_ACCEPTED"
      using rin by (intro bexI [of _ ?r]) (auto simp: new_packet_def accepted_receipt_def)
    show "has_row j_packet_id (p_packet_id ?p) (jobs db')" by (simp add: f has_row_def new_job_def new_packet_def)
    show "has_row state_key (p_payload_id ?p, p_boot_id ?p) (sequence_states db')" using stkeys(2) by (simp add: new_packet_def)
    show "p_packet_id ?p = dv_packet_id (packet_values ?p)" by (simp add: packet_values_new) (simp add: new_packet_def)
  qed (rule p(1))
  have noproc: "\<not> has_row t_packet_id (dv_packet_id v) (processed db)"
  proof
    assume "has_row t_packet_id (dv_packet_id v) (processed db)"
    then obtain j where "j \<in> set (jobs db)" "j_packet_id j = dv_packet_id v"
      using inv by (auto simp: has_row_def db_inv_def rows_ok_def processed_ok_def)
    then have "has_row p_packet_id (dv_packet_id v) (packets db)" using inv by (auto simp: db_inv_def rows_ok_def job_ok_def)
    then show False using p(2) by (simp add: new_packet_def)
  qed
  have "job_ok db' j" if "j \<in> set (jobs db')" for j
    using that inv noproc ma unfolding f by (auto simp: db_inv_def rows_ok_def job_ok_def f new_job_def new_packet_def)
  moreover have "receipt_ok q \<and> delivery_ok db' q" if q: "q \<in> set (receipts db')" for q
  proof (cases "q = ?r")
    case True
    have "delivery_ok db' ?r" unfolding delivery_ok_def f
      by (auto simp: accepted_receipt_def new_packet_def new_job_def)
    moreover have "receipt_ok ?r" using inv mem evidence_eqD [OF ev] by (auto simp: db_inv_def rows_ok_def receipt_ok_def)
    ultimately show ?thesis using True by simp
  next
    case False
    then have old: "q \<in> set (receipts db)" and neq: "d_receipt_id q \<noteq> d_receipt_id r"
      using q put_row_source [of q d_receipt_id ?r "receipts db"] evidence_eqD(1) [OF ev] unfolding f by auto
    have ok: "delivery_ok db q" using inv old by (simp add: db_inv_def rows_ok_def)
    have dup: "\<exists>o' \<in> set (receipts db'). d_receipt_id o' = d_receipt_id b \<and> d_raw_body o' = d_raw_body b"
      if "b \<in> set (receipts db)" for b using kept [OF that] evidence_eqD(1,2) by blast
    have "d_validation_status q = V_DUPLICATE \<Longrightarrow> \<exists>p \<in> set (packets db'). \<exists>o' \<in> set (receipts db'). d_logical_packet_id q = Some (p_packet_id p)
           \<and> d_duplicate_of_receipt_id q = Some (p_source_receipt_id p) \<and> d_receipt_id o' = p_source_receipt_id p \<and> d_raw_body o' = d_raw_body q"
    proof -
      assume "d_validation_status q = V_DUPLICATE"
      with ok obtain p1 o1 where "p1 \<in> set (packets db)" "o1 \<in> set (receipts db)" "d_logical_packet_id q = Some (p_packet_id p1)"
        "d_duplicate_of_receipt_id q = Some (p_source_receipt_id p1)" "d_receipt_id o1 = p_source_receipt_id p1" "d_raw_body o1 = d_raw_body q"
        unfolding delivery_ok_def by blast
      then show ?thesis using dup [of o1] unfolding f(2) by auto
    qed
    then have "delivery_ok db' q" using ok neq unfolding delivery_ok_def f(2,3)
      by (auto simp: new_packet_def)
    then show ?thesis using inv old by (simp add: db_inv_def rows_ok_def)
  qed
  moreover have "packet_ok db' q" if "q \<in> set (packets db')" for q
    using that new_ok packet_ok_mono [OF stay] inv by (auto simp: f db_inv_def rows_ok_def)
  ultimately show ?thesis
    using keys states identity_ok_mono [OF stay] processed_ok_mono [OF stay] inv unfolding db_inv_def rows_ok_def by (auto simp: f(4,5))
qed

section \<open>Operations on jobs\<close>

text \<open>
  A job replaced by a version with the same identity: the jobs other rows refer to stay. The receipts
  must agree with the new state.
\<close>

lemma put_job_kept:
  assumes inv: "db_inv db" and mem: "j \<in> set (jobs db)" and id: "job_identity j' = job_identity j" and q: "q \<in> set (jobs db)"
  shows "(if q = j then j' else q) \<in> set (put_row j_job_id j' (jobs db))
    \<and> job_identity (if q = j then j' else q) = job_identity q"
proof (cases "q = j")
  case True
  then show ?thesis using id mem put_row_mem [of j_job_id j' "jobs db"] by (auto simp: has_row_def job_identity_def)
next
  case False
  then have "j_job_id q \<noteq> j_job_id j" using q mem inv unfolding db_inv_def keys_ok_def by (metis row_unique)
  then show ?thesis using False id put_row_other [OF q, of j_job_id j'] by (simp add: job_identity_def)
qed

lemma rows_ok_put_job:
  assumes inv: "db_inv db" and mem: "j \<in> set (jobs db)" and id: "job_identity j' = job_identity j"
    and ok: "job_ok db' j'"
    and f: "jobs db' = put_row j_job_id j' (jobs db)" "packets db' = packets db" "sequence_states db' = sequence_states db"
      "request_identities db' = request_identities db"
    and pr: "\<forall>t \<in> set (processed db'). processed_ok db' t"
      "\<forall>pid. pid \<noteq> j_packet_id j \<longrightarrow> has_row t_packet_id pid (processed db') = has_row t_packet_id pid (processed db)"
    and rc: "\<forall>r \<in> set (receipts db'). receipt_ok r \<and> delivery_ok db' r"
      "\<forall>r \<in> set (receipts db). \<exists>r' \<in> set (receipts db'). evidence r' = evidence r \<and> d_validation_status r' = d_validation_status r"
  shows "rows_ok db'"
proof -
  have jobs: "\<exists>q' \<in> set (jobs db'). job_identity q' = job_identity q" if "q \<in> set (jobs db)" for q
    unfolding f using put_job_kept [OF inv mem id that] by blast
  have rec: "\<exists>r' \<in> set (receipts db'). evidence r' = evidence r \<and> (d_validation_status r = V_ACCEPTED \<longrightarrow> d_validation_status r' = V_ACCEPTED)"
    if "r \<in> set (receipts db)" for r
    using rc(2) that by metis
  have stay: "rows_stay db db'" unfolding rows_stay_def using jobs rec by (simp add: f(2,3)) blast
  have old: "job_ok db' q" if "q \<in> set (jobs db)" "j_job_id q \<noteq> j_job_id j" for q
  proof -
    have "q \<noteq> j" using that(2) by auto
    then have "j_packet_id q \<noteq> j_packet_id j" using that mem inv unfolding db_inv_def keys_ok_def by (metis row_unique)
    then show ?thesis using inv that pr(2) by (simp add: db_inv_def rows_ok_def job_ok_def f(2))
  qed
  have "job_ok db' q" if "q \<in> set (jobs db')" for q
    using put_row_source [of q j_job_id j' "jobs db"] that ok old id unfolding f by (auto simp: job_identity_def)
  moreover have "state_ok db' s" if "s \<in> set (sequence_states db')" for s
    using inv that by (simp add: db_inv_def rows_ok_def state_ok_def f(2,3))
  ultimately show ?thesis
    using inv rc(1) pr(1) identity_ok_mono [OF stay] packet_ok_mono [OF stay] unfolding db_inv_def rows_ok_def by (simp add: f(2,3,4))
qed

text \<open>The receipts keep agreeing with a job whose state stays on the same side of the queue.\<close>

lemma deliveries_after_job:
  assumes inv: "db_inv db" and mem: "j \<in> set (jobs db)" and id: "job_identity j' = job_identity j"
    and side: "job_state_to_queue_status (j_state j') = job_state_to_queue_status (j_state j)"
    and f: "jobs db' = put_row j_job_id j' (jobs db)" "packets db' = packets db" "receipts db' = receipts db"
  shows "\<forall>r \<in> set (receipts db'). receipt_ok r \<and> delivery_ok db' r"
proof
  fix r
  assume "r \<in> set (receipts db')"
  then have ok: "receipt_ok r" "delivery_ok db r" using inv by (auto simp: f db_inv_def rows_ok_def)
  have "\<exists>q' \<in> set (jobs db'). j_packet_id q' = j_packet_id q \<and> job_state_to_queue_status (j_state q') = job_state_to_queue_status (j_state q)"
    if "q \<in> set (jobs db)" for q
    using put_job_kept [OF inv mem id that] side unfolding f
    by (intro bexI [of _ "if q = j then j' else q"]) (auto simp: job_identity_def)
  then have "\<exists>p \<in> set (packets db'). \<exists>q \<in> set (jobs db'). p_source_receipt_id p = d_receipt_id r
      \<and> d_logical_packet_id r = Some (p_packet_id p) \<and> j_packet_id q = p_packet_id p
      \<and> d_queue_status r = job_state_to_queue_status (j_state q)" if "d_validation_status r = V_ACCEPTED"
    using ok(2) that unfolding delivery_ok_def f(2) by metis
  then show "receipt_ok r \<and> delivery_ok db' r" using ok unfolding delivery_ok_def by (simp add: f(2,3))
qed

lemma job_update_inv:
  assumes inv: "db_inv db" and get: "get_row j_job_id jid (jobs db) = Some j" and id: "job_identity j' = job_identity j"
    and side: "job_state_to_queue_status (j_state j') = job_state_to_queue_status (j_state j)"
    and ok: "job_ok db j'"
    and f: "jobs db' = put_row j_job_id j' (jobs db)" "packets db' = packets db" "sequence_states db' = sequence_states db"
      "request_identities db' = request_identities db" "receipts db' = receipts db" "processed db' = processed db"
  shows "rows_ok db'"
proof -
  have mem: "j \<in> set (jobs db)" using get_row_Some [OF get] by simp
  have "processed_ok db' t" if "t \<in> set (processed db)" for t
  proof -
    obtain q where q: "q \<in> set (jobs db)" "j_job_id q = t_processing_job_id t" "j_packet_id q = t_packet_id t"
      using inv \<open>t \<in> set (processed db)\<close> by (auto simp: db_inv_def rows_ok_def processed_ok_def)
    then show ?thesis using put_job_kept [OF inv mem id q(1)] unfolding processed_ok_def f job_identity_def by auto
  qed
  then have pr: "\<forall>t \<in> set (processed db'). processed_ok db' t" by (simp add: f)
  have "\<forall>r \<in> set (receipts db'). receipt_ok r \<and> delivery_ok db' r"
    by (rule deliveries_after_job [OF inv mem id side]) (simp_all add: f)
  moreover have "job_ok db' j'" using ok by (simp add: f job_ok_def)
  moreover have "\<exists>r' \<in> set (receipts db'). evidence r' = evidence r \<and> d_validation_status r' = d_validation_status r"
    if "r \<in> set (receipts db)" for r using that by (auto simp: f)
  ultimately show ?thesis using pr by (intro rows_ok_put_job [OF inv mem id]) (simp_all add: f)
qed

lemma claim_processing_job_inv:
  assumes inv: "db_inv db" and cl: "claim_processing_job env jid w lease db = Inr (x, db')"
  shows "db_inv db'"
proof -
  have keys: "keys_ok db'" using claim_processing_job_step [OF _ cl] inv by (simp add: db_inv_def keyed_step_def)
  have jok: "job_ok db job" if "get_row j_job_id jid (jobs db) = Some job" for job
    using inv get_row_Some [OF that] by (auto simp: db_inv_def rows_ok_def)
  from cl have "rows_ok db'"
  proof (cases rule: claim_processing_jobE)
    case (idle job)
    then show ?thesis using inv by (simp add: db_inv_def)
  next
    case (finished job t)
    then show ?thesis using jok [OF finished(1)] has_row_get [OF finished(3)] by (simp add: job_ok_def)
  next
    case (claimed job packet receipt db1 a)
    have f: "jobs db' = put_row j_job_id (claimed_job env w lease job) (jobs db)" "packets db' = packets db"
      "sequence_states db' = sequence_states db" "request_identities db' = request_identities db"
      "receipts db' = receipts db" "processed db' = processed db"
      using claimed(6,7) by (auto simp: statement_simps)
    have "job_state_to_queue_status (j_state (claimed_job env w lease job)) = job_state_to_queue_status (j_state job)"
      using claimed(3) by (auto simp: claimed_job_def claimable_def)
    moreover have "job_ok db (claimed_job env w lease job)"
      using jok [OF claimed(1)] claimed(2) by (auto simp: job_ok_def claimed_job_def get_row_None)
    ultimately show ?thesis
      by (intro job_update_inv [OF inv claimed(1) _ _ _ f]) (simp_all add: claimed_job_def job_identity_def)
  qed
  with keys show ?thesis by (simp add: db_inv_def)
qed

lemma fail_processing_attempt_inv:
  assumes inv: "db_inv db" and fl: "fail_processing_attempt env jid w reason temp base t db = Inr (x, db')"
  shows "db_inv db'"
proof -
  have keys: "keys_ok db'" using fail_processing_attempt_step [OF _ fl] inv by (simp add: db_inv_def keyed_step_def)
  from fl have "rows_ok db'"
  proof (cases rule: fail_processing_attemptE)
    case (again job)
    then show ?thesis using inv by (simp add: db_inv_def)
  next
    case (failed job final db1 a)
    let ?j = "failed_job (case t of Some u \<Rightarrow> u | None \<Rightarrow> now env) reason base final job"
    have f: "jobs db' = put_row j_job_id ?j (jobs db)" "packets db' = packets db"
      "sequence_states db' = sequence_states db" "request_identities db' = request_identities db"
      "receipts db' = receipts db" "processed db' = processed db"
      using failed(6,7) by (auto simp: statement_simps)
    have "job_state_to_queue_status (j_state ?j) = job_state_to_queue_status (j_state job)"
      using failed(2) by (auto simp: failed_job_def Let_def)
    moreover have "job_ok db ?j"
      using inv get_row_Some [OF failed(1)] failed(2,5)
      by (auto simp: db_inv_def rows_ok_def job_ok_def failed_job_def Let_def)
    ultimately show ?thesis
      by (intro job_update_inv [OF inv failed(1) _ _ _ f]) (simp_all add: failed_job_def Let_def job_identity_def)
  qed
  with keys show ?thesis by (simp add: db_inv_def)
qed

lemma complete_processing_job_inv:
  assumes inv: "db_inv db" and cm: "complete_processing_job env jid res w t db = Inr (x, db')"
  shows "db_inv db'"
proof -
  have keys: "keys_ok db'" using complete_processing_job_step [OF _ cm] inv by (simp add: db_inv_def keyed_step_def)
  from cm have "rows_ok db'"
  proof (cases rule: complete_processing_jobE)
    case (existing job)
    have "job_ok db job" using inv get_row_Some [OF existing(1)] by (auto simp: db_inv_def rows_ok_def)
    then have complete: "j_state job = J_COMPLETE" using has_row_get [OF existing(2)] by (simp add: job_ok_def)
    have f: "jobs db' = put_row j_job_id (finished_job env x job) (jobs db)" "packets db' = packets db"
      "sequence_states db' = sequence_states db" "request_identities db' = request_identities db"
      "receipts db' = receipts db" "processed db' = processed db"
      using existing(4) by (auto simp: statement_simps)
    have "job_ok db (finished_job env x job)"
      using \<open>job_ok db job\<close> complete by (auto simp: job_ok_def finished_job_def)
    then show ?thesis using complete
      by (intro job_update_inv [OF inv existing(1) _ _ _ f]) (simp_all add: finished_job_def job_identity_def)
  next
    case (completed job db1 db2 a)
    let ?j = "completed_job (case t of Some u \<Rightarrow> u | None \<Rightarrow> now env) job"
    have mem: "job \<in> set (jobs db)" using get_row_Some [OF completed(1)] by simp
    have id: "job_identity ?j = job_identity job" by (simp add: completed_job_def job_identity_def)
    have f: "jobs db' = put_row j_job_id ?j (jobs db)" "packets db' = packets db" "sequence_states db' = sequence_states db"
      "request_identities db' = request_identities db" "receipts db' = receipts db" "processed db' = processed db @ [x]"
      using completed(6,7,8) by (auto simp: statement_simps)
    have side: "job_state_to_queue_status (j_state ?j) = job_state_to_queue_status (j_state job)"
      using completed(3) by (simp add: completed_job_def)
    show ?thesis
    proof (rule rows_ok_put_job [OF inv mem id _ f(1,2,3,4)])
      show "job_ok db' ?j" using inv mem
        by (auto simp: db_inv_def rows_ok_def job_ok_def f completed_job_def completed(5) processed_row_def has_row_def)
      have "processed_ok db' x" using put_job_kept [OF inv mem id mem]
        by (auto simp: processed_ok_def f completed(5) processed_row_def job_identity_def)
      moreover have "processed_ok db' u" if u: "u \<in> set (processed db)" for u
      proof -
        obtain q where q: "q \<in> set (jobs db)" "j_job_id q = t_processing_job_id u" "j_packet_id q = t_packet_id u"
          using inv u by (auto simp: db_inv_def rows_ok_def processed_ok_def)
        then show ?thesis using put_job_kept [OF inv mem id q(1)] unfolding processed_ok_def f job_identity_def by auto
      qed
      ultimately show "\<forall>u \<in> set (processed db'). processed_ok db' u" by (simp add: f)
      show "\<forall>pid. pid \<noteq> j_packet_id job \<longrightarrow> has_row t_packet_id pid (processed db') = has_row t_packet_id pid (processed db)"
        by (auto simp: f completed(5) processed_row_def)
      show "\<forall>r \<in> set (receipts db'). receipt_ok r \<and> delivery_ok db' r" by (rule deliveries_after_job [OF inv mem id side f(1,2,5)])
      show "\<forall>r \<in> set (receipts db). \<exists>r' \<in> set (receipts db'). evidence r' = evidence r \<and> d_validation_status r' = d_validation_status r"
        by (auto simp: f)
    qed
  qed
  with keys show ?thesis by (simp add: db_inv_def)
qed

text \<open>Receipts saved one after the other.\<close>

lemma save_receipts_fields:
  "save_receipts rs db = Inr db' \<Longrightarrow> receipts db' = foldl (\<lambda>rows r. put_row d_receipt_id r rows) (receipts db) rs
     \<and> packets db' = packets db \<and> jobs db' = jobs db \<and> sequence_states db' = sequence_states db
     \<and> request_identities db' = request_identities db \<and> processed db' = processed db"
  by (induction rs arbitrary: db) (fastforce simp: bindE_Inr save_receipt_def checked_Inr)+

lemma foldl_put_row:
  "distinct (map key rs) \<Longrightarrow>
   foldl (\<lambda>rows r. put_row key r rows) rows rs = map (\<lambda>r. case get_row key (key r) rs of Some r' \<Rightarrow> r' | None \<Rightarrow> r) rows"
proof (induction rs rule: rev_induct)
  case Nil
  then show ?case by (simp add: get_row_def)
next
  case (snoc x rs)
  have key: "key (case get_row key (key r) rs of Some r' \<Rightarrow> r' | None \<Rightarrow> r) = key r" for r
    by (auto split: option.splits dest: get_row_Some)
  have "get_row key (key x) rs = None" using snoc.prems by (auto simp: get_row_None has_row_key)
  then show ?case using snoc key by (auto simp: put_row_def get_add_row split: option.splits)
qed

lemma get_row_map_filter:
  assumes "distinct (map key rows)" "r \<in> set rows" "\<And>q. key (f q) = key q"
  shows "get_row key (key r) (map f (filter P rows)) = (if P r then Some (f r) else None)"
proof -
  have "distinct (map key (map f (filter P rows)))"
    using assms(1,3) by (simp add: comp_def distinct_map_filter)
  note iff = get_row_iff [OF this]
  show ?thesis
  proof (cases "P r")
    case True
    then show ?thesis using assms(2,3) by (auto simp: iff)
  next
    case False
    then have "key (f q) \<noteq> key r" if "q \<in> set rows" "P q" for q
      using row_unique [OF assms(1,2) that(1)] assms(3) that(2) by metis
    then show ?thesis using False by (auto simp: get_row_None has_row_def)
  qed
qed

text \<open>An outcome carried over to a copy of the receipt with another queue status.\<close>

lemma delivery_ok_transfer:
  assumes "delivery_ok db r" "packets db' = packets db"
    and "evidence g = evidence r" "d_validation_status g = d_validation_status r"
      "d_logical_packet_id g = d_logical_packet_id r" "d_duplicate_of_receipt_id g = d_duplicate_of_receipt_id r"
      "d_rejection_reason g = d_rejection_reason r"
    and "d_validation_status r \<noteq> V_ACCEPTED \<Longrightarrow> d_queue_status g = d_queue_status r"
    and "d_validation_status r = V_ACCEPTED \<Longrightarrow>
      \<exists>p \<in> set (packets db'). \<exists>q \<in> set (jobs db'). p_source_receipt_id p = d_receipt_id r
        \<and> d_logical_packet_id r = Some (p_packet_id p) \<and> j_packet_id q = p_packet_id p
        \<and> d_queue_status g = job_state_to_queue_status (j_state q)"
    and dup: "\<And>b. b \<in> set (receipts db) \<Longrightarrow>
      \<exists>o' \<in> set (receipts db'). d_receipt_id o' = d_receipt_id b \<and> d_raw_body o' = d_raw_body b"
  shows "delivery_ok db' g"
proof -
  have "\<exists>p \<in> set (packets db'). \<exists>o' \<in> set (receipts db'). d_logical_packet_id r = Some (p_packet_id p)
      \<and> d_duplicate_of_receipt_id r = Some (p_source_receipt_id p) \<and> d_receipt_id o' = p_source_receipt_id p
      \<and> d_raw_body o' = d_raw_body r" if "d_validation_status r = V_DUPLICATE"
    using assms(1) that dup unfolding delivery_ok_def assms(2) by metis
  then show ?thesis using assms(1,9) unfolding delivery_ok_def
    by (simp add: assms(2,4,5,6,7,8) evidence_eqD [OF assms(3)])
qed

lemma queued_receipts:
  assumes keys: "keys_ok db" and sv: "save_receipts (map (queued_receipt env) (filter P (receipts db))) db1 = Inr db2"
    and db1: "receipts db1 = receipts db"
  shows "receipts db2 = map (\<lambda>r. if P r then queued_receipt env r else r) (receipts db)"
proof -
  have d: "distinct (map d_receipt_id (receipts db))" using keys by (simp add: keys_ok_def)
  have id: "d_receipt_id (queued_receipt env q) = d_receipt_id q" for q by (simp add: queued_receipt_def)
  have "distinct (map d_receipt_id (map (queued_receipt env) (filter P (receipts db))))"
    using d by (simp add: comp_def id distinct_map_filter)
  then have "receipts db2 = map (\<lambda>r. case get_row d_receipt_id (d_receipt_id r) (map (queued_receipt env) (filter P (receipts db)))
      of Some r' \<Rightarrow> r' | None \<Rightarrow> r) (receipts db)"
    using save_receipts_fields [OF sv] db1 by (simp add: foldl_put_row)
  also have "\<dots> = map (\<lambda>r. if P r then queued_receipt env r else r) (receipts db)"
    by (rule map_cong [OF refl]) (simp add: get_row_map_filter [OF d _ id])
  finally show ?thesis .
qed

lemma mark_job_queued_inv:
  assumes inv: "db_inv db" and mk: "mark_job_queued env jid qid actor db = Inr (x, db')"
  shows "db_inv db'"
proof -
  have keys: "keys_ok db'" using mark_job_queued_step [OF _ mk] inv by (simp add: db_inv_def keyed_step_def)
  from mk have "rows_ok db'"
  proof (cases rule: mark_job_queuedE)
    case (again job)
    then show ?thesis using inv by (simp add: db_inv_def)
  next
    case (queued job db1 db2 a)
    let ?j = "queued_job env qid job"
    let ?P = "\<lambda>r. d_logical_packet_id r = Some (j_packet_id job) \<and> d_validation_status r = V_ACCEPTED"
    let ?g = "\<lambda>r. if ?P r then queued_receipt env r else r"
    have mem: "job \<in> set (jobs db)" using get_row_Some [OF queued(1)] by simp
    have id: "job_identity ?j = job_identity job" by (simp add: queued_job_def job_identity_def)
    have db1: "receipts db1 = receipts db" "jobs db1 = put_row j_job_id ?j (jobs db)" "packets db1 = packets db"
      "sequence_states db1 = sequence_states db" "request_identities db1 = request_identities db" "processed db1 = processed db"
      using queued(3) by (auto simp: statement_simps)
    have rec: "receipts db' = map ?g (receipts db)"
      using queued_receipts [OF _ queued(4) db1(1)] inv queued(5) by (auto simp: db_inv_def statement_simps)
    have f: "jobs db' = put_row j_job_id ?j (jobs db)" "packets db' = packets db" "sequence_states db' = sequence_states db"
      "request_identities db' = request_identities db" "processed db' = processed db"
      using save_receipts_fields [OF queued(4)] queued(5) by (auto simp: statement_simps db1)
    have ev: "evidence (?g r) = evidence r" "d_validation_status (?g r) = d_validation_status r"
      "d_logical_packet_id (?g r) = d_logical_packet_id r" "d_duplicate_of_receipt_id (?g r) = d_duplicate_of_receipt_id r"
      "d_rejection_reason (?g r) = d_rejection_reason r" for r
      by (simp_all add: queued_receipt_def)
    note col = evidence_eqD [OF ev(1)]
    have deliv: "delivery_ok db' (?g r)" if r: "r \<in> set (receipts db)" for r
    proof -
      have ok: "delivery_ok db r" using inv r by (simp add: db_inv_def rows_ok_def)
      have acc: "\<exists>p \<in> set (packets db'). \<exists>q \<in> set (jobs db'). p_source_receipt_id p = d_receipt_id r
          \<and> d_logical_packet_id r = Some (p_packet_id p) \<and> j_packet_id q = p_packet_id p
          \<and> d_queue_status (?g r) = job_state_to_queue_status (j_state q)" if "d_validation_status r = V_ACCEPTED"
      proof -
        from ok that obtain p q where pq: "p \<in> set (packets db)" "q \<in> set (jobs db)" "p_source_receipt_id p = d_receipt_id r"
          "d_logical_packet_id r = Some (p_packet_id p)" "j_packet_id q = p_packet_id p"
          "d_queue_status r = job_state_to_queue_status (j_state q)" unfolding delivery_ok_def by blast
        show ?thesis
        proof (cases "q = job")
          case True
          then show ?thesis using pq put_job_kept [OF inv mem id pq(2)] that unfolding f(1,2)
            by (intro bexI [of _ p] bexI [of _ ?j]) (auto simp: queued_job_def queued_receipt_def job_identity_def)
        next
          case False
          then have "j_packet_id q \<noteq> j_packet_id job" using pq(2) mem inv unfolding db_inv_def keys_ok_def by (metis row_unique)
          then show ?thesis using pq put_job_kept [OF inv mem id pq(2)] False unfolding f(1,2)
            by (intro bexI [of _ p] bexI [of _ q]) auto
        qed
      qed
      show ?thesis
      proof (rule delivery_ok_transfer [OF ok f(2) ev _ acc])
        show "\<exists>o' \<in> set (receipts db'). d_receipt_id o' = d_receipt_id b \<and> d_raw_body o' = d_raw_body b"
          if "b \<in> set (receipts db)" for b
          using that col(1,2) [of b] unfolding rec set_map by (intro bexI [of _ "?g b"]) auto
      qed auto
    qed
    show ?thesis
    proof (rule rows_ok_put_job [OF inv mem id _ f(1,2,3,4)])
      have "job_ok db job" using inv mem by (simp add: db_inv_def rows_ok_def)
      then show "job_ok db' ?j" using queued(2) by (auto simp: job_ok_def f queued_job_def)
      show "\<forall>t \<in> set (processed db'). processed_ok db' t"
      proof
        fix t
        assume "t \<in> set (processed db')"
        then obtain q where q: "q \<in> set (jobs db)" "j_job_id q = t_processing_job_id t" "j_packet_id q = t_packet_id t"
          using inv by (auto simp: f db_inv_def rows_ok_def processed_ok_def)
        then show "processed_ok db' t" using put_job_kept [OF inv mem id q(1)] unfolding processed_ok_def f job_identity_def by auto
      qed
      have "receipt_ok (?g r)" if "r \<in> set (receipts db)" for r
        using inv that col [of r] by (simp add: db_inv_def rows_ok_def receipt_ok_def)
      then show "\<forall>r \<in> set (receipts db'). receipt_ok r \<and> delivery_ok db' r" using deliv unfolding rec set_map by blast
      show "\<forall>r \<in> set (receipts db). \<exists>r' \<in> set (receipts db'). evidence r' = evidence r \<and> d_validation_status r' = d_validation_status r"
        using ev(1,2) unfolding rec set_map by blast
    qed (simp add: f)
  qed
  with keys show ?thesis by (simp add: db_inv_def)
qed

end
