(* ===== verification/Repository_Safety.thy ===== *)
theory Repository_Safety
  imports Repository_Invariants
begin

text \<open>
  Safety of the repository (\<^verbatim>\<open>mission_ground/telemetry/storage.py\<close>): every operation keeps the
  database well formed and only adds to the evidence, also when it races with other transactions. The
  contract is the locale \<open>repository_operation\<close>, interpreted for every operation.
\<close>

section \<open>Racing transactions\<close>

text \<open>
  The states a transaction sees: the packet lookup and the later locking read of the sequence state
  happened in earlier states of the database, and a locked sequence state is unchanged at commit.
\<close>

definition reads_ok :: "int \<times> int \<Rightarrow> telemetry_db \<Rightarrow> telemetry_db \<Rightarrow> telemetry_db \<Rightarrow> bool" where
  "reads_ok k rd ld db \<longleftrightarrow> db_extends rd ld \<and> db_extends ld db
     \<and> (\<forall>s. get_row state_key k (sequence_states ld) = Some s \<longrightarrow> get_row state_key k (sequence_states db) = Some s)"

lemma reads_ok_same: "reads_ok k db db db"
  by (simp add: reads_ok_def)

lemma extends_packets: "db_extends a b \<Longrightarrow> set (packets a) \<subseteq> set (packets b)"
  by (auto simp: db_extends_def dest: set_mono_prefix)

lemma reads_packet:
  assumes "reads_ok k rd ld db" "get_row source_key sk (packets rd) = Some p"
  shows "p \<in> set (packets db)"
  using assms get_row_Some [OF assms(2)] extends_packets unfolding reads_ok_def by blast

text \<open>A packet that is accepted as new was absent, and its sequence state current, at commit.\<close>

lemma accept_new_current:
  assumes rd: "reads_ok (dv_payload_id v, dv_boot_id v) rd ld db"
    and st: "st = get_row state_key (dv_payload_id v, dv_boot_id v) (sequence_states ld)"
    and ac: "accept_new env r v ma actor st d m db = Inr (x, db')"
  shows "st = get_row state_key (dv_payload_id v, dv_boot_id v) (sequence_states db)"
    and "get_row source_key (dv_payload_id v, dv_boot_id v, dv_sequence_number v) (packets db) = None"
proof -
  from ac obtain db1 db2 where 1: "insert_packet (new_packet env r v d m) db = Inr db1"
    and 2: "store_state env v st d m db1 = Inr db2" by (auto elim: accept_newE)
  show "get_row source_key (dv_payload_id v, dv_boot_id v, dv_sequence_number v) (packets db) = None"
    using 1 by (auto simp: statement_simps get_row_None new_packet_def)
  show "st = get_row state_key (dv_payload_id v, dv_boot_id v) (sequence_states db)"
  proof (cases st)
    case None
    then have "\<not> has_row state_key (dv_payload_id v, dv_boot_id v) (sequence_states db)"
      using 1 2 by (auto simp: statement_simps store_state_def first_state_def)
    then show ?thesis using None by (metis get_row_None)
  next
    case (Some s)
    then show ?thesis using rd st unfolding reads_ok_def by metis
  qed
qed

lemma accept_packet_transaction_inv:
  assumes inv: "db_inv db" and rd: "reads_ok (dv_payload_id v, dv_boot_id v) rd ld db" and ma: "0 < ma"
    and ac: "accept_packet_transaction rid v ma actor (env, rd, ld, db) = Inr (x, db')"
  shows "db_inv db'"
proof -
  let ?sk = "(dv_payload_id v, dv_boot_id v, dv_sequence_number v)"
  let ?st = "get_row state_key (dv_payload_id v, dv_boot_id v) (sequence_states ld)"
  consider (same) "db' = db"
    | (existing) r ep where "get_row d_receipt_id rid (receipts db) = Some r" "d_validation_status r = V_PENDING"
      "get_row source_key ?sk (packets rd) = Some ep" "accept_existing env r v actor ep db = Inr (x, db')"
    | (conflict) r where "get_row d_receipt_id rid (receipts db) = Some r" "d_validation_status r = V_PENDING"
      "accept_state_conflict env r v actor db = Inr (x, db')"
    | (new) r d m where "get_row d_receipt_id rid (receipts db) = Some r" "d_validation_status r = V_PENDING"
      "stored_disposition (map_option s_high_water_sequence ?st) (dv_sequence_number v) = Some (d, m)"
      "accept_new env r v ma actor ?st d m db = Inr (x, db')"
    using ac unfolding accept_packet_transaction_def Let_def
    by (auto split: option.splits if_splits)
  then show ?thesis
  proof cases
    case same
    then show ?thesis using inv by simp
  next
    case (existing r ep)
    then show ?thesis using accept_existing_inv [OF inv existing(1,2) reads_packet [OF rd existing(3)] existing(4)] by simp
  next
    case (conflict r)
    then show ?thesis by (rule accept_state_conflict_inv [OF inv])
  next
    case (new r d m)
    have "?st = get_row state_key (dv_payload_id v, dv_boot_id v) (sequence_states db)"
      by (rule accept_new_current [OF rd refl new(4)])
    then show ?thesis using accept_new_inv [OF inv new(1,2) _ new(3) ma new(4)] by simp
  qed
qed

section \<open>What growth keeps visible\<close>

lemma inv_keys:
  assumes "db_inv db"
  shows "distinct (map d_receipt_id (receipts db))" "distinct (map p_packet_id (packets db))"
    "distinct (map t_packet_id (processed db))" "distinct (map source_key (packets db))"
    "distinct (map j_job_id (jobs db))" "distinct (map j_packet_id (jobs db))"
    "distinct (map state_key (sequence_states db))"
  using assms by (simp_all add: db_inv_def keys_ok_def)

lemma extends_delivery:
  assumes ext: "db_extends db db'" and inv: "db_inv db'" and get: "get_delivery rid db = Some r"
  shows "\<exists>r'. get_delivery rid db' = Some r' \<and> evidence r' = evidence r"
proof -
  have r: "r \<in> set (receipts db)" "d_receipt_id r = rid" using get_row_Some get unfolding get_delivery_def by fastforce+
  have "set (map evidence (receipts db)) \<subseteq> set (map evidence (receipts db'))"
    using ext unfolding db_extends_def by (blast dest: set_mono_prefix)
  with r(1) obtain r' where r': "r' \<in> set (receipts db')" "evidence r' = evidence r" by (fastforce simp: image_iff)
  have "get_row d_receipt_id (d_receipt_id r') (receipts db') = Some r'"
    by (rule get_row_unique [OF inv_keys(1) [OF inv] r'(1)])
  moreover have "d_receipt_id r' = rid" using evidence_eqD(1) [OF r'(2)] r(2) by simp
  ultimately show ?thesis using r'(2) unfolding get_delivery_def by blast
qed

lemma extends_packet:
  assumes ext: "db_extends db db'" and inv: "db_inv db'" and get: "get_packet pid db = Some p"
  shows "get_packet pid db' = Some p"
proof -
  have p: "p \<in> set (packets db)" "p_packet_id p = pid" using get_row_Some get unfolding get_packet_def by fastforce+
  have "set (packets db) \<subseteq> set (packets db')" by (rule extends_packets [OF ext])
  with p(1) have "p \<in> set (packets db')" by blast
  from get_row_unique [OF inv_keys(2) [OF inv] this] show ?thesis unfolding get_packet_def p(2) .
qed

lemma extends_processed:
  assumes ext: "db_extends db db'" and inv: "db_inv db'" and get: "get_processed pid db = Some t"
  shows "get_processed pid db' = Some t"
proof -
  have t: "t \<in> set (processed db)" "t_packet_id t = pid" using get_row_Some get unfolding get_processed_def by fastforce+
  have "set (processed db) \<subseteq> set (processed db')" using ext unfolding db_extends_def by (blast dest: set_mono_prefix)
  with t(1) have "t \<in> set (processed db')" by blast
  from get_row_unique [OF inv_keys(3) [OF inv] this] show ?thesis unfolding get_processed_def t(2) .
qed

section \<open>The contract of a repository operation\<close>

locale repository_operation =
  fixes op :: "telemetry_db \<Rightarrow> storage_error + ('a \<times> telemetry_db)"
  assumes keeps: "db_inv db \<Longrightarrow> op db = Inr (x, db') \<Longrightarrow> db_inv db' \<and> db_extends db db'"
begin

lemma kept: "db_inv db \<Longrightarrow> op db = Inr (x, db') \<Longrightarrow> db_inv db'"
  and extended: "db_inv db \<Longrightarrow> op db = Inr (x, db') \<Longrightarrow> db_extends db db'"
  using keeps by auto

lemma evidence_kept:
  assumes "db_inv db" "op db = Inr (x, db')" "get_delivery rid db = Some r"
  shows "\<exists>r'. get_delivery rid db' = Some r' \<and> evidence r' = evidence r"
  by (rule extends_delivery [OF extended [OF assms(1,2)] kept [OF assms(1,2)] assms(3)])

lemma audit_kept: "db_inv db \<Longrightarrow> op db = Inr (x, db') \<Longrightarrow> prefix (audit_events db) (audit_events db')"
  using extended unfolding db_extends_def by blast

lemma packet_kept:
  assumes "db_inv db" "op db = Inr (x, db')" "get_packet pid db = Some p"
  shows "get_packet pid db' = Some p"
  by (rule extends_packet [OF extended [OF assms(1,2)] kept [OF assms(1,2)] assms(3)])

lemma result_kept:
  assumes "db_inv db" "op db = Inr (x, db')" "get_processed pid db = Some t"
  shows "get_processed pid db' = Some t"
  by (rule extends_processed [OF extended [OF assms(1,2)] kept [OF assms(1,2)] assms(3)])

end

lemma step_extends: "keyed_step db db' \<Longrightarrow> db_extends db db'" and inv_keys_ok: "db_inv db \<Longrightarrow> keys_ok db"
  by (simp_all add: keyed_step_def db_inv_def)

lemma delivery_attempt_inv:
  assumes "db_inv db" "length (in_raw_body inp) \<le> 1024"
    and "delivery_attempt inp t (sha256_hexdigest (in_raw_body inp)) (env, rd, db) = Inr (x, db')"
  shows "db_inv db'"
  using assms by (auto simp: delivery_attempt_def intro: store_delivery_inv split: option.splits if_splits)

lemma retry_once_Inr: "retry_once f a b = Inr y \<Longrightarrow> f a = Inr y \<or> f b = Inr y"
  by (auto simp: retry_once_def split: sum.splits storage_error.splits)

interpretation record_op: repository_operation "record_delivery env env' inp" for env env' inp
proof
  fix db x db'
  assume inv: "db_inv db" and rec: "record_delivery env env' inp db = Inr (x, db')"
  then obtain t e where "length (in_raw_body inp) \<le> 1024"
    and att: "delivery_attempt inp t (sha256_hexdigest (in_raw_body inp)) (e, db, db) = Inr (x, db')"
    by (auto simp: record_delivery_def record_delivery_racing_def Let_def storage_constants split: if_splits dest!: retry_once_Inr)
  then show "db_inv db' \<and> db_extends db db'"
    using delivery_attempt_inv [OF inv _ att] delivery_attempt_step [OF _ att] inv
    by (simp add: db_inv_def keyed_step_def)
qed

interpretation reject_op: repository_operation "reject_delivery env rid reason ids actor" for env rid reason ids actor
proof
  fix db x db'
  assume inv: "db_inv db" and st: "reject_delivery env rid reason ids actor db = Inr (x, db')"
  show "db_inv db' \<and> db_extends db db'"
    using reject_delivery_inv [OF inv st] step_extends [OF reject_delivery_step [OF inv_keys_ok [OF inv] st]] ..
qed

interpretation accept_op: repository_operation "accept_packet_and_create_job env env' rid v ma actor" for env env' rid v ma actor
proof
  fix db x db'
  assume inv: "db_inv db" and ac: "accept_packet_and_create_job env env' rid v ma actor db = Inr (x, db')"
  then obtain e where "0 < ma" and att: "accept_packet_transaction rid v ma actor (e, db, db, db) = Inr (x, db')"
    by (auto simp: accept_packet_and_create_job_def accept_packet_racing_def split: if_splits dest!: retry_once_Inr)
  then show "db_inv db' \<and> db_extends db db'"
    using accept_packet_transaction_inv [OF inv reads_ok_same _ att] accept_packet_transaction_step [OF _ att] inv
    by (simp add: db_inv_def keyed_step_def)
qed

interpretation queued_op: repository_operation "mark_job_queued env jid qid actor" for env jid qid actor
proof
  fix db x db'
  assume inv: "db_inv db" and st: "mark_job_queued env jid qid actor db = Inr (x, db')"
  show "db_inv db' \<and> db_extends db db'"
    using mark_job_queued_inv [OF inv st] step_extends [OF mark_job_queued_step [OF inv_keys_ok [OF inv] st]] ..
qed

interpretation claim_op: repository_operation "claim_processing_job env jid w lease" for env jid w lease
proof
  fix db x db'
  assume inv: "db_inv db" and st: "claim_processing_job env jid w lease db = Inr (x, db')"
  show "db_inv db' \<and> db_extends db db'"
    using claim_processing_job_inv [OF inv st] step_extends [OF claim_processing_job_step [OF inv_keys_ok [OF inv] st]] ..
qed

interpretation complete_op: repository_operation "complete_processing_job env jid res w t" for env jid res w t
proof
  fix db x db'
  assume inv: "db_inv db" and st: "complete_processing_job env jid res w t db = Inr (x, db')"
  show "db_inv db' \<and> db_extends db db'"
    using complete_processing_job_inv [OF inv st] step_extends [OF complete_processing_job_step [OF inv_keys_ok [OF inv] st]] ..
qed

interpretation fail_op: repository_operation "fail_processing_attempt env jid w reason temp base t" for env jid w reason temp base t
proof
  fix db x db'
  assume inv: "db_inv db" and st: "fail_processing_attempt env jid w reason temp base t db = Inr (x, db')"
  show "db_inv db' \<and> db_extends db db'"
    using fail_processing_attempt_inv [OF inv st] step_extends [OF fail_processing_attempt_step [OF inv_keys_ok [OF inv] st]] ..
qed

interpretation audit_op: repository_operation "record_audit_event env sn en ai oc rs rid pid jid dt" for env sn en ai oc rs rid pid jid dt
proof
  fix db x db'
  assume inv: "db_inv db" and au: "record_audit_event env sn en ai oc rs rid pid jid dt db = Inr (x, db')"
  then have "audit env sn en ai oc rs rid pid jid dt db = Inr db'" by (auto simp: record_audit_event_def bindE_Inr)
  moreover from this have "rows_ok db'" using inv by (auto simp: statement_simps db_inv_def)
  ultimately show "db_inv db' \<and> db_extends db db'" using statement_step(7) inv by (auto simp: db_inv_def keyed_step_def)
qed

end
