(* ===== verification/Repository_Samples.thy ===== *)
theory Repository_Samples
  imports Repository_Safety
begin

text \<open>
  A concrete run of the repository, evaluated step by step from the empty schema: a delivery is recorded,
  accepted, queued, claimed and completed. The witnesses of the repository's properties start from its
  states. The digest of the body stays symbolic: only its 64 printable characters matter to the columns.
\<close>

lemma hexdigest_text: "pg_text (sha256_hexdigest b)"
proof -
  have "CHR 0x00 \<notin> set (fmt_hex 8 (uint (w :: word32)))" for w
  proof -
    have "uint w < int (16 ^ 8)" using uint_lt2p [of w] by simp
    then have "fmt_hex 8 (uint w) = map lower_digit (fixed_digits 16 8 (nat (uint w)))"
      by (subst py_format_fixed) (auto simp: uint_ge_0)
    moreover have "lower_digit n \<noteq> CHR 0x00" if "n < 16" for n
      using lower_digit_hex [OF that] by (auto simp: hex_char_def)
    ultimately show ?thesis using fixed_digits_bound [of 16 _ 8] by fastforce
  qed
  then show ?thesis by (auto simp: pg_text_def sha256_hexdigest_def)
qed

definition sample_env :: "nat \<Rightarrow> tx_env" where
  "sample_env n = \<lparr>now = utc (int n), row_id = of_nat n, event_id = of_nat n\<rparr>"

definition sample_input :: "bytes \<Rightarrow> delivery_input" where
  "sample_input b = \<lparr>in_raw_body = b, in_peer_certificate_identity = ''vendor'', in_presented_request_id = None,
     in_canonical_request_id = None, in_content_type = None, in_received_at = None, in_vendor_sent_at = None, in_receipt_id = None\<rparr>"

definition sample_values :: "int \<Rightarrow> DecodedTelemetryValues" where
  "sample_values n = \<lparr>dv_protocol_version = 1, dv_payload_id = 1, dv_boot_id = 42, dv_sequence_number = n,
     dv_sample_timestamp_us = 7, dv_temperature_centi_c = 2150, dv_voltage_mv = 5000, dv_operating_mode = 1, dv_fault_flags = 0\<rparr>"

text \<open>The state a successful operation leaves.\<close>

definition committed :: "storage_error + ('a \<times> telemetry_db) \<Rightarrow> telemetry_db" where
  "committed res = (case res of Inr (x, db) \<Rightarrow> db | Inl e \<Rightarrow> create_schema)"

definition sample_receipt :: "nat \<Rightarrow> bytes \<Rightarrow> TelemetryDeliveryReceipt" where
  "sample_receipt n b = new_receipt (sample_env n) (sample_input b) (utc (int n)) (sha256_hexdigest b) None"

definition sample_recorded :: telemetry_db where
  "sample_recorded = committed (record_delivery (sample_env 1) (sample_env 1) (sample_input [1]) create_schema)"

definition sample_accepted :: telemetry_db where
  "sample_accepted = committed (accept_packet_and_create_job (sample_env 2) (sample_env 2) 1 (sample_values 9) 3 ''vendor'' sample_recorded)"

definition sample_queued :: telemetry_db where
  "sample_queued = committed (mark_job_queued (sample_env 3) 2 ''m'' ''vendor'' sample_accepted)"

definition sample_claimed :: telemetry_db where
  "sample_claimed = committed (claim_processing_job (sample_env 4) 2 ''w'' 30 sample_queued)"

lemmas row_simps = get_row_def has_row_def put_row_def has_row_opt_def opt_ok_def varchar_def pg_text_def int4_def int8_def

lemmas column_checks = check_receipt_def check_identity_def check_packet_def check_state_def check_job_def check_processed_def check_audit_def

lemmas statements = insert_receipt_def save_receipt_def insert_identity_def insert_packet_def insert_state_def save_state_def
  insert_job_def save_job_def insert_processed_def insert_audit_def audit_def checked_def

lemmas sample_simps = sample_env_def sample_input_def sample_values_def sample_receipt_def committed_def

lemma record_sample:
  "\<exists>x. record_delivery (sample_env 1) (sample_env 1) (sample_input [1]) create_schema = Inr (x, sample_recorded)"
  "receipts sample_recorded = [sample_receipt 1 [1]]" "packets sample_recorded = []" "jobs sample_recorded = []" "sequence_states sample_recorded = []"
  "processed sample_recorded = []" "a_event_id ` set (audit_events sample_recorded) = {1}"
  using hexdigest_text [of "[1]"] length_hexdigest [of "[1]"]
  unfolding sample_recorded_def
  by (simp_all add: sample_simps record_delivery_def record_delivery_racing_def retry_once_def delivery_attempt_def create_schema_def
     store_delivery_def Let_def new_receipt_def row_simps column_checks storage_constants statements)

lemma sample_packet_id: "dv_packet_id (sample_values 9) = ''TLM-P01-B0000002A-S00000009''"
  by code_simp

lemma accept_sample:
  "\<exists>x. accept_packet_and_create_job (sample_env 2) (sample_env 2) 1 (sample_values 9) 3 ''vendor'' sample_recorded = Inr (x, sample_accepted)"
  "receipts sample_accepted = [accepted_receipt (sample_env 2) (sample_values 9) (sample_receipt 1 [1])]" 
  "packets sample_accepted = [new_packet (sample_env 2) (sample_receipt 1 [1]) (sample_values 9) SD_FIRST 9]" 
  "jobs sample_accepted = [new_job (sample_env 2) (dv_packet_id (sample_values 9)) 3]" 
  "sequence_states sample_accepted = [first_state (sample_env 2) (sample_values 9) 9]"
  "processed sample_accepted = []" "a_event_id ` set (audit_events sample_accepted) = {2, 1}"
  using hexdigest_text [of "[1]"] length_hexdigest [of "[1]"] sample_packet_id
  unfolding sample_accepted_def
  by (simp_all add: record_sample(2-) sample_simps accept_packet_and_create_job_def accept_packet_racing_def retry_once_def accept_packet_transaction_def
     stored_disposition_def accept_new_def new_packet_def store_state_def first_state_def new_job_def accepted_receipt_def
     Let_def new_receipt_def row_simps(1,3-) has_row_key column_checks storage_constants statements)


lemmas sample_row_simps = sample_simps new_packet_def first_state_def new_job_def accepted_receipt_def new_receipt_def Let_def
  row_simps(1,3-) has_row_key column_checks storage_constants statements

lemma queue_sample:
  "mark_job_queued (sample_env 3) 2 ''m'' ''vendor'' sample_accepted = Inr (True, sample_queued)"
  "receipts sample_queued = [queued_receipt (sample_env 3) (accepted_receipt (sample_env 2) (sample_values 9) (sample_receipt 1 [1]))]"
  "packets sample_queued = packets sample_accepted"
  "jobs sample_queued = [queued_job (sample_env 3) ''m'' (new_job (sample_env 2) (dv_packet_id (sample_values 9)) 3)]"
  "sequence_states sample_queued = sequence_states sample_accepted"
  "processed sample_queued = []" "a_event_id ` set (audit_events sample_queued) = {3, 2, 1}"
  using hexdigest_text [of "[1]"] length_hexdigest [of "[1]"] sample_packet_id
  unfolding sample_queued_def
  by (simp_all add: accept_sample(2-) mark_job_queued_def queued_job_def queued_receipt_def sample_row_simps)

lemma claim_sample:
  "\<exists>x. claim_processing_job (sample_env 4) 2 ''w'' 30 sample_queued = Inr (Some x, sample_claimed)"
  "receipts sample_claimed = receipts sample_queued"
  "packets sample_claimed = packets sample_accepted"
  "jobs sample_claimed = [claimed_job (sample_env 4) ''w'' 30 (queued_job (sample_env 3) ''m'' (new_job (sample_env 2) (dv_packet_id (sample_values 9)) 3))]"
  "sequence_states sample_claimed = sequence_states sample_accepted"
  "processed sample_claimed = []" "a_event_id ` set (audit_events sample_claimed) = {4, 3, 2, 1}"
  using hexdigest_text [of "[1]"] length_hexdigest [of "[1]"] sample_packet_id
  unfolding sample_claimed_def
  by (simp_all add: accept_sample(2-6) queue_sample(2-) claim_processing_job_def claimable_def claimed_job_def queued_job_def queued_receipt_def sample_row_simps)

definition sample_result :: ProcessingResultValues where
  "sample_result = \<lparr>pr_temperature_c = 43 / 2, pr_voltage_v = 5, pr_operating_mode = ''NOMINAL'', pr_fault_names = [],
     pr_classification = HealthClassification.NOMINAL, pr_is_stale = False, pr_processor_version = ''v1''\<rparr>"

definition sample_completed :: telemetry_db where
  "sample_completed = committed (complete_processing_job (sample_env 5) 2 sample_result ''w'' None sample_claimed)"

lemma complete_sample:
  "complete_processing_job (sample_env 5) 2 sample_result ''w'' None sample_claimed
     = Inr (processed_row (utc 5) sample_result (hd (jobs sample_claimed)), sample_completed)"
  "receipts sample_completed = receipts sample_queued"
  "packets sample_completed = packets sample_accepted"
  "jobs sample_completed = [completed_job (utc 5) (hd (jobs sample_claimed))]"
  "sequence_states sample_completed = sequence_states sample_accepted"
  "processed sample_completed = [processed_row (utc 5) sample_result (hd (jobs sample_claimed))]" "a_event_id ` set (audit_events sample_completed) = {5, 4, 3, 2, 1}"
  using hexdigest_text [of "[1]"] length_hexdigest [of "[1]"] sample_packet_id
  unfolding sample_completed_def
  by (simp_all add: accept_sample(2-6) queue_sample(2-6) claim_sample(2-) sample_result_def complete_processing_job_def processed_row_def completed_job_def claimed_job_def queued_job_def queued_receipt_def sample_row_simps)

section \<open>A race\<close>

text \<open>
  After the sample packet, the next one is delivered twice. The first delivery is accepted while the second one is between its
  packet lookup and its lock on the sequence state.
\<close>

definition race_first :: telemetry_db where
  "race_first = committed (record_delivery (sample_env 3) (sample_env 3) (sample_input [2]) sample_accepted)"

definition race_recorded :: telemetry_db where
  "race_recorded = committed (record_delivery (sample_env 4) (sample_env 4) (sample_input [2]) race_first)"

definition race_accepted :: telemetry_db where
  "race_accepted = committed (accept_packet_and_create_job (sample_env 5) (sample_env 5) 3 (sample_values 10) 3 ''vendor'' race_recorded)"

definition race_loser :: "storage_error + (PacketAcceptanceResult \<times> telemetry_db)" where
  "race_loser = accept_packet_transaction 4 (sample_values 10) 3 ''vendor'' (sample_env 6, race_recorded, race_accepted, race_accepted)"

lemmas delivery_simps = record_delivery_def record_delivery_racing_def retry_once_def delivery_attempt_def store_delivery_def

lemmas acceptance_simps = accept_packet_and_create_job_def accept_packet_racing_def retry_once_def accept_packet_transaction_def
  stored_disposition_def accept_new_def store_state_def

lemma record_race_first:
  "\<exists>x. record_delivery (sample_env 3) (sample_env 3) (sample_input [2]) sample_accepted = Inr (x, race_first)"
  "receipts race_first = receipts sample_accepted @ [sample_receipt 3 [2]]" "packets race_first = packets sample_accepted"
  "jobs race_first = jobs sample_accepted" "sequence_states race_first = sequence_states sample_accepted"
  "a_event_id ` set (audit_events race_first) = {3, 2, 1}"
  using hexdigest_text [of "[2]"] length_hexdigest [of "[2]"]
  unfolding race_first_def
  by (simp_all add: accept_sample(2-) delivery_simps sample_row_simps)

lemma record_race:
  "\<exists>x. record_delivery (sample_env 4) (sample_env 4) (sample_input [2]) race_first = Inr (x, race_recorded)"
  "receipts race_recorded = receipts race_first @ [sample_receipt 4 [2]]" "packets race_recorded = packets sample_accepted"
  "jobs race_recorded = jobs sample_accepted" "sequence_states race_recorded = sequence_states sample_accepted"
  "a_event_id ` set (audit_events race_recorded) = {4, 3, 2, 1}"
  using hexdigest_text [of "[2]"] length_hexdigest [of "[2]"]
  unfolding race_recorded_def
  by (simp_all add: accept_sample(2-6) record_race_first(2-) delivery_simps sample_row_simps)

lemma race_packet_id: "dv_packet_id (sample_values 10) = ''TLM-P01-B0000002A-S0000000A''"
  by code_simp

lemma accept_race:
  "\<exists>x. accept_packet_and_create_job (sample_env 5) (sample_env 5) 3 (sample_values 10) 3 ''vendor'' race_recorded = Inr (x, race_accepted)"
  "receipts race_accepted = receipts sample_accepted @ [accepted_receipt (sample_env 5) (sample_values 10) (sample_receipt 3 [2]), sample_receipt 4 [2]]"
  "packets race_accepted = packets sample_accepted @ [new_packet (sample_env 5) (sample_receipt 3 [2]) (sample_values 10) SD_IN_ORDER 0]"
  "sequence_states race_accepted = [advanced_state (sample_env 5) (sample_values 10) SD_IN_ORDER 0 (first_state (sample_env 2) (sample_values 9) 9)]"
  "jobs race_accepted = jobs sample_accepted @ [new_job (sample_env 5) (dv_packet_id (sample_values 10)) 3]"
  "a_event_id ` set (audit_events race_accepted) = {5, 4, 3, 2, 1}"
  using hexdigest_text [of "[2]"] length_hexdigest [of "[2]"] sample_packet_id race_packet_id
  unfolding race_accepted_def
  by (simp_all add: accept_sample(2-6) record_race_first(2-) record_race(2-) acceptance_simps advanced_state_def sample_row_simps)

lemma race_is_lost:
  "\<exists>res db'. race_loser = Inr (res, db') \<and> pa_validation_status res = V_CONFLICT
     \<and> receipts db' = receipts sample_accepted @ [accepted_receipt (sample_env 5) (sample_values 10) (sample_receipt 3 [2]),
         state_conflict_receipt (sample_env 6) (sample_values 10) (sample_receipt 4 [2])]"
  using hexdigest_text [of "[2]"] length_hexdigest [of "[2]"] sample_packet_id race_packet_id
  unfolding race_loser_def
  by (simp add: accept_sample(2-6) record_race_first(2-5) record_race(2-5) accept_race(2-) acceptance_simps advanced_state_def
     accept_state_conflict_def state_conflict_receipt_def sample_row_simps)

end
