(* ===== verification/Repository_Lifecycle.thy ===== *)
theory Repository_Lifecycle
  imports Repository_Samples
begin

text \<open>
  The repository under every interleaving (\<^verbatim>\<open>mission_ground/telemetry/storage.py\<close>): the step relation
  \<open>repo_step\<close> is one committed transaction of any process, and the properties hold in every state that
  such steps reach from the empty schema.
\<close>

section \<open>Committed transactions\<close>

text \<open>
  One committed transaction of any process: the attempts of \<^verbatim>\<open>record_delivery\<close> and
  \<^verbatim>\<open>accept_packet_and_create_job\<close> read in earlier states of the database than the one they commit on;
  the other operations lock the row they change.
\<close>

inductive repo_step :: "telemetry_db \<Rightarrow> telemetry_db \<Rightarrow> bool" where
  step_record: "int (length (in_raw_body inp)) \<le> MAX_EVIDENCE_BODY_BYTES \<Longrightarrow> db_extends rd db \<Longrightarrow>
    delivery_attempt inp t (sha256_hexdigest (in_raw_body inp)) (env, rd, db) = Inr (x, db') \<Longrightarrow> repo_step db db'"
| step_reject: "reject_delivery env rid reason ids actor db = Inr (x, db') \<Longrightarrow> repo_step db db'"
| step_accept: "0 < ma \<Longrightarrow> reads_ok (dv_payload_id v, dv_boot_id v) rd ld db \<Longrightarrow>
    accept_packet_transaction rid v ma actor (env, rd, ld, db) = Inr (y, db') \<Longrightarrow> repo_step db db'"
| step_queued: "mark_job_queued env jid qid actor db = Inr (b, db') \<Longrightarrow> repo_step db db'"
| step_claim: "claim_processing_job env jid w lease db = Inr (i, db') \<Longrightarrow> repo_step db db'"
| step_complete: "complete_processing_job env jid res w done db = Inr (row, db') \<Longrightarrow> repo_step db db'"
| step_fail: "fail_processing_attempt env jid w reason temp base failed db = Inr (f, db') \<Longrightarrow> repo_step db db'"
| step_audit: "record_audit_event env sn en ai oc rs rid' pid jid' dt db = Inr (u, db') \<Longrightarrow> repo_step db db'"

text \<open>A successful operation is such a step, on the state its committing attempt ran in.\<close>

lemma record_delivery_is_step:
  "record_delivery env env' inp db = Inr (x, db') \<Longrightarrow> repo_step db db'"
  by (auto simp: record_delivery_def record_delivery_racing_def Let_def not_less
      split: if_splits dest!: retry_once_Inr intro: step_record [OF _ db_extends_refl])

lemma accept_packet_is_step:
  "accept_packet_and_create_job env env' rid v ma actor db = Inr (x, db') \<Longrightarrow> repo_step db db'"
  by (auto simp: accept_packet_and_create_job_def accept_packet_racing_def not_less not_le
      split: if_splits dest!: retry_once_Inr intro: step_accept [OF _ reads_ok_same])

lemma repo_step_keeps:
  assumes "repo_step db db'" "db_inv db"
  shows "db_inv db' \<and> db_extends db db'"
  using assms
proof (induction rule: repo_step.induct)
  case (step_record inp rd db t env x db')
  then show ?case
    using delivery_attempt_inv [OF step_record(4) _ step_record(3)] delivery_attempt_step [OF inv_keys_ok step_record(3)]
    by (simp add: storage_constants step_extends)
next
  case (step_accept ma v rd ld db rid actor env y db')
  then show ?case
    using accept_packet_transaction_inv [OF step_accept(4,2,1,3)] accept_packet_transaction_step [OF inv_keys_ok step_accept(3)]
    by (simp add: step_extends)
next
  case step_reject
  then show ?case by (metis reject_op.keeps)
next
  case step_queued
  then show ?case by (metis queued_op.keeps)
next
  case step_claim
  then show ?case by (metis claim_op.keeps)
next
  case step_complete
  then show ?case by (metis complete_op.keeps)
next
  case step_fail
  then show ?case by (metis fail_op.keeps)
next
  case step_audit
  then show ?case by (metis audit_op.keeps)
qed

abbreviation reachable :: "telemetry_db \<Rightarrow> bool" where
  "reachable \<equiv> repo_step\<^sup>*\<^sup>* create_schema"

lemma steps_keep: "repo_step\<^sup>*\<^sup>* db db' \<Longrightarrow> db_inv db \<Longrightarrow> db_inv db' \<and> db_extends db db'"
proof (induction rule: rtranclp_induct)
  case (step b c)
  then show ?case using repo_step_keeps [OF step(2)] db_extends_trans by blast
qed simp

lemma reachable_db_inv: "reachable db \<Longrightarrow> db_inv db"
  using steps_keep db_inv_schema by blast

section \<open>What every reachable database satisfies\<close>

text \<open>
  C8. Evidence is permanent: whatever transactions follow, by any process and in any interleaving, a
  recorded delivery stays readable under its identifier with the exact bytes, digest, time and peer it
  was recorded with, accepted packets and processed results stay as they are, and the audit trail only
  grows at its end.
\<close>

theorem evidence_is_permanent:
  assumes "reachable db" "repo_step\<^sup>*\<^sup>* db db'"
  shows "(\<forall>rid r. get_delivery rid db = Some r \<longrightarrow> (\<exists>r'. get_delivery rid db' = Some r'
        \<and> d_raw_body r' = d_raw_body r \<and> d_body_sha256 r' = d_body_sha256 r \<and> d_received_at r' = d_received_at r
        \<and> d_peer_certificate_identity r' = d_peer_certificate_identity r))
    \<and> (\<forall>pid p. get_packet pid db = Some p \<longrightarrow> get_packet pid db' = Some p)
    \<and> (\<forall>pid t. get_processed pid db = Some t \<longrightarrow> get_processed pid db' = Some t)
    \<and> prefix (audit_events db) (audit_events db')"
proof -
  have inv: "db_inv db'" and ext: "db_extends db db'" using steps_keep [OF assms(2) reachable_db_inv [OF assms(1)]] by auto
  have "\<exists>r'. get_delivery rid db' = Some r' \<and> d_raw_body r' = d_raw_body r \<and> d_body_sha256 r' = d_body_sha256 r
      \<and> d_received_at r' = d_received_at r \<and> d_peer_certificate_identity r' = d_peer_certificate_identity r"
    if "get_delivery rid db = Some r" for rid r
    using extends_delivery [OF ext inv that] evidence_eqD by blast
  moreover have "prefix (audit_events db) (audit_events db')" using ext unfolding db_extends_def by blast
  ultimately show ?thesis using extends_packet [OF ext inv] extends_processed [OF ext inv] by blast
qed

lemma accepted_work:
  assumes inv: "db_inv db" and r: "r \<in> set (receipts db)" and acc: "d_validation_status r = V_ACCEPTED"
  shows "\<exists>p j. p \<in> set (packets db) \<and> p_source_receipt_id p = d_receipt_id r \<and> d_logical_packet_id r = Some (p_packet_id p)
    \<and> j \<in> set (jobs db) \<and> j_packet_id j = p_packet_id p \<and> d_queue_status r = job_state_to_queue_status (j_state j)"
  using assms unfolding db_inv_def rows_ok_def delivery_ok_def by blast

lemma accepted_one_packet:
  assumes inv: "db_inv db" and r: "r \<in> set (receipts db)" "d_validation_status r = V_ACCEPTED"
  shows "\<exists>!p. p \<in> set (packets db) \<and> p_source_receipt_id p = d_receipt_id r"
proof -
  have sk: "distinct (map p_source_receipt_id (packets db))" using inv by (simp add: db_inv_def keys_ok_def)
  obtain p where p: "p \<in> set (packets db)" "p_source_receipt_id p = d_receipt_id r"
    using accepted_work [OF inv r] by blast
  show ?thesis
  proof (rule ex1I [of _ p])
    show "p' = p" if "p' \<in> set (packets db) \<and> p_source_receipt_id p' = d_receipt_id r" for p'
      by (rule row_unique [OF sk]) (use that p in auto)
  qed (use p in simp)
qed

lemma accepted_job:
  assumes inv: "db_inv db" and r: "r \<in> set (receipts db)" "d_validation_status r = V_ACCEPTED"
  shows "\<exists>p j. get_packet (p_packet_id p) db = Some p \<and> d_logical_packet_id r = Some (p_packet_id p)
    \<and> get_job_for_packet (p_packet_id p) db = Some j \<and> d_queue_status r = job_state_to_queue_status (j_state j)"
proof -
  obtain p j where p: "p \<in> set (packets db)" "d_logical_packet_id r = Some (p_packet_id p)"
    and j: "j \<in> set (jobs db)" "j_packet_id j = p_packet_id p" "d_queue_status r = job_state_to_queue_status (j_state j)"
    using accepted_work [OF inv r] by blast
  then have "get_packet (p_packet_id p) db = Some p" "get_job_for_packet (p_packet_id p) db = Some j"
    using get_row_unique [OF inv_keys(2) [OF inv] p(1)] get_row_unique [OF inv_keys(6) [OF inv] j(1)]
    by (simp_all add: get_packet_def get_job_for_packet_def)
  with p j show ?thesis by blast
qed

lemma packet_source:
  assumes inv: "db_inv db" and p: "p \<in> set (packets db)"
  shows "\<exists>r. get_delivery (p_source_receipt_id p) db = Some r \<and> d_validation_status r = V_ACCEPTED
    \<and> p_raw_sha256 p = sha256_hexdigest (d_raw_body r)"
proof -
  obtain r where r: "r \<in> set (receipts db)" "d_receipt_id r = p_source_receipt_id p" "p_raw_sha256 p = d_body_sha256 r"
    "d_validation_status r = V_ACCEPTED" using inv p unfolding db_inv_def rows_ok_def packet_ok_def by blast
  moreover have "d_body_sha256 r = sha256_hexdigest (d_raw_body r)"
    using inv r(1) unfolding db_inv_def rows_ok_def receipt_ok_def by blast
  ultimately show ?thesis using get_row_unique [OF inv_keys(1) [OF inv] r(1)] by (simp add: get_delivery_def)
qed

lemma job_of_packet:
  assumes inv: "db_inv db" and j: "j \<in> set (jobs db)"
  shows "(\<exists>p. get_packet (j_packet_id j) db = Some p)
    \<and> (j_state j = J_COMPLETE \<longleftrightarrow> (\<exists>t. get_processed (j_packet_id j) db = Some t))"
proof -
  have "job_ok db j" using inv j by (simp add: db_inv_def rows_ok_def)
  then have "get_row p_packet_id (j_packet_id j) (packets db) \<noteq> None"
    and "j_state j = J_COMPLETE \<longleftrightarrow> get_row t_packet_id (j_packet_id j) (processed db) \<noteq> None"
    by (simp_all add: job_ok_def get_row_None)
  then show ?thesis by (simp add: get_packet_def get_processed_def)
qed

text \<open>
  C9. Accepted work is unique: in every reachable database each accepted delivery is the source of exactly
  one packet, which has exactly one job, whose queue status the receipt shows; every packet and every job
  comes from an accepted delivery; a delivery that was not accepted is the source of no packet; a job is
  complete exactly when its packet has a processed result, and no packet has two.
\<close>

theorem accepted_work_is_unique:
  assumes "reachable db"
  shows "(\<forall>r \<in> set (receipts db). d_validation_status r = V_ACCEPTED \<longrightarrow>
        (\<exists>!p. p \<in> set (packets db) \<and> p_source_receipt_id p = d_receipt_id r)
        \<and> (\<exists>p j. get_packet (p_packet_id p) db = Some p \<and> d_logical_packet_id r = Some (p_packet_id p)
             \<and> get_job_for_packet (p_packet_id p) db = Some j \<and> d_queue_status r = job_state_to_queue_status (j_state j)))
    \<and> (\<forall>r \<in> set (receipts db). d_validation_status r \<noteq> V_ACCEPTED \<longrightarrow>
        \<not> (\<exists>p \<in> set (packets db). p_source_receipt_id p = d_receipt_id r))
    \<and> (\<forall>p \<in> set (packets db). \<exists>r. get_delivery (p_source_receipt_id p) db = Some r \<and> d_validation_status r = V_ACCEPTED
        \<and> p_raw_sha256 p = sha256_hexdigest (d_raw_body r))
    \<and> (\<forall>j \<in> set (jobs db). (\<exists>p. get_packet (j_packet_id j) db = Some p)
        \<and> (j_state j = J_COMPLETE \<longleftrightarrow> (\<exists>t. get_processed (j_packet_id j) db = Some t)))
    \<and> distinct (map source_key (packets db)) \<and> distinct (map j_packet_id (jobs db)) \<and> distinct (map t_packet_id (processed db))"
proof -
  have inv: "db_inv db" by (rule reachable_db_inv [OF assms])
  have none: "\<not> (\<exists>p \<in> set (packets db). p_source_receipt_id p = d_receipt_id r)"
    if "r \<in> set (receipts db)" "d_validation_status r \<noteq> V_ACCEPTED" for r
    using inv that unfolding db_inv_def rows_ok_def delivery_ok_def has_row_def by blast
  show ?thesis
    using accepted_one_packet [OF inv] accepted_job [OF inv] none packet_source [OF inv] job_of_packet [OF inv] inv_keys(3,4,6) [OF inv]
    by blast
qed

section \<open>The sample run is reachable\<close>

lemma sample_steps:
  "repo_step create_schema sample_recorded" "repo_step sample_recorded sample_accepted"
  "repo_step sample_accepted sample_queued" "repo_step sample_queued sample_claimed" "repo_step sample_claimed sample_completed"
  using record_sample(1) accept_sample(1) queue_sample(1) claim_sample(1) complete_sample(1)
  by (auto intro: record_delivery_is_step accept_packet_is_step step_queued step_claim step_complete)

lemma sample_reachable:
  "reachable sample_recorded" "reachable sample_accepted" "reachable sample_queued" "reachable sample_claimed"
  "reachable sample_completed"
  by (meson sample_steps rtranclp.rtrancl_refl rtranclp.rtrancl_into_rtrancl)+

lemma sample_completes: "repo_step\<^sup>*\<^sup>* sample_recorded sample_completed"
  by (meson sample_steps rtranclp.rtrancl_refl rtranclp.rtrancl_into_rtrancl)

theorem evidence_is_permanent_witness:
  "\<exists>r'. get_delivery 1 sample_completed = Some r' \<and> d_raw_body r' = [1] \<and> d_body_sha256 r' = sha256_hexdigest [1]"
proof -
  have "get_delivery 1 sample_recorded = Some (sample_receipt 1 [1])"
    by (simp add: get_delivery_def record_sample get_row_def sample_receipt_def new_receipt_def sample_env_def sample_input_def)
  moreover have "d_raw_body (sample_receipt 1 [1]) = [1]" "d_body_sha256 (sample_receipt 1 [1]) = sha256_hexdigest [1]"
    by (simp_all add: sample_receipt_def new_receipt_def sample_input_def)
  ultimately show ?thesis using evidence_is_permanent [OF sample_reachable(1) sample_completes] by fastforce
qed

theorem accepted_work_is_unique_witness:
  "\<exists>!p. p \<in> set (packets sample_completed) \<and> p_source_receipt_id p = 1"
proof -
  let ?r = "queued_receipt (sample_env 3) (accepted_receipt (sample_env 2) (sample_values 9) (sample_receipt 1 [1]))"
  have "?r \<in> set (receipts sample_completed)" "d_validation_status ?r = V_ACCEPTED" "d_receipt_id ?r = 1"
    by (simp_all add: complete_sample queue_sample queued_receipt_def accepted_receipt_def sample_receipt_def new_receipt_def
        sample_env_def sample_input_def)
  then show ?thesis using accepted_work_is_unique [OF sample_reachable(5)] by fastforce
qed

section \<open>Sequence accounting\<close>

lemma accepted_total_tracks: "accepted_total (foldl (seq_track adv mis) c ss) = accepted_total c + int (length ss)"
  by (induction ss arbitrary: c) (simp_all add: seq_track_def)

lemma packet_in_range:
  "db_inv db \<Longrightarrow> p \<in> set (packets db) \<Longrightarrow> 0 \<le> p_sequence_number p \<and> p_sequence_number p < 2 ^ 32"
  by (auto simp: db_inv_def rows_ok_def packet_ok_def check_packet_def storage_constants split: if_splits)

text \<open>
  C16. Sequence accounting balances: in every reachable database the state of a boot session is the
  state its stored packets amount to in the order they were accepted. The accepted count is their
  number, the mark is the number of the stored packet the state points to, and the accepted packets
  plus the packets recorded as missing, less the late ones, are the numbers up to the mark, modulo the
  32-bit wrap.
\<close>

theorem sequence_accounting_balances:
  assumes "reachable db" "s \<in> set (sequence_states db)"
  shows "s_accepted_packet_count s = int (length (session_numbers (state_key s) (packets db)))
    \<and> 0 \<le> s_high_water_sequence s \<and> s_high_water_sequence s < 2 ^ 32
    \<and> (\<exists>p. get_packet (s_last_high_water_packet_id s) db = Some p
         \<and> source_key p = (s_payload_id s, s_boot_id s, s_high_water_sequence s))
    \<and> (s_accepted_packet_count s + s_missing_packet_count s - late_total (session_totals (state_key s) (packets db))) mod 2 ^ 32
        = (s_high_water_sequence s + 1) mod 2 ^ 32"
proof -
  have inv: "db_inv db" by (rule reachable_db_inv [OF assms(1)])
  then have st: "state_ok db s" using assms(2) by (simp add: db_inv_def rows_ok_def)
  have "\<forall>n \<in> set (session_numbers (state_key s) (packets db)). 0 \<le> n \<and> n < 2 ^ 32"
    using packet_in_range [OF inv] by (auto simp: session_numbers_def)
  then have "totals_balanced (session_totals (state_key s) (packets db))"
    unfolding session_totals_def by (intro stored.stream_balanced) (simp_all add: totals_balanced_def no_packets_def)
  moreover have "accepted_total (session_totals (state_key s) (packets db)) = int (length (session_numbers (state_key s) (packets db)))"
    by (simp add: session_totals_def accepted_total_tracks no_packets_def)
  moreover have "\<exists>p. get_packet (s_last_high_water_packet_id s) db = Some p
      \<and> source_key p = (s_payload_id s, s_boot_id s, s_high_water_sequence s)"
  proof -
    obtain p where p: "p \<in> set (packets db)" "source_key p = (s_payload_id s, s_boot_id s, s_high_water_sequence s)"
      "p_packet_id p = s_last_high_water_packet_id s" using st unfolding state_ok_def by blast
    then show ?thesis using get_row_unique [OF inv_keys(2) [OF inv] p(1)] by (auto simp: get_packet_def)
  qed
  ultimately show ?thesis using st by (simp add: state_ok_def totals_balanced_def)
qed

theorem sequence_accounting_balances_witness:
  "let s = first_state (sample_env 2) (sample_values 9) 9 in s \<in> set (sequence_states sample_completed)
     \<and> s_accepted_packet_count s = int (length (session_numbers (state_key s) (packets sample_completed)))"
proof -
  have "first_state (sample_env 2) (sample_values 9) 9 \<in> set (sequence_states sample_completed)"
    by (simp add: complete_sample accept_sample)
  then show ?thesis using sequence_accounting_balances [OF sample_reachable(5)] by (simp add: Let_def)
qed

section \<open>Races\<close>

text \<open>A packet whose number is the mark of its session is stored.\<close>

lemma mark_is_stored:
  assumes inv: "db_inv db" and s: "s \<in> set (sequence_states db)"
    and n: "0 \<le> n" "n < 2 ^ 32" and eq: "stored_disposition (Some (s_high_water_sequence s)) n = None"
  shows "has_row source_key (s_payload_id s, s_boot_id s, n) (packets db)"
proof -
  have "state_ok db s" using inv s by (simp add: db_inv_def rows_ok_def)
  then obtain p where p: "p \<in> set (packets db)" "source_key p = (s_payload_id s, s_boot_id s, s_high_water_sequence s)"
    unfolding state_ok_def by blast
  have "seq_distance (s_high_water_sequence s) n = 0" using eq by (auto simp: stored_disposition_cases Let_def split: if_splits)
  moreover have "0 \<le> s_high_water_sequence s" "s_high_water_sequence s < 2 ^ 32" using packet_in_range [OF inv p(1)] p(2) by auto
  ultimately have "s_high_water_sequence s = n"
    using n unfolding seq_distance_def by (metis mod_eq_dvd_iff mod_pos_pos_trivial dvd_eq_mod_eq_0)
  then show ?thesis using p by (auto simp: has_row_def)
qed

lemma state_of_mark:
  assumes "get_row state_key k (sequence_states db) = st" "stored_disposition (map_option s_high_water_sequence st) n = None"
  obtains s where "st = Some s" "s \<in> set (sequence_states db)" "state_key s = k"
    "stored_disposition (Some (s_high_water_sequence s)) n = None"
  using assms get_row_Some [of state_key k "sequence_states db"]
  by (cases st) (auto simp: stored_disposition_def)

text \<open>
  C21. A racing acceptance either has the outcome it would have had alone at the moment it commits, or it
  is refused because another delivery of the same packet was accepted after it looked the packet up and
  the mark is now that packet's number; then nothing but its own receipt and the audit trail changes.
\<close>

theorem racing_acceptance_outcome:
  assumes db: "reachable db" and rd: "reads_ok (dv_payload_id v, dv_boot_id v) rd ld db"
    and n: "0 \<le> dv_sequence_number v" "dv_sequence_number v < 2 ^ 32"
    and ac: "accept_packet_transaction rid v ma actor (env, rd, ld, db) = Inr (res, db')"
  shows "accept_packet_transaction rid v ma actor (env, db, db, db) = Inr (res, db')
    \<or> (pa_conflict res \<and> pa_validation_status res = V_CONFLICT
       \<and> \<not> has_row source_key (dv_payload_id v, dv_boot_id v, dv_sequence_number v) (packets rd)
       \<and> has_row source_key (dv_payload_id v, dv_boot_id v, dv_sequence_number v) (packets db)
       \<and> packets db' = packets db \<and> jobs db' = jobs db \<and> sequence_states db' = sequence_states db)"
proof -
  let ?k = "(dv_payload_id v, dv_boot_id v)"
  let ?sk = "(dv_payload_id v, dv_boot_id v, dv_sequence_number v)"
  let ?st = "get_row state_key ?k (sequence_states ld)"
  have inv: "db_inv db" by (rule reachable_db_inv [OF db])
  consider (early) "accept_packet_transaction rid v ma actor (env, db, db, db) = Inr (res, db')"
    | (existing) r ep where "get_row d_receipt_id rid (receipts db) = Some r" "d_validation_status r = V_PENDING"
      "get_row source_key ?sk (packets rd) = Some ep" "accept_existing env r v actor ep db = Inr (res, db')"
    | (conflict) r where "get_row source_key ?sk (packets rd) = None"
      "stored_disposition (map_option s_high_water_sequence ?st) (dv_sequence_number v) = None"
      "accept_state_conflict env r v actor db = Inr (res, db')"
    | (new) r d m where "get_row d_receipt_id rid (receipts db) = Some r" "d_validation_status r = V_PENDING"
      "stored_disposition (map_option s_high_water_sequence ?st) (dv_sequence_number v) = Some (d, m)"
      "accept_new env r v ma actor ?st d m db = Inr (res, db')"
    using ac unfolding accept_packet_transaction_def Let_def by (auto split: option.splits if_splits)
  then show ?thesis
  proof cases
    case early
    then show ?thesis by simp
  next
    case (existing r ep)
    have "source_key ep = ?sk" using get_row_Some [OF existing(3)] by blast
    moreover have "ep \<in> set (packets db)" by (rule reads_packet [OF rd existing(3)])
    ultimately have "get_row source_key ?sk (packets db) = Some ep"
      using get_row_unique [OF inv_keys(4) [OF inv], of ep] by simp
    then show ?thesis using existing by (simp add: accept_packet_transaction_def)
  next
    case (conflict r)
    obtain s where s: "?st = Some s" "state_key s = ?k"
      and mark: "stored_disposition (Some (s_high_water_sequence s)) (dv_sequence_number v) = None"
      by (rule state_of_mark [OF refl conflict(2)])
    have "get_row state_key ?k (sequence_states db) = Some s" using rd s(1) unfolding reads_ok_def by blast
    then have "s \<in> set (sequence_states db)" using get_row_Some by metis
    then have "has_row source_key ?sk (packets db)" using mark_is_stored [OF inv _ n mark] s(2) by simp
    moreover have "\<not> has_row source_key ?sk (packets rd)" using conflict(1) by (simp add: get_row_None)
    ultimately show ?thesis using conflict(3)
      by (auto simp: accept_state_conflict_def Let_def statement_simps)
  next
    case (new r d m)
    have "?st = get_row state_key ?k (sequence_states db)" "get_row source_key ?sk (packets db) = None"
      by (rule accept_new_current [OF rd refl new(4)])+
    then show ?thesis using new by (simp add: accept_packet_transaction_def)
  qed
qed

lemma race_steps:
  "repo_step sample_accepted race_first" "repo_step race_first race_recorded" "repo_step race_recorded race_accepted"
  using record_race_first(1) record_race(1) accept_race(1)
  by (auto intro: record_delivery_is_step accept_packet_is_step)

lemma race_reachable: "reachable race_recorded" "reachable race_accepted"
  using sample_reachable(2) race_steps by (meson rtranclp.rtrancl_into_rtrancl)+

lemma race_reads: "reads_ok k race_recorded race_accepted race_accepted"
  using repo_step_keeps [OF race_steps(3) reachable_db_inv [OF race_reachable(1)]] by (simp add: reads_ok_def)

theorem racing_acceptance_outcome_witness:
  "\<exists>res db'. accept_packet_transaction 4 (sample_values 10) 3 ''vendor'' (sample_env 6, race_recorded, race_accepted, race_accepted) = Inr (res, db')
     \<and> (accept_packet_transaction 4 (sample_values 10) 3 ''vendor'' (sample_env 6, race_accepted, race_accepted, race_accepted) = Inr (res, db')
        \<or> (pa_conflict res \<and> packets db' = packets race_accepted \<and> jobs db' = jobs race_accepted))"
proof -
  have n: "0 \<le> dv_sequence_number (sample_values 10)" "dv_sequence_number (sample_values 10) < 2 ^ 32"
    by (simp_all add: sample_values_def)
  obtain res db' where ac: "accept_packet_transaction 4 (sample_values 10) 3 ''vendor'' (sample_env 6, race_recorded, race_accepted, race_accepted) = Inr (res, db')"
    using race_is_lost unfolding race_loser_def by blast
  show ?thesis using ac racing_acceptance_outcome [OF race_reachable(2) race_reads n ac] by blast
qed








section \<open>The storage's sequence rule is the pure one\<close>

fun stored_form :: "SequenceDisposition \<Rightarrow> StoredDisposition" where
  "stored_form FIRST_IN_ORDER = SD_FIRST"
| "stored_form FIRST_WITH_GAP = SD_FIRST"
| "stored_form IN_ORDER = SD_IN_ORDER"
| "stored_form GAP = SD_GAP"
| "stored_form _ = SD_LATE"

lemma stored_disposition_new:
  "stored_disposition h s = (case decide_new h s of Inl _ \<Rightarrow> None | Inr d \<Rightarrow> Some (stored_form (disposition d), missing_count d))"
  by (cases h) (auto simp: stored_disposition_def decide_new_def and_uint32 storage_constants(2) sequence_constants Let_def)

text \<open>
  C23. The repository repeats the sequence rule inline instead of calling \<^verbatim>\<open>decide_sequence\<close>; the two
  agree: for every mark and sequence number in range, and a packet that is not stored, the stored
  disposition and missing count are those of \<^verbatim>\<open>decide_sequence\<close>, and the repository reports a state
  conflict exactly when \<^verbatim>\<open>decide_sequence\<close> raises.
\<close>

theorem stored_disposition_agrees:
  assumes "0 \<le> s" "s \<le> MAX_UINT32" "\<And>h. mark = Some h \<Longrightarrow> 0 \<le> h \<and> h \<le> MAX_UINT32" "raw \<noteq> []"
  shows "stored_disposition mark s =
    (case decide_sequence (case mark of None \<Rightarrow> PyNone | Some h \<Rightarrow> PyInt h) (PyInt s) (PyBytes raw) PyNone of
       Inl e \<Rightarrow> None | Inr d \<Rightarrow> Some (stored_form (disposition d), missing_count d))"
  using assms decide_sequence_new [of s mark raw]
  by (simp add: stored_disposition_new storage_constants sequence_constants)

theorem stored_disposition_agrees_witness:
  "stored_disposition (Some 4294967290) 3 =
    (case decide_sequence (PyInt 4294967290) (PyInt 3) (PyBytes [1]) PyNone of
       Inl e \<Rightarrow> None | Inr d \<Rightarrow> Some (stored_form (disposition d), missing_count d))"
  using stored_disposition_agrees [of 3 "Some 4294967290" "[1]"] by (simp add: storage_constants)

end
