(* ===== verification/Repository_Deliveries.thy ===== *)
theory Repository_Deliveries
  imports Repository_Lifecycle
begin

text \<open>
  Recording of deliveries (\<^verbatim>\<open>record_delivery\<close> of \<^verbatim>\<open>mission_ground/telemetry/storage.py\<close>): a delivery
  that fits the columns is always recorded, and the request identifier decides between a new receipt,
  a replay and a conflict.
\<close>

section \<open>Deliveries are always recorded\<close>

text \<open>What the columns can hold of a delivery.\<close>

definition delivery_fits :: "delivery_input \<Rightarrow> bool" where
  "delivery_fits inp \<longleftrightarrow> int (length (in_raw_body inp)) \<le> MAX_EVIDENCE_BODY_BYTES
     \<and> in_peer_certificate_identity inp \<noteq> [] \<and> varchar 512 (in_peer_certificate_identity inp)
     \<and> opt_ok pg_text (in_presented_request_id inp) \<and> opt_ok (varchar 255) (in_content_type inp)"

text \<open>The identifiers a transaction draws are fresh.\<close>

definition fresh_ids :: "tx_env \<Rightarrow> delivery_input \<Rightarrow> telemetry_db \<Rightarrow> bool" where
  "fresh_ids env inp db \<longleftrightarrow>
     \<not> has_row d_receipt_id (case in_receipt_id inp of Some rid \<Rightarrow> rid | None \<Rightarrow> row_id env) (receipts db)
     \<and> \<not> has_row a_event_id (event_id env) (audit_events db)"

text \<open>The receipt that owns the request identifier of a delivery.\<close>

definition request_owner :: "delivery_input \<Rightarrow> telemetry_db \<Rightarrow> TelemetryDeliveryReceipt option" where
  "request_owner inp db = Option.bind (in_canonical_request_id inp) (\<lambda>q.
     Option.bind (get_row i_request_id q (request_identities db)) (\<lambda>i. get_delivery (i_first_receipt_id i) db))"

lemma fresh_identity:
  assumes inv: "db_inv db" and new: "\<not> has_row d_receipt_id rid (receipts db)"
  shows "\<not> has_row i_first_receipt_id rid (request_identities db)"
  using assms unfolding db_inv_def rows_ok_def identity_ok_def has_row_def by metis

lemma identity_digest:
  assumes inv: "db_inv db" and i: "get_row i_request_id q (request_identities db) = Some i"
    and f: "get_row d_receipt_id (i_first_receipt_id i) (receipts db) = Some first"
  shows "i_body_sha256 i = sha256_hexdigest (d_raw_body first)"
proof -
  have "i \<in> set (request_identities db)" using get_row_Some [OF i] by blast
  then obtain r where r: "r \<in> set (receipts db)" "d_receipt_id r = i_first_receipt_id i" "i_body_sha256 i = d_body_sha256 r"
    using inv unfolding db_inv_def rows_ok_def identity_ok_def by blast
  have "r = first" using get_row_unique [OF inv_keys(1) [OF inv] r(1)] r(2) f by simp
  moreover have "receipt_ok r" using inv r(1) by (simp add: db_inv_def rows_ok_def)
  ultimately show ?thesis using r(3) by (simp add: receipt_ok_def)
qed

lemma request_owner_None:
  assumes inv: "db_inv db" and none: "request_owner inp db = None" and q: "in_canonical_request_id inp = Some q"
  shows "\<not> has_row i_request_id q (request_identities db)"
proof
  assume "has_row i_request_id q (request_identities db)"
  then obtain i where i: "get_row i_request_id q (request_identities db) = Some i" by (metis get_row_None not_None_eq)
  then have "i \<in> set (request_identities db)" using get_row_Some [OF i] by blast
  then have "has_row d_receipt_id (i_first_receipt_id i) (receipts db)"
    using inv unfolding db_inv_def rows_ok_def identity_ok_def has_row_def by blast
  then show False using none q i by (auto simp: request_owner_def get_delivery_def bind_eq_None_conv get_row_None)
qed

lemma get_row_snoc: "get_row key (key r) rows = None \<Longrightarrow> get_row key (key r) (rows @ [r]) = Some r"
  by (induction rows) (auto simp: get_row_def split: if_splits)

lemma store_delivery_total:
  assumes inv: "db_inv db" and fits: "delivery_fits inp" and fresh: "fresh_ids env inp db"
    and first: "\<And>f. first = Some f \<Longrightarrow> f \<in> set (receipts db)"
    and free: "first = None \<Longrightarrow> \<forall>q. in_canonical_request_id inp = Some q \<longrightarrow> \<not> has_row i_request_id q (request_identities db)"
  shows "\<exists>db'. store_delivery env inp t (sha256_hexdigest (in_raw_body inp)) first db =
      Inr (delivery_result (new_receipt env inp t (sha256_hexdigest (in_raw_body inp)) first) False (first \<noteq> None), db')
    \<and> receipts db' = receipts db @ [new_receipt env inp t (sha256_hexdigest (in_raw_body inp)) first]"
proof -
  let ?r = "new_receipt env inp t (sha256_hexdigest (in_raw_body inp)) first"
  have row: "check_receipt ?r = None"
    using fits hexdigest_text [of "in_raw_body inp"] length_hexdigest [of "in_raw_body inp"]
    by (auto simp: check_receipt_def new_receipt_def delivery_fits_def varchar_def opt_ok_def int4_def storage_constants pg_text_def)
  have new: "\<not> has_row d_receipt_id (d_receipt_id ?r) (receipts db)"
    using fresh by (simp add: fresh_ids_def new_receipt_def)
  have dup: "has_row_opt d_receipt_id (d_duplicate_of_receipt_id ?r) (receipts db @ [?r])"
    using first by (cases first) (auto simp: has_row_opt_def has_row_def new_receipt_def)
  have 1: "insert_receipt ?r db = Inr (db\<lparr>receipts := receipts db @ [?r]\<rparr>)"
    using row new dup by (simp add: insert_receipt_def checked_def)
  let ?db1 = "db\<lparr>receipts := receipts db @ [?r]\<rparr>"
  obtain ids where 2: "(case in_canonical_request_id inp of
       Some q \<Rightarrow> if first \<noteq> None then Inr ?db1
                 else insert_identity \<lparr>i_request_id = q, i_first_receipt_id = d_receipt_id ?r,
                        i_body_sha256 = sha256_hexdigest (in_raw_body inp), i_created_at = t\<rparr> ?db1
     | None \<Rightarrow> Inr ?db1) = (Inr (?db1\<lparr>request_identities := ids\<rparr>) :: storage_error + telemetry_db)"
  proof (cases "in_canonical_request_id inp")
    case None
    then show ?thesis using that [of "request_identities db"] by simp
  next
    case (Some q)
    have "varchar 64 (sha256_hexdigest (in_raw_body inp))" by (simp add: varchar_def hexdigest_text)
    then show ?thesis
      using that [of "request_identities db"] that [of "request_identities db @ [\<lparr>i_request_id = q, i_first_receipt_id = d_receipt_id ?r,
          i_body_sha256 = sha256_hexdigest (in_raw_body inp), i_created_at = t\<rparr>]"]
        Some free fresh_identity [OF inv new]
      by (cases first) (auto simp: insert_identity_def checked_def check_identity_def has_row_def)
  qed
  have 3: "audit env ''ground-api'' en (in_peer_certificate_identity inp) oc (d_rejection_reason ?r) (Some (d_receipt_id ?r)) None None dt
       (?db1\<lparr>request_identities := ids\<rparr>) = Inr (?db1\<lparr>request_identities := ids, audit_events := audit_events db @ [\<lparr>a_event_id = event_id env, a_occurred_at = now env, a_service_name = ''ground-api'',
       a_event_name = en, a_actor_identity = in_peer_certificate_identity inp, a_outcome = oc, a_reason = d_rejection_reason ?r,
       a_receipt_id = Some (d_receipt_id ?r), a_packet_id = None, a_job_id = None,
       a_event_data = (case dt of None \<Rightarrow> JObj [] | Some data \<Rightarrow> data)\<rparr>]\<rparr>)"
    if "varchar 128 en" "varchar 64 oc" for en oc dt
    using that fresh fits
    by (auto simp: audit_def insert_audit_def checked_def check_audit_def delivery_fits_def fresh_ids_def has_row_opt_def has_row_def
        new_receipt_def opt_ok_def varchar_def pg_text_def)
  have names: "varchar 128 (if first \<noteq> None then ''telemetry.delivery.request_id_conflict'' else ''telemetry.delivery.received'')"
    "varchar 64 (if first \<noteq> None then ''CONFLICT'' else ''RECORDED'')"
    by (simp_all add: varchar_def pg_text_def)
  show ?thesis
    unfolding store_delivery_def Let_def 1 bindE.simps 2 3 [OF names] by simp
qed

text \<open>What the answer to a delivery has to be, given the receipt that owns its request identifier.\<close>

definition delivery_answer ::
  "delivery_input \<Rightarrow> TelemetryDeliveryReceipt option \<Rightarrow> telemetry_db \<Rightarrow> DeliveryRecordResult \<Rightarrow> telemetry_db \<Rightarrow> bool" where
  "delivery_answer inp owner db res db' \<longleftrightarrow>
     (\<exists>r. get_delivery (dr_receipt_id res) db' = Some r \<and> d_raw_body r = in_raw_body inp
       \<and> (case owner of
            None \<Rightarrow> d_validation_status r = V_PENDING \<and> \<not> dr_request_replay res \<and> \<not> dr_request_conflict res
          | Some first \<Rightarrow>
              if d_raw_body first = in_raw_body inp
              then dr_request_replay res \<and> dr_receipt_id res = d_receipt_id first \<and> db' = db
              else dr_request_conflict res \<and> d_validation_status r = V_CONFLICT
                \<and> d_duplicate_of_receipt_id r = Some (d_receipt_id first)))"

lemma store_delivery_answer:
  assumes inv: "db_inv db" and fits: "delivery_fits inp" and fresh: "fresh_ids env inp db"
    and first: "\<And>f. first = Some f \<Longrightarrow> f \<in> set (receipts db) \<and> d_raw_body f \<noteq> in_raw_body inp"
    and free: "first = None \<Longrightarrow> \<forall>q. in_canonical_request_id inp = Some q \<longrightarrow> \<not> has_row i_request_id q (request_identities db)"
  shows "\<exists>res db'. store_delivery env inp t (sha256_hexdigest (in_raw_body inp)) first db = Inr (res, db')
    \<and> delivery_answer inp first db res db'"
proof -
  let ?r = "new_receipt env inp t (sha256_hexdigest (in_raw_body inp)) first"
  obtain db' where st: "store_delivery env inp t (sha256_hexdigest (in_raw_body inp)) first db = Inr (delivery_result ?r False (first \<noteq> None), db')"
    and app: "receipts db' = receipts db @ [?r]"
    using store_delivery_total [OF inv fits fresh _ free, where t = t] first by blast
  have "get_row d_receipt_id (d_receipt_id ?r) (receipts db) = None"
    using fresh by (simp add: get_row_None fresh_ids_def new_receipt_def)
  then have "get_delivery (d_receipt_id ?r) db' = Some ?r" by (simp add: get_delivery_def app get_row_snoc)
  then have "delivery_answer inp first db (delivery_result ?r False (first \<noteq> None)) db'"
    using first by (cases first) (auto simp: delivery_answer_def delivery_result_def new_receipt_def)
  with st show ?thesis by blast
qed

lemma delivery_attempt_answer:
  assumes inv: "db_inv db" and fits: "delivery_fits inp" and fresh: "fresh_ids env inp db"
  shows "\<exists>res db'. delivery_attempt inp t (sha256_hexdigest (in_raw_body inp)) (env, db, db) = Inr (res, db')
    \<and> delivery_answer inp (request_owner inp db) db res db'"
proof (cases "request_owner inp db")
  case None
  have free: "\<forall>q. in_canonical_request_id inp = Some q \<longrightarrow> \<not> has_row i_request_id q (request_identities db)"
    using None request_owner_None [OF inv] by blast
  have "delivery_attempt inp t (sha256_hexdigest (in_raw_body inp)) (env, db, db)
      = store_delivery env inp t (sha256_hexdigest (in_raw_body inp)) None db"
    using free [folded get_row_None] by (cases "in_canonical_request_id inp") (simp_all add: delivery_attempt_def)
  then show ?thesis using store_delivery_answer [OF inv fits fresh, of None t] free None by simp
next
  case (Some first)
  obtain q i where q: "in_canonical_request_id inp = Some q" and i: "get_row i_request_id q (request_identities db) = Some i"
    and f: "get_row d_receipt_id (i_first_receipt_id i) (receipts db) = Some first"
    using Some by (auto simp: request_owner_def get_delivery_def bind_eq_Some_conv)
  have sha: "i_body_sha256 i = sha256_hexdigest (d_raw_body first)" by (rule identity_digest [OF inv i f])
  show ?thesis
  proof (cases "d_raw_body first = in_raw_body inp")
    case True
    then have "delivery_attempt inp t (sha256_hexdigest (in_raw_body inp)) (env, db, db) = Inr (delivery_result first True False, db)"
      using q i f sha by (simp add: delivery_attempt_def)
    moreover have "get_delivery (d_receipt_id first) db = Some first"
      using f get_row_Some [OF f] by (simp add: get_delivery_def)
    ultimately show ?thesis using Some True by (simp add: delivery_answer_def delivery_result_def)
  next
    case False
    then have "delivery_attempt inp t (sha256_hexdigest (in_raw_body inp)) (env, db, db)
        = store_delivery env inp t (sha256_hexdigest (in_raw_body inp)) (Some first) db"
      using q i f by (simp add: delivery_attempt_def)
    then show ?thesis using store_delivery_answer [OF inv fits fresh, of "Some first" t] get_row_Some [OF f] Some False by simp
  qed
qed

text \<open>
  C24. Every delivery that fits the columns is recorded: the call returns, and whatever the request
  identifier was used for before, the receipt it names holds exactly the delivered bytes. A request
  identifier repeated with the same bytes returns its first receipt and changes nothing; repeated with
  other bytes it leaves a new conflict receipt that points to the first one; a new one leaves a pending
  receipt.
\<close>

theorem delivery_is_recorded:
  assumes db: "reachable db" and fits: "delivery_fits inp" and fresh: "fresh_ids env inp db"
  shows "\<exists>res db' r. record_delivery env env' inp db = Inr (res, db')
    \<and> get_delivery (dr_receipt_id res) db' = Some r \<and> d_raw_body r = in_raw_body inp
    \<and> (case request_owner inp db of
         None \<Rightarrow> d_validation_status r = V_PENDING \<and> \<not> dr_request_replay res \<and> \<not> dr_request_conflict res
       | Some first \<Rightarrow>
           if d_raw_body first = in_raw_body inp
           then dr_request_replay res \<and> dr_receipt_id res = d_receipt_id first \<and> db' = db
           else dr_request_conflict res \<and> d_validation_status r = V_CONFLICT
             \<and> d_duplicate_of_receipt_id r = Some (d_receipt_id first))"
proof -
  let ?t = "case in_received_at inp of Some t \<Rightarrow> t | None \<Rightarrow> now env"
  have "record_delivery env env' inp db =
      retry_once (delivery_attempt inp ?t (sha256_hexdigest (in_raw_body inp))) (env, db, db) (env', db, db)"
    using fits by (simp add: record_delivery_def record_delivery_racing_def delivery_fits_def Let_def cong: option.case_cong)
  moreover obtain res db' where "delivery_attempt inp ?t (sha256_hexdigest (in_raw_body inp)) (env, db, db) = Inr (res, db')"
    and "delivery_answer inp (request_owner inp db) db res db'"
    using delivery_attempt_answer [OF reachable_db_inv [OF db] fits fresh] by blast
  ultimately show ?thesis by (simp add: retry_once_def delivery_answer_def)
qed

theorem delivery_is_recorded_witness:
  "\<exists>res db' r. record_delivery (sample_env 9) (sample_env 9) (sample_input [7, 8]) sample_completed = Inr (res, db')
    \<and> get_delivery (dr_receipt_id res) db' = Some r \<and> d_raw_body r = [7, 8]"
proof -
  have "delivery_fits (sample_input [7, 8])"
    by (simp add: delivery_fits_def sample_input_def storage_constants varchar_def pg_text_def opt_ok_def)
  moreover have "fresh_ids (sample_env 9) (sample_input [7, 8]) sample_completed"
    by (simp add: fresh_ids_def has_row_key complete_sample queue_sample sample_row_simps queued_receipt_def)
  ultimately show ?thesis
    using delivery_is_recorded [OF sample_reachable(5), of "sample_input [7, 8]" "sample_env 9" "sample_env 9"]
    by (fastforce simp: sample_input_def)
qed

end
