(* ===== verification/Repository_Jobs.thy ===== *)
theory Repository_Jobs
  imports Repository_Lifecycle
begin

text \<open>
  The life of a processing job (\<^verbatim>\<open>mission_ground/telemetry/storage.py\<close>): its state machine under every
  interleaving, leases, bounded retries and the uniqueness of its result.
\<close>

section \<open>The life of a job\<close>

text \<open>The states a job may move to, in the order the worker and the recovery loop move it.\<close>

fun job_edge :: "ProcessingJobState \<Rightarrow> ProcessingJobState \<Rightarrow> bool" where
  "job_edge J_PENDING_QUEUE s = (s = J_QUEUED)"
| "job_edge J_QUEUED s = (s = J_PROCESSING)"
| "job_edge J_PROCESSING s = (s = J_PROCESSING \<or> s = J_COMPLETE \<or> s = J_RETRY_WAIT \<or> s = J_FAILED)"
| "job_edge J_RETRY_WAIT s = (s = J_QUEUED \<or> s = J_PROCESSING)"
| "job_edge J_COMPLETE s = (s = J_COMPLETE)"
| "job_edge J_FAILED s = False"

text \<open>One transaction's effect on a job: none, or one edge; only a claim counts an attempt.\<close>

definition job_moves :: "TelemetryProcessingJob \<Rightarrow> TelemetryProcessingJob \<Rightarrow> bool" where
  "job_moves j j' \<longleftrightarrow> job_identity j' = job_identity j
     \<and> (j' = j \<or> (job_edge (j_state j) (j_state j')
          \<and> j_attempt_count j' = j_attempt_count j + (if j_state j' = J_PROCESSING then 1 else 0)))"

lemma job_moves_refl: "job_moves j j"
  by (simp add: job_moves_def)

lemma jobs_kept:
  "delivery_attempt inp t dg (env, rd, db) = Inr (x, db') \<Longrightarrow> jobs db' = jobs db"
  "reject_delivery env rid reason ids actor db = Inr (x, db') \<Longrightarrow> jobs db' = jobs db"
  "record_audit_event env sn en ai oc rs rid' pid jid' dt db = Inr (u, db') \<Longrightarrow> jobs db' = jobs db"
  "accept_existing env r v actor ep db = Inr (y, db') \<Longrightarrow> jobs db' = jobs db"
  "accept_state_conflict env r v actor db = Inr (y, db') \<Longrightarrow> jobs db' = jobs db"
  by (auto simp: delivery_attempt_def store_delivery_def reject_delivery_def record_audit_event_def accept_existing_def
      accept_state_conflict_def Let_def statement_simps split: option.splits if_splits)

lemma accept_new_jobs: "accept_new env r v ma actor st d m db = Inr (y, db') \<Longrightarrow> jobs db' = jobs db @ [new_job env (dv_packet_id v) ma]"
  by (erule accept_newE) (auto simp: statement_simps store_state_def split: option.splits)

lemma accept_jobs:
  assumes "accept_packet_transaction rid v ma actor (env, rd, ld, db) = Inr (y, db')"
  shows "\<exists>new. jobs db' = jobs db @ new"
  using assms unfolding accept_packet_transaction_def Let_def
  by (auto split: option.splits if_splits dest: jobs_kept accept_new_jobs)

lemma get_row_more: "get_row key k rows = Some r \<Longrightarrow> get_row key k (rows @ new) = Some r"
  by (induction rows) (auto simp: get_row_def split: if_splits)

lemma job_appended: "jobs db' = jobs db @ new \<Longrightarrow> get_job jid db = Some j \<Longrightarrow> get_job jid db' = Some j"
  by (simp add: get_job_def get_row_more)

text \<open>The transactions that replace one job row.\<close>

lemma job_replaced:
  assumes jobs: "jobs db' = put_row j_job_id new (jobs db)" and old: "get_row j_job_id k (jobs db) = Some old"
    and mv: "job_moves old new" and get: "get_job jid db = Some j"
  shows "\<exists>j'. get_job jid db' = Some j' \<and> job_moves j j'"
proof (cases "jid = k")
  case True
  have "j_job_id old = k" using get_row_Some [OF old] by blast
  then have "j_job_id new = k" using mv by (simp add: job_moves_def job_identity_def)
  then have "get_job k db' = Some new" using jobs has_row_get [OF old] by (simp add: get_job_def get_put_row)
  moreover have "j = old" using get old True by (simp add: get_job_def)
  ultimately show ?thesis using True mv by blast
next
  case False
  have "j_job_id new = k" using mv get_row_Some [OF old] by (simp add: job_moves_def job_identity_def)
  then show ?thesis using jobs False get by (simp add: get_job_def get_put_row job_moves_refl)
qed

lemma complete_has_result:
  assumes inv: "db_inv db" and get: "get_row j_job_id k (jobs db) = Some j"
  shows "j_state j = J_COMPLETE \<longleftrightarrow> get_row t_packet_id (j_packet_id j) (processed db) \<noteq> None"
proof -
  have "job_ok db j" using inv get_row_Some [OF get] by (simp add: db_inv_def rows_ok_def)
  then show ?thesis by (simp add: job_ok_def get_row_None)
qed

lemma queued_moves:
  assumes "mark_job_queued env k qid actor db = Inr (x, db')" "get_job jid db = Some j"
  shows "\<exists>j'. get_job jid db' = Some j' \<and> job_moves j j'"
  using assms(1)
proof (cases rule: mark_job_queuedE)
  case (again job)
  then show ?thesis using assms(2) job_moves_refl by blast
next
  case (queued job db1 db2 a)
  have "jobs db' = put_row j_job_id (queued_job env qid job) (jobs db)"
    using queued(3,5) save_receipts_fields [OF queued(4)] by (simp add: statement_simps)
  moreover have "job_moves job (queued_job env qid job)"
    using queued(2) by (auto simp: job_moves_def queued_job_def job_identity_def)
  ultimately show ?thesis using job_replaced [OF _ queued(1) _ assms(2)] by blast
qed

lemma claim_moves:
  assumes inv: "db_inv db" and cl: "claim_processing_job env k w lease db = Inr (x, db')" and get: "get_job jid db = Some j"
  shows "\<exists>j'. get_job jid db' = Some j' \<and> job_moves j j'"
  using cl
proof (cases rule: claim_processing_jobE)
  case (idle job)
  then show ?thesis using get job_moves_refl by blast
next
  case (finished job t)
  then show ?thesis using complete_has_result [OF inv finished(1)] by simp
next
  case (claimed job packet receipt db1 a)
  have "jobs db' = put_row j_job_id (claimed_job env w lease job) (jobs db)"
    using claimed(6,7) by (simp add: statement_simps)
  moreover have "job_moves job (claimed_job env w lease job)"
    using claimed(3) by (auto simp: job_moves_def claimed_job_def job_identity_def claimable_def)
  ultimately show ?thesis using job_replaced [OF _ claimed(1) _ get] by blast
qed

lemma complete_moves:
  assumes inv: "db_inv db" and cm: "complete_processing_job env k res w t db = Inr (x, db')" and get: "get_job jid db = Some j"
  shows "\<exists>j'. get_job jid db' = Some j' \<and> job_moves j j'"
  using cm
proof (cases rule: complete_processing_jobE)
  case (existing job)
  have "jobs db' = put_row j_job_id (finished_job env x job) (jobs db)" using existing(4) by (simp add: statement_simps)
  moreover have "job_moves job (finished_job env x job)"
    using complete_has_result [OF inv existing(1)] existing(2)
    by (simp add: job_moves_def finished_job_def job_identity_def)
  ultimately show ?thesis using job_replaced [OF _ existing(1) _ get] by blast
next
  case (completed job db1 db2 a)
  have "jobs db' = put_row j_job_id (completed_job (case t of Some u \<Rightarrow> u | None \<Rightarrow> now env) job) (jobs db)"
    using completed(6-8) by (simp add: statement_simps)
  moreover have "job_moves job (completed_job (case t of Some u \<Rightarrow> u | None \<Rightarrow> now env) job)"
    using completed(3) by (simp add: job_moves_def completed_job_def job_identity_def)
  ultimately show ?thesis using job_replaced [OF _ completed(1) _ get] by blast
qed

lemma fail_moves:
  assumes fl: "fail_processing_attempt env k w reason temp base t db = Inr (x, db')" and get: "get_job jid db = Some j"
  shows "\<exists>j'. get_job jid db' = Some j' \<and> job_moves j j'"
  using fl
proof (cases rule: fail_processing_attemptE)
  case (again job)
  then show ?thesis using get job_moves_refl by blast
next
  case (failed job final db1 a)
  have "jobs db' = put_row j_job_id (failed_job (case t of Some u \<Rightarrow> u | None \<Rightarrow> now env) reason base final job) (jobs db)"
    using failed(6,7) by (simp add: statement_simps)
  moreover have "job_moves job (failed_job (case t of Some u \<Rightarrow> u | None \<Rightarrow> now env) reason base final job)"
    using failed(2) by (cases final) (simp_all add: job_moves_def failed_job_def job_identity_def Let_def)
  ultimately show ?thesis using job_replaced [OF _ failed(1) _ get] by blast
qed

lemma step_moves:
  assumes "repo_step db db'" "db_inv db" "get_job jid db = Some j"
  shows "\<exists>j'. get_job jid db' = Some j' \<and> job_moves j j'"
  using assms
proof (induction rule: repo_step.induct)
  case (step_record inp rd db t env x db')
  then show ?case using jobs_kept(1) [OF step_record(3)] job_moves_refl by (auto simp: get_job_def)
next
  case step_reject
  then show ?case using jobs_kept(2) job_moves_refl by (metis get_job_def)
next
  case step_accept
  then show ?case using accept_jobs job_appended job_moves_refl by metis
next
  case step_audit
  then show ?case using jobs_kept(3) job_moves_refl by (metis get_job_def)
qed (metis queued_moves claim_moves complete_moves fail_moves)+

text \<open>
  C18. Every job follows its life cycle: a committed transaction leaves a job's identity, packet and
  attempt limit alone, and either leaves the row alone or moves it along one edge, from waiting for the
  queue to queued, to processing, and from there to complete, failed or waiting for a retry, which is
  queued or claimed again. The attempt counter grows by one exactly with a claim.
\<close>

theorem job_follows_lifecycle:
  assumes "reachable db" "repo_step db db'" "get_job jid db = Some j"
  shows "\<exists>j'. get_job jid db' = Some j' \<and> j_packet_id j' = j_packet_id j \<and> j_max_attempts j' = j_max_attempts j
    \<and> (j' = j \<or> (job_edge (j_state j) (j_state j')
         \<and> j_attempt_count j' = j_attempt_count j + (if j_state j' = J_PROCESSING then 1 else 0)))"
  using step_moves [OF assms(2) reachable_db_inv [OF assms(1)] assms(3)]
  by (auto simp: job_moves_def job_identity_def)

theorem job_follows_lifecycle_witness:
  "\<exists>j j'. get_job 2 sample_queued = Some j \<and> get_job 2 sample_claimed = Some j'
     \<and> job_edge (j_state j) (j_state j') \<and> j_attempt_count j' = j_attempt_count j + 1"
proof -
  have j: "get_job 2 sample_queued = Some (queued_job (sample_env 3) ''m'' (new_job (sample_env 2) (dv_packet_id (sample_values 9)) 3))"
    by (simp add: get_job_def queue_sample queued_job_def sample_row_simps)
  have "get_job 2 sample_claimed = Some (hd (jobs sample_claimed))" "j_state (hd (jobs sample_claimed)) = J_PROCESSING"
    by (simp_all add: get_job_def claim_sample queued_job_def claimed_job_def sample_row_simps)
  with j show ?thesis using job_follows_lifecycle [OF sample_reachable(3) sample_steps(4) j]
    by (auto simp: queued_job_def)
qed

text \<open>
  Finished work stays finished: once a job is complete or failed, no sequence of transactions of any
  processes moves it again, so a packet is never processed after it failed for good and its result is
  never withdrawn.
\<close>

lemma finished_step:
  assumes "db_inv db" "repo_step db db'" "get_job jid db = Some j" "j_state j = J_COMPLETE \<or> j_state j = J_FAILED"
  shows "\<exists>j'. get_job jid db' = Some j' \<and> j_state j' = j_state j \<and> j_attempt_count j' = j_attempt_count j"
  using step_moves [OF assms(2,1,3)] assms(4) by (auto simp: job_moves_def)

lemma finished_jobs_stay_finished:
  assumes db: "reachable db" and steps: "repo_step\<^sup>*\<^sup>* db db'"
    and j: "get_job jid db = Some j" "j_state j = J_COMPLETE \<or> j_state j = J_FAILED"
  shows "\<exists>j'. get_job jid db' = Some j' \<and> j_state j' = j_state j \<and> j_attempt_count j' = j_attempt_count j"
  using steps
proof (induction rule: rtranclp_induct)
  case base
  then show ?case using j by blast
next
  case (step db1 db2)
  then obtain j1 where j1: "get_job jid db1 = Some j1" "j_state j1 = j_state j" "j_attempt_count j1 = j_attempt_count j" by blast
  have "db_inv db1" using steps_keep [OF step(1) reachable_db_inv [OF db]] by blast
  then show ?case using finished_step [OF _ step(2) j1(1)] j(2) j1(2,3) by auto
qed

section \<open>Leases\<close>

text \<open>
  A transaction beside the owner of a claim on job \<open>jid\<close>, the worker \<open>w\<close>: any transaction of the repository,
  except that the owner itself neither completes nor fails that job, and that it is claimed only before \<open>limit\<close>.
\<close>

inductive beside_owner :: "uuid \<Rightarrow> string \<Rightarrow> int \<Rightarrow> telemetry_db \<Rightarrow> telemetry_db \<Rightarrow> bool" for jid w limit where
  beside_record: "int (length (in_raw_body inp)) \<le> MAX_EVIDENCE_BODY_BYTES \<Longrightarrow> db_extends rd db \<Longrightarrow>
    delivery_attempt inp t (sha256_hexdigest (in_raw_body inp)) (env, rd, db) = Inr (x, db') \<Longrightarrow> beside_owner jid w limit db db'"
| beside_reject: "reject_delivery env rid reason ids actor db = Inr (x, db') \<Longrightarrow> beside_owner jid w limit db db'"
| beside_accept: "0 < ma \<Longrightarrow> reads_ok (dv_payload_id v, dv_boot_id v) rd ld db \<Longrightarrow>
    accept_packet_transaction rid v ma actor (env, rd, ld, db) = Inr (y, db') \<Longrightarrow> beside_owner jid w limit db db'"
| beside_queued: "mark_job_queued env k qid actor db = Inr (b, db') \<Longrightarrow> beside_owner jid w limit db db'"
| beside_claim: "claim_processing_job env k v lease db = Inr (i, db') \<Longrightarrow> k = jid \<longrightarrow> instant (now env) < limit \<Longrightarrow>
    beside_owner jid w limit db db'"
| beside_complete: "complete_processing_job env k res v fin db = Inr (row, db') \<Longrightarrow> k = jid \<longrightarrow> v \<noteq> w \<Longrightarrow> beside_owner jid w limit db db'"
| beside_fail: "fail_processing_attempt env k v reason temp base failed db = Inr (f, db') \<Longrightarrow> k = jid \<longrightarrow> v \<noteq> w \<Longrightarrow> beside_owner jid w limit db db'"
| beside_audit: "record_audit_event env sn en ai oc rs rid' pid jid' dt db = Inr (u, db') \<Longrightarrow> beside_owner jid w limit db db'"

lemma beside_is_step: "beside_owner jid w limit db db' \<Longrightarrow> repo_step db db'"
  by (induction rule: beside_owner.induct) (auto intro: repo_step.intros)

text \<open>A job held by the worker until the limit.\<close>

definition held_by :: "string \<Rightarrow> int \<Rightarrow> TelemetryProcessingJob \<Rightarrow> bool" where
  "held_by w limit j \<longleftrightarrow> j_state j = J_PROCESSING \<and> j_claimed_by j = Some w \<and>
     (\<exists>e. j_lease_expires_at j = Some e \<and> instant (as_utc e) = limit)"

lemma other_job_put: "jobs db' = put_row j_job_id new (jobs db) \<Longrightarrow> j_job_id new \<noteq> jid \<Longrightarrow> get_job jid db' = get_job jid db"
  by (auto simp: get_job_def get_put_row)

lemma held_refuses:
  assumes inv: "db_inv db" and job: "get_job jid db = Some j" "held_by w limit j"
  shows "instant (now env) < limit \<Longrightarrow> v \<noteq> [] \<Longrightarrow> 0 < lease \<Longrightarrow> claim_processing_job env jid v lease db = Inr (None, db)"
    and "v \<noteq> w \<Longrightarrow> complete_processing_job env jid res v t db = Inl (InvalidDeliveryStateError ''processing job is owned by another worker'')"
    and "v \<noteq> w \<Longrightarrow> 0 < base \<Longrightarrow>
      fail_processing_attempt env jid v reason temp base t db = Inl (InvalidDeliveryStateError ''processing job is owned by another worker'')"
proof -
  have g: "get_row j_job_id jid (jobs db) = Some j" using job(1) by (simp add: get_job_def)
  have st: "j_state j = J_PROCESSING" "j_claimed_by j = Some w" using job(2) by (simp_all add: held_by_def)
  have none: "get_row t_packet_id (j_packet_id j) (processed db) = None" using complete_has_result [OF inv g] st(1) by simp
  have "\<not> claimable (now env) j" if "instant (now env) < limit" using job(2) that by (auto simp: claimable_def held_by_def)
  then show "instant (now env) < limit \<Longrightarrow> v \<noteq> [] \<Longrightarrow> 0 < lease \<Longrightarrow> claim_processing_job env jid v lease db = Inr (None, db)"
    using g none by (simp add: claim_processing_job_def Let_def)
  show "v \<noteq> w \<Longrightarrow> complete_processing_job env jid res v t db = Inl (InvalidDeliveryStateError ''processing job is owned by another worker'')"
    "v \<noteq> w \<Longrightarrow> 0 < base \<Longrightarrow>
      fail_processing_attempt env jid v reason temp base t db = Inl (InvalidDeliveryStateError ''processing job is owned by another worker'')"
    using g none st by (simp_all add: complete_processing_job_def fail_processing_attempt_def Let_def)
qed

text \<open>A transaction on another job leaves this one alone.\<close>

lemma queued_other:
  assumes "mark_job_queued env k qid actor db = Inr (b, db')" "k \<noteq> jid"
  shows "get_job jid db' = get_job jid db"
  using assms(1)
proof (cases rule: mark_job_queuedE)
  case (queued i db1 db2 a)
  have "jobs db' = put_row j_job_id (queued_job env qid i) (jobs db)"
    using queued(3,5) save_receipts_fields [OF queued(4)] by (simp add: statement_simps)
  then show ?thesis using other_job_put [of db' _ db jid] get_row_Some [OF queued(1)] assms(2) by (simp add: queued_job_def)
qed simp

lemma claim_other:
  assumes "claim_processing_job env k v lease db = Inr (i, db')" "k \<noteq> jid"
  shows "get_job jid db' = get_job jid db"
  using assms(1)
proof (cases rule: claim_processing_jobE)
  case (claimed i p r db1 a)
  have "jobs db' = put_row j_job_id (claimed_job env v lease i) (jobs db)" using claimed(6,7) by (simp add: statement_simps)
  then show ?thesis using other_job_put [of db' _ db jid] get_row_Some [OF claimed(1)] assms(2) by (simp add: claimed_job_def)
next
  case (finished i t)
  have "jobs db' = put_row j_job_id (finished_job env t i) (jobs db)" using finished(5) by (simp add: statement_simps)
  then show ?thesis using other_job_put [of db' _ db jid] get_row_Some [OF finished(1)] assms(2) by (simp add: finished_job_def)
qed simp

lemma complete_other:
  assumes "complete_processing_job env k res v fin db = Inr (row, db')" "k \<noteq> jid"
  shows "get_job jid db' = get_job jid db"
  using assms(1)
proof (cases rule: complete_processing_jobE)
  case (existing i)
  have "jobs db' = put_row j_job_id (finished_job env row i) (jobs db)" using existing(4) by (simp add: statement_simps)
  then show ?thesis using other_job_put [of db' _ db jid] get_row_Some [OF existing(1)] assms(2) by (simp add: finished_job_def)
next
  case (completed i db1 db2 a)
  have "jobs db' = put_row j_job_id (completed_job (case fin of Some u \<Rightarrow> u | None \<Rightarrow> now env) i) (jobs db)"
    using completed(6-8) by (simp add: statement_simps)
  then show ?thesis using other_job_put [of db' _ db jid] get_row_Some [OF completed(1)] assms(2) by (simp add: completed_job_def)
qed

lemma fail_other:
  assumes "fail_processing_attempt env k v reason temp base failed db = Inr (f, db')" "k \<noteq> jid"
  shows "get_job jid db' = get_job jid db"
  using assms(1)
proof (cases rule: fail_processing_attemptE)
  case (failed i final db1 a)
  have "jobs db' = put_row j_job_id (failed_job (case failed of Some u \<Rightarrow> u | None \<Rightarrow> now env) reason base final i) (jobs db)"
    using failed(6,7) by (simp add: statement_simps)
  then show ?thesis using other_job_put [of db' _ db jid] get_row_Some [OF failed(1)] assms(2) by (simp add: failed_job_def Let_def)
qed simp

lemma beside_keeps:
  assumes "beside_owner jid w limit db db'" and inv: "db_inv db" and job: "get_job jid db = Some j" "held_by w limit j"
  shows "get_job jid db' = Some j"
  using assms(1)
proof cases
  case (beside_record inp rd t env x)
  then show ?thesis using jobs_kept(1) job(1) by (metis get_job_def)
next
  case beside_reject
  then show ?thesis using jobs_kept(2) job(1) by (metis get_job_def)
next
  case beside_accept
  then show ?thesis using accept_jobs job_appended job(1) by metis
next
  case beside_audit
  then show ?thesis using jobs_kept(3) job(1) by (metis get_job_def)
next
  case (beside_queued env k qid actor b)
  have "k \<noteq> jid" using beside_queued job by (auto simp: mark_job_queued_def get_job_def held_by_def split: if_splits)
  then show ?thesis using queued_other [OF beside_queued] job(1) by simp
next
  case (beside_claim env k v lease i)
  have "v \<noteq> []" "0 < lease" using beside_claim(1) by (auto simp: claim_processing_job_def split: if_splits)
  then show ?thesis using held_refuses(1) [OF inv job] claim_other [OF beside_claim(1)] beside_claim job(1) by (cases "k = jid") auto
next
  case (beside_complete env k res v fin row)
  have "k \<noteq> jid" using held_refuses(2) [OF inv job] beside_complete by auto
  then show ?thesis using complete_other [OF beside_complete(1)] job(1) by simp
next
  case (beside_fail env k v reason temp base failed f)
  have "0 < base" using beside_fail(1) by (auto simp: fail_processing_attempt_def split: if_splits)
  then have "k \<noteq> jid" using held_refuses(3) [OF inv job] beside_fail by auto
  then show ?thesis using fail_other [OF beside_fail(1)] job(1) by simp
qed

lemma beside_run_keeps:
  assumes "(beside_owner jid w limit)\<^sup>*\<^sup>* db db'" and inv: "db_inv db" and job: "get_job jid db = Some j" "held_by w limit j"
  shows "get_job jid db' = Some j \<and> db_inv db'"
  using assms(1)
proof (induction rule: rtranclp_induct)
  case (step a b)
  then show ?case using beside_keeps [OF step(2)] repo_step_keeps [OF beside_is_step [OF step(2)]] job(2) by blast
qed (use inv job in simp)

text \<open>
  C17. A lease excludes all others: after a claim succeeded, whatever transactions any processes commit, as
  long as the claim's owner neither completes nor fails the job and nobody claims it after the lease ends, the
  job's row stays as the claim left it. Every claim before the lease ends, also under the owner's name,
  returns nothing and changes nothing, and a worker with another name can neither complete the job nor
  fail it, even after the lease ended.
\<close>

theorem lease_excludes_other_workers:
  assumes db: "reachable db" and cl: "claim_processing_job env jid w lease db = Inr (Some item, db1)"
    and run: "(beside_owner jid w (instant (now env) + lease * 1000000))\<^sup>*\<^sup>* db1 db2"
    and args: "w2 \<noteq> []" "0 < lease2" "0 < base"
  shows "get_job jid db2 = get_job jid db1 \<and> get_job jid db1 \<noteq> None
    \<and> (instant (now env2) < instant (now env) + lease * 1000000 \<longrightarrow> claim_processing_job env2 jid w2 lease2 db2 = Inr (None, db2))
    \<and> (w2 \<noteq> w \<longrightarrow>
        complete_processing_job env2 jid res w2 t db2 = Inl (InvalidDeliveryStateError ''processing job is owned by another worker'')
        \<and> fail_processing_attempt env2 jid w2 reason temp base t db2
            = Inl (InvalidDeliveryStateError ''processing job is owned by another worker''))"
proof -
  from cl obtain job db3 a where job: "get_row j_job_id jid (jobs db) = Some job"
    and sv: "save_job (claimed_job env w lease job) db = Inr db3" "insert_audit a db3 = Inr db1"
    by (cases rule: claim_processing_jobE) auto
  let ?j = "claimed_job env w lease job"
  have "j_job_id ?j = jid" using get_row_Some [OF job] by (simp add: claimed_job_def)
  then have j1: "get_job jid db1 = Some ?j"
    using sv has_row_get [OF job] by (simp add: statement_simps get_put_row get_job_def)
  have held: "held_by w (instant (now env) + lease * 1000000) ?j"
    by (simp add: held_by_def claimed_job_def instant_add_seconds)
  have "db_inv db1" using repo_step_keeps [OF repo_step.step_claim [OF cl]] reachable_db_inv [OF db] by blast
  then have j2: "get_job jid db2 = Some ?j" "db_inv db2" using beside_run_keeps [OF run _ j1 held] by blast+
  show ?thesis using held_refuses [OF j2(2,1) held] args j1 j2(1) by simp
qed

theorem lease_excludes_other_workers_witness:
  "claim_processing_job (sample_env 5) 2 ''x'' 30 sample_claimed = Inr (None, sample_claimed)
   \<and> claim_processing_job (sample_env 5) 2 ''w'' 30 sample_claimed = Inr (None, sample_claimed)"
proof -
  obtain item where cl: "claim_processing_job (sample_env 4) 2 ''w'' 30 sample_queued = Inr (Some item, sample_claimed)"
    using claim_sample(1) by blast
  have "instant (now (sample_env 5)) < instant (now (sample_env 4)) + 30 * 1000000"
    by (simp add: sample_env_def instant_def utc_def)
  then show ?thesis
    using lease_excludes_other_workers [OF sample_reachable(3) cl rtranclp.rtrancl_refl, of "''x''" 30 1]
      lease_excludes_other_workers [OF sample_reachable(3) cl rtranclp.rtrancl_refl, of "''w''" 30 1] by simp
qed

section \<open>Failures\<close>

lemma backoff_bounds: "0 < base \<Longrightarrow> 0 < backoff_delay base n \<and> backoff_delay base n \<le> 300 \<and> backoff_delay base n \<le> backoff_delay base (n + 1)"
proof -
  assume b: "0 < base"
  have "(2 :: int) ^ nat (max (n - 1) 0) \<le> 2 ^ nat (max (n + 1 - 1) 0)" by (intro power_increasing) auto
  with b have "base * 2 ^ nat (max (n - 1) 0) \<le> base * 2 ^ nat (max (n + 1 - 1) 0)" by simp
  then show ?thesis using b unfolding backoff_delay_def by (smt (verit, best) mult_pos_pos zero_less_power)
qed

text \<open>
  C19. Retries are bounded: when the owner reports a failure, the job fails for good if the failure is
  permanent or its attempts are used up; otherwise it waits for a retry, due later than the failure by
  a positive delay of at most 300 seconds that never shrinks from one attempt to the next, and at
  least one attempt is left.
\<close>

theorem failure_is_bounded:
  assumes get: "get_job jid db = Some j" and st: "j_state j = J_PROCESSING"
    and fl: "fail_processing_attempt env jid w reason temp base (Some t) db = Inr (res, db')"
  shows "j_claimed_by j = Some w \<and> pf_attempt_count res = j_attempt_count j
    \<and> pf_state res = (if temp \<and> j_attempt_count j < j_max_attempts j then J_RETRY_WAIT else J_FAILED)
    \<and> (pf_state res = J_RETRY_WAIT \<longrightarrow> (\<exists>due. pf_next_attempt_at res = Some due
         \<and> instant t < instant due \<and> instant due \<le> instant t + 300000000
         \<and> instant due = instant t + backoff_delay base (j_attempt_count j) * 1000000
         \<and> backoff_delay base (j_attempt_count j) \<le> backoff_delay base (j_attempt_count j + 1)))
    \<and> (\<exists>j'. get_job jid db' = Some j' \<and> j_state j' = pf_state res \<and> j_next_attempt_at j' = pf_next_attempt_at res)"
  using fl
proof (cases rule: fail_processing_attemptE)
  case (again job)
  then show ?thesis using get st by (simp add: get_job_def)
next
  case (failed job final db1 a)
  have job: "job = j" using failed(1) get by (simp add: get_job_def)
  have count: "pf_attempt_count res = j_attempt_count j"
    using fl failed(1-5) job unfolding fail_processing_attempt_def Let_def by (auto simp: bindE_Inr split: if_splits)
  let ?j = "failed_job t reason base final job"
  have "j_job_id ?j = jid" using get_row_Some [OF failed(1)] by (simp add: failed_job_def Let_def)
  then have "get_job jid db' = Some ?j"
    using failed(6,7) has_row_get [OF failed(1)] by (simp add: statement_simps get_put_row get_job_def)
  then have "\<exists>j'. get_job jid db' = Some j' \<and> j_state j' = pf_state res \<and> j_next_attempt_at j' = pf_next_attempt_at res"
    using failed(8,9) by (auto simp: failed_job_def Let_def)
  then show ?thesis using failed(3-5,8,9) job count backoff_bounds [OF failed(4), of "j_attempt_count j"]
    by (auto simp: instant_add_seconds)
qed

theorem failure_is_bounded_witness:
  "\<exists>res db'. fail_processing_attempt (sample_env 6) 2 ''w'' ''E'' True 1 (Some (utc 6)) sample_claimed = Inr (res, db')
     \<and> pf_state res = J_RETRY_WAIT"
proof -
  have get: "get_job 2 sample_claimed = Some (hd (jobs sample_claimed))"
    and st: "j_state (hd (jobs sample_claimed)) = J_PROCESSING"
    and n: "j_attempt_count (hd (jobs sample_claimed)) < j_max_attempts (hd (jobs sample_claimed))"
    by (simp_all add: get_job_def claim_sample queued_job_def claimed_job_def sample_row_simps)
  have "\<exists>res db'. fail_processing_attempt (sample_env 6) 2 ''w'' ''E'' True 1 (Some (utc 6)) sample_claimed = Inr (res, db')"
    using sample_packet_id
    by (simp add: claim_sample(2-) accept_sample(3) fail_processing_attempt_def failed_job_def claimed_job_def queued_job_def sample_row_simps)
  then show ?thesis using failure_is_bounded [OF get st] n by fastforce
qed

section \<open>Results\<close>

text \<open>Every stored job row passed its column checks.\<close>

definition jobs_checked :: "telemetry_db \<Rightarrow> bool" where
  "jobs_checked db \<longleftrightarrow> (\<forall>j \<in> set (jobs db). check_job j = None)"

lemma save_job_checked: "save_job j db = Inr db' \<Longrightarrow> jobs_checked db \<Longrightarrow> jobs_checked db'"
  by (auto simp: statement_simps jobs_checked_def dest: set_put_row)

lemma jobs_checked_cong: "jobs db' = jobs db \<Longrightarrow> jobs_checked db' = jobs_checked db"
  by (simp add: jobs_checked_def)

lemma insert_audit_jobs: "insert_audit a db = Inr db' \<Longrightarrow> jobs db' = jobs db"
  and save_receipts_jobs: "save_receipts rs db = Inr db' \<Longrightarrow> jobs db' = jobs db"
  and insert_processed_jobs: "insert_processed t db = Inr db' \<Longrightarrow> jobs db' = jobs db"
  using save_receipts_fields [of rs db db'] by (auto simp: statement_simps)

lemmas jobs_frames = insert_audit_jobs save_receipts_jobs insert_processed_jobs

lemma accept_new_checked:
  assumes ac: "accept_new env r v ma actor st d m db = Inr (y, db')" and ok: "jobs_checked db"
  shows "jobs_checked db'"
proof -
  have "check_job (new_job env (dv_packet_id v) ma) = None"
    using ac by (rule accept_newE) (auto simp: statement_simps)
  then show ?thesis using accept_new_jobs [OF ac] ok by (auto simp: jobs_checked_def)
qed

lemma accept_checked:
  "accept_packet_transaction rid v ma actor (env, rd, ld, db) = Inr (y, db') \<Longrightarrow> jobs_checked db \<Longrightarrow> jobs_checked db'"
  unfolding accept_packet_transaction_def Let_def
  by (auto split: option.splits if_splits dest: jobs_kept jobs_checked_cong accept_new_checked)

lemma step_checked:
  assumes "repo_step db db'" "jobs_checked db"
  shows "jobs_checked db'"
  using assms
proof (induction rule: repo_step.induct)
  case (step_queued env jid qid actor db b db')
  from step_queued(1) show ?case
    by (cases rule: mark_job_queuedE) (use step_queued(2) in \<open>auto dest!: jobs_frames jobs_checked_cong dest: save_job_checked\<close>)
next
  case (step_claim env jid w lease db i db')
  from step_claim(1) show ?case
    by (cases rule: claim_processing_jobE) (use step_claim(2) in \<open>auto dest!: jobs_frames jobs_checked_cong dest: save_job_checked\<close>)
next
  case (step_complete env jid res w fin db row db')
  from step_complete(1) show ?case
    by (cases rule: complete_processing_jobE) (use step_complete(2) in \<open>auto dest!: jobs_frames jobs_checked_cong dest: save_job_checked\<close>)
next
  case (step_fail env jid w reason temp base failed db f db')
  from step_fail(1) show ?case
    by (cases rule: fail_processing_attemptE) (use step_fail(2) in \<open>auto dest!: jobs_frames jobs_checked_cong dest: save_job_checked\<close>)
qed (auto dest: jobs_kept jobs_checked_cong accept_checked)

lemma reachable_jobs_checked: "reachable db \<Longrightarrow> jobs_checked db"
  by (induction rule: rtranclp_induct) (auto simp: jobs_checked_def create_schema_def dest: step_checked [unfolded jobs_checked_def])

text \<open>
  C20. The first result wins: completing a job whose packet already has a result, by whichever worker,
  never changes the results; the same result is answered with the stored row, a different one is refused
  as a conflict.
\<close>

theorem first_result_wins:
  assumes db: "reachable db" and j: "get_job jid db = Some j" and t: "get_processed (j_packet_id j) db = Some row"
  shows "if same_processing_result row res
    then \<exists>db'. complete_processing_job env jid res w at' db = Inr (row, db') \<and> processed db' = processed db
    else complete_processing_job env jid res w at' db = Inl (ProcessingResultConflictError
      (''packet '' @ j_packet_id j @ '' already has a different processed result''))"
proof -
  have "j \<in> set (jobs db)" using get_row_Some j unfolding get_job_def by metis
  moreover have "check_job (finished_job env row j) = check_job j"
    by (simp add: check_job_def finished_job_def)
  moreover have "jobs_checked db" by (rule reachable_jobs_checked [OF db])
  ultimately show ?thesis using j t
    by (simp add: complete_processing_job_def get_job_def get_processed_def save_job_def checked_def jobs_checked_def)
qed

theorem first_result_wins_witness:
  "(\<exists>db'. complete_processing_job (sample_env 8) 2 sample_result ''x'' None sample_completed
       = Inr (processed_row (utc 5) sample_result (hd (jobs sample_claimed)), db') \<and> processed db' = processed sample_completed)
   \<and> complete_processing_job (sample_env 8) 2 (sample_result\<lparr>pr_is_stale := True\<rparr>) ''x'' None sample_completed
       = Inl (ProcessingResultConflictError (''packet TLM-P01-B0000002A-S00000009 already has a different processed result''))"
proof -
  let ?j = "completed_job (utc 5) (hd (jobs sample_claimed))" and ?t = "processed_row (utc 5) sample_result (hd (jobs sample_claimed))"
  have pid: "j_packet_id ?j = ''TLM-P01-B0000002A-S00000009''"
    using sample_packet_id by (simp add: claim_sample completed_job_def claimed_job_def queued_job_def sample_row_simps)
  have j: "get_job 2 sample_completed = Some ?j"
    by (simp add: get_job_def complete_sample claim_sample completed_job_def claimed_job_def queued_job_def sample_row_simps)
  have t: "get_processed (j_packet_id ?j) sample_completed = Some ?t"
    by (simp add: get_processed_def complete_sample processed_row_def completed_job_def get_row_def)
  have "same_processing_result ?t sample_result" "\<not> same_processing_result ?t (sample_result\<lparr>pr_is_stale := True\<rparr>)"
    by (simp_all add: same_processing_result_def processed_row_def sample_result_def)
  then show ?thesis
    using first_result_wins [OF sample_reachable(5) j t, of sample_result "sample_env 8" "''x''" None]
      first_result_wins [OF sample_reachable(5) j t, of "sample_result\<lparr>pr_is_stale := True\<rparr>" "sample_env 8" "''x''" None]
    by (simp add: pid)
qed

end
