(* ===== verification/Py_Float.thy ===== *)
theory Py_Float
  imports Py_Text "HOL-Library.Log_Nat"
begin

text \<open>
  Python's \<^verbatim>\<open>float\<close>, an IEEE 754 double: rounding of an exact quotient to the nearest double, ties to
  even, and the conversion \<^verbatim>\<open>float(text)\<close>. A finite double is the rational number it denotes; the
  rounding is exact about precision and subnormals and leaves out the overflow to infinity, which no
  quotient of the services reaches.
\<close>

section \<open>Rounding\<close>

definition round_half_even :: "rat \<Rightarrow> int" where
  "round_half_even x =
     (let f = \<lfloor>x\<rfloor>; r = x - of_int f
      in if r < 1 / 2 then f else if 1 / 2 < r then f + 1 else if even f then f else f + 1)"

definition scale2 :: "int \<Rightarrow> rat \<Rightarrow> rat" where
  "scale2 e x = (if 0 \<le> e then x * 2 ^ nat e else x / 2 ^ nat (- e))"

text \<open>The exponent of the last place: 53 significant bits, fewer below the smallest normal number.\<close>

definition last_place :: "rat \<Rightarrow> int" where
  "last_place x =
     (let (n, d) = quotient_of x; e = bitlen n - bitlen d - 53
      in max (- 1074) (if 2 ^ 53 \<le> scale2 (- e) x then e + 1 else e))"

definition round_double :: "rat \<Rightarrow> rat" where
  "round_double x =
     (if x = 0 then 0
      else let e = last_place \<bar>x\<bar> in sgn x * scale2 e (of_int (round_half_even (scale2 (- e) \<bar>x\<bar>))))"

section \<open>Parsing\<close>

datatype py_num = Finite rat | Infinite bool | NotANumber

text \<open>\<^verbatim>\<open>a < b\<close> for doubles; \<open>Infinite True\<close> is negative, and nothing is less than a NaN.\<close>

fun num_less :: "py_num \<Rightarrow> rat \<Rightarrow> bool" where
  "num_less (Finite a) b = (a < b)"
| "num_less (Infinite negative) b = negative"
| "num_less NotANumber b = False"

definition digits_value :: "string \<Rightarrow> int option" where
  "digits_value s = (if s = [] then Some 0 else int_digits 10 s 0 False)"

definition digit_count :: "string \<Rightarrow> nat" where
  "digit_count s = length (filter (\<lambda>c. c \<noteq> CHR ''_'') s)"

definition split_at :: "char \<Rightarrow> string \<Rightarrow> string \<times> string option" where
  "split_at c s = (case dropWhile (\<lambda>d. d \<noteq> c) s of [] \<Rightarrow> (s, None) | _ # rest \<Rightarrow> (takeWhile (\<lambda>d. d \<noteq> c) s, Some rest))"

definition signed_text :: "string \<Rightarrow> bool \<times> string" where
  "signed_text s =
     (case s of
        c # cs \<Rightarrow> if c = CHR ''-'' then (True, cs) else if c = CHR ''+'' then (False, cs) else (False, s)
      | [] \<Rightarrow> (False, s))"

definition exponent_value :: "string option \<Rightarrow> int option" where
  "exponent_value e =
     (case e of
        None \<Rightarrow> Some 0
      | Some t \<Rightarrow> (let (negative, ds) = signed_text t in
           if ds = [] then None else map_option (\<lambda>v. if negative then - v else v) (digits_value ds)))"

definition decimal_value :: "string \<Rightarrow> rat option" where
  "decimal_value s =
     (let (mantissa, e) = split_at (CHR ''e'') s; (whole, fraction) = split_at (CHR ''.'') mantissa;
          frac = (case fraction of None \<Rightarrow> [] | Some f \<Rightarrow> f)
      in if whole = [] \<and> frac = [] then None
         else (case (digits_value whole, digits_value frac, exponent_value e) of
                 (Some w, Some f, Some x) \<Rightarrow>
                   (let m = of_int w + of_int f / 10 ^ digit_count frac
                    in Some (if 0 \<le> x then m * 10 ^ nat x else m / 10 ^ nat (- x)))
               | _ \<Rightarrow> None))"

definition py_float_of :: "string \<Rightarrow> py_num option" where
  "py_float_of text =
     (let (negative, s) = signed_text (py_lower (py_strip text))
      in if s = ''inf'' \<or> s = ''infinity'' then Some (Infinite negative)
         else if s = ''nan'' then Some NotANumber
         else map_option (\<lambda>m. Finite (round_double (if negative then - m else m))) (decimal_value s))"

section \<open>The rounding error\<close>

lemma round_half_even_error: "\<bar>of_int (round_half_even x) - x\<bar> \<le> 1 / 2"
proof -
  have "0 \<le> x - of_int \<lfloor>x\<rfloor>" "x - of_int \<lfloor>x\<rfloor> < 1" by linarith+
  then show ?thesis unfolding round_half_even_def Let_def
    by (auto simp: abs_if) (use of_int_floor_le [of x] in linarith)
qed

lemma scale2_pos: "0 < scale2 e 1"
  by (simp add: scale2_def)

lemma scale2_mult: "scale2 e x = x * scale2 e 1"
  by (simp add: scale2_def)

lemma scale2_inverse: "scale2 e 1 * scale2 (- e) 1 = 1"
  by (simp add: scale2_def)

lemma scale2_back: "scale2 (- e) x * scale2 e 1 = x"
proof -
  have "scale2 (- e) x * scale2 e 1 = x * (scale2 e 1 * scale2 (- e) 1)"
    by (subst scale2_mult [of "- e" x]) (simp only: ac_simps)
  then show ?thesis by (simp add: scale2_inverse)
qed

lemma scale2_Suc: "scale2 (e + 1) 1 = 2 * scale2 e 1"
proof (cases "0 \<le> e")
  case True
  then show ?thesis by (simp add: scale2_def nat_add_distrib)
next
  case False
  then have "nat (- e) = Suc (nat (- (e + 1)))" by simp
  then show ?thesis using False by (cases "e = -1") (simp_all add: scale2_def)
qed

lemma round_double_error:
  assumes "0 < x"
  shows "\<bar>round_double x - x\<bar> \<le> scale2 (last_place x) 1 / 2"
proof -
  let ?e = "last_place x" and ?q = "round_half_even (scale2 (- last_place x) x)"
  have "x = scale2 (- ?e) x * scale2 ?e 1" by (simp only: scale2_back)
  then have "round_double x - x = (of_int ?q - scale2 (- ?e) x) * scale2 ?e 1"
    using assms by (simp add: round_double_def Let_def scale2_mult [of ?e "of_int ?q"] algebra_simps)
  then have "\<bar>round_double x - x\<bar> = \<bar>of_int ?q - scale2 (- ?e) x\<bar> * scale2 ?e 1"
    using scale2_pos [of ?e] by (simp add: abs_mult)
  also have "\<dots> \<le> 1 / 2 * scale2 ?e 1"
    using round_half_even_error scale2_pos [of ?e] by (intro mult_right_mono) (auto simp: less_imp_le)
  finally show ?thesis by simp
qed

lemma round_double_minus: "round_double (- x) = - round_double x"
  by (simp add: round_double_def Let_def sgn_minus)

lemma round_double_zero [simp]: "round_double 0 = 0"
  by (simp add: round_double_def)


lemma scale2_powi: "scale2 e 1 = 2 powi e"
  by (simp add: scale2_def power_int_def field_simps)

lemma bitlen_lower: "0 < n \<Longrightarrow> 2 powi (bitlen n - 1) \<le> (of_int n :: rat)"
proof -
  assume n: "0 < n"
  have "2 ^ nat (bitlen n - 1) \<le> n" using bitlen_bounds [OF n] by simp
  then have "(of_int (2 ^ nat (bitlen n - 1)) :: rat) \<le> of_int n" by (rule of_int_le_iff [THEN iffD2])
  moreover have "0 \<le> bitlen n - 1" using n bitlen_eq_zero_iff [of n] bitlen_nonneg [of n] by linarith
  ultimately show ?thesis by (simp add: power_int_def)
qed

lemma bitlen_upper: "0 < n \<Longrightarrow> (of_int n :: rat) < 2 powi bitlen n"
proof -
  assume n: "0 < n"
  have "n < 2 ^ nat (bitlen n)" using bitlen_bounds [OF n] by simp
  then have "(of_int n :: rat) < of_int (2 ^ nat (bitlen n))" by (rule of_int_less_iff [THEN iffD2])
  then show ?thesis using bitlen_nonneg [of n] by (simp add: power_int_def)
qed

text \<open>Above the subnormal range the last place is at most one part in 2 to the 52.\<close>

lemma last_place_bound:
  assumes x: "0 < x" and e: "last_place x \<noteq> - 1074"
  shows "2 ^ 52 * scale2 (last_place x) 1 \<le> x"
proof -
  obtain n d where q: "quotient_of x = (n, d)" by (cases "quotient_of x")
  have d: "0 < d" and xd: "x = of_int n / of_int d" using quotient_of_denom_pos [OF q] quotient_of_div [OF q] by auto
  have n: "0 < n" using x d xd by (simp add: zero_less_divide_iff)
  let ?e = "bitlen n - bitlen d - 53"
  have "2 powi (bitlen n - 1) / 2 powi bitlen d \<le> x"
    unfolding xd using bitlen_lower [OF n] bitlen_upper [OF d] d n by (intro frac_le) auto
  then have low: "2 powi (?e + 52) \<le> x"
    by (simp add: power_int_diff [symmetric] algebra_simps)
  consider "2 ^ 53 \<le> scale2 (- ?e) x" "last_place x = ?e + 1" | "last_place x = ?e"
    using e by (auto simp: last_place_def q Let_def max_def split: if_splits)
  then show ?thesis
  proof cases
    case 1
    have "2 ^ 53 * scale2 ?e 1 \<le> scale2 (- ?e) x * scale2 ?e 1"
      using 1(1) scale2_pos [of ?e] by (intro mult_right_mono) (auto simp: less_imp_le)
    also have "\<dots> = x" by (rule scale2_back)
    finally show ?thesis unfolding 1(2) scale2_Suc by simp
  next
    case 2
    have "2 powi (?e + 52) = 2 powi ?e * (2 powi 52 :: rat)" by (rule power_int_add) simp
    then show ?thesis using low unfolding 2 scale2_powi by (simp only: mult.commute) (simp add: power_int_def)
  qed
qed

lemma round_double_relative:
  assumes "0 < x" "last_place x \<noteq> - 1074"
  shows "\<bar>round_double x - x\<bar> \<le> x / 2 ^ 53"
  using round_double_error [OF assms(1)] last_place_bound [OF assms] by simp

lemma round_half_even_near: "\<bar>x - of_int n\<bar> < 1 / 2 \<Longrightarrow> round_half_even x = n"
proof -
  assume "\<bar>x - of_int n\<bar> < 1 / 2"
  then have "\<bar>of_int (round_half_even x) - of_int n\<bar> < (1 :: rat)" using round_half_even_error [of x] by linarith
  then have "\<bar>of_int (round_half_even x - n)\<bar> < (1 :: rat)" by simp
  then have "\<bar>round_half_even x - n\<bar> < 1" by linarith
  then show ?thesis by simp
qed

lemma round_double_close:
  assumes x: "1 / 1000 \<le> \<bar>x\<bar>"
  shows "\<bar>round_double x - x\<bar> \<le> \<bar>x\<bar> / 2 ^ 53"
proof -
  have pos: "\<bar>round_double y - y\<bar> \<le> y / 2 ^ 53" if y: "1 / 1000 \<le> y" for y
  proof (cases "last_place y = - 1074")
    case True
    have "\<bar>round_double y - y\<bar> \<le> 1 / 2 ^ 1074 / 2"
      using round_double_error [of y] y by (simp add: True scale2_def)
    also have "\<dots> \<le> 1 / 1000 / 2 ^ 53" by simp
    also have "\<dots> \<le> y / 2 ^ 53" using y by simp
    finally show ?thesis .
  next
    case False
    then show ?thesis using y by (intro round_double_relative) auto
  qed
  show ?thesis
    using x pos [of x] pos [of "- x"] round_double_minus [of x] by (cases "0 \<le> x") (auto simp: abs_minus_commute)
qed

end
