(* ===== verification/Telemetry_Metrics.thy ===== *)
theory Telemetry_Metrics
  imports Redis_Service
begin

text \<open>
  The operational counters (\<^verbatim>\<open>mission_ground/telemetry/metrics.py\<close>): one Redis hash both processes
  increment, and its rendering in Prometheus's text format.
\<close>

definition METRIC_HASH_KEY :: string where
  "METRIC_HASH_KEY = ''ground:telemetry:metrics''"

definition COUNTERS :: "(string \<times> string) list" where
  "COUNTERS = [
     (''payload_messages_received_total'', ''Authenticated telemetry deliveries received''),
     (''payload_messages_rejected_total'', ''Authenticated telemetry deliveries rejected''),
     (''payload_duplicate_messages_total'', ''Exact duplicate telemetry deliveries''),
     (''payload_sequence_gaps_total'', ''Telemetry sequence values observed missing''),
     (''payload_processing_successes_total'', ''Telemetry records processed successfully''),
     (''payload_processing_failures_total'', ''Telemetry processing attempts that failed''),
     (''payload_stale_results_total'', ''Valid telemetry results more than 24 hours old at receipt''),
     (''vendor_authentication_failures_total'', ''Vendor requests rejected by authentication''),
     (''database_errors_total'', ''Database operations that failed'')]"

datatype metric_error = MetricValueError string | MetricRedisError

definition increment ::
  "'r redis \<Rightarrow> availability \<Rightarrow> string \<Rightarrow> int \<Rightarrow> 'r \<Rightarrow> (metric_error, unit, 'r) outcome" where
  "increment R av name amount r =
     (if name \<notin> set (map fst COUNTERS)
      then (Inl (MetricValueError (''unknown telemetry metric: '' @ name)), r)
      else redis_call MetricRedisError av (\<lambda>r. ((), r_hincrby R METRIC_HASH_KEY name amount r)) r)"

text \<open>The decoded dictionary; a value that is not an integer raises.\<close>

fun decode_counters :: "(string \<times> string) list \<Rightarrow> (string \<rightharpoonup> int) \<Rightarrow> metric_error + (string \<rightharpoonup> int)" where
  "decode_counters [] decoded = Inr decoded"
| "decode_counters ((key, value) # raw) decoded =
     (case py_int 10 value of
        None \<Rightarrow> Inl (MetricValueError (''invalid literal for int(): '' @ value))
      | Some n \<Rightarrow> decode_counters raw (decoded(key \<mapsto> n)))"

definition snapshot ::
  "'r redis \<Rightarrow> availability \<Rightarrow> 'r \<Rightarrow> (metric_error, string \<rightharpoonup> int, 'r) outcome" where
  "snapshot R av r =
     and_then (redis_call MetricRedisError av (\<lambda>r. (r_hgetall R METRIC_HASH_KEY r, r)) r)
       (\<lambda>raw r'. (decode_counters raw Map.empty, r'))"

definition join_lines :: "string list \<Rightarrow> string" where
  "join_lines ls = concat (map (\<lambda>l. l @ [CHR 0x0A]) ls)"

definition counter_lines :: "(string \<rightharpoonup> int) \<Rightarrow> string \<times> string \<Rightarrow> string list" where
  "counter_lines counters entry =
     (case entry of (name, help_text) \<Rightarrow>
       [''# HELP '' @ name @ '' '' @ help_text,
        ''# TYPE '' @ name @ '' counter'',
        name @ '' '' @ py_str (case counters name of None \<Rightarrow> 0 | Some n \<Rightarrow> n)])"

text \<open>The lines end with a newline each; every text is ASCII, so encoding keeps the characters.\<close>

definition render_prometheus :: "(string \<rightharpoonup> int) \<Rightarrow> int \<Rightarrow> string" where
  "render_prometheus counters queue_depth =
     join_lines (concat (map (counter_lines counters) COUNTERS)
       @ [''# HELP payload_processing_queue_depth References waiting for the payload worker'',
          ''# TYPE payload_processing_queue_depth gauge'',
          ''payload_processing_queue_depth '' @ py_str queue_depth])"

section \<open>The counters add up\<close>

lemma py_int_str64: "int64 v \<Longrightarrow> py_int 10 (py_str v) = Some v"
  by (rule py_int_str [of _ 19]) (auto simp: int64_def abs_if)

lemma decode_counters_distinct:
  assumes "\<forall>(k, t) \<in> set raw. \<exists>n. int64 n \<and> t = py_str n" "distinct (map fst raw)"
  shows "\<exists>d. decode_counters raw decoded = Inr d
    \<and> (\<forall>f. d f = (case map_of raw f of None \<Rightarrow> decoded f | Some t \<Rightarrow> py_int 10 t))"
  using assms
proof (induction raw arbitrary: decoded)
  case (Cons e raw)
  obtain k n where e: "e = (k, py_str n)" "int64 n" using Cons.prems(1) by (cases e) auto
  obtain d where d: "decode_counters raw (decoded(k \<mapsto> n)) = Inr d"
    "\<forall>f. d f = (case map_of raw f of None \<Rightarrow> (decoded(k \<mapsto> n)) f | Some t \<Rightarrow> py_int 10 t)"
    using Cons.IH [of "decoded(k \<mapsto> n)"] Cons.prems by fastforce
  have "map_of raw k = None" using Cons.prems(2) e(1) by (simp add: map_of_eq_None_iff)
  then show ?case using d e by (auto simp: py_int_str64 split: option.split)
qed simp

text \<open>A history of increments, each with the fate of its Redis call.\<close>

definition apply_increments ::
  "'r redis \<Rightarrow> (availability \<times> string \<times> int) list \<Rightarrow> 'r \<Rightarrow> 'r" where
  "apply_increments R incs r = foldl (\<lambda>r (av, name, amount). snd (increment R av name amount r)) r incs"

definition counted :: "string \<Rightarrow> (availability \<times> string \<times> int) list \<Rightarrow> int" where
  "counted f incs = sum_list (map (\<lambda>(av, name, amount).
     if name = f \<and> f \<in> set (map fst COUNTERS) \<and> av \<noteq> DownBefore then amount else 0) incs)"

definition total_size :: "(availability \<times> string \<times> int) list \<Rightarrow> int" where
  "total_size incs = sum_list (map (\<lambda>(av, name, amount). \<bar>amount\<bar>) incs)"

locale metric_store = redis_service R kind val_at list_at hash_at
  for R :: "'r redis" and kind val_at list_at hash_at +
  assumes metric_key: "kind METRIC_HASH_KEY = KHash"
begin

abbreviation metric :: "'r \<Rightarrow> string \<Rightarrow> int" where
  "metric r f \<equiv> field_value (hash_at r METRIC_HASH_KEY f)"

definition bounded :: "int \<Rightarrow> 'r \<Rightarrow> bool" where
  "bounded b r \<longleftrightarrow> (\<forall>f. \<bar>metric r f\<bar> \<le> b)"

lemma increment_counts:
  assumes "bounded b r" "b + \<bar>n\<bar> < 2 ^ 63"
  shows "metric (snd (increment R av name n r)) f = metric r f + counted f [(av, name, n)]"
    and "bounded (b + \<bar>n\<bar>) (snd (increment R av name n r))"
proof -
  have bm: "\<bar>metric r g\<bar> \<le> b" for g using assms(1) by (simp add: bounded_def)
  have "int64 (metric r name + n)" using bm [of name] assms(2) unfolding int64_def by linarith
  then have step: "metric (snd (increment R av name n r)) g = metric r g + counted g [(av, name, n)]" for g
    using hincrby_hashes [OF metric_key, of r name n]
    by (cases av) (auto simp: increment_def redis_call_def counted_def field_value_def)
  then show "metric (snd (increment R av name n r)) f = metric r f + counted f [(av, name, n)]" .
  show "bounded (b + \<bar>n\<bar>) (snd (increment R av name n r))"
    unfolding bounded_def
  proof
    fix g
    have "\<bar>counted g [(av, name, n)]\<bar> \<le> \<bar>n\<bar>" by (simp add: counted_def)
    then show "\<bar>metric (snd (increment R av name n r)) g\<bar> \<le> b + \<bar>n\<bar>" using bm [of g] step [of g] by linarith
  qed
qed

lemma total_size_nonneg: "0 \<le> total_size incs"
  by (induction incs) (auto simp: total_size_def)

lemma increments_count:
  "bounded b r \<Longrightarrow> b + total_size incs < 2 ^ 63 \<Longrightarrow>
     metric (apply_increments R incs r) f = metric r f + counted f incs \<and> bounded (b + total_size incs) (apply_increments R incs r)"
proof (induction incs arbitrary: r b)
  case Nil
  then show ?case by (simp add: apply_increments_def counted_def total_size_def)
next
  case (Cons i incs)
  obtain av name n where i: "i = (av, name, n)" by (cases i) auto
  let ?r = "snd (increment R av name n r)"
  have ts: "total_size (i # incs) = \<bar>n\<bar> + total_size incs" by (simp add: i total_size_def)
  have "0 \<le> total_size incs" by (rule total_size_nonneg)
  then have lim: "b + \<bar>n\<bar> < 2 ^ 63" using Cons.prems(2) ts by linarith
  have "b + \<bar>n\<bar> + total_size incs < 2 ^ 63" using Cons.prems(2) ts by simp
  note ih = Cons.IH [OF increment_counts(2) [OF Cons.prems(1) lim] this]
  have "apply_increments R (i # incs) r = apply_increments R incs ?r" by (simp add: apply_increments_def i)
  moreover have "counted f (i # incs) = counted f [(av, name, n)] + counted f incs" by (simp add: counted_def i)
  ultimately show ?case using ih [of av name] increment_counts(1) [OF Cons.prems(1) lim, of av name f] ts by (simp add: add.assoc)
qed

lemma snapshot_reads:
  assumes "bounded b r" "b < 2 ^ 63"
  shows "\<exists>d. snapshot R Up r = (Inr d, r) \<and> (\<forall>f. d f = hash_at r METRIC_HASH_KEY f)"
proof -
  let ?raw = "r_hgetall R METRIC_HASH_KEY r"
  have range: "int64 n" if "hash_at r METRIC_HASH_KEY f = Some n" for f n
    using assms that unfolding bounded_def by (auto simp: int64_def field_value_def dest!: spec [of _ f])
  have mo: "map_of ?raw f = map_option py_str (hash_at r METRIC_HASH_KEY f)" for f
    using hgetall_hash [OF metric_key, of r] by (simp add: fun_eq_iff)
  have "\<forall>(k, t) \<in> set ?raw. \<exists>n. int64 n \<and> t = py_str n"
  proof clarify
    fix k t assume "(k, t) \<in> set ?raw"
    then have "map_of ?raw k = Some t" using hgetall_fields [OF metric_key] by simp
    then show "\<exists>n. int64 n \<and> t = py_str n" using mo [of k] range [of k] by auto
  qed
  from decode_counters_distinct [OF this hgetall_fields [OF metric_key], of Map.empty]
  obtain d where d: "decode_counters ?raw Map.empty = Inr d"
    "\<forall>f. d f = (case map_of ?raw f of None \<Rightarrow> None | Some t \<Rightarrow> py_int 10 t)" by auto
  have "d f = hash_at r METRIC_HASH_KEY f" for f
    using d(2) mo [of f] range [of f] by (cases "hash_at r METRIC_HASH_KEY f") (simp_all add: py_int_str64)
  then show ?thesis using d(1) by (simp add: snapshot_def redis_call_def)
qed

lemma counters_add_up:
  assumes "bounded b r" "b + total_size incs < 2 ^ 63"
  shows "\<exists>d. snapshot R Up (apply_increments R incs r) = (Inr d, apply_increments R incs r)
    \<and> (\<forall>f. field_value (d f) = metric r f + counted f incs)"
  using increments_count [OF assms] snapshot_reads [of "b + total_size incs" "apply_increments R incs r"] assms(2)
  by (metis)

end

interpretation fake_metrics: metric_store fake_redis "\<lambda>k. if k = METRIC_HASH_KEY then KHash else KList"
    "\<lambda>r. map_of (fr_values r)" "\<lambda>r. assoc_list (fr_lists r)" "\<lambda>r k. map_of (assoc_list (fr_hashes r) k)"
  by unfold_locales simp

text \<open>
  C38. The counters add up: after any history of increments from both processes, on any Redis server and
  with any outages, a snapshot shows for every counter its start value plus the amounts of the
  increments that took effect, also of those whose answer was lost; increments of names that are not
  counters are refused. (As long as the amounts fit 64 bits, Redis's limit.)
\<close>

theorem counters_show_increments:
  assumes "metric_store R kind val_at list_at hash_at"
    and "\<And>f. \<bar>field_value (hash_at r METRIC_HASH_KEY f)\<bar> \<le> b" and "b + total_size incs < 2 ^ 63"
  shows "\<exists>d. snapshot R Up (apply_increments R incs r) = (Inr d, apply_increments R incs r)
    \<and> (\<forall>f. field_value (d f) = field_value (hash_at r METRIC_HASH_KEY f) + counted f incs)"
  using metric_store.counters_add_up [OF assms(1), of b r incs] assms(2,3)
  by (simp add: metric_store.bounded_def [OF assms(1)])

theorem counters_show_increments_witness:
  "\<exists>d. fst (snapshot fake_redis Up (apply_increments fake_redis
       [(Up, ''database_errors_total'', 2), (DownAfter, ''database_errors_total'', 3), (DownBefore, ''database_errors_total'', 5),
        (Up, ''unknown'', 7)] empty_redis)) = Inr d \<and> field_value (d ''database_errors_total'') = 5"
proof -
  let ?incs = "[(Up, ''database_errors_total'', 2), (DownAfter, ''database_errors_total'', 3), (DownBefore, ''database_errors_total'', 5),
        (Up, ''unknown'', 7)]"
  have start: "field_value (map_of (assoc_list (fr_hashes empty_redis) METRIC_HASH_KEY) f) = 0" for f
    by (simp add: empty_redis_def assoc_list_def field_value_def)
  have "0 + total_size ?incs < 2 ^ 63" by (simp add: total_size_def)
  moreover have "counted ''database_errors_total'' ?incs = 5" by (simp add: counted_def COUNTERS_def)
  ultimately show ?thesis
    using counters_show_increments [OF fake_metrics.metric_store_axioms, of empty_redis 0 ?incs] start by auto
qed

end
