(* ===== verification/Service_World.thy ===== *)
theory Service_World
  imports Telemetry_Metrics Telemetry_Queue Telemetry_Repository
begin

text \<open>
  The world the telemetry services act on: the database, the Redis server, and the fate of each call. A
  handler is a state transformer; every call to a service consumes one tick of the schedule, which says
  when the call happens, which identifiers it draws, whether the service answers, and what other
  processes did to the database and to Redis before it. The theorems quantify over all schedules; a
  process that dies after some call is one that finds every service down from then on.
\<close>

record 'r world =
  w_db :: telemetry_db
  w_redis :: 'r
  w_tick :: nat

record 'r schedule =
  tx_at :: "nat \<Rightarrow> tx_env"
  retry_tx :: "nat \<Rightarrow> tx_env"
  db_at :: "nat \<Rightarrow> availability"
  redis_at :: "nat \<Rightarrow> availability"
  others :: "nat \<Rightarrow> telemetry_db \<times> 'r \<Rightarrow> telemetry_db \<times> 'r"

datatype service_error = StorageFault storage_error | QueueFault queue_error | MetricFault metric_error
  | CodecFault codec_error | RuntimeFault string | TypeFault string | ValueFault string

type_synonym ('a, 'r) action = "'r world \<Rightarrow> (service_error, 'a, 'r world) outcome"

text \<open>The clock of the calling process.\<close>

definition clock :: "'r schedule \<Rightarrow> (datetime, 'r) action" where
  "clock S w = (Inr (now (tx_at S (w_tick w))), w\<lparr>w_tick := Suc (w_tick w)\<rparr>)"

text \<open>The other processes act, then the call.\<close>

definition interfere :: "'r schedule \<Rightarrow> 'r world \<Rightarrow> 'r world" where
  "interfere S w =
     (case others S (w_tick w) (w_db w, w_redis w) of
        (db, r) \<Rightarrow> w\<lparr>w_db := db, w_redis := r, w_tick := Suc (w_tick w)\<rparr>)"

text \<open>
  One transaction of the repository. When the database is down before the call, nothing happens; when
  the connection is lost after the commit, the effect stays and the caller sees an error.
\<close>

definition db_op ::
  "'r schedule \<Rightarrow> (tx_env \<Rightarrow> tx_env \<Rightarrow> telemetry_db \<Rightarrow> storage_error + ('a \<times> telemetry_db)) \<Rightarrow> ('a, 'r) action" where
  "db_op S f w =
     (let t = w_tick w; w1 = interfere S w
      in case db_at S t of
           DownBefore \<Rightarrow> (Inl (StorageFault OperationalError), w1)
         | av \<Rightarrow>
             (case f (tx_at S t) (retry_tx S t) (w_db w1) of
                Inl e \<Rightarrow> (Inl (StorageFault e), w1)
              | Inr (x, db') \<Rightarrow>
                  (if av = Up then Inr x else Inl (StorageFault OperationalError), w1\<lparr>w_db := db'\<rparr>)))"

text \<open>A query.\<close>

definition db_read :: "'r schedule \<Rightarrow> (telemetry_db \<Rightarrow> 'a) \<Rightarrow> ('a, 'r) action" where
  "db_read S q = db_op S (\<lambda>env env' db. Inr (q db, db))"

definition redis_op ::
  "('e \<Rightarrow> service_error) \<Rightarrow> 'r schedule \<Rightarrow> (availability \<Rightarrow> 'r \<Rightarrow> ('e, 'a, 'r) outcome) \<Rightarrow> ('a, 'r) action" where
  "redis_op fault S f w =
     (let w1 = interfere S w; (res, r) = f (redis_at S (w_tick w)) (w_redis w1)
      in (map_sum fault id res, w1\<lparr>w_redis := r\<rparr>))"

abbreviation queue_op :: "'r schedule \<Rightarrow> (availability \<Rightarrow> 'r \<Rightarrow> (queue_error, 'a, 'r) outcome) \<Rightarrow> ('a, 'r) action" where
  "queue_op \<equiv> redis_op QueueFault"

abbreviation metric_op :: "'r schedule \<Rightarrow> (availability \<Rightarrow> 'r \<Rightarrow> (metric_error, 'a, 'r) outcome) \<Rightarrow> ('a, 'r) action" where
  "metric_op \<equiv> redis_op MetricFault"

text \<open>\<^verbatim>\<open>except\<close>: the handler sees the error and the state reached.\<close>

fun on_error ::
  "(service_error, 'a, 'r world) outcome \<Rightarrow> (service_error \<Rightarrow> 'r world \<Rightarrow> (service_error, 'a, 'r world) outcome)
     \<Rightarrow> (service_error, 'a, 'r world) outcome" where
  "on_error (Inl e, w) h = h e w"
| "on_error (Inr x, w) h = (Inr x, w)"

text \<open>Which faults are \<^verbatim>\<open>RedisError\<close> and \<^verbatim>\<open>SQLAlchemyError\<close>.\<close>

fun is_redis_error :: "service_error \<Rightarrow> bool" where
  "is_redis_error (QueueFault QueueRedisError) = True"
| "is_redis_error (MetricFault MetricRedisError) = True"
| "is_redis_error _ = False"

fun is_sql_error :: "service_error \<Rightarrow> bool" where
  "is_sql_error (StorageFault e) = is_sqlalchemy_error e"
| "is_sql_error _ = False"

end
