(* ===== verification/Py_Float_Text.thy ===== *)
theory Py_Float_Text
  imports Py_Float
begin

text \<open>
  \<^verbatim>\<open>repr\<close> of a finite \<^verbatim>\<open>float\<close>, which is also its JSON text: the shortest decimal that rounds back to the
  number, in positional notation while the decimal point stays within 16 digits.
\<close>

text \<open>The position of the decimal point: \<open>p\<close> with 10 to the \<open>p - 1\<close> at most \<open>x\<close>, and \<open>x\<close> below 10 to the \<open>p\<close>.\<close>

definition decimal_point :: "rat \<Rightarrow> int" where
  "decimal_point x =
     (if 1 \<le> x then int (length (nat_digits 10 (nat \<lfloor>x\<rfloor>)))
      else (case find (\<lambda>m. 1 \<le> x * 10 ^ m) [0..<400] of None \<Rightarrow> 0 | Some m \<Rightarrow> 1 - int m))"

definition scale10 :: "int \<Rightarrow> rat \<Rightarrow> rat" where
  "scale10 e x = (if 0 \<le> e then x * 10 ^ nat e else x / 10 ^ nat (- e))"

definition rounded_digits :: "rat \<Rightarrow> int \<Rightarrow> nat \<Rightarrow> int" where
  "rounded_digits x p k = round_half_even (scale10 (int k - p) x)"

text \<open>17 digits always suffice for a double.\<close>

definition shortest_digits :: "rat \<Rightarrow> nat list \<times> int" where
  "shortest_digits x =
     (let p = decimal_point x;
          ok = (\<lambda>k. round_double (scale10 (p - int k) (of_int (rounded_digits x p k))) = x);
          k = (case find ok [1..<17] of None \<Rightarrow> 17 | Some k \<Rightarrow> k);
          ds = nat_digits 10 (nat (rounded_digits x p k))
      in (ds, p + int (length ds) - int k))"

definition trim_zeros :: "nat list \<Rightarrow> nat list" where
  "trim_zeros ds = (case rev (dropWhile (\<lambda>d. d = 0) (rev ds)) of [] \<Rightarrow> [0] | es \<Rightarrow> es)"

definition float_repr :: "rat \<Rightarrow> string" where
  "float_repr x =
     (if x = 0 then ''0.0''
      else let (raw, p) = shortest_digits \<bar>x\<bar>; ds = map upper_digit (trim_zeros raw); k = int (length ds);
             body = (if - 4 < p \<and> p \<le> 16
                     then (if p \<le> 0 then ''0.'' @ replicate (nat (- p)) (CHR ''0'') @ ds
                           else if k \<le> p then ds @ replicate (nat (p - k)) (CHR ''0'') @ ''.0''
                           else take (nat p) ds @ ''.'' @ drop (nat p) ds)
                     else take 1 ds @ (if k = 1 then [] else ''.'' @ drop 1 ds)
                       @ ''e'' @ (if p - 1 < 0 then ''-'' else ''+'') @ fmt_dec 2 \<bar>p - 1\<bar>)
           in (if x < 0 then ''-'' else []) @ body)"

end
