(* ===== verification/Ground_Api.thy ===== *)
theory Ground_Api
  imports Service_World Telemetry_Config Py_Float_Text
begin

text \<open>
  The gateway's HTTP handlers (\<^verbatim>\<open>mission_ground/services/ground_api.py\<close>): delivery of payload data by
  the vendor, recovery of the queue at start-up, and the operator's queries. A handler returns the HTTP
  response, or the exception that escapes it (an HTTP 500). Log messages are not modelled.
\<close>

section \<open>Requests and responses\<close>

record http_response =
  h_status :: int
  h_content :: json
  h_headers :: "(string \<times> string) list"

definition json_response :: "int \<Rightarrow> (string \<times> json) list \<Rightarrow> http_response" where
  "json_response status content = \<lparr>h_status = status, h_content = JObj content, h_headers = []\<rparr>"

text \<open>The response FastAPI makes of an \<^verbatim>\<open>HTTPException\<close>.\<close>

definition http_exception :: "int \<Rightarrow> string \<Rightarrow> (string \<times> string) list \<Rightarrow> http_response" where
  "http_exception status detail headers =
     \<lparr>h_status = status, h_content = JObj [(''detail'', JStr detail)], h_headers = headers\<rparr>"

record vendor_request =
  rq_vendor_token :: "string option"
  rq_request_id :: "string option"
  rq_content_length :: "string option"
  rq_content_type :: "string option"
  rq_stream :: "bytes list"

definition VENDOR_IDENTITY :: string where
  "VENDOR_IDENTITY = ''local-token:vendor-simulator''"

definition json_opt :: "string option \<Rightarrow> json" where
  "json_opt s = (case s of None \<Rightarrow> JNull | Some t \<Rightarrow> JStr t)"

definition canonical_uuid4 :: "string option \<Rightarrow> uuid option" where
  "canonical_uuid4 presented =
     (case presented of
        None \<Rightarrow> None
      | Some text \<Rightarrow>
          (case uuid_parse text of
             None \<Rightarrow> None
           | Some parsed \<Rightarrow> if uuid_version parsed \<noteq> Some 4 \<or> uuid_str parsed \<noteq> text then None else Some parsed))"

definition telemetry_values :: "TelemetryFrame \<Rightarrow> DecodedTelemetryValues" where
  "telemetry_values frame =
     \<lparr>dv_protocol_version = protocol_version frame, dv_payload_id = payload_id frame, dv_boot_id = boot_id frame,
      dv_sequence_number = sequence_number frame, dv_sample_timestamp_us = timestamp_us frame,
      dv_temperature_centi_c = temperature_centi_c frame, dv_voltage_mv = voltage_mv frame,
      dv_operating_mode = operating_mode frame, dv_fault_flags = fault_flags frame\<rparr>"

fun py_replace :: "string \<Rightarrow> string \<Rightarrow> string \<Rightarrow> nat \<Rightarrow> string" where
  "py_replace old new [] k = []"
| "py_replace old new (c # cs) (Suc k) = py_replace old new cs k"
| "py_replace old new (c # cs) 0 =
     (if starts_with old (c # cs) then new @ py_replace old new cs (length old - 1)
      else c # py_replace old new cs 0)"

definition iso_from_us :: "int \<Rightarrow> string" where
  "iso_from_us us = py_replace ''+00:00'' ''Z'' (isoformat (utc us)) 0"

text \<open>\<^verbatim>\<open>_bounded_body\<close>: the declared length first, then every chunk of the stream.\<close>

fun read_chunks :: "int \<Rightarrow> bytes \<Rightarrow> bytes list \<Rightarrow> http_response + bytes" where
  "read_chunks maximum body [] = Inr body"
| "read_chunks maximum body (chunk # stream) =
     (if int (length (body @ chunk)) > maximum
      then Inl (http_exception 413 ''telemetry body exceeds 1024 bytes'' [])
      else read_chunks maximum (body @ chunk) stream)"

definition bounded_body :: "vendor_request \<Rightarrow> int \<Rightarrow> http_response + bytes" where
  "bounded_body request maximum =
     (case rq_content_length request of
        None \<Rightarrow> read_chunks maximum [] (rq_stream request)
      | Some content_length \<Rightarrow>
          (case py_int 10 content_length of
             None \<Rightarrow> Inl (http_exception 400 ''Content-Length must be an integer'' [])
           | Some n \<Rightarrow>
               if n > maximum then Inl (http_exception 413 ''telemetry body exceeds 1024 bytes'' [])
               else read_chunks maximum [] (rq_stream request)))"

text \<open>\<^verbatim>\<open>hmac.compare_digest\<close> of two texts: defined for ASCII only.\<close>

definition compare_digest :: "string \<Rightarrow> string \<Rightarrow> service_error + bool" where
  "compare_digest a b =
     (if \<exists>c \<in> set (a @ b). 128 \<le> (of_char c :: nat)
      then Inl (TypeFault ''comparing strings with non-ASCII characters is not supported'')
      else Inr (a = b))"

definition bearer_identity :: "string option \<Rightarrow> GroundSettings \<Rightarrow> service_error + (http_response + string)" where
  "bearer_identity authorization settings =
     (case authorization of
        None \<Rightarrow> Inr (Inl (http_exception 401 ''missing bearer credential'' [(''WWW-Authenticate'', ''Bearer'')]))
      | Some text \<Rightarrow>
          if \<not> starts_with ''Bearer '' text
          then Inr (Inl (http_exception 401 ''missing bearer credential'' [(''WWW-Authenticate'', ''Bearer'')]))
          else
            (let token = removeprefix ''Bearer '' text in
             bindE (compare_digest token (gs_operator_token settings)) (\<lambda>operator.
             if operator then Inr (Inr ''operator'')
             else bindE (compare_digest token (gs_admin_token settings)) (\<lambda>admin.
               if admin then Inr (Inr ''administrator'')
               else Inr (Inl (http_exception 401 ''invalid bearer credential'' [(''WWW-Authenticate'', ''Bearer'')]))))))"

section \<open>Helpers that never change the response\<close>

definition metric_safely :: "'r schedule \<Rightarrow> 'r redis \<Rightarrow> string \<Rightarrow> int \<Rightarrow> (unit, 'r) action" where
  "metric_safely S R name amount w = (Inr (), snd (metric_op S (\<lambda>av. increment R av name amount) w))"

definition audit_safely ::
  "'r schedule \<Rightarrow> string \<Rightarrow> string \<Rightarrow> string \<Rightarrow> string \<Rightarrow> json option \<Rightarrow> (unit, 'r) action" where
  "audit_safely S event_name actor_identity outcome reason event_data w =
     on_error
       (db_op S (\<lambda>env env'. record_audit_event env ''ground-api'' event_name actor_identity outcome (Some reason)
                   None None None event_data) w)
       (\<lambda>e w'. if is_sql_error e then (Inr (), w') else (Inl e, w'))"

section \<open>The queue\<close>

definition queue_one :: "'r schedule \<Rightarrow> 'r redis \<Rightarrow> uuid \<Rightarrow> string \<Rightarrow> (bool, 'r) action" where
  "queue_one S R job_id pid w =
     (case queue_message (uuid_str job_id) pid of
        Inl e \<Rightarrow> (Inl (QueueFault e), w)
      | Inr message \<Rightarrow>
          and_then (queue_op S (\<lambda>av. enqueue R DEFAULT_KEYS av message) w) (\<lambda>queued w1.
          db_op S (\<lambda>env env'. mark_job_queued env job_id (uuid_str job_id) ''ground-api'') w1))"

fun recover_jobs :: "'r schedule \<Rightarrow> 'r redis \<Rightarrow> uuid list \<Rightarrow> nat \<Rightarrow> (nat, 'r) action" where
  "recover_jobs S R [] recovered w = (Inr recovered, w)"
| "recover_jobs S R (job_id # job_ids) recovered w =
     and_then (db_read S (get_job job_id) w) (\<lambda>job w1.
       case job of
         None \<Rightarrow> recover_jobs S R job_ids recovered w1
       | Some job \<Rightarrow>
           and_then (queue_one S R (j_job_id job) (j_packet_id job) w1) (\<lambda>transitioned w2.
           recover_jobs S R job_ids (if transitioned then recovered + 1 else recovered) w2))"

definition recover_pending_jobs :: "'r schedule \<Rightarrow> 'r redis \<Rightarrow> int \<Rightarrow> (nat, 'r) action" where
  "recover_pending_jobs S R limit w =
     and_then (db_op S (\<lambda>env env'. recoverable_queue_jobs env limit) w) (\<lambda>job_ids w1.
     recover_jobs S R job_ids 0 w1)"

section \<open>Delivery of payload data\<close>

definition unauthenticated :: "'r schedule \<Rightarrow> 'r redis \<Rightarrow> string option \<Rightarrow> (http_response, 'r) action" where
  "unauthenticated S R request_id w =
     and_then (metric_safely S R ''vendor_authentication_failures_total'' 1 w) (\<lambda>_ w1.
     and_then (audit_safely S ''vendor.authentication.failed'' ''unauthenticated'' ''REJECTED'' ''INVALID_VENDOR_TOKEN''
                 (Some (JObj [(''presented_request_id'', json_opt request_id)])) w1) (\<lambda>_ w2.
     (Inr \<lparr>h_status = 401,
           h_content = JObj [(''status'', JStr ''REJECTED''), (''reason'', JStr ''INVALID_VENDOR_TOKEN'')],
           h_headers = [(''WWW-Authenticate'', ''X-Vendor-Token'')]\<rparr>, w2)))"

definition size_rejected :: "'r schedule \<Rightarrow> string option \<Rightarrow> http_response \<Rightarrow> (http_response, 'r) action" where
  "size_rejected S request_id exc w =
     (let reason = (if h_status exc = 413 then ''BODY_TOO_LARGE'' else ''INVALID_CONTENT_LENGTH'') in
      and_then (audit_safely S ''telemetry.delivery.security_rejected'' VENDOR_IDENTITY ''REJECTED'' reason
                  (Some (JObj [(''presented_request_id'', json_opt request_id)])) w) (\<lambda>_ w1.
      (Inr (json_response (h_status exc) [(''status'', JStr ''REJECTED''), (''reason'', JStr reason)]), w1)))"

text \<open>A rejection of the content type or the request identifier.\<close>

definition reject_with :: "'r schedule \<Rightarrow> 'r redis \<Rightarrow> uuid \<Rightarrow> string \<Rightarrow> (http_response, 'r) action" where
  "reject_with S R rid reason w =
     and_then (db_op S (\<lambda>env env'. reject_delivery env rid reason None ''ground-api'') w) (\<lambda>rejected w1.
     and_then (metric_safely S R ''payload_messages_rejected_total'' 1 w1) (\<lambda>_ w2.
     (Inr (json_response 400 [(''receipt_id'', JStr (uuid_str (dr_receipt_id rejected))), (''status'', JStr ''REJECTED''),
             (''reason'', JStr reason)]), w2)))"

definition media_type :: "string \<Rightarrow> string" where
  "media_type content_type = py_lower (py_strip (takeWhile (\<lambda>c. c \<noteq> CHR '';'') content_type))"

text \<open>The validated frame is accepted, and its job queued.\<close>

definition accept_frame ::
  "'r schedule \<Rightarrow> 'r redis \<Rightarrow> GroundSettings \<Rightarrow> uuid \<Rightarrow> TelemetryFrame \<Rightarrow> (http_response, 'r) action" where
  "accept_frame S R settings rid frame w =
     and_then (db_op S (\<lambda>env env'. accept_packet_and_create_job env env' rid (telemetry_values frame)
                          (gs_processing_maximum_attempts settings) ''ground-api'') w) (\<lambda>accepted w1.
     if pa_conflict accepted then
       and_then (metric_safely S R ''payload_messages_rejected_total'' 1 w1) (\<lambda>_ w2.
       (Inr (json_response 409 [(''receipt_id'', JStr (uuid_str (pa_receipt_id accepted))), (''status'', JStr ''CONFLICT''),
               (''reason'', JStr ''SEQUENCE_CONFLICT'')]), w2))
     else if pa_duplicate accepted then
       and_then
         (case (pa_queue_status accepted, pa_job_id accepted, pa_packet_id accepted) of
            (Q_PENDING_QUEUE, Some job_id, Some pid) \<Rightarrow> queue_one S R job_id pid w1
          | _ \<Rightarrow> (Inr False, w1)) (\<lambda>_ w2.
       and_then (metric_safely S R ''payload_duplicate_messages_total'' 1 w2) (\<lambda>_ w3.
       (Inr (json_response 200 [(''receipt_id'', JStr (uuid_str (pa_receipt_id accepted))),
               (''packet_id'', json_opt (pa_packet_id accepted)), (''status'', JStr ''DUPLICATE''), (''duplicate'', JBool True)]), w3)))
     else
       (case (pa_job_id accepted, pa_packet_id accepted) of
          (Some job_id, Some pid) \<Rightarrow>
            and_then
              (if pa_missing_before accepted \<noteq> 0
               then metric_safely S R ''payload_sequence_gaps_total'' (pa_missing_before accepted) w1
               else (Inr (), w1)) (\<lambda>_ w2.
            and_then (queue_one S R job_id pid w2) (\<lambda>_ w3.
            (Inr (json_response 202 [(''receipt_id'', JStr (uuid_str (pa_receipt_id accepted))), (''packet_id'', JStr pid),
                    (''status'', JStr ''QUEUED''), (''duplicate'', JBool False)]), w3)))
        | _ \<Rightarrow> (Inl (RuntimeFault ''accepted unique packet did not create a job''), w1)))"

definition validate_frame ::
  "'r schedule \<Rightarrow> 'r redis \<Rightarrow> GroundSettings \<Rightarrow> uuid \<Rightarrow> bytes \<Rightarrow> datetime \<Rightarrow> (http_response, 'r) action" where
  "validate_frame S R settings rid raw_body received_at w =
     (case decode_telemetry raw_body received_at of
        Inl (Rejected reason detail) \<Rightarrow>
          and_then (db_op S (\<lambda>env env'. reject_delivery env rid (reason_value reason) None ''ground-api'') w) (\<lambda>_ w1.
          and_then (metric_safely S R ''payload_messages_rejected_total'' 1 w1) (\<lambda>_ w2.
          (Inr (json_response 422 [(''receipt_id'', JStr (uuid_str rid)), (''status'', JStr ''REJECTED''),
                  (''reason'', JStr (reason_value reason)), (''detail'', JStr detail)]), w2)))
      | Inl e \<Rightarrow> (Inl (CodecFault e), w)
      | Inr frame \<Rightarrow> accept_frame S R settings rid frame w)"

text \<open>The answer to a replay whose first delivery is already decided and queued, if it is.\<close>

definition replay_answer :: "TelemetryDeliveryReceipt \<Rightarrow> http_response option" where
  "replay_answer receipt =
     (if d_validation_status receipt = V_REJECTED
      then Some (json_response 422 [(''receipt_id'', JStr (uuid_str (d_receipt_id receipt))), (''status'', JStr ''REJECTED''),
             (''reason'', json_opt (d_rejection_reason receipt)), (''request_replay'', JBool True)])
      else if (d_validation_status receipt = V_ACCEPTED \<or> d_validation_status receipt = V_DUPLICATE)
              \<and> d_queue_status receipt = Q_QUEUED
      then Some (json_response 200 [(''receipt_id'', JStr (uuid_str (d_receipt_id receipt))),
             (''packet_id'', json_opt (d_logical_packet_id receipt)), (''status'', JStr ''QUEUED''),
             (''duplicate'', JBool (d_validation_status receipt = V_DUPLICATE)), (''request_replay'', JBool True)])
      else None)"

text \<open>An accepted delivery whose job did not reach the queue.\<close>

definition unqueued_packet :: "TelemetryDeliveryReceipt option \<Rightarrow> (TelemetryDeliveryReceipt \<times> string) option" where
  "unqueued_packet existing =
     (case existing of
        None \<Rightarrow> None
      | Some receipt \<Rightarrow>
          if d_validation_status receipt = V_ACCEPTED \<and> d_queue_status receipt = Q_PENDING_QUEUE
          then map_option (\<lambda>pid. (receipt, pid)) (d_logical_packet_id receipt) else None)"

definition requeue :: "'r schedule \<Rightarrow> 'r redis \<Rightarrow> TelemetryDeliveryReceipt \<Rightarrow> string \<Rightarrow> (http_response, 'r) action" where
  "requeue S R receipt pid w =
     and_then (db_read S (get_job_for_packet pid) w) (\<lambda>job w1.
       case job of
         None \<Rightarrow> (Inl (RuntimeFault ''accepted packet has no processing job''), w1)
       | Some job \<Rightarrow>
           and_then (queue_one S R (j_job_id job) (j_packet_id job) w1) (\<lambda>transitioned w2.
           (Inr (json_response (if transitioned then 202 else 200)
                   [(''receipt_id'', JStr (uuid_str (d_receipt_id receipt))), (''packet_id'', JStr pid),
                    (''status'', JStr ''QUEUED''), (''duplicate'', JBool False), (''request_replay'', JBool True)]), w2)))"

text \<open>What follows the replay checks.\<close>

definition validate_delivery ::
  "'r schedule \<Rightarrow> 'r redis \<Rightarrow> GroundSettings \<Rightarrow> vendor_request \<Rightarrow> bytes \<Rightarrow> datetime \<Rightarrow> uuid
     \<Rightarrow> TelemetryDeliveryReceipt option \<Rightarrow> (http_response, 'r) action" where
  "validate_delivery S R settings request raw_body received_at rid existing w =
     (if (case rq_content_type request of None \<Rightarrow> True | Some ct \<Rightarrow> media_type ct \<noteq> ''application/octet-stream'')
      then reject_with S R rid ''INVALID_CONTENT_TYPE'' w
      else if canonical_uuid4 (rq_request_id request) = None
      then reject_with S R rid ''INVALID_REQUEST_ID'' w
      else (case unqueued_packet existing of
              Some (receipt, pid) \<Rightarrow> requeue S R receipt pid w
            | None \<Rightarrow> validate_frame S R settings rid raw_body received_at w))"

definition vendor_delivery :: "vendor_request \<Rightarrow> bytes \<Rightarrow> datetime \<Rightarrow> delivery_input" where
  "vendor_delivery request raw_body received_at =
     \<lparr>in_raw_body = raw_body, in_peer_certificate_identity = VENDOR_IDENTITY,
      in_presented_request_id = rq_request_id request, in_canonical_request_id = canonical_uuid4 (rq_request_id request),
      in_content_type = rq_content_type request, in_received_at = Some received_at,
      in_vendor_sent_at = None, in_receipt_id = None\<rparr>"

definition deliver ::
  "'r schedule \<Rightarrow> 'r redis \<Rightarrow> GroundSettings \<Rightarrow> vendor_request \<Rightarrow> bytes \<Rightarrow> datetime \<Rightarrow> (http_response, 'r) action" where
  "deliver S R settings request raw_body received_at w =
     and_then (db_op S (\<lambda>env env'. record_delivery env env' (vendor_delivery request raw_body received_at)) w) (\<lambda>delivery w1.
     and_then (metric_safely S R ''payload_messages_received_total'' 1 w1) (\<lambda>_ w2.
     if dr_request_conflict delivery then
       and_then (metric_safely S R ''payload_messages_rejected_total'' 1 w2) (\<lambda>_ w3.
       (Inr (json_response 409 [(''receipt_id'', JStr (uuid_str (dr_receipt_id delivery))), (''status'', JStr ''CONFLICT''),
               (''reason'', JStr ''REQUEST_ID_REUSED_WITH_DIFFERENT_BODY'')]), w3))
     else if dr_request_replay delivery then
       and_then (db_read S (get_delivery (dr_receipt_id delivery)) w2) (\<lambda>existing w3.
         case existing of
           None \<Rightarrow> (Inl (RuntimeFault ''request replay points to missing receipt''), w3)
         | Some receipt \<Rightarrow>
             (case replay_answer receipt of
                Some response \<Rightarrow> (Inr response, w3)
              | None \<Rightarrow> validate_delivery S R settings request raw_body received_at (dr_receipt_id delivery) (Some receipt) w3))
     else validate_delivery S R settings request raw_body received_at (dr_receipt_id delivery) None w2))"

definition delivery_faults :: "'r schedule \<Rightarrow> 'r redis \<Rightarrow> service_error \<Rightarrow> (http_response, 'r) action" where
  "delivery_faults S R e w =
     (if is_redis_error e
      then (Inr (json_response 503 [(''status'', JStr ''PENDING_QUEUE''), (''reason'', JStr ''REDIS_UNAVAILABLE'')]), w)
      else if is_sql_error e
      then and_then (metric_safely S R ''database_errors_total'' 1 w) (\<lambda>_ w1.
        (Inr (json_response 503 [(''status'', JStr ''UNAVAILABLE''), (''reason'', JStr ''POSTGRESQL_UNAVAILABLE'')]), w1))
      else (Inl e, w))"

definition receive_payload_data ::
  "'r schedule \<Rightarrow> 'r redis \<Rightarrow> GroundSettings \<Rightarrow> vendor_request \<Rightarrow> (http_response, 'r) action" where
  "receive_payload_data S R settings request w =
     (case (case rq_vendor_token request of
              None \<Rightarrow> Inr False
            | Some token \<Rightarrow> compare_digest token (gs_vendor_token settings)) of
        Inl e \<Rightarrow> (Inl e, w)
      | Inr False \<Rightarrow> unauthenticated S R (rq_request_id request) w
      | Inr True \<Rightarrow>
          (case bounded_body request (gs_max_telemetry_body_bytes settings) of
             Inl exc \<Rightarrow> size_rejected S (rq_request_id request) exc w
           | Inr raw_body \<Rightarrow>
               and_then (clock S w) (\<lambda>received_at w1.
               on_error (deliver S R settings request raw_body received_at w1) (delivery_faults S R))))"

section \<open>Queries\<close>

text \<open>\<^verbatim>\<open>MESSAGE_ID_PATTERN.fullmatch\<close> is the packet identifier format of the queue.\<close>

definition query_faults :: "'r schedule \<Rightarrow> 'r redis \<Rightarrow> service_error \<Rightarrow> (http_response, 'r) action" where
  "query_faults S R e w =
     (if is_sql_error e
      then and_then (metric_safely S R ''database_errors_total'' 1 w) (\<lambda>_ w1.
        (Inr (http_exception 503 ''PostgreSQL unavailable'' []), w1))
      else (Inl e, w))"

definition raw_content :: "LogicalTelemetryPacket \<Rightarrow> TelemetryDeliveryReceipt \<Rightarrow> TelemetryProcessingJob option \<Rightarrow> (string \<times> json) list" where
  "raw_content packet receipt job =
     [(''message_id'', JStr (p_packet_id packet)), (''receipt_id'', JStr (uuid_str (d_receipt_id receipt))),
      (''raw_hex'', JStr (concat (map (\<lambda>b. fmt_hex 2 (uint b)) (d_raw_body receipt)))),
      (''body_sha256'', JStr (d_body_sha256 receipt)), (''received_at'', JStr (isoformat (d_received_at receipt))),
      (''protocol_version'', json_int (p_protocol_version packet)),
      (''payload_id'', JStr (''PAYLOAD-'' @ fmt_dec 2 (p_payload_id packet))), (''boot_id'', json_int (p_boot_id packet)),
      (''sequence_number'', json_int (p_sequence_number packet)),
      (''sample_time'', JStr (iso_from_us (p_sample_timestamp_us packet))),
      (''sequence_disposition'', JStr (disposition_value (p_sequence_disposition packet))),
      (''missing_before'', json_int (p_missing_before packet)),
      (''processing_state'', (case job of None \<Rightarrow> JNull | Some j \<Rightarrow> JStr (job_state_value (j_state j))))]"

definition authorized ::
  "string option \<Rightarrow> GroundSettings \<Rightarrow> (string \<Rightarrow> (http_response, 'r) action) \<Rightarrow> (http_response, 'r) action" where
  "authorized authorization settings k w =
     (case bearer_identity authorization settings of
        Inl e \<Rightarrow> (Inl e, w)
      | Inr (Inl response) \<Rightarrow> (Inr response, w)
      | Inr (Inr identity) \<Rightarrow> k identity w)"

definition not_found :: http_response where
  "not_found = http_exception 404 ''telemetry message not found'' []"

definition get_raw_payload ::
  "'r schedule \<Rightarrow> 'r redis \<Rightarrow> GroundSettings \<Rightarrow> string \<Rightarrow> string option \<Rightarrow> (http_response, 'r) action" where
  "get_raw_payload S R settings message_id authorization =
     authorized authorization settings (\<lambda>identity w.
       if \<not> packet_id_format message_id then (Inr not_found, w)
       else on_error
         (and_then (db_read S (get_packet message_id) w) (\<lambda>packet w1.
            case packet of
              None \<Rightarrow> (Inr not_found, w1)
            | Some packet \<Rightarrow>
                and_then (db_read S (get_delivery (p_source_receipt_id packet)) w1) (\<lambda>receipt w2.
                and_then (db_read S (get_job_for_packet message_id) w2) (\<lambda>job w3.
                  case receipt of
                    None \<Rightarrow> (Inl (RuntimeFault ''logical packet has no source receipt''), w3)
                  | Some receipt \<Rightarrow> (Inr (json_response 200 (raw_content packet receipt job)), w3)))))
         (query_faults S R))"

definition processed_content :: "ProcessedTelemetry \<Rightarrow> (string \<times> json) list" where
  "processed_content row =
     [(''message_id'', JStr (t_packet_id row)), (''temperature_c'', JNum (float_repr (t_temperature_c row))),
      (''voltage_v'', JNum (float_repr (t_voltage_v row))), (''operating_mode'', JStr (t_operating_mode row)),
      (''fault_names'', JArr (map JStr (t_fault_names row))),
      (''classification'', JStr (classification_value (t_classification row))),
      (''freshness'', JStr (if t_is_stale row then ''STALE'' else ''CURRENT'')),
      (''processor_version'', JStr (t_processor_version row)), (''processed_at'', JStr (isoformat (t_processed_at row)))]"

definition get_processed_payload ::
  "'r schedule \<Rightarrow> 'r redis \<Rightarrow> GroundSettings \<Rightarrow> string \<Rightarrow> string option \<Rightarrow> (http_response, 'r) action" where
  "get_processed_payload S R settings message_id authorization =
     authorized authorization settings (\<lambda>identity w.
       if \<not> packet_id_format message_id then (Inr not_found, w)
       else on_error
         (and_then (db_read S (get_packet message_id) w) (\<lambda>packet w1.
            case packet of
              None \<Rightarrow> (Inr not_found, w1)
            | Some packet \<Rightarrow>
                and_then (db_read S (get_processed message_id) w1) (\<lambda>row w2.
                and_then (db_read S (get_job_for_packet message_id) w2) (\<lambda>job w3.
                  case row of
                    Some row \<Rightarrow> (Inr (json_response 200 (processed_content row)), w3)
                  | None \<Rightarrow>
                      (Inr (json_response (case job of Some j \<Rightarrow> (if j_state j = J_FAILED then 422 else 202) | None \<Rightarrow> 202)
                         [(''message_id'', JStr message_id),
                          (''processing_state'', JStr (case job of Some j \<Rightarrow> job_state_value (j_state j) | None \<Rightarrow> ''UNKNOWN''))]), w3)))))
         (query_faults S R))"

definition audit_content :: "TelemetryAuditEvent \<Rightarrow> json" where
  "audit_content event = JObj
     [(''event_id'', JStr (uuid_str (a_event_id event))), (''timestamp'', JStr (isoformat (a_occurred_at event))),
      (''service_name'', JStr (a_service_name event)), (''event_name'', JStr (a_event_name event)),
      (''actor_identity'', JStr (a_actor_identity event)), (''outcome'', JStr (a_outcome event)),
      (''reason'', json_opt (a_reason event)), (''receipt_id'', json_opt (map_option uuid_str (a_receipt_id event))),
      (''message_id'', json_opt (a_packet_id event)), (''job_id'', json_opt (map_option uuid_str (a_job_id event))),
      (''event_data'', a_event_data event)]"

definition forbidden :: http_response where
  "forbidden = http_exception 403 ''administrator permission required'' []"

text \<open>FastAPI has checked that the limit is between 1 and 100.\<close>

definition get_audit_events ::
  "'r schedule \<Rightarrow> 'r redis \<Rightarrow> GroundSettings \<Rightarrow> int \<Rightarrow> string option \<Rightarrow> (http_response, 'r) action" where
  "get_audit_events S R settings limit authorization =
     authorized authorization settings (\<lambda>identity w.
       if identity \<noteq> ''administrator'' then (Inr forbidden, w)
       else on_error
         (and_then (db_op S (\<lambda>env env' db. map_sum id (\<lambda>events. (events, db)) (list_audit_events limit db)) w) (\<lambda>events w1.
          (Inr \<lparr>h_status = 200, h_content = JArr (map audit_content events), h_headers = []\<rparr>, w1)))
         (query_faults S R))"

definition readiness :: "'r schedule \<Rightarrow> 'r redis \<Rightarrow> (http_response, 'r) action" where
  "readiness S R w =
     (let (pg, w1) = db_read S (\<lambda>db. ()) w; postgresql = (pg = Inr ());
          (ping, w2) = queue_op S (queue_ping R) w1; redis = (case ping of Inr ok \<Rightarrow> ok | Inl _ \<Rightarrow> False);
          ready = (postgresql \<and> redis)
      in (Inr (json_response (if ready then 200 else 503)
            [(''status'', JStr (if ready then ''ready'' else ''not_ready'')),
             (''dependencies'', JObj [(''postgresql'', JBool postgresql), (''redis'', JBool redis)])]), w2))"

definition get_metrics :: "'r schedule \<Rightarrow> 'r redis \<Rightarrow> GroundSettings \<Rightarrow> string option \<Rightarrow> (http_response, 'r) action" where
  "get_metrics S R settings authorization =
     authorized authorization settings (\<lambda>identity w.
       if identity \<noteq> ''administrator'' then (Inr forbidden, w)
       else on_error
         (and_then (metric_op S (snapshot R) w) (\<lambda>counters w1.
          and_then (queue_op S (queue_depth R DEFAULT_KEYS) w1) (\<lambda>depth w2.
          (Inr \<lparr>h_status = 200, h_content = JStr (render_prometheus counters (int depth)),
                h_headers = [(''Content-Type'', ''text/plain; version=0.0.4; charset=utf-8'')]\<rparr>, w2))))
         (\<lambda>e w'. if is_redis_error e then (Inr (http_exception 503 ''Redis unavailable'' []), w') else (Inl e, w')))"

definition health :: http_response where
  "health = json_response 200 [(''status'', JStr ''healthy''), (''service'', JStr ''ground-api'')]"

end
