(* ===== verification/Payload_Worker.thy ===== *)
theory Payload_Worker
  imports Ground_Api
begin

text \<open>
  The payload worker (\<^verbatim>\<open>mission_ground/services/payload_worker.py\<close>): it takes a reference from the
  queue, claims the job in the database, decodes the preserved bytes again, stores the engineering
  result and only then acknowledges the reference. An iteration returns, or ends the worker with the
  exception that escapes it. Cancellation and log messages are not modelled; a sleep lets time pass.
\<close>

section \<open>The engineering result\<close>

definition temperature_c :: "TelemetryFrame \<Rightarrow> py_float" where
  "temperature_c frame = round_double (of_int (temperature_centi_c frame) / 100)"

definition voltage_v :: "TelemetryFrame \<Rightarrow> py_float" where
  "voltage_v frame = round_double (of_int (voltage_mv frame) / 1000)"

definition sample_time :: "TelemetryFrame \<Rightarrow> datetime" where
  "sample_time frame = utc (timestamp_us frame)"

definition stored_values :: "TelemetryFrame \<Rightarrow> DecodedTelemetryValues" where
  "stored_values frame =
     \<lparr>dv_protocol_version = protocol_version frame, dv_payload_id = payload_id frame, dv_boot_id = boot_id frame,
      dv_sequence_number = sequence_number frame, dv_sample_timestamp_us = timestamp_us frame,
      dv_temperature_centi_c = temperature_centi_c frame, dv_voltage_mv = voltage_mv frame,
      dv_operating_mode = operating_mode frame, dv_fault_flags = fault_flags frame\<rparr>"

fun fault_flag_name :: "FaultFlag \<Rightarrow> string" where
  "fault_flag_name OVER_TEMPERATURE = ''OVER_TEMPERATURE''"
| "fault_flag_name UNDER_VOLTAGE = ''UNDER_VOLTAGE''"
| "fault_flag_name OVER_VOLTAGE = ''OVER_VOLTAGE''"
| "fault_flag_name TEMPERATURE_SENSOR_FAULT = ''TEMPERATURE_SENSOR_FAULT''"
| "fault_flag_name VOLTAGE_SENSOR_FAULT = ''VOLTAGE_SENSOR_FAULT''"
| "fault_flag_name INTERNAL_PAYLOAD_FAULT = ''INTERNAL_PAYLOAD_FAULT''"

text \<open>The members of \<^verbatim>\<open>FaultFlag\<close> in the order of their definition.\<close>

definition fault_names :: "int \<Rightarrow> string list" where
  "fault_names flags =
     map fault_flag_name
       (filter (\<lambda>flag. flags AND FaultFlag_int flag \<noteq> 0)
          [OVER_TEMPERATURE, UNDER_VOLTAGE, OVER_VOLTAGE, TEMPERATURE_SENSOR_FAULT, VOLTAGE_SENSOR_FAULT,
           INTERNAL_PAYLOAD_FAULT])"

fun operating_mode_name :: "OperatingMode \<Rightarrow> string" where
  "operating_mode_name SAFE = ''SAFE''"
| "operating_mode_name STANDBY = ''STANDBY''"
| "operating_mode_name SCIENCE = ''SCIENCE''"
| "operating_mode_name CALIBRATION = ''CALIBRATION''"

definition PROCESSOR_VERSION :: string where
  "PROCESSOR_VERSION = ''telemetry-v1''"

text \<open>What the worker computes from a claimed job, and the assessment it keeps for the counters.\<close>

definition processing_result ::
  "TelemetryWorkItem \<Rightarrow> service_error + (ProcessingResultValues \<times> HealthAssessment)" where
  "processing_result work =
     (case decode_telemetry (wi_raw_body work) (wi_received_at work) of
        Inl e \<Rightarrow> Inl (CodecFault e)
      | Inr frame \<Rightarrow>
          if stored_values frame \<noteq> wi_values work
          then Inl (ValueFault ''stored decoded fields do not match the preserved raw bytes'')
          else (case assess_health frame (wi_received_at work) of
                  Inl e \<Rightarrow> Inl (CodecFault e)
                | Inr assessment \<Rightarrow>
                    (case OperatingMode_of (operating_mode frame) of
                       None \<Rightarrow> Inl (CodecFault (CodecValueError ''not a valid OperatingMode''))
                     | Some mode \<Rightarrow>
                         Inr (\<lparr>pr_temperature_c = temperature_c frame, pr_voltage_v = voltage_v frame,
                               pr_operating_mode = operating_mode_name mode, pr_fault_names = fault_names (fault_flags frame),
                               pr_classification = classification assessment, pr_is_stale = is_stale assessment,
                               pr_processor_version = PROCESSOR_VERSION\<rparr>, assessment))))"

section \<open>The queue\<close>

text \<open>Time passes.\<close>

definition sleep :: "int \<Rightarrow> (unit, 'r) action" where
  "sleep seconds w = (Inr (), w\<lparr>w_tick := Suc (w_tick w)\<rparr>)"

text \<open>A claim is one command, or two when the entry is malformed.\<close>

definition claim_reference :: "'r schedule \<Rightarrow> 'r redis \<Rightarrow> int \<Rightarrow> (QueueMessage option, 'r) action" where
  "claim_reference S R timeout_seconds w =
     map_prod id (w_tick_update Suc)
       (queue_op S (\<lambda>av. claim R DEFAULT_KEYS av (redis_at S (Suc (w_tick w))) (PyInt timeout_seconds)) w)"

definition increment_safely :: "'r schedule \<Rightarrow> 'r redis \<Rightarrow> string \<Rightarrow> (unit, 'r) action" where
  "increment_safely S R name w = (Inr (), snd (metric_op S (\<lambda>av. increment R av name 1) w))"

definition return_or_finish_unclaimed :: "'r schedule \<Rightarrow> 'r redis \<Rightarrow> QueueMessage \<Rightarrow> uuid \<Rightarrow> (unit, 'r) action" where
  "return_or_finish_unclaimed S R message job_id w =
     and_then (db_read S (get_job job_id) w) (\<lambda>job w1.
       case map_option j_state job of
         None \<Rightarrow> queue_op S (\<lambda>av. ack R DEFAULT_KEYS av message) w1
       | Some J_COMPLETE \<Rightarrow> queue_op S (\<lambda>av. ack R DEFAULT_KEYS av message) w1
       | Some J_FAILED \<Rightarrow> queue_op S (\<lambda>av. dead_letter R DEFAULT_KEYS av message) w1
       | Some _ \<Rightarrow> and_then (sleep 1 w1) (\<lambda>_. queue_op S (\<lambda>av. retry R DEFAULT_KEYS av message)))"

section \<open>Failures\<close>

text \<open>The exceptions that are instances of \<^verbatim>\<open>ValueError\<close>, \<^verbatim>\<open>TelemetryValidationError\<close> included.\<close>

fun is_value_error :: "service_error \<Rightarrow> bool" where
  "is_value_error (CodecFault (Rejected _ _)) = True"
| "is_value_error (CodecFault (CodecValueError _)) = True"
| "is_value_error (StorageFault (StorageValueError _)) = True"
| "is_value_error (QueueFault (QueueMessageError _)) = True"
| "is_value_error (QueueFault (QueueValueError _)) = True"
| "is_value_error (MetricFault (MetricValueError _)) = True"
| "is_value_error (ValueFault _) = True"
| "is_value_error _ = False"

text \<open>
  The text \<^verbatim>\<open>f"{type(exc).__name__}: {exc}"\<close>. The messages of the database driver are not the
  program's; they are a parameter.
\<close>

fun failure_reason :: "(service_error \<Rightarrow> string) \<Rightarrow> service_error \<Rightarrow> string" where
  "failure_reason driver (CodecFault (Rejected _ detail)) = ''TelemetryValidationError: '' @ detail"
| "failure_reason driver (CodecFault (CodecValueError detail)) = ''ValueError: '' @ detail"
| "failure_reason driver (ValueFault detail) = ''ValueError: '' @ detail"
| "failure_reason driver (StorageFault (StorageValueError detail)) = ''ValueError: '' @ detail"
| "failure_reason driver (StorageFault (TelemetryStorageError detail)) = ''TelemetryStorageError: '' @ detail"
| "failure_reason driver (StorageFault (InvalidDeliveryStateError detail)) = ''InvalidDeliveryStateError: '' @ detail"
| "failure_reason driver (StorageFault (ProcessingJobNotFoundError detail)) = ''ProcessingJobNotFoundError: '' @ detail"
| "failure_reason driver (StorageFault (ProcessingResultConflictError detail)) = ''ProcessingResultConflictError: '' @ detail"
| "failure_reason driver e = driver e"

text \<open>\<^verbatim>\<open>math.ceil\<close> of the seconds, a double, until the next attempt.\<close>

definition retry_delay :: "datetime option \<Rightarrow> datetime \<Rightarrow> int" where
  "retry_delay next_attempt_at t =
     (case next_attempt_at of
        None \<Rightarrow> 1
      | Some due \<Rightarrow> max 0 \<lceil>round_double (of_int (instant due - instant t) / 1000000)\<rceil>)"

definition retry_later :: "'r schedule \<Rightarrow> 'r redis \<Rightarrow> QueueMessage \<Rightarrow> datetime option \<Rightarrow> (unit, 'r) action" where
  "retry_later S R message next_attempt_at w =
     and_then (case next_attempt_at of None \<Rightarrow> (Inr 1, w)
               | Some due \<Rightarrow> and_then (clock S w) (\<lambda>t w1. (Inr (retry_delay (Some due) t), w1))) (\<lambda>delay w1.
     and_then (sleep delay w1) (\<lambda>_ w2.
     queue_op S (\<lambda>av. retry R DEFAULT_KEYS av message) w2))"

text \<open>\<^verbatim>\<open>except Exception\<close>, before and after a successful claim.\<close>

definition fault_unclaimed :: "'r schedule \<Rightarrow> 'r redis \<Rightarrow> QueueMessage \<Rightarrow> (unit, 'r) action" where
  "fault_unclaimed S R message w =
     and_then (increment_safely S R ''payload_processing_failures_total'' w) (\<lambda>_ w1.
     and_then (sleep 1 w1) (\<lambda>_ w2.
     on_error (queue_op S (\<lambda>av. retry R DEFAULT_KEYS av message) w2)
       (\<lambda>e w3. case e of QueueFault (QueueStateError _) \<Rightarrow> (Inr (), w3) | _ \<Rightarrow> (Inl e, w3))))"

definition report_failure ::
  "'r schedule \<Rightarrow> 'r redis \<Rightarrow> (service_error \<Rightarrow> string) \<Rightarrow> string \<Rightarrow> QueueMessage \<Rightarrow> TelemetryWorkItem \<Rightarrow> service_error
     \<Rightarrow> (unit, 'r) action" where
  "report_failure S R driver worker_id message work exc w =
     and_then (increment_safely S R ''payload_processing_failures_total'' w) (\<lambda>_ w1.
     case db_op S (\<lambda>env env'. fail_processing_attempt env (wi_job_id work) worker_id (failure_reason driver exc)
                               (\<not> is_value_error exc) 1 None) w1 of
       (Inl e, w2) \<Rightarrow>
         if is_sql_error e
         then and_then (increment_safely S R ''database_errors_total'' w2) (\<lambda>_ w3. sleep 1 w3)
         else (Inl e, w2)
     | (Inr failure, w2) \<Rightarrow>
         if pf_state failure = J_FAILED
         then queue_op S (\<lambda>av. dead_letter R DEFAULT_KEYS av message) w2
         else retry_later S R message (pf_next_attempt_at failure) w2)"

section \<open>The loop\<close>

text \<open>After the result is committed: an acknowledgement that fails leaves the reference in place.\<close>

definition finish_processed :: "'r schedule \<Rightarrow> 'r redis \<Rightarrow> QueueMessage \<Rightarrow> HealthAssessment \<Rightarrow> (unit, 'r) action" where
  "finish_processed S R message assessment w =
     (case queue_op S (\<lambda>av. ack R DEFAULT_KEYS av message) w of
        (Inl e, w1) \<Rightarrow> (Inr (), w1)
      | (Inr _, w1) \<Rightarrow>
          and_then (increment_safely S R ''payload_processing_successes_total'' w1) (\<lambda>_ w2.
          if is_stale assessment then increment_safely S R ''payload_stale_results_total'' w2 else (Inr (), w2)))"

definition process_work ::
  "'r schedule \<Rightarrow> 'r redis \<Rightarrow> string \<Rightarrow> QueueMessage \<Rightarrow> TelemetryWorkItem \<Rightarrow> (unit, 'r) action" where
  "process_work S R worker_id message work w =
     (case processing_result work of
        Inl e \<Rightarrow> (Inl e, w)
      | Inr (res, assessment) \<Rightarrow>
          and_then (db_op S (\<lambda>env env'. complete_processing_job env (wi_job_id work) res worker_id None) w) (\<lambda>_ w1.
          finish_processed S R message assessment w1))"

text \<open>One reference: \<^verbatim>\<open>uuid.UUID\<close>, the claim, and the work.\<close>

definition handle_reference ::
  "'r schedule \<Rightarrow> 'r redis \<Rightarrow> (service_error \<Rightarrow> string) \<Rightarrow> string \<Rightarrow> QueueMessage \<Rightarrow> (unit, 'r) action" where
  "handle_reference S R driver worker_id message w =
     (case uuid_parse (q_job_id message) of
        None \<Rightarrow> fault_unclaimed S R message w
      | Some job_id \<Rightarrow>
          (case db_op S (\<lambda>env env'. claim_processing_job env job_id worker_id 60) w of
             (Inl e, w1) \<Rightarrow> fault_unclaimed S R message w1
           | (Inr None, w1) \<Rightarrow>
               on_error (return_or_finish_unclaimed S R message job_id w1) (\<lambda>e. fault_unclaimed S R message)
           | (Inr (Some work), w1) \<Rightarrow>
               on_error (process_work S R worker_id message work w1) (report_failure S R driver worker_id message work)))"

definition worker_iteration ::
  "'r schedule \<Rightarrow> 'r redis \<Rightarrow> (service_error \<Rightarrow> string) \<Rightarrow> WorkerSettings \<Rightarrow> string \<Rightarrow> (unit, 'r) action" where
  "worker_iteration S R driver settings worker_id w =
     (case claim_reference S R (ws_claim_timeout_seconds settings) w of
        (Inl (QueueFault (QueueMessageError _)), w1) \<Rightarrow> (Inr (), w1)
      | (Inl e, w1) \<Rightarrow> if is_redis_error e then sleep 1 w1 else (Inl e, w1)
      | (Inr None, w1) \<Rightarrow> (Inr (), w1)
      | (Inr (Some message), w1) \<Rightarrow> handle_reference S R driver worker_id message w1)"

text \<open>The first \<open>n\<close> iterations of \<^verbatim>\<open>while True\<close>.\<close>

fun worker_loop ::
  "'r schedule \<Rightarrow> 'r redis \<Rightarrow> (service_error \<Rightarrow> string) \<Rightarrow> WorkerSettings \<Rightarrow> string \<Rightarrow> nat \<Rightarrow> (unit, 'r) action" where
  "worker_loop S R driver settings worker_id 0 w = (Inr (), w)"
| "worker_loop S R driver settings worker_id (Suc n) w =
     and_then (worker_iteration S R driver settings worker_id w) (\<lambda>_. worker_loop S R driver settings worker_id n)"

text \<open>
  \<^verbatim>\<open>run_worker\<close> up to \<open>n\<close> iterations, with the identity the process drew; \<open>None\<close> would be a recovery
  script that does not end.
\<close>

definition run_worker ::
  "'r schedule \<Rightarrow> 'r redis \<Rightarrow> (service_error \<Rightarrow> string) \<Rightarrow> WorkerSettings \<Rightarrow> string \<Rightarrow> nat \<Rightarrow> 'r world
     \<Rightarrow> (service_error, unit, 'r world) outcome option" where
  "run_worker S R driver settings worker_id n w =
     (let w1 = interfere S w in
      map_option (\<lambda>(recovered, r).
          and_then (map_sum QueueFault id recovered, w1\<lparr>w_redis := r\<rparr>) (\<lambda>_.
          worker_loop S R driver settings worker_id n))
        (recover_processing R DEFAULT_KEYS (redis_at S (w_tick w)) (w_redis w1)))"

definition check_dependencies :: "'r schedule \<Rightarrow> 'r redis \<Rightarrow> (unit, 'r) action" where
  "check_dependencies S R w =
     and_then (db_read S (\<lambda>db. ()) w) (\<lambda>_ w1.
     and_then (queue_op S (queue_ping R) w1) (\<lambda>ok w2.
     if \<not> ok then (Inl (RuntimeFault ''Redis PING did not return success''), w2) else (Inr (), w2)))"

end
