(* ===== verification/Service_Invariant.thy ===== *)
theory Service_Invariant
  imports Repository_Jobs Repository_Deliveries Telemetry_Queue Payload_Worker
begin

text \<open>
  The invariant that ties the database to the queue: every queue entry is the reference of a job, a job
  that is queued, claimed or waiting for a retry has its reference in the waiting or the held list, and
  only failed jobs are in the failed list. Each transaction and each queue operation is shown to keep
  it, under the condition the services establish before they call it.
\<close>

section \<open>References\<close>

definition reference :: "TelemetryProcessingJob \<Rightarrow> QueueMessage" where
  "reference j = \<lparr>q_job_id = uuid_str (j_job_id j), q_packet_id = j_packet_id j\<rparr>"

abbreviation entry :: "TelemetryProcessingJob \<Rightarrow> bytes" where
  "entry j \<equiv> to_json_bytes (reference j)"

definition active :: "queue_view \<Rightarrow> bytes set" where
  "active v = set (v_pending v) \<union> set (v_processing v)"

fun in_flight :: "ProcessingJobState \<Rightarrow> bool" where
  "in_flight s = (s = J_QUEUED \<or> s = J_PROCESSING \<or> s = J_RETRY_WAIT)"

fun finished_state :: "ProcessingJobState \<Rightarrow> bool" where
  "finished_state s = (s = J_COMPLETE \<or> s = J_FAILED)"

text \<open>A stored result is what the worker computes from the bytes of the receipt its packet came from.\<close>

definition work_of :: "telemetry_db \<Rightarrow> string \<Rightarrow> TelemetryWorkItem \<Rightarrow> bool" where
  "work_of db pid work \<longleftrightarrow> (\<exists>p r. get_packet pid db = Some p \<and> get_delivery (p_source_receipt_id p) db = Some r
     \<and> wi_raw_body work = d_raw_body r \<and> wi_received_at work = as_utc (d_received_at r) \<and> wi_values work = packet_values p)"

definition result_ok :: "telemetry_db \<Rightarrow> ProcessedTelemetry \<Rightarrow> bool" where
  "result_ok db t \<longleftrightarrow> (\<exists>work res a. work_of db (t_packet_id t) work \<and> processing_result work = Inr (res, a) \<and> same_processing_result t res)"

definition sys_inv :: "telemetry_db \<Rightarrow> queue_view \<Rightarrow> bool" where
  "sys_inv db v \<longleftrightarrow> db_inv db \<and> queue_inv v \<and> (\<forall>t \<in> set (processed db). result_ok db t)
     \<and> (\<forall>e \<in> set (entries v). \<exists>k j. get_job k db = Some j \<and> e = entry j)
     \<and> (\<forall>k j. get_job k db = Some j \<longrightarrow> valid_message (reference j)
          \<and> (entry j \<in> set (v_failed v) \<longrightarrow> j_state j = J_FAILED)
          \<and> (in_flight (j_state j) \<longrightarrow> entry j \<in> active v)
          \<and> (j_state j = J_QUEUED \<longrightarrow> j_queue_message_id j = Some (uuid_str k)))"

text \<open>A job is looked after while its reference is active; it may leave the lists once it is finished.\<close>

definition kept :: "queue_view \<Rightarrow> TelemetryProcessingJob \<Rightarrow> bool" where
  "kept v j \<longleftrightarrow> entry j \<in> active v \<or> finished_state (j_state j)"

definition sys_rel :: "telemetry_db \<times> queue_view \<Rightarrow> telemetry_db \<times> queue_view \<Rightarrow> bool" where
  "sys_rel s s' \<longleftrightarrow> repo_step\<^sup>*\<^sup>* (fst s) (fst s')
     \<and> (\<forall>k j j'. get_job k (fst s) = Some j \<longrightarrow> get_job k (fst s') = Some j' \<longrightarrow> kept (snd s) j \<longrightarrow> kept (snd s') j')"

section \<open>Jobs over time\<close>

lemma get_job_id: "get_job k db = Some j \<Longrightarrow> j_job_id j = k"
  by (auto simp: get_job_def dest: get_row_Some)

lemma moved_reference: "job_moves j j' \<Longrightarrow> reference j' = reference j"
  by (simp add: job_moves_def job_identity_def reference_def)

lemma finished_stays: "job_moves j j' \<Longrightarrow> finished_state (j_state j) \<Longrightarrow> j_state j' = j_state j"
  by (auto simp: job_moves_def)

lemma steps_job:
  assumes "repo_step\<^sup>*\<^sup>* db db'" "db_inv db" "get_job k db = Some j"
  shows "\<exists>j'. get_job k db' = Some j' \<and> reference j' = reference j \<and> (finished_state (j_state j) \<longrightarrow> j_state j' = j_state j)"
  using assms
proof (induction rule: rtranclp_induct)
  case (step b c)
  then obtain j1 where j1: "get_job k b = Some j1" "reference j1 = reference j"
    "finished_state (j_state j) \<longrightarrow> j_state j1 = j_state j" by blast
  have "db_inv b" using steps_keep [OF step(1) step.prems(1)] by blast
  then obtain j2 where "get_job k c = Some j2" "job_moves j1 j2" using step_moves [OF step(2) _ j1(1)] by blast
  then show ?case using j1 moved_reference [of j1 j2] finished_stays [of j1 j2] by auto
qed auto

text \<open>The receipt a packet came from, and the bytes of a receipt.\<close>

definition sourced :: "telemetry_db \<Rightarrow> uuid \<Rightarrow> string \<Rightarrow> bool" where
  "sourced db rid pid \<longleftrightarrow> (\<exists>p. get_packet pid db = Some p \<and> p_source_receipt_id p = rid)"

definition holds_body :: "telemetry_db \<Rightarrow> uuid \<Rightarrow> bytes \<Rightarrow> bool" where
  "holds_body db rid raw \<longleftrightarrow> (\<exists>r. get_delivery rid db = Some r \<and> d_raw_body r = raw)"

lemma steps_sourced: "repo_step\<^sup>*\<^sup>* db db' \<Longrightarrow> db_inv db \<Longrightarrow> sourced db rid pid \<Longrightarrow> sourced db' rid pid"
  using steps_keep extends_packet unfolding sourced_def by blast

lemma steps_body: "repo_step\<^sup>*\<^sup>* db db' \<Longrightarrow> db_inv db \<Longrightarrow> holds_body db rid raw \<Longrightarrow> holds_body db' rid raw"
  using steps_keep extends_delivery evidence_eqD unfolding holds_body_def by metis

lemma extends_work:
  assumes ext: "db_extends db db'" and inv: "db_inv db'" and work: "work_of db pid work"
  shows "work_of db' pid work"
proof -
  obtain p r where p: "get_packet pid db = Some p" "get_delivery (p_source_receipt_id p) db = Some r"
    and w: "wi_raw_body work = d_raw_body r" "wi_received_at work = as_utc (d_received_at r)" "wi_values work = packet_values p"
    using work by (auto simp: work_of_def)
  obtain r' where "get_delivery (p_source_receipt_id p) db' = Some r'" "evidence r' = evidence r"
    using extends_delivery [OF ext inv p(2)] by blast
  then show ?thesis using extends_packet [OF ext inv p(1)] w evidence_eqD [of r' r] by (auto simp: work_of_def)
qed

lemma steps_work: "repo_step\<^sup>*\<^sup>* db db' \<Longrightarrow> db_inv db \<Longrightarrow> work_of db pid work \<Longrightarrow> work_of db' pid work"
  using steps_keep extends_work by blast

lemma accepted_sourced:
  assumes "db_inv db" "r \<in> set (receipts db)" "d_validation_status r = V_ACCEPTED" "d_logical_packet_id r = Some pid"
  shows "sourced db (d_receipt_id r) pid"
proof -
  have "delivery_ok db r" using assms(1,2) by (simp add: db_inv_def rows_ok_def)
  then obtain p where p: "p \<in> set (packets db)" "p_source_receipt_id p = d_receipt_id r" "p_packet_id p = pid"
    using assms(3,4) by (auto simp: delivery_ok_def)
  then show ?thesis using get_row_unique [OF inv_keys(2) [OF assms(1)] p(1)] by (auto simp: sourced_def get_packet_def)
qed

text \<open>The source of a packet whose job has a state shows that state.\<close>

lemma sourced_status:
  assumes inv: "db_inv db" and src: "sourced db rid pid" and j: "get_job k db = Some j" "j_packet_id j = pid"
  shows "\<exists>r. get_delivery rid db = Some r \<and> d_validation_status r = V_ACCEPTED \<and> d_logical_packet_id r = Some pid
    \<and> d_queue_status r = job_state_to_queue_status (j_state j)"
proof -
  obtain p where p: "p \<in> set (packets db)" "p_packet_id p = pid" "p_source_receipt_id p = rid"
    using src get_row_Some unfolding sourced_def get_packet_def by fastforce
  then obtain r where r: "r \<in> set (receipts db)" "d_receipt_id r = rid" "d_validation_status r = V_ACCEPTED"
    using inv by (auto simp: db_inv_def rows_ok_def packet_ok_def)
  then have "delivery_ok db r" using inv by (simp add: db_inv_def rows_ok_def)
  then obtain p' j' where p': "p' \<in> set (packets db)" "j' \<in> set (jobs db)" "p_source_receipt_id p' = rid"
      "d_logical_packet_id r = Some (p_packet_id p')" "j_packet_id j' = p_packet_id p'"
      "d_queue_status r = job_state_to_queue_status (j_state j')" using r by (auto simp: delivery_ok_def)
  have "distinct (map p_source_receipt_id (packets db))" using inv by (simp add: db_inv_def keys_ok_def)
  then have "p' = p" using row_unique [of p_source_receipt_id "packets db" p' p] p'(1,3) p(1,3) by simp
  moreover have "j \<in> set (jobs db)" using get_row_Some j(1) unfolding get_job_def by fastforce
  ultimately have "j' = j" using row_unique [OF inv_keys(6) [OF inv] p'(2)] p'(5) p(2) j(2) by simp
  then show ?thesis using r p' p(2) \<open>p' = p\<close> get_row_unique [OF inv_keys(1) [OF inv] r(1)] by (auto simp: get_delivery_def)
qed

lemma recorded_body:
  assumes inv: "db_inv db" and op: "record_delivery env env' inp db = Inr (x, db')"
  shows "holds_body db' (dr_receipt_id x) (in_raw_body inp)"
proof -
  have inv': "db_inv db'" using repo_step_keeps [OF record_delivery_is_step [OF op] inv] by blast
  obtain e t where at: "delivery_attempt inp t (sha256_hexdigest (in_raw_body inp)) (e, db, db) = Inr (x, db')"
    using op by (auto simp: record_delivery_def record_delivery_racing_def Let_def split: if_splits dest!: retry_once_Inr)
  have stored: "holds_body db' (dr_receipt_id x) (in_raw_body inp)"
    if st: "store_delivery e inp t (sha256_hexdigest (in_raw_body inp)) first db = Inr (x, db')" for first
  proof -
    let ?r = "new_receipt e inp t (sha256_hexdigest (in_raw_body inp)) first"
    have "?r \<in> set (receipts db')" "dr_receipt_id x = d_receipt_id ?r"
      using st by (auto simp: store_delivery_def Let_def bindE_Inr statement_simps delivery_result_def split: option.splits if_splits)
    then show ?thesis using get_row_unique [OF inv_keys(1) [OF inv'], of ?r] by (simp add: holds_body_def get_delivery_def new_receipt_def)
  qed
  show ?thesis
  proof (cases "\<exists>first. store_delivery e inp t (sha256_hexdigest (in_raw_body inp)) first db = Inr (x, db')")
    case True
    then show ?thesis using stored by blast
  next
    case False
    then obtain r k where "x = delivery_result r True False" "db' = db" "d_raw_body r = in_raw_body inp"
        "get_row d_receipt_id k (receipts db) = Some r"
      using at by (auto simp: delivery_attempt_def split: option.splits if_splits)
    then show ?thesis using get_row_Some by (fastforce simp: holds_body_def get_delivery_def delivery_result_def)
  qed
qed

lemma sys_rel_refl [simp]: "sys_rel s s"
  by (simp add: sys_rel_def)

lemma sys_rel_trans:
  assumes "sys_rel a b" "sys_rel b c" "db_inv (fst a)"
  shows "sys_rel a c"
proof -
  have "kept (snd c) j'" if j: "get_job k (fst a) = Some j" "get_job k (fst c) = Some j'" "kept (snd a) j" for k j j'
  proof -
    obtain j1 where "get_job k (fst b) = Some j1" using steps_job [OF _ assms(3) j(1)] assms(1) unfolding sys_rel_def by blast
    then show ?thesis using j assms(1,2) unfolding sys_rel_def by blast
  qed
  then show ?thesis using assms(1,2) unfolding sys_rel_def by auto
qed

lemma entry_inject:
  assumes "sys_inv db v" "get_job k db = Some j" "get_job l db = Some i"
  shows "entry j = entry i \<longleftrightarrow> k = l"
proof -
  have "valid_message (reference j)" "valid_message (reference i)" using assms by (auto simp: sys_inv_def)
  then have "entry j = entry i \<longleftrightarrow> reference j = reference i" by (rule to_json_inject)
  also have "\<dots> \<longleftrightarrow> k = l"
  proof
    assume "reference j = reference i"
    then have "uuid_str (j_job_id j) = uuid_str (j_job_id i)" by (simp add: reference_def)
    then show "k = l" using get_job_id [OF assms(2)] get_job_id [OF assms(3)] uuid_str_inject by simp
  qed (use assms in simp)
  finally show ?thesis .
qed

lemma new_entry:
  assumes "sys_inv db v" "get_job k db = None" "valid_message (reference j)" "j_job_id j = k"
  shows "entry j \<notin> set (entries v)"
proof
  assume "entry j \<in> set (entries v)"
  then obtain l i where i: "get_job l db = Some i" "entry j = entry i" "valid_message (reference i)"
    using assms(1) unfolding sys_inv_def by metis
  then have "reference j = reference i" using to_json_inject [OF assms(3) i(3)] by simp
  then have "uuid_str (j_job_id j) = uuid_str (j_job_id i)" by (simp add: reference_def)
  then show False using i(1) get_job_id [OF i(1)] assms(2,4) by simp
qed

section \<open>Transactions keep the invariant\<close>

text \<open>What one transaction makes of a job.\<close>

lemma moved_job:
  assumes inv: "sys_inv db v" and job: "get_job k db = Some j" and mv: "job_moves j j'"
    and queued: "j_state j' = J_QUEUED \<Longrightarrow> j' \<noteq> j \<Longrightarrow> entry j \<in> active v \<and> j_queue_message_id j' = Some (uuid_str k)"
  shows "valid_message (reference j') \<and> (entry j' \<in> set (v_failed v) \<longrightarrow> j_state j' = J_FAILED)
    \<and> (in_flight (j_state j') \<longrightarrow> entry j' \<in> active v) \<and> (j_state j' = J_QUEUED \<longrightarrow> j_queue_message_id j' = Some (uuid_str k))"
proof (cases "j' = j")
  case True
  then show ?thesis using inv job by (auto simp: sys_inv_def)
next
  case False
  have j: "valid_message (reference j)" "entry j \<in> set (v_failed v) \<longrightarrow> j_state j = J_FAILED"
    "in_flight (j_state j) \<longrightarrow> entry j \<in> active v" using inv job by (auto simp: sys_inv_def)
  have edge: "job_edge (j_state j) (j_state j')" using mv False by (simp add: job_moves_def)
  have "in_flight (j_state j') \<Longrightarrow> entry j \<in> active v" using j(3) queued False edge by (cases "j_state j") auto
  then show ?thesis using j queued False moved_reference [OF mv] finished_stays [OF mv] by auto
qed

text \<open>A transaction keeps it when new jobs have valid references and a job is marked queued only while active.\<close>

lemma transaction_keeps:
  assumes inv: "sys_inv db v" and step: "repo_step db db'"
    and new: "\<And>k j'. get_job k db = None \<Longrightarrow> get_job k db' = Some j' \<Longrightarrow>
      j_state j' = J_PENDING_QUEUE \<and> valid_message (reference j')"
    and queued: "\<And>k j j'. get_job k db = Some j \<Longrightarrow> get_job k db' = Some j' \<Longrightarrow> j_state j' = J_QUEUED \<Longrightarrow> j' \<noteq> j \<Longrightarrow>
      entry j \<in> active v \<and> j_queue_message_id j' = Some (uuid_str k)"
    and results: "\<And>t. t \<in> set (processed db') \<Longrightarrow> t \<in> set (processed db) \<or> result_ok db t"
  shows "sys_inv db' v \<and> sys_rel (db, v) (db', v)"
proof -
  have dbi: "db_inv db" and dbi': "db_inv db'" and ext: "db_extends db db'"
    using inv repo_step_keeps [OF step] by (auto simp: sys_inv_def)
  have old: "\<exists>j'. get_job k db' = Some j' \<and> job_moves j j'" if "get_job k db = Some j" for k j
    by (rule step_moves [OF step dbi that])
  have job: "valid_message (reference j') \<and> (entry j' \<in> set (v_failed v) \<longrightarrow> j_state j' = J_FAILED)
      \<and> (in_flight (j_state j') \<longrightarrow> entry j' \<in> active v) \<and> (j_state j' = J_QUEUED \<longrightarrow> j_queue_message_id j' = Some (uuid_str k))"
    if j': "get_job k db' = Some j'" for k j'
  proof (cases "get_job k db")
    case None
    then show ?thesis using new [OF None j'] new_entry [OF inv None] get_job_id [OF j'] by (auto simp: entries_def)
  next
    case (Some j)
    then have mv: "job_moves j j'" using old [OF Some] j' by auto
    then show ?thesis using moved_job [OF inv Some mv] queued [OF Some j'] by blast
  qed
  have "\<exists>k j. get_job k db' = Some j \<and> e = entry j" if e: "e \<in> set (entries v)" for e
  proof -
    obtain k j where "get_job k db = Some j" "e = entry j" using inv e by (auto simp: sys_inv_def)
    then show ?thesis using old moved_reference by fastforce
  qed
  moreover have "result_ok db' t" if "t \<in> set (processed db')" for t
    using results [OF that] inv extends_work [OF ext dbi'] unfolding sys_inv_def result_ok_def by blast
  ultimately have "sys_inv db' v" using inv job dbi' by (auto simp: sys_inv_def)
  moreover have "kept v j'" if j: "get_job k db = Some j" "get_job k db' = Some j'" "kept v j" for k j j'
  proof -
    have "job_moves j j'" using old [OF j(1)] j(2) by auto
    then show ?thesis using j(3) moved_reference finished_stays unfolding kept_def by metis
  qed
  ultimately show ?thesis using step unfolding sys_rel_def by auto
qed

lemma same_jobs_keep:
  assumes "sys_inv db v" "repo_step db db'" "jobs db' = jobs db" "processed db' = processed db"
  shows "sys_inv db' v \<and> sys_rel (db, v) (db', v)"
  by (rule transaction_keeps [OF assms(1,2)]) (simp_all add: get_job_def assms(3,4))

lemma other_job_keeps:
  assumes "sys_inv db v" "repo_step db db'" "jobs db' = put_row j_job_id new (jobs db)"
    and "get_row j_job_id k (jobs db) = Some old" "j_job_id new = k" "j_state new \<noteq> J_QUEUED"
    and "\<And>t. t \<in> set (processed db') \<Longrightarrow> t \<in> set (processed db) \<or> result_ok db t"
  shows "sys_inv db' v \<and> sys_rel (db, v) (db', v)"
  by (rule transaction_keeps [OF assms(1,2)])
    (use assms in \<open>auto simp: get_job_def get_put_row split: if_splits dest: has_row_get\<close>)

lemma claim_keeps:
  assumes inv: "sys_inv db v" and op: "claim_processing_job env k w lease db = Inr (x, db')"
  shows "sys_inv db' v \<and> sys_rel (db, v) (db', v)"
  using op
proof (cases rule: claim_processing_jobE)
  case (idle job)
  then show ?thesis using inv by simp
next
  case (finished job t)
  have "db_inv db" using inv by (simp add: sys_inv_def)
  then show ?thesis using complete_has_result [OF _ finished(1)] finished(3,4) by simp
next
  case (claimed job packet receipt db1 a)
  have jobs: "jobs db' = put_row j_job_id (claimed_job env w lease job) (jobs db)" using claimed(6,7) by (simp add: statement_simps)
  have id: "j_job_id (claimed_job env w lease job) = k" using get_row_Some [OF claimed(1)] by (simp add: claimed_job_def)
  have "processed db' = processed db" using claimed(6,7) by (simp add: statement_simps)
  then show ?thesis by (intro other_job_keeps [OF inv repo_step.step_claim [OF op] jobs claimed(1) id]) (simp_all add: claimed_job_def)
qed

lemma fail_keeps:
  assumes inv: "sys_inv db v" and op: "fail_processing_attempt env k w reason temp base t db = Inr (x, db')"
  shows "sys_inv db' v \<and> sys_rel (db, v) (db', v)"
  using op
proof (cases rule: fail_processing_attemptE)
  case (again job)
  then show ?thesis using inv by simp
next
  case (failed job final db1 a)
  let ?new = "failed_job (case t of Some u \<Rightarrow> u | None \<Rightarrow> now env) reason base final job"
  have jobs: "jobs db' = put_row j_job_id ?new (jobs db)" using failed(6,7) by (simp add: statement_simps)
  have id: "j_job_id ?new = k" using get_row_Some [OF failed(1)] by (simp add: failed_job_def Let_def)
  have "processed db' = processed db" using failed(6,7) by (simp add: statement_simps)
  then show ?thesis
    by (intro other_job_keeps [OF inv repo_step.step_fail [OF op] jobs failed(1) id]) (simp_all add: failed_job_def Let_def)
qed

lemma complete_keeps:
  assumes inv: "sys_inv db v" and op: "complete_processing_job env k res w t db = Inr (x, db')"
    and res: "\<And>j. get_job k db = Some j \<Longrightarrow> work_of db (j_packet_id j) work" "processing_result work = Inr (res, a)"
  shows "sys_inv db' v \<and> sys_rel (db, v) (db', v)"
  using op
proof (cases rule: complete_processing_jobE)
  case (existing job)
  have jobs: "jobs db' = put_row j_job_id (finished_job env x job) (jobs db)" "processed db' = processed db"
    using existing(4) by (simp_all add: statement_simps)
  have id: "j_job_id (finished_job env x job) = k" using get_row_Some [OF existing(1)] by (simp add: finished_job_def)
  show ?thesis
    by (rule other_job_keeps [OF inv repo_step.step_complete [OF op] jobs(1) existing(1) id]) (simp_all add: finished_job_def jobs(2))
next
  case (completed job db1 db2 au)
  let ?new = "completed_job (case t of Some u \<Rightarrow> u | None \<Rightarrow> now env) job"
  have jobs: "jobs db' = put_row j_job_id ?new (jobs db)" "processed db' = processed db @ [x]"
    using completed(6-8) by (simp_all add: statement_simps)
  have id: "j_job_id ?new = k" using get_row_Some [OF completed(1)] by (simp add: completed_job_def)
  have "result_ok db x" using res completed(1) unfolding completed(5)
    by (auto simp: result_ok_def get_job_def processed_row_def same_processing_result_def)
  then show ?thesis
    by (intro other_job_keeps [OF inv repo_step.step_complete [OF op] jobs(1) completed(1) id]) (auto simp: jobs(2) completed_job_def)
qed

lemma mark_keeps:
  assumes inv: "sys_inv db v" and op: "mark_job_queued env k (uuid_str k) actor db = Inr (x, db')"
    and kept: "\<And>j. get_job k db = Some j \<Longrightarrow> kept v j"
  shows "sys_inv db' v \<and> sys_rel (db, v) (db', v)"
  using op
proof (cases rule: mark_job_queuedE)
  case (again job)
  then show ?thesis using inv by simp
next
  case (queued job db1 db2 a)
  let ?new = "queued_job env (uuid_str k) job"
  have jobs: "jobs db' = put_row j_job_id ?new (jobs db)" "processed db' = processed db"
    using queued(3,5) save_receipts_fields [OF queued(4)] by (simp_all add: statement_simps)
  have id: "j_job_id ?new = k" using get_row_Some [OF queued(1)] by (simp add: queued_job_def)
  have "entry job \<in> active v" using kept [of job] queued(1,2) by (auto simp: get_job_def kept_def)
  then show ?thesis
    by (intro transaction_keeps [OF inv repo_step.step_queued [OF op]])
      (use jobs id queued(1) in \<open>auto simp: get_job_def get_put_row queued_job_def split: if_splits dest: has_row_get\<close>)
qed

text \<open>The state a job has after the transaction that decides it.\<close>

lemma mark_queues:
  assumes "mark_job_queued env k qid actor db = Inr (x, db')"
  shows "\<exists>j. get_job k db' = Some j \<and> j_state j = J_QUEUED"
  using assms
proof (cases rule: mark_job_queuedE)
  case (queued job db1 db2 a)
  have "jobs db' = put_row j_job_id (queued_job env qid job) (jobs db)"
    using queued(3,5) save_receipts_fields [OF queued(4)] by (simp add: statement_simps)
  then show ?thesis using get_row_Some [OF queued(1)] has_row_get [OF queued(1)]
    by (simp add: get_job_def get_put_row queued_job_def)
qed (auto simp: get_job_def)

lemma claims:
  assumes inv: "db_inv db" and op: "claim_processing_job env k w lease db = Inr (Some work, db')"
  shows "wi_job_id work = k \<and> (\<exists>j. get_job k db' = Some j \<and> work_of db' (j_packet_id j) work)"
  using op
proof (cases rule: claim_processing_jobE)
  case (claimed job packet receipt db1 a)
  have keeps: "db_inv db'" "db_extends db db'" using repo_step_keeps [OF repo_step.step_claim [OF op] inv] by auto
  have "work_of db (j_packet_id job) work" using claimed by (auto simp: work_of_def get_packet_def get_delivery_def)
  then have "work_of db' (j_packet_id job) work" by (rule extends_work [OF keeps(2,1)])
  moreover have "get_job k db' = Some (claimed_job env w lease job)"
    using claimed(6,7) get_row_Some [OF claimed(1)] has_row_get [OF claimed(1)]
    by (simp add: statement_simps get_job_def get_put_row claimed_job_def)
  ultimately show ?thesis using claimed(8) get_row_Some [OF claimed(1)] by (simp add: claimed_job_def)
qed simp_all

lemma completes:
  assumes "complete_processing_job env k res w t db = Inr (x, db')"
  shows "\<exists>j. get_job k db' = Some j \<and> j_state j = J_COMPLETE"
  using assms
proof (cases rule: complete_processing_jobE)
  case (existing job)
  then show ?thesis using get_row_Some [OF existing(1)] has_row_get [OF existing(1)]
    by (simp add: get_job_def get_put_row finished_job_def statement_simps)
next
  case (completed job db1 db2 a)
  then have "jobs db' = put_row j_job_id (completed_job (case t of Some u \<Rightarrow> u | None \<Rightarrow> now env) job) (jobs db)"
    by (simp add: statement_simps)
  then show ?thesis using get_row_Some [OF completed(1)] has_row_get [OF completed(1)]
    by (simp add: get_job_def get_put_row completed_job_def)
qed

lemma fails:
  assumes "fail_processing_attempt env k w reason temp base t db = Inr (x, db')" "pf_state x = J_FAILED"
  shows "\<exists>j. get_job k db' = Some j \<and> j_state j = J_FAILED"
  using assms(1)
proof (cases rule: fail_processing_attemptE)
  case (failed job final db1 a)
  then have "jobs db' = put_row j_job_id (failed_job (case t of Some u \<Rightarrow> u | None \<Rightarrow> now env) reason base final job) (jobs db)"
    by (simp add: statement_simps)
  moreover have final using failed(8) assms(2) by (simp split: if_splits)
  ultimately show ?thesis using get_row_Some [OF failed(1)] has_row_get [OF failed(1)]
    by (simp add: get_job_def get_put_row failed_job_def Let_def)
qed (auto simp: get_job_def)

lemma processed_kept:
  "delivery_attempt inp t dg (env, rd, db) = Inr (x, db') \<Longrightarrow> processed db' = processed db"
  "reject_delivery env rid reason ids actor db = Inr (x, db') \<Longrightarrow> processed db' = processed db"
  "record_audit_event env sn en ai oc rs rid' pid jid' dt db = Inr (u, db') \<Longrightarrow> processed db' = processed db"
  "accept_existing env r v actor ep db = Inr (y, db') \<Longrightarrow> processed db' = processed db"
  "accept_state_conflict env r v actor db = Inr (y, db') \<Longrightarrow> processed db' = processed db"
  by (auto simp: delivery_attempt_def store_delivery_def reject_delivery_def record_audit_event_def accept_existing_def
      accept_state_conflict_def Let_def statement_simps split: option.splits if_splits)

lemma frame_keeps:
  assumes "sys_inv db v"
  shows "record_delivery env env' inp db = Inr (x, db') \<Longrightarrow> sys_inv db' v \<and> sys_rel (db, v) (db', v)"
    "reject_delivery env rid reason ids actor db = Inr (y, db') \<Longrightarrow> sys_inv db' v \<and> sys_rel (db, v) (db', v)"
    "record_audit_event env sn en ai oc rs rid' pid jid' dt db = Inr (u, db') \<Longrightarrow> sys_inv db' v \<and> sys_rel (db, v) (db', v)"
proof -
  assume op: "record_delivery env env' inp db = Inr (x, db')"
  then have "jobs db' = jobs db" "processed db' = processed db"
    by (auto simp: record_delivery_def record_delivery_racing_def Let_def split: if_splits dest!: retry_once_Inr
        dest: jobs_kept processed_kept)
  then show "sys_inv db' v \<and> sys_rel (db, v) (db', v)" by (rule same_jobs_keep [OF assms record_delivery_is_step [OF op]])
next
  assume op: "reject_delivery env rid reason ids actor db = Inr (y, db')"
  show "sys_inv db' v \<and> sys_rel (db, v) (db', v)"
    by (rule same_jobs_keep [OF assms repo_step.step_reject [OF op] jobs_kept(2) [OF op] processed_kept(2) [OF op]])
next
  assume op: "record_audit_event env sn en ai oc rs rid' pid jid' dt db = Inr (u, db')"
  show "sys_inv db' v \<and> sys_rel (db, v) (db', v)"
    by (rule same_jobs_keep [OF assms repo_step.step_audit [OF op] jobs_kept(3) [OF op] processed_kept(3) [OF op]])
qed

section \<open>Acceptance\<close>

lemma job_by_packet:
  assumes "db_inv db" "get_row j_packet_id pid (jobs db) = Some j"
  shows "get_job (j_job_id j) db = Some j \<and> j_packet_id j = pid"
  using get_row_Some [OF assms(2)] get_row_unique [OF inv_keys(5) [OF assms(1)]] by (simp add: get_job_def)

lemma get_row_append_None: "get_row key k rows = None \<Longrightarrow> get_row key k (rows @ [r]) = (if key r = k then Some r else None)"
  by (induction rows) (auto simp: get_row_def split: if_splits)

lemma accept_packetE:
  assumes "accept_packet_transaction rid v ma actor (env, rd, ld, db) = Inr (x, db')"
  obtains (before) r where "get_row d_receipt_id rid (receipts db) = Some r" "x = accepted_before r db" "db' = db"
      "d_validation_status r = V_ACCEPTED \<or> d_validation_status r = V_DUPLICATE"
    | (existing) r ep where "get_row d_receipt_id rid (receipts db) = Some r" "accept_existing env r v actor ep db = Inr (x, db')"
    | (state) r where "get_row d_receipt_id rid (receipts db) = Some r" "accept_state_conflict env r v actor db = Inr (x, db')"
    | (new) r st d m where "get_row d_receipt_id rid (receipts db) = Some r" "accept_new env r v ma actor st d m db = Inr (x, db')"
proof -
  obtain r where r: "get_row d_receipt_id rid (receipts db) = Some r" using assms
    by (auto simp: accept_packet_transaction_def split: option.splits)
  have "(x = accepted_before r db \<and> db' = db \<and> (d_validation_status r = V_ACCEPTED \<or> d_validation_status r = V_DUPLICATE))
    \<or> (\<exists>ep. accept_existing env r v actor ep db = Inr (x, db')) \<or> accept_state_conflict env r v actor db = Inr (x, db')
    \<or> (\<exists>st d m. accept_new env r v ma actor st d m db = Inr (x, db'))"
  proof (cases "get_row source_key (dv_payload_id v, dv_boot_id v, dv_sequence_number v) (packets rd)")
    case None
    then show ?thesis using assms r
      by (simp add: accept_packet_transaction_def Let_def split: option.splits if_splits prod.splits) blast+
  next
    case (Some ep)
    then show ?thesis using assms r by (simp add: accept_packet_transaction_def split: if_splits) blast+
  qed
  then show ?thesis using that r by blast
qed

text \<open>An acceptance adds at most the job of its packet, and names a stored job and its own receipt.\<close>

lemma accept_adds:
  assumes "accept_packet_transaction rid v ma actor (env, rd, ld, db) = Inr (x, db')"
  shows "jobs db' = jobs db \<or> jobs db' = jobs db @ [new_job env (dv_packet_id v) ma]"
  using assms by (cases rule: accept_packetE) (auto dest: jobs_kept accept_new_jobs)

lemma accept_keeps_results:
  assumes "accept_packet_transaction rid v ma actor (env, rd, ld, db) = Inr (x, db')"
  shows "processed db' = processed db"
  using assms
proof (cases rule: accept_packetE)
  case (new r st d m)
  then show ?thesis by (auto elim!: accept_newE simp: statement_simps store_state_def split: option.splits)
qed (auto dest: processed_kept)

lemma accept_receipt_id:
  assumes "accept_packet_transaction rid v ma actor (env, rd, ld, db) = Inr (x, db')"
  shows "pa_receipt_id x = rid"
  using assms
proof (cases rule: accept_packetE)
  case (new r st d m)
  then show ?thesis using get_row_Some [OF new(1)] by (auto elim!: accept_newE)
qed (auto simp: accepted_before_def accept_existing_def accept_state_conflict_def Let_def bindE_Inr split: if_splits dest!: get_row_Some)

lemma accept_names_job:
  assumes "accept_packet_transaction rid v ma actor (env, rd, ld, db) = Inr (x, db')"
    and res: "pa_job_id x = Some jid" "pa_packet_id x = Some pid" "\<not> pa_conflict x"
  shows "\<exists>j \<in> set (jobs db'). j_job_id j = jid \<and> j_packet_id j = pid"
  using assms(1)
proof (cases rule: accept_packetE)
  case (before r)
  then show ?thesis using res by (auto simp: accepted_before_def Let_def bind_eq_Some_conv dest!: get_row_Some)
next
  case (existing r ep)
  then have "jobs db' = jobs db" by (intro jobs_kept(4))
  moreover have "\<exists>j \<in> set (jobs db). j_job_id j = jid \<and> j_packet_id j = pid"
    using existing(2) res by (auto simp: accept_existing_def Let_def bindE_Inr split: if_splits dest!: get_row_Some)
  ultimately show ?thesis by simp
next
  case (state r)
  then show ?thesis using res by (auto simp: accept_state_conflict_def Let_def bindE_Inr)
next
  case (new r st d m)
  then show ?thesis using res accept_new_jobs [OF new(2)] by (elim accept_newE) (auto simp: new_job_def)
qed

lemma accept_sources:
  assumes inv: "db_inv db" and op: "accept_packet_transaction rid v ma actor (env, rd, ld, db) = Inr (x, db')" and inv': "db_inv db'"
    and res: "pa_packet_id x = Some pid" "\<not> pa_conflict x" "\<not> pa_duplicate x"
  shows "sourced db' rid pid"
  using op
proof (cases rule: accept_packetE)
  case (before r)
  then have "d_validation_status r = V_ACCEPTED" using res(3) by (auto simp: accepted_before_def Let_def)
  then show ?thesis using accepted_sourced [OF inv, of r pid] get_row_Some [OF before(1)] before(2,3) res(1)
    by (simp add: accepted_before_def Let_def)
next
  case (new r st d m)
  have "new_packet env r v d m \<in> set (packets db')" "pid = dv_packet_id v" using new(2) res(1)
    by (auto elim!: accept_newE simp: statement_simps store_state_def split: option.splits)
  then show ?thesis using get_row_unique [OF inv_keys(2) [OF inv'], of "new_packet env r v d m"] get_row_Some [OF new(1)]
    by (simp add: sourced_def get_packet_def new_packet_def)
qed (use res in \<open>auto simp: accept_existing_def accept_state_conflict_def Let_def bindE_Inr split: if_splits\<close>)

lemma accept_keeps:
  assumes inv: "sys_inv db v" and op: "accept_packet_and_create_job env env' rid vs ma actor db = Inr (x, db')"
    and id: "packet_id_format (dv_packet_id vs)"
  shows "sys_inv db' v \<and> sys_rel (db, v) (db', v)
    \<and> (\<forall>jid pid. pa_job_id x = Some jid \<longrightarrow> pa_packet_id x = Some pid \<longrightarrow> \<not> pa_conflict x \<longrightarrow>
         (\<exists>j. get_job jid db' = Some j \<and> j_packet_id j = pid))
    \<and> pa_receipt_id x = rid \<and> (\<forall>pid. pa_packet_id x = Some pid \<longrightarrow> \<not> pa_conflict x \<longrightarrow> \<not> pa_duplicate x \<longrightarrow> sourced db' rid pid)"
proof -
  have dbi: "db_inv db" using inv by (simp add: sys_inv_def)
  obtain e where tx: "accept_packet_transaction rid vs ma actor (e, db, db, db) = Inr (x, db')"
    using op by (auto simp: accept_packet_and_create_job_def accept_packet_racing_def split: if_splits dest!: retry_once_Inr)
  have dbi': "db_inv db'" using repo_step_keeps [OF accept_packet_is_step [OF op] dbi] by blast
  have new: "valid_message (reference (new_job e (dv_packet_id vs) ma))" using id by (auto simp: valid_message_iff reference_def new_job_def)
  have "sys_inv db' v \<and> sys_rel (db, v) (db', v)"
  proof (rule transaction_keeps [OF inv accept_packet_is_step [OF op]])
    fix k j' assume "get_job k db = None" "get_job k db' = Some j'"
    then have "j' = new_job e (dv_packet_id vs) ma" using accept_adds [OF tx]
      using get_row_append_None [of j_job_id k "jobs db"] by (auto simp: get_job_def split: if_splits)
    then show "j_state j' = J_PENDING_QUEUE \<and> valid_message (reference j')" using new by (simp add: new_job_def)
  next
    fix k j j' assume "get_job k db = Some j" "get_job k db' = Some j'" "j_state j' = J_QUEUED" "j' \<noteq> j"
    then show "entry j \<in> active v \<and> j_queue_message_id j' = Some (uuid_str k)"
      using accept_adds [OF tx] job_appended [of db' db _ k j] by auto
  qed (simp add: accept_keeps_results [OF tx])
  moreover have "\<exists>j. get_job jid db' = Some j \<and> j_packet_id j = pid"
    if "pa_job_id x = Some jid" "pa_packet_id x = Some pid" "\<not> pa_conflict x" for jid pid
    using accept_names_job [OF tx that] get_row_unique [OF inv_keys(5) [OF dbi']] by (auto simp: get_job_def)
  ultimately show ?thesis using accept_receipt_id [OF tx] accept_sources [OF dbi tx dbi'] by blast
qed

section \<open>Queue operations keep the invariant\<close>

lemma valid_job_entry: "sys_inv db v \<Longrightarrow> get_job k db = Some j \<Longrightarrow> valid_message (reference j)"
  by (auto simp: sys_inv_def)

text \<open>Entries that move between the waiting and the held list.\<close>

lemma moves_keep:
  assumes inv: "sys_inv db v" and q: "queue_inv v'" and same: "active v' = active v" "set (v_failed v') = set (v_failed v)"
  shows "sys_inv db v' \<and> sys_rel (db, v) (db, v')"
proof -
  have "set (entries v') = set (entries v)" using same by (auto simp: entries_def active_def)
  then show ?thesis using assms by (simp add: sys_inv_def sys_rel_def kept_def)
qed

lemma enqueue_keeps:
  assumes inv: "sys_inv db v" and job: "get_job k db = Some j"
  shows "sys_inv db (snd (spec_enqueue (reference j) v)) \<and> sys_rel (db, v) (db, snd (spec_enqueue (reference j) v))"
    and "kept (snd (spec_enqueue (reference j) v)) j" "\<not> isl (fst (spec_enqueue (reference j) v))"
proof -
  let ?v = "snd (spec_enqueue (reference j) v)"
  have valid: "valid_message (reference j)" by (rule valid_job_entry [OF inv job])
  have q: "queue_inv v" using inv by (simp add: sys_inv_def)
  have cases: "(active ?v = insert (entry j) (active v) \<and> v_failed ?v = v_failed v \<and> \<not> isl (fst (spec_enqueue (reference j) v)))
      \<or> (?v = v \<and> entry j \<in> set (entries v) \<and> \<not> isl (fst (spec_enqueue (reference j) v)))"
  proof (cases "v_marked v (q_job_id (reference j))")
    case None
    then show ?thesis by (simp add: spec_enqueue_def active_def)
  next
    case (Some e)
    then obtain m where m: "valid_message m" "q_job_id m = q_job_id (reference j)" "e = to_json_bytes m" "e \<in> set (entries v)"
      using q unfolding queue_inv_def by blast
    obtain l i where i: "get_job l db = Some i" "e = entry i" using inv m(4) by (auto simp: sys_inv_def)
    have "m = reference i" using to_json_inject [OF m(1) valid_job_entry [OF inv i(1)]] m(3) i(2) by simp
    then have "l = k" using m(2) get_job_id [OF i(1)] get_job_id [OF job] by (simp add: reference_def)
    then have "e = entry j" using i job by simp
    then show ?thesis using Some m(4) by (simp add: spec_enqueue_def)
  qed
  show "\<not> isl (fst (spec_enqueue (reference j) v))" using cases by blast
  have qv: "queue_inv ?v" by (rule queue_inv_enqueue [OF q valid])
  show keeps: "sys_inv db ?v \<and> sys_rel (db, v) (db, ?v)"
    using cases
  proof
    assume a: "active ?v = insert (entry j) (active v) \<and> v_failed ?v = v_failed v \<and> \<not> isl (fst (spec_enqueue (reference j) v))"
    then have "set (entries ?v) = insert (entry j) (set (entries v))" by (auto simp: entries_def active_def)
    then show ?thesis using a inv job qv by (auto simp: sys_inv_def sys_rel_def kept_def)
  qed (use inv in simp)
  show "kept ?v j"
  proof (cases "entry j \<in> active ?v")
    case False
    then have "entry j \<in> set (v_failed ?v)" using cases by (auto simp: entries_def active_def)
    then show ?thesis using keeps job by (auto simp: sys_inv_def kept_def)
  qed (simp add: kept_def)
qed

text \<open>An entry is removed or set aside only for a finished job.\<close>

lemma removal_keeps:
  assumes inv: "sys_inv db v" and job: "get_job k db = Some j" and fin: "finished_state (j_state j)"
    and q: "queue_inv v'" and act: "active v' = active v - {entry j}"
    and failed: "set (v_failed v') = set (v_failed v) \<or> (j_state j = J_FAILED \<and> set (v_failed v') = insert (entry j) (set (v_failed v)))"
  shows "sys_inv db v' \<and> sys_rel (db, v) (db, v')"
proof -
  have same: "i = j" if "get_job l db = Some i" "entry i = entry j" for l i
    using that entry_inject [OF inv that(1) job] job by simp
  have ent: "set (entries v') \<subseteq> insert (entry j) (set (entries v))" using act failed by (auto simp: entries_def active_def)
  have jobs: "valid_message (reference i) \<and> (entry i \<in> set (v_failed v') \<longrightarrow> j_state i = J_FAILED)
      \<and> (in_flight (j_state i) \<longrightarrow> entry i \<in> active v')" if i: "get_job l db = Some i" for l i
  proof -
    have old: "valid_message (reference i)" "entry i \<in> set (v_failed v) \<longrightarrow> j_state i = J_FAILED"
      "in_flight (j_state i) \<longrightarrow> entry i \<in> active v" using inv i by (auto simp: sys_inv_def)
    have "j_state i = J_FAILED" if "entry i \<in> set (v_failed v')" using that failed old(2) same [OF i] by blast
    moreover have "entry i \<in> active v'" if "in_flight (j_state i)"
    proof -
      have "i \<noteq> j" using fin that by auto
      then show ?thesis using that old(3) act same [OF i] by blast
    qed
    ultimately show ?thesis using old(1) by blast
  qed
  have "\<exists>l i. get_job l db = Some i \<and> e = entry i" if "e \<in> set (entries v)" for e using that inv by (auto simp: sys_inv_def)
  then have "\<exists>l i. get_job l db = Some i \<and> e = entry i" if "e \<in> set (entries v')" for e using that ent job by blast
  then have "sys_inv db v'" using inv q jobs by (simp add: sys_inv_def)
  moreover have "kept v' i" if "get_job l db = Some i" "kept v i" for l i
    using that same [OF that(1)] act fin unfolding kept_def by blast
  ultimately show ?thesis by (simp add: sys_rel_def)
qed

text \<open>A claim moves one entry, which is the reference of a job.\<close>

lemma spec_take_keeps:
  assumes inv: "sys_inv db v"
  shows "sys_inv db (snd (spec_take v)) \<and> sys_rel (db, v) (db, snd (spec_take v))"
proof (rule moves_keep [OF inv])
  have "queue_inv v" using inv by (simp add: sys_inv_def)
  then show "queue_inv (snd (spec_take v))" by (rule queue_inv_move) (simp_all add: mset_take, simp add: spec_take_def)
  show "active (snd (spec_take v)) = active v"
    by (cases "v_pending v" rule: rev_cases) (auto simp: spec_take_def active_def)
  show "set (v_failed (snd (spec_take v))) = set (v_failed v)" by (simp add: spec_take_def)
qed

lemma spec_claim_keeps:
  assumes inv: "sys_inv db v" and c: "spec_claim av1 av2 t v = (res, v')"
  shows "sys_inv db v' \<and> sys_rel (db, v) (db, v') \<and> (\<forall>m. res = Inr (Some m) \<longrightarrow> (\<exists>k j. get_job k db = Some j \<and> reference j = m))"
proof -
  obtain x v1 where t: "spec_call av1 spec_take v = (x, v1)" by force
  have v1: "sys_inv db v1 \<and> sys_rel (db, v) (db, v1)"
    using t spec_take_keeps [OF inv] inv by (cases av1) (auto simp: spec_call_def)
  have entry: "\<exists>k j. get_job k db = Some j \<and> from_json_bytes raw = Inr (reference j)" if "x = Inr (Some raw)" for raw
  proof -
    have "raw \<in> set (entries v)" using t that by (cases av1) (auto simp: spec_call_def spec_take_def entries_def split: if_splits)
    then obtain k j where j: "get_job k db = Some j" "raw = entry j" using inv by (auto simp: sys_inv_def)
    then show ?thesis using from_to_json [OF valid_job_entry [OF inv j(1)]] by auto
  qed
  show ?thesis
  proof (cases "\<exists>raw. x = Inr (Some raw) \<and> \<not> isl (checked_timeout t)")
    case True
    then obtain raw where raw: "x = Inr (Some raw)" "\<not> isl (checked_timeout t)" by blast
    from entry [OF raw(1)] obtain k j where j: "get_job k db = Some j" "from_json_bytes raw = Inr (reference j)" by blast
    have "res = Inr (Some (reference j)) \<and> v' = v1" using c raw t j(2)
      by (cases "checked_timeout t") (auto simp: spec_claim_def)
    then show ?thesis using v1 j(1) by auto
  next
    case False
    then have "(v' = v \<or> v' = v1) \<and> (\<forall>m. res \<noteq> Inr (Some m))" using c t
      by (cases "checked_timeout t"; cases x) (auto simp: spec_claim_def split: option.splits)
    then show ?thesis using v1 inv by auto
  qed
qed

lemma spec_recover_keeps:
  assumes inv: "sys_inv db v"
  shows "sys_inv db (snd (spec_recover v)) \<and> sys_rel (db, v) (db, snd (spec_recover v))"
proof (rule moves_keep [OF inv])
  show "queue_inv (snd (spec_recover v))" using inv by (intro queue_inv_moves) (simp add: sys_inv_def)
qed (auto simp: spec_recover_def active_def)

end
