(* ===== verification/Service_Steps.thy ===== *)
theory Service_Steps
  imports Payload_Worker Repository_Lifecycle
begin

text \<open>
  Every run of a handler is a sequence of repository transactions, whatever the schedule: the contract
  of a service is the locale \<open>environment\<close>, and the rules \<open>advancing\<close> carry it through the control
  structure of the handlers.
\<close>

definition advances :: "'r world \<Rightarrow> 'r world \<Rightarrow> bool" where
  "advances w w' \<longleftrightarrow> repo_step\<^sup>*\<^sup>* (w_db w) (w_db w')"

lemma advances_refl [simp, intro]: "advances w w"
  by (simp add: advances_def)

lemma advances_trans [trans]: "advances a b \<Longrightarrow> advances b c \<Longrightarrow> advances a c"
  unfolding advances_def by (rule rtranclp_trans)

lemma advances_redis [simp]: "advances w (w\<lparr>w_redis := r, w_tick := t\<rparr>)" "advances w (w\<lparr>w_tick := t\<rparr>)"
  by (simp_all add: advances_def)

named_theorems advancing \<open>control structures keep the contract\<close>

lemma and_then_advances [advancing]:
  "advances w (snd m) \<Longrightarrow> (\<And>x w'. advances w' (snd (k x w'))) \<Longrightarrow> advances w (snd (and_then m k))"
  by (cases m; cases "fst m") (auto intro: advances_trans)

lemma on_error_advances [advancing]:
  "advances w (snd m) \<Longrightarrow> (\<And>e w'. advances w' (snd (h e w'))) \<Longrightarrow> advances w (snd (on_error m h))"
  by (cases m; cases "fst m") (auto intro: advances_trans)

lemma if_advances [advancing]:
  "(c \<Longrightarrow> advances w (snd a)) \<Longrightarrow> (\<not> c \<Longrightarrow> advances w (snd b)) \<Longrightarrow> advances w (snd (if c then a else b))"
  by simp

lemma option_advances [advancing]:
  "(x = None \<Longrightarrow> advances w (snd a)) \<Longrightarrow> (\<And>y. x = Some y \<Longrightarrow> advances w (snd (b y))) \<Longrightarrow>
     advances w (snd (case x of None \<Rightarrow> a | Some y \<Rightarrow> b y))"
  by (cases x) simp_all

lemma sum_advances [advancing]:
  "(\<And>e. x = Inl e \<Longrightarrow> advances w (snd (a e))) \<Longrightarrow> (\<And>y. x = Inr y \<Longrightarrow> advances w (snd (b y))) \<Longrightarrow>
     advances w (snd (case x of Inl e \<Rightarrow> a e | Inr y \<Rightarrow> b y))"
  by (cases x) simp_all

lemma bool_advances [advancing]:
  "advances w (snd a) \<Longrightarrow> advances w (snd b) \<Longrightarrow> advances w (snd (case x of True \<Rightarrow> a | False \<Rightarrow> b))"
  by (cases x) simp_all

lemma outcome_advances:
  "advances w (snd m) \<Longrightarrow> (\<And>e w'. advances w' (snd (a e w'))) \<Longrightarrow> (\<And>x w'. advances w' (snd (b x w'))) \<Longrightarrow>
     advances w (snd (case m of (Inl e, w') \<Rightarrow> a e w' | (Inr x, w') \<Rightarrow> b x w'))"
  by (cases m; cases "fst m") (auto intro: advances_trans)

lemma return_advances [advancing]: "advances w (snd (r, w))"
  by simp

lemma clock_advances [advancing]: "advances w (snd (clock S w))"
  by (simp add: clock_def)

section \<open>The contract of the environment\<close>

locale environment =
  fixes S :: "'r schedule"
  assumes others_commit: "repo_step\<^sup>*\<^sup>* db (fst (others S n (db, r)))"
begin

lemma interfere_advances: "advances w (interfere S w)"
  using others_commit [of "w_db w" "w_tick w" "w_redis w"] by (auto simp: advances_def interfere_def split: prod.split)

lemma redis_op_advances: "advances w (snd (redis_op fault S f w))"
  using interfere_advances [of w] by (simp add: redis_op_def advances_def Let_def split: prod.split)

lemma metric_safely_advances: "advances w (snd (metric_safely S R name amount w))"
  using redis_op_advances [of w MetricFault "\<lambda>av. increment R av name amount"] by (simp add: metric_safely_def)

lemma db_op_advances:
  assumes "\<And>env env' db x db'. f env env' db = Inr (x, db') \<Longrightarrow> repo_step\<^sup>*\<^sup>* db db'"
  shows "advances w (snd (db_op S f w))"
  using interfere_advances [of w] assms
  by (auto simp: advances_def db_op_def Let_def split: availability.split sum.split intro: rtranclp_trans)

lemma db_read_advances: "advances w (snd (db_read S q w))"
  unfolding db_read_def by (rule db_op_advances) simp

lemma query_op_advances:
  "advances w (snd (db_op S (\<lambda>env env'. recoverable_queue_jobs env limit) w))"
  "advances w (snd (db_op S (\<lambda>env env' db. map_sum id (\<lambda>events. (events, db)) (list_audit_events limit db)) w))"
  by (rule db_op_advances, auto simp: recoverable_queue_jobs_def list_audit_events_def split: if_splits)+

lemma step_advances:
  assumes "\<And>env env' db x db'. f env env' db = Inr (x, db') \<Longrightarrow> repo_step db db'"
  shows "advances w (snd (db_op S f w))"
  by (rule db_op_advances) (blast intro: assms)

lemma op_advances:
  "advances w (snd (db_op S (\<lambda>env env'. record_delivery env env' inp) w))"
  "advances w (snd (db_op S (\<lambda>env env'. reject_delivery env rid reason ids actor) w))"
  "advances w (snd (db_op S (\<lambda>env env'. accept_packet_and_create_job env env' rid v ma actor) w))"
  "advances w (snd (db_op S (\<lambda>env env'. mark_job_queued env jid qid actor) w))"
  "advances w (snd (db_op S (\<lambda>env env'. claim_processing_job env jid worker lease) w))"
  "advances w (snd (db_op S (\<lambda>env env'. complete_processing_job env jid res worker at') w))"
  "advances w (snd (db_op S (\<lambda>env env'. fail_processing_attempt env jid worker text temp base at') w))"
  "advances w (snd (db_op S (\<lambda>env env'. record_audit_event env sn en ai oc rs rid' pid jid' dt) w))"
  by (rule step_advances, (erule record_delivery_is_step | erule accept_packet_is_step | erule step_reject | erule step_queued
        | erule step_claim | erule step_complete | erule step_fail | erule step_audit))+

lemmas service_advances = advancing redis_op_advances metric_safely_advances op_advances query_op_advances db_read_advances

lemma audit_safely_advances: "advances w (snd (audit_safely S en ai oc rs dt w))"
  unfolding audit_safely_def by (intro service_advances)

lemma queue_one_advances: "advances w (snd (queue_one S R jid pid w))"
  unfolding queue_one_def by (intro service_advances)

lemma recover_jobs_advances: "advances w (snd (recover_jobs S R jids n w))"
proof (induction jids arbitrary: n w)
  case (Cons jid jids)
  then show ?case by (simp only: recover_jobs.simps) (intro service_advances queue_one_advances Cons.IH)
qed simp

lemma recover_pending_advances: "advances w (snd (recover_pending_jobs S R limit w))"
  unfolding recover_pending_jobs_def by (intro service_advances recover_jobs_advances)

lemma accept_frame_advances: "advances w (snd (accept_frame S R settings rid frame w))"
  unfolding accept_frame_def prod.case
  by (intro service_advances queue_one_advances)
    (auto intro!: service_advances queue_one_advances split: DeliveryQueueStatus.split option.split)

lemma validate_frame_advances: "advances w (snd (validate_frame S R settings rid raw t w))"
  unfolding validate_frame_def
  by (intro service_advances accept_frame_advances) (auto intro!: service_advances split: codec_error.split)

lemma validate_delivery_advances: "advances w (snd (validate_delivery S R settings request raw t rid existing w))"
  unfolding validate_delivery_def reject_with_def requeue_def
  by (intro service_advances queue_one_advances validate_frame_advances)
    (auto intro!: service_advances queue_one_advances split: option.split)

lemma deliver_advances: "advances w (snd (deliver S R settings request raw t w))"
  unfolding deliver_def by (intro service_advances validate_delivery_advances)

lemma receive_advances: "advances w (snd (receive_payload_data S R settings request w))"
  unfolding receive_payload_data_def unauthenticated_def size_rejected_def delivery_faults_def Let_def
  by (intro service_advances audit_safely_advances deliver_advances)

lemma readiness_advances: "advances w (snd (readiness S R w))"
proof -
  obtain x w1 where pg: "db_read S (\<lambda>db. ()) w = (x, w1)" by force
  then have "advances w w1" using db_read_advances [of w "\<lambda>db. ()"] by simp
  then show ?thesis using redis_op_advances [of w1 QueueFault "queue_ping R"]
    by (auto simp: readiness_def pg Let_def intro: advances_trans split: prod.split)
qed

lemma query_advances:
  "advances w (snd (get_raw_payload S R settings mid auth w))"
  "advances w (snd (get_processed_payload S R settings mid auth w))"
  "advances w (snd (get_audit_events S R settings limit auth w))"
  "advances w (snd (get_metrics S R settings auth w))"
  "advances w (snd (readiness S R w))"
  unfolding get_raw_payload_def get_processed_payload_def get_audit_events_def get_metrics_def authorized_def query_faults_def
  by ((intro service_advances)+, rule readiness_advances)

subsection \<open>The worker\<close>

lemma increment_safely_advances: "advances w (snd (increment_safely S R name w))"
  using redis_op_advances [of w MetricFault "\<lambda>av. increment R av name 1"] by (simp add: increment_safely_def)

lemma sleep_advances: "advances w (snd (sleep n w))"
  by (simp add: sleep_def)

lemma claim_reference_advances: "advances w (snd (claim_reference S R n w))"
  using redis_op_advances [of w QueueFault "\<lambda>av. claim R DEFAULT_KEYS av (redis_at S (Suc (w_tick w))) (PyInt n)"]
  by (simp add: claim_reference_def advances_def)

lemmas worker_advances = service_advances increment_safely_advances sleep_advances

lemma return_or_finish_advances: "advances w (snd (return_or_finish_unclaimed S R message jid w))"
  unfolding return_or_finish_unclaimed_def
  by (intro worker_advances) (auto intro!: worker_advances split: ProcessingJobState.split)

lemma fault_unclaimed_advances: "advances w (snd (fault_unclaimed S R message w))"
  unfolding fault_unclaimed_def
  by (intro worker_advances) (auto split: service_error.split queue_error.split)

lemma report_failure_advances: "advances w (snd (report_failure S R driver wid message work e w))"
  unfolding report_failure_def retry_later_def
  by (intro worker_advances outcome_advances)

lemma process_work_advances: "advances w (snd (process_work S R wid message work w))"
  unfolding process_work_def finish_processed_def
  by (intro worker_advances outcome_advances) (auto intro!: worker_advances outcome_advances split: prod.split)

lemma handle_reference_advances: "advances w (snd (handle_reference S R driver wid message w))"
  unfolding handle_reference_def
  by (intro worker_advances outcome_advances fault_unclaimed_advances return_or_finish_advances
      process_work_advances report_failure_advances)

lemma worker_iteration_advances: "advances w (snd (worker_iteration S R driver settings wid w))"
proof -
  obtain x w1 where c: "claim_reference S R (ws_claim_timeout_seconds settings) w = (x, w1)" by force
  then have "advances w w1" using claim_reference_advances [of w R "ws_claim_timeout_seconds settings"] by simp
  then show ?thesis using handle_reference_advances [of w1 R driver wid] sleep_advances [of w1 1]
    by (auto simp: worker_iteration_def c intro: advances_trans
        split: sum.split service_error.split queue_error.split option.split)
qed

lemma worker_loop_advances: "advances w (snd (worker_loop S R driver settings wid n w))"
proof (induction n arbitrary: w)
  case (Suc n)
  then show ?case by (simp only: worker_loop.simps) (intro advancing worker_iteration_advances)
qed simp

lemma run_worker_advances:
  assumes "run_worker S R driver settings wid n w = Some out"
  shows "advances w (snd out)"
proof -
  have "advances w ((interfere S w)\<lparr>w_redis := r\<rparr>)" for r using interfere_advances [of w] by (simp add: advances_def)
  then have "advances w (snd (and_then (x, (interfere S w)\<lparr>w_redis := r\<rparr>) (\<lambda>_. worker_loop S R driver settings wid n)))" for x r
    by (intro and_then_advances worker_loop_advances) simp
  then show ?thesis using assms by (auto simp: run_worker_def Let_def)
qed

lemmas service_runs = receive_advances recover_pending_advances query_advances worker_loop_advances run_worker_advances

end

section \<open>Environments\<close>

text \<open>A service alone, with all services up.\<close>

definition alone :: "(nat \<Rightarrow> tx_env) \<Rightarrow> 'r schedule" where
  "alone tx = \<lparr>tx_at = tx, retry_tx = tx, db_at = (\<lambda>_. Up), redis_at = (\<lambda>_. Up), others = (\<lambda>_ s. s)\<rparr>"

interpretation alone: environment "alone tx"
  by unfold_locales (simp add: alone_def)

text \<open>A service beside a worker that runs iterations of its own between any two calls.\<close>

definition beside_worker ::
  "(nat \<Rightarrow> tx_env) \<Rightarrow> 'r redis \<Rightarrow> (service_error \<Rightarrow> string) \<Rightarrow> WorkerSettings \<Rightarrow> string \<Rightarrow> (nat \<Rightarrow> nat) \<Rightarrow> 'r schedule" where
  "beside_worker tx R driver settings wid iterations = (alone tx)
     \<lparr>others := \<lambda>n (db, r).
        let w = snd (worker_loop (alone tx) R driver settings wid (iterations n) \<lparr>w_db = db, w_redis = r, w_tick = n\<rparr>)
        in (w_db w, w_redis w)\<rparr>"

interpretation beside_worker: environment "beside_worker tx R driver settings wid iterations"
proof
  fix db n r
  have "advances \<lparr>w_db = db, w_redis = r, w_tick = n\<rparr>
      (snd (worker_loop (alone tx) R driver settings wid (iterations n) \<lparr>w_db = db, w_redis = r, w_tick = n\<rparr>))"
    by (rule alone.worker_loop_advances)
  then show "repo_step\<^sup>*\<^sup>* db (fst (others (beside_worker tx R driver settings wid iterations) n (db, r)))"
    by (simp add: beside_worker_def advances_def Let_def)
qed

section \<open>Runs\<close>

inductive service_run :: "'r schedule \<Rightarrow> 'r redis \<Rightarrow> 'r world \<Rightarrow> 'r world \<Rightarrow> bool" for S R where
  run_receive: "service_run S R w (snd (receive_payload_data S R settings request w))"
| run_recovery: "service_run S R w (snd (recover_pending_jobs S R limit w))"
| run_raw: "service_run S R w (snd (get_raw_payload S R settings mid auth w))"
| run_processed: "service_run S R w (snd (get_processed_payload S R settings mid auth w))"
| run_audit: "service_run S R w (snd (get_audit_events S R settings limit auth w))"
| run_metrics: "service_run S R w (snd (get_metrics S R settings auth w))"
| run_readiness: "service_run S R w (snd (readiness S R w))"
| run_processing: "run_worker S R driver worker wid n w = Some out \<Longrightarrow> service_run S R w (snd out)"

lemma service_run_advances: "service_run S R w w' \<Longrightarrow> environment S \<Longrightarrow> advances w w'"
  by (induction rule: service_run.induct) (auto intro: environment.service_runs)

definition sample_settings :: GroundSettings where
  "sample_settings = \<lparr>gs_database_url = [], gs_redis_url = [], gs_vendor_token = ''vendor'', gs_operator_token = ''operator'',
     gs_admin_token = ''admin'', gs_max_telemetry_body_bytes = 1024, gs_processing_maximum_attempts = 3\<rparr>"

definition sample_request :: vendor_request where
  "sample_request = \<lparr>rq_vendor_token = Some ''vendor'', rq_request_id = Some (uuid_str 0x6f1ed002ab554c1a93dd000000000001),
     rq_content_length = Some ''28'', rq_content_type = Some ''application/octet-stream'', rq_stream = [golden_raw]\<rparr>"

text \<open>
  Whatever the schedule (clock readings, identifiers drawn, outages before and after a commit, and
  any transactions other processes commit in between), a run of any gateway handler, of the recovery at
  start-up and of any number of worker iterations takes the database through a sequence of repository
  transactions. Every state a service leaves behind is one the repository theorems speak about: starting
  from a reachable database it stays reachable, and all recorded evidence is kept.
\<close>

lemma services_commit_transactions:
  assumes "\<And>n db r. repo_step\<^sup>*\<^sup>* db (fst (others S n (db, r)))" "reachable (w_db w)" "service_run S R w w'"
  shows "repo_step\<^sup>*\<^sup>* (w_db w) (w_db w') \<and> reachable (w_db w') \<and> db_extends (w_db w) (w_db w')"
proof -
  have "environment S" using assms(1) by unfold_locales
  then have steps: "repo_step\<^sup>*\<^sup>* (w_db w) (w_db w')" using service_run_advances [OF assms(3)] by (simp add: advances_def)
  then show ?thesis using rtranclp_trans [OF assms(2) steps] steps_keep [OF steps reachable_db_inv [OF assms(2)]] by blast
qed

end
