(* ===== verification/Service_Safety.thy ===== *)
theory Service_Safety
  imports Service_Invariant Telemetry_Metrics Service_Steps
begin

text \<open>
  The services keep the invariant between database and queue. The contract with the environment is the
  locale \<open>shared_system\<close>: Redis keeps its laws, and the other processes keep the invariant too. The
  triple \<open>safe\<close> carries it through the control structure of the handlers.
\<close>

locale shared_system = redis_queue R kind val_at list_at hash_at DEFAULT_KEYS
  for R :: "'r redis" and kind val_at list_at hash_at +
  fixes S :: "'r schedule"
  assumes metric_key: "kind METRIC_HASH_KEY = KHash"
    and others_keep: "sys_inv db (view r) \<Longrightarrow> others S n (db, r) = (db', r') \<Longrightarrow>
      sys_inv db' (view r') \<and> sys_rel (db, view r) (db', view r')"
begin

abbreviation sys :: "'r world \<Rightarrow> bool" where
  "sys w \<equiv> sys_inv (w_db w) (view (w_redis w))"

abbreviation rel :: "'r world \<Rightarrow> 'r world \<Rightarrow> bool" where
  "rel w w' \<equiv> sys_rel (w_db w, view (w_redis w)) (w_db w', view (w_redis w'))"

definition safe :: "'r world \<Rightarrow> (service_error, 'a, 'r world) outcome \<Rightarrow> ('a \<Rightarrow> 'r world \<Rightarrow> bool) \<Rightarrow> bool" where
  "safe w m Q \<longleftrightarrow> (sys w \<longrightarrow> sys (snd m) \<and> rel w (snd m) \<and> (\<forall>x. fst m = Inr x \<longrightarrow> Q x (snd m)))"

lemma rel_trans: "sys a \<Longrightarrow> rel a b \<Longrightarrow> rel b c \<Longrightarrow> rel a c"
  by (rule sys_rel_trans) (auto simp: sys_inv_def)

subsection \<open>What stays true\<close>

definition names :: "'r world \<Rightarrow> QueueMessage \<Rightarrow> uuid \<Rightarrow> bool" where
  "names w m jid \<longleftrightarrow> (\<exists>j. get_job jid (w_db w) = Some j \<and> reference j = m)"

definition kept_at :: "'r world \<Rightarrow> uuid \<Rightarrow> bool" where
  "kept_at w jid \<longleftrightarrow> (\<exists>j. get_job jid (w_db w) = Some j \<and> kept (view (w_redis w)) j)"

definition state_at :: "'r world \<Rightarrow> uuid \<Rightarrow> ProcessingJobState \<Rightarrow> bool" where
  "state_at w jid s \<longleftrightarrow> (\<exists>j. get_job jid (w_db w) = Some j \<and> j_state j = s)"

lemma rel_job:
  assumes "sys w" "rel w w'" "get_job k (w_db w) = Some j"
  shows "\<exists>j'. get_job k (w_db w') = Some j' \<and> reference j' = reference j
    \<and> (finished_state (j_state j) \<longrightarrow> j_state j' = j_state j) \<and> (kept (view (w_redis w)) j \<longrightarrow> kept (view (w_redis w')) j')"
proof -
  have "db_inv (w_db w)" "repo_step\<^sup>*\<^sup>* (w_db w) (w_db w')" using assms(1,2) by (auto simp: sys_inv_def sys_rel_def)
  then obtain j' where "get_job k (w_db w') = Some j'" "reference j' = reference j"
    "finished_state (j_state j) \<longrightarrow> j_state j' = j_state j" using steps_job [OF _ _ assms(3)] by blast
  then show ?thesis using assms(2,3) by (auto simp: sys_rel_def)
qed

lemma names_stable: "sys w \<Longrightarrow> rel w w' \<Longrightarrow> names w m jid \<Longrightarrow> names w' m jid"
  unfolding names_def using rel_job by fastforce

lemma kept_stable: "sys w \<Longrightarrow> rel w w' \<Longrightarrow> kept_at w jid \<Longrightarrow> kept_at w' jid"
  unfolding kept_at_def using rel_job by blast

lemma state_stable: "sys w \<Longrightarrow> rel w w' \<Longrightarrow> finished_state s \<Longrightarrow> state_at w jid s \<Longrightarrow> state_at w' jid s"
  unfolding state_at_def using rel_job by blast

lemma sourced_stable: "sys w \<Longrightarrow> rel w w' \<Longrightarrow> sourced (w_db w) rid pid \<Longrightarrow> sourced (w_db w') rid pid"
  by (rule steps_sourced) (auto simp: sys_inv_def sys_rel_def)

lemma body_stable: "sys w \<Longrightarrow> rel w w' \<Longrightarrow> holds_body (w_db w) rid raw \<Longrightarrow> holds_body (w_db w') rid raw"
  by (rule steps_body) (auto simp: sys_inv_def sys_rel_def)

lemma names_tick [simp]: "names (w\<lparr>w_tick := t\<rparr>) m jid = names w m jid" "names (w\<lparr>w_redis := r\<rparr>) m jid = names w m jid"
  by (simp_all add: names_def)

subsection \<open>Rules\<close>

lemma safe_return: "(sys w \<Longrightarrow> (\<And>x. res = Inr x \<Longrightarrow> Q x w)) \<Longrightarrow> safe w (res, w) Q"
  by (auto simp: safe_def)

lemma safe_weaken: "safe w m Q \<Longrightarrow> (\<And>x w'. Q x w' \<Longrightarrow> T x w') \<Longrightarrow> safe w m T"
  by (auto simp: safe_def)

lemma safe_frame:
  "safe w m Q \<Longrightarrow> (\<And>x w'. sys w \<Longrightarrow> sys w' \<Longrightarrow> rel w w' \<Longrightarrow> Q x w' \<Longrightarrow> T x w') \<Longrightarrow> safe w m T"
  by (auto simp: safe_def)

lemma safe_if: "(c \<Longrightarrow> safe w a Q) \<Longrightarrow> (\<not> c \<Longrightarrow> safe w b Q) \<Longrightarrow> safe w (if c then a else b) Q"
  by simp

lemma safe_option:
  "(x = None \<Longrightarrow> safe w a Q) \<Longrightarrow> (\<And>y. x = Some y \<Longrightarrow> safe w (b y) Q) \<Longrightarrow> safe w (case x of None \<Rightarrow> a | Some y \<Rightarrow> b y) Q"
  by (cases x) simp_all

lemma safe_sum:
  "(\<And>e. x = Inl e \<Longrightarrow> safe w (a e) Q) \<Longrightarrow> (\<And>y. x = Inr y \<Longrightarrow> safe w (b y) Q) \<Longrightarrow>
     safe w (case x of Inl e \<Rightarrow> a e | Inr y \<Rightarrow> b y) Q"
  by (cases x) simp_all

lemma safe_bool: "(x \<Longrightarrow> safe w a Q) \<Longrightarrow> (\<not> x \<Longrightarrow> safe w b Q) \<Longrightarrow> safe w (case x of True \<Rightarrow> a | False \<Rightarrow> b) Q"
  by (cases x) simp_all

lemma safe_compose:
  assumes "safe w m Q"
    and "\<And>e w'. m = (Inl e, w') \<Longrightarrow> sys w \<Longrightarrow> sys w' \<Longrightarrow> rel w w' \<Longrightarrow> safe w' (a e w') T"
    and "\<And>x w'. m = (Inr x, w') \<Longrightarrow> sys w \<Longrightarrow> sys w' \<Longrightarrow> rel w w' \<Longrightarrow> Q x w' \<Longrightarrow> safe w' (b x w') T"
  shows "safe w (case m of (Inl e, w') \<Rightarrow> a e w' | (Inr x, w') \<Rightarrow> b x w') T"
proof (cases m)
  case (Pair res w')
  have "sys (snd (case m of (Inl e, w') \<Rightarrow> a e w' | (Inr x, w') \<Rightarrow> b x w'))
      \<and> rel w (snd (case m of (Inl e, w') \<Rightarrow> a e w' | (Inr x, w') \<Rightarrow> b x w'))
      \<and> (\<forall>x. fst (case m of (Inl e, w') \<Rightarrow> a e w' | (Inr x, w') \<Rightarrow> b x w') = Inr x
           \<longrightarrow> T x (snd (case m of (Inl e, w') \<Rightarrow> a e w' | (Inr x, w') \<Rightarrow> b x w')))" if s: "sys w"
  proof -
    have w': "sys w'" "rel w w'" and Q: "\<And>x. res = Inr x \<Longrightarrow> Q x w'" using assms(1) s by (auto simp: safe_def Pair)
    show ?thesis
    proof (cases res)
      case (Inl e)
      then have "safe w' (a e w') T" using assms(2) Pair s w' by blast
      then show ?thesis using Pair Inl w' rel_trans [OF s w'(2)] by (simp add: safe_def)
    next
      case (Inr x)
      then have "safe w' (b x w') T" using assms(3) Pair s w' Q by blast
      then show ?thesis using Pair Inr w' rel_trans [OF s w'(2)] by (simp add: safe_def)
    qed
  qed
  then show ?thesis by (simp add: safe_def)
qed

lemma safe_and_then:
  assumes "safe w m Q" "\<And>x w'. sys w \<Longrightarrow> sys w' \<Longrightarrow> rel w w' \<Longrightarrow> Q x w' \<Longrightarrow> safe w' (k x w') T"
  shows "safe w (and_then m k) T"
proof -
  have "safe w (case m of (Inl e, w') \<Rightarrow> (Inl e, w') | (Inr x, w') \<Rightarrow> k x w') T"
    by (rule safe_compose [OF assms(1)]) (auto intro: assms(2) safe_return)
  moreover have "(case m of (Inl e, w') \<Rightarrow> (Inl e, w') | (Inr x, w') \<Rightarrow> k x w') = and_then m k"
    by (cases m; cases "fst m") auto
  ultimately show ?thesis by simp
qed

lemma safe_on_error:
  assumes "safe w m Q" "\<And>e w'. m = (Inl e, w') \<Longrightarrow> sys w \<Longrightarrow> sys w' \<Longrightarrow> rel w w' \<Longrightarrow> safe w' (h e w') Q"
  shows "safe w (on_error m h) Q"
proof -
  have "safe w (case m of (Inl e, w') \<Rightarrow> h e w' | (Inr x, w') \<Rightarrow> (Inr x, w')) Q"
    by (rule safe_compose [OF assms(1)]) (auto intro: assms(2) safe_return)
  moreover have "(case m of (Inl e, w') \<Rightarrow> h e w' | (Inr x, w') \<Rightarrow> (Inr x, w')) = on_error m h"
    by (cases m; cases "fst m") auto
  ultimately show ?thesis by simp
qed

subsection \<open>Calls\<close>

lemma interfere_safe: "sys w \<Longrightarrow> sys (interfere S w) \<and> rel w (interfere S w)"
  using others_keep [of "w_db w" "w_redis w" "w_tick w"] by (simp add: interfere_def split: prod.split)

lemma clock_safe: "safe w (clock S w) (\<lambda>_ _. True)"
  by (simp add: safe_def clock_def)

lemma db_op_safe:
  assumes op: "\<And>w' env env' x db'. sys w \<Longrightarrow> sys w' \<Longrightarrow> rel w w' \<Longrightarrow> f env env' (w_db w') = Inr (x, db') \<Longrightarrow>
    sys_inv db' (view (w_redis w')) \<and> sys_rel (w_db w', view (w_redis w')) (db', view (w_redis w')) \<and> Q x (w'\<lparr>w_db := db'\<rparr>)"
  shows "safe w (db_op S f w) Q"
proof -
  let ?w = "interfere S w" let ?t = "w_tick w"
  have "sys (snd (db_op S f w)) \<and> rel w (snd (db_op S f w)) \<and> (\<forall>x. fst (db_op S f w) = Inr x \<longrightarrow> Q x (snd (db_op S f w)))"
    if s: "sys w"
  proof -
    have w': "sys ?w" "rel w ?w" using interfere_safe [OF s] by auto
    show ?thesis
    proof (cases "db_at S ?t = DownBefore \<or> (\<exists>e. f (tx_at S ?t) (retry_tx S ?t) (w_db ?w) = Inl e)")
      case True
      then show ?thesis using w' by (cases "db_at S ?t") (auto simp: db_op_def Let_def split: sum.splits)
    next
      case False
      then obtain x db' where f: "f (tx_at S ?t) (retry_tx S ?t) (w_db ?w) = Inr (x, db')"
        by (cases "f (tx_at S ?t) (retry_tx S ?t) (w_db ?w)") auto
      have "rel w (?w\<lparr>w_db := db'\<rparr>)" by (rule rel_trans [OF s w'(2)]) (use op [OF s w' f] in simp)
      then show ?thesis using False f op [OF s w' f] by (cases "db_at S ?t") (auto simp: db_op_def Let_def)
    qed
  qed
  then show ?thesis by (simp add: safe_def)
qed

lemma redis_op_safe:
  assumes op: "\<And>w' av res r. sys w \<Longrightarrow> sys w' \<Longrightarrow> rel w w' \<Longrightarrow> f av (w_redis w') = (res, r) \<Longrightarrow>
    sys_inv (w_db w') (view r) \<and> sys_rel (w_db w', view (w_redis w')) (w_db w', view r)
      \<and> (\<forall>x. res = Inr x \<longrightarrow> Q x (w'\<lparr>w_redis := r\<rparr>))"
  shows "safe w (redis_op fault S f w) Q"
proof -
  let ?w = "interfere S w"
  obtain res r where f: "f (redis_at S (w_tick w)) (w_redis ?w) = (res, r)" by force
  have "sys ((?w)\<lparr>w_redis := r\<rparr>) \<and> rel w ((?w)\<lparr>w_redis := r\<rparr>) \<and> (\<forall>x. res = Inr x \<longrightarrow> Q x ((?w)\<lparr>w_redis := r\<rparr>))" if s: "sys w"
  proof -
    have w': "sys ?w" "rel w ?w" using interfere_safe [OF s] by auto
    have "rel w (?w\<lparr>w_redis := r\<rparr>)" by (rule rel_trans [OF s w'(2)]) (use op [OF s w' f] in simp)
    then show ?thesis using op [OF s w' f] by simp
  qed
  then show ?thesis by (cases res) (auto simp: safe_def redis_op_def f Let_def)
qed

subsection \<open>Repository calls\<close>

lemma db_read_safe: "safe w (db_read S q w) (\<lambda>x w'. x = q (w_db w'))"
  unfolding db_read_def by (rule db_op_safe) auto

lemma query_op_safe:
  "safe w (db_op S (\<lambda>env env'. recoverable_queue_jobs env limit) w) (\<lambda>_ _. True)"
  "safe w (db_op S (\<lambda>env env' db. map_sum id (\<lambda>events. (events, db)) (list_audit_events limit db)) w) (\<lambda>_ _. True)"
  by (rule db_op_safe, auto simp: recoverable_queue_jobs_def list_audit_events_def split: if_splits)+

lemma keep_safe:
  assumes "\<And>db v env env' x db'. sys_inv db v \<Longrightarrow> f env env' db = Inr (x, db') \<Longrightarrow> sys_inv db' v \<and> sys_rel (db, v) (db', v)"
  shows "safe w (db_op S f w) (\<lambda>_ _. True)"
  by (rule db_op_safe) (use assms in blast)

lemma frame_op_safe:
  "safe w (db_op S (\<lambda>env env'. reject_delivery env rid reason ids actor) w) (\<lambda>_ _. True)"
  "safe w (db_op S (\<lambda>env env'. record_audit_event env sn en ai oc rs rid' pid jid' dt) w) (\<lambda>_ _. True)"
  by (rule keep_safe, erule (1) frame_keeps)+

lemma record_safe:
  "safe w (db_op S (\<lambda>env env'. record_delivery env env' inp) w) (\<lambda>x w'. holds_body (w_db w') (dr_receipt_id x) (in_raw_body inp))"
proof (rule db_op_safe)
  fix w' env env' x db'
  assume inv: "sys w'" and op: "record_delivery env env' inp (w_db w') = Inr (x, db')"
  have "db_inv (w_db w')" using inv by (simp add: sys_inv_def)
  then show "sys_inv db' (view (w_redis w')) \<and> sys_rel (w_db w', view (w_redis w')) (db', view (w_redis w'))
      \<and> holds_body (w_db (w'\<lparr>w_db := db'\<rparr>)) (dr_receipt_id x) (in_raw_body inp)"
    using frame_keeps(1) [OF inv op] recorded_body [OF _ op] by simp
qed

definition accepts :: "uuid \<Rightarrow> PacketAcceptanceResult \<Rightarrow> 'r world \<Rightarrow> bool" where
  "accepts rid x w \<longleftrightarrow> pa_receipt_id x = rid
     \<and> (\<forall>jid pid. pa_job_id x = Some jid \<longrightarrow> pa_packet_id x = Some pid \<longrightarrow> \<not> pa_conflict x \<longrightarrow>
          names w \<lparr>q_job_id = uuid_str jid, q_packet_id = pid\<rparr> jid)
     \<and> (\<forall>pid. pa_packet_id x = Some pid \<longrightarrow> \<not> pa_conflict x \<longrightarrow> \<not> pa_duplicate x \<longrightarrow> sourced (w_db w) rid pid)"

lemma accept_safe:
  assumes "packet_id_format (dv_packet_id v)"
  shows "safe w (db_op S (\<lambda>env env'. accept_packet_and_create_job env env' rid v ma actor) w) (accepts rid)"
proof (rule db_op_safe)
  fix w' env env' x db'
  assume "sys w'" "accept_packet_and_create_job env env' rid v ma actor (w_db w') = Inr (x, db')"
  note keeps = accept_keeps [OF this assms]
  have "names (w'\<lparr>w_db := db'\<rparr>) \<lparr>q_job_id = uuid_str jid, q_packet_id = pid\<rparr> jid"
    if "pa_job_id x = Some jid" "pa_packet_id x = Some pid" "\<not> pa_conflict x" for jid pid
    using keeps that get_job_id by (fastforce simp: names_def reference_def)
  then show "sys_inv db' (view (w_redis w')) \<and> sys_rel (w_db w', view (w_redis w')) (db', view (w_redis w'))
    \<and> accepts rid x (w'\<lparr>w_db := db'\<rparr>)" using keeps by (simp add: accepts_def)
qed

lemma mark_safe:
  assumes "kept_at w jid"
  shows "safe w (db_op S (\<lambda>env env'. mark_job_queued env jid (uuid_str jid) actor) w) (\<lambda>_ w'. state_at w' jid J_QUEUED)"
proof (rule db_op_safe)
  fix w' env env' x db'
  assume w: "sys w" "sys w'" "rel w w'" and op: "mark_job_queued env jid (uuid_str jid) actor (w_db w') = Inr (x, db')"
  have "kept_at w' jid" by (rule kept_stable [OF w(1,3) assms])
  then have "kept (view (w_redis w')) j" if "get_job jid (w_db w') = Some j" for j using that by (auto simp: kept_at_def)
  moreover have "state_at (w'\<lparr>w_db := db'\<rparr>) jid J_QUEUED" using mark_queues [OF op] by (auto simp: state_at_def)
  ultimately show "sys_inv db' (view (w_redis w')) \<and> sys_rel (w_db w', view (w_redis w')) (db', view (w_redis w'))
      \<and> state_at (w'\<lparr>w_db := db'\<rparr>) jid J_QUEUED" using mark_keeps [OF w(2) op] by blast
qed

text \<open>A claimed job carries the bytes of the receipt its packet came from.\<close>

definition work_at :: "'r world \<Rightarrow> uuid \<Rightarrow> TelemetryWorkItem \<Rightarrow> bool" where
  "work_at w jid work \<longleftrightarrow> wi_job_id work = jid \<and> (\<exists>j. get_job jid (w_db w) = Some j \<and> work_of (w_db w) (j_packet_id j) work)"

lemma work_stable:
  assumes "sys w" "rel w w'" "work_at w jid work"
  shows "work_at w' jid work"
proof -
  obtain j where j: "get_job jid (w_db w) = Some j" "work_of (w_db w) (j_packet_id j) work" "wi_job_id work = jid"
    using assms(3) by (auto simp: work_at_def)
  obtain j' where "get_job jid (w_db w') = Some j'" "j_packet_id j' = j_packet_id j"
    using rel_job [OF assms(1,2) j(1)] by (auto simp: reference_def)
  moreover have "work_of (w_db w') (j_packet_id j) work"
    by (rule steps_work [OF _ _ j(2)]) (use assms(1,2) in \<open>auto simp: sys_inv_def sys_rel_def\<close>)
  ultimately show ?thesis using j(3) by (simp add: work_at_def)
qed

lemma claim_safe:
  "safe w (db_op S (\<lambda>env env'. claim_processing_job env jid worker lease) w) (\<lambda>x w'. \<forall>work. x = Some work \<longrightarrow> work_at w' jid work)"
proof (rule db_op_safe)
  fix w' env env' x db'
  assume inv: "sys w'" and op: "claim_processing_job env jid worker lease (w_db w') = Inr (x, db')"
  have "\<forall>work. x = Some work \<longrightarrow> work_at (w'\<lparr>w_db := db'\<rparr>) jid work"
    using claims [of "w_db w'" env jid worker lease _ db'] op inv by (auto simp: work_at_def sys_inv_def)
  then show "sys_inv db' (view (w_redis w')) \<and> sys_rel (w_db w', view (w_redis w')) (db', view (w_redis w'))
      \<and> (\<forall>work. x = Some work \<longrightarrow> work_at (w'\<lparr>w_db := db'\<rparr>) jid work)" using claim_keeps [OF inv op] by blast
qed

lemma complete_safe:
  assumes work: "work_at w jid work" "processing_result work = Inr (res, a)"
  shows "safe w (db_op S (\<lambda>env env'. complete_processing_job env jid res worker at') w) (\<lambda>_ w'. state_at w' jid J_COMPLETE)"
proof (rule db_op_safe)
  fix w' env env' x db'
  assume w: "sys w" "sys w'" "rel w w'" and op: "complete_processing_job env jid res worker at' (w_db w') = Inr (x, db')"
  have "state_at (w'\<lparr>w_db := db'\<rparr>) jid J_COMPLETE" using completes [OF op] by (auto simp: state_at_def)
  moreover have "work_of (w_db w') (j_packet_id j) work" if "get_job jid (w_db w') = Some j" for j
    using work_stable [OF w(1,3) work(1)] that by (auto simp: work_at_def)
  ultimately show "sys_inv db' (view (w_redis w')) \<and> sys_rel (w_db w', view (w_redis w')) (db', view (w_redis w'))
      \<and> state_at (w'\<lparr>w_db := db'\<rparr>) jid J_COMPLETE" using complete_keeps [OF w(2) op _ work(2)] by blast
qed

lemma fail_safe:
  "safe w (db_op S (\<lambda>env env'. fail_processing_attempt env jid worker text temp base at') w)
     (\<lambda>x w'. pf_state x = J_FAILED \<longrightarrow> state_at w' jid J_FAILED)"
proof (rule db_op_safe)
  fix w' env env' x db'
  assume inv: "sys w'" and op: "fail_processing_attempt env jid worker text temp base at' (w_db w') = Inr (x, db')"
  have "pf_state x = J_FAILED \<longrightarrow> state_at (w'\<lparr>w_db := db'\<rparr>) jid J_FAILED" using fails [OF op] by (auto simp: state_at_def)
  then show "sys_inv db' (view (w_redis w')) \<and> sys_rel (w_db w', view (w_redis w')) (db', view (w_redis w'))
      \<and> (pf_state x = J_FAILED \<longrightarrow> state_at (w'\<lparr>w_db := db'\<rparr>) jid J_FAILED)" using fail_keeps [OF inv op] by blast
qed

subsection \<open>Redis calls\<close>

lemma view_same: "val_at r' = val_at r \<Longrightarrow> list_at r' = list_at r \<Longrightarrow> view r' = view r"
  by (simp add: view_of_def)

lemma metric_view: "view (snd (increment R av name amount r)) = view r"
proof (rule view_same)
  show "val_at (snd (increment R av name amount r)) = val_at r" "list_at (snd (increment R av name amount r)) = list_at r"
    by (cases av; simp add: increment_def redis_call_def hincrby_value hincrby_lists metric_key)+
qed

lemma metric_safe: "safe w (metric_op S (\<lambda>av. increment R av name amount) w) (\<lambda>_ _. True)"
  by (rule redis_op_safe) (use metric_view in \<open>metis snd_conv sys_rel_refl\<close>)

lemma unit_safe: "safe w m Q \<Longrightarrow> safe w (Inr (), snd m) (\<lambda>_ _. True)"
  by (simp add: safe_def)

lemma metric_safely_safe: "safe w (metric_safely S R name amount w) (\<lambda>_ _. True)"
  unfolding metric_safely_def by (rule unit_safe [OF metric_safe])

lemma increment_safely_safe: "safe w (increment_safely S R name w) (\<lambda>_ _. True)"
  unfolding increment_safely_def by (rule unit_safe [OF metric_safe])

lemma read_safe:
  assumes "\<And>av r. snd (f av r) = r"
  shows "safe w (redis_op fault S f w) (\<lambda>_ _. True)"
  by (rule redis_op_safe) (use assms in \<open>metis snd_conv sys_rel_refl\<close>)

lemma redis_reads:
  "snd (queue_depth R DEFAULT_KEYS av r) = r" "snd (queue_ping R av r) = r" "snd (snapshot R av r) = r"
  by (cases av; simp add: queue_depth_def queue_ping_def snapshot_def redis_call_def)+

text \<open>A call of the queue acts on the view as its specification does.\<close>

lemma queue_op_safe:
  assumes refines: "\<And>av r. map_prod id view (f av r) = spec_call av g (view r)"
    and keeps: "\<And>w'. sys w \<Longrightarrow> sys w' \<Longrightarrow> rel w w' \<Longrightarrow>
      sys_inv (w_db w') (snd (g (view (w_redis w')))) \<and> sys_rel (w_db w', view (w_redis w')) (w_db w', snd (g (view (w_redis w'))))"
    and result: "\<And>w' x r. sys w \<Longrightarrow> sys w' \<Longrightarrow> rel w w' \<Longrightarrow> fst (g (view (w_redis w'))) = Inr x \<Longrightarrow>
      view r = snd (g (view (w_redis w'))) \<Longrightarrow> Q x (w'\<lparr>w_redis := r\<rparr>)"
  shows "safe w (queue_op S f w) Q"
proof (rule redis_op_safe)
  fix w' av res r
  assume w: "sys w" "sys w'" "rel w w'" and f: "f av (w_redis w') = (res, r)"
  have "spec_call av g (view (w_redis w')) = (res, view r)" using refines [of av "w_redis w'"] f by simp
  then have "(view r = view (w_redis w') \<and> isl res) \<or> (view r = snd (g (view (w_redis w'))) \<and> (isl res \<or> res = fst (g (view (w_redis w')))))"
    by (cases av) (auto simp: spec_call_def)
  then show "sys_inv (w_db w') (view r) \<and> sys_rel (w_db w', view (w_redis w')) (w_db w', view r)
      \<and> (\<forall>x. res = Inr x \<longrightarrow> Q x (w'\<lparr>w_redis := r\<rparr>))"
    using w keeps [OF w] result [OF w] by auto
qed

lemma enqueue_safe:
  assumes "names w m jid"
  shows "safe w (queue_op S (\<lambda>av. enqueue R DEFAULT_KEYS av m) w) (\<lambda>_ w'. kept_at w' jid)"
proof (rule queue_op_safe [OF enqueue_refines])
  fix w' assume w: "sys w" "sys w'" "rel w w'"
  obtain j where j: "get_job jid (w_db w') = Some j" "reference j = m" using names_stable [OF w(1,3) assms] by (auto simp: names_def)
  note k = enqueue_keeps [OF w(2) j(1), unfolded j(2)]
  show "sys_inv (w_db w') (snd (spec_enqueue m (view (w_redis w'))))
      \<and> sys_rel (w_db w', view (w_redis w')) (w_db w', snd (spec_enqueue m (view (w_redis w'))))" by (rule k(1))
  show "kept_at (w'\<lparr>w_redis := r\<rparr>) jid" if "view r = snd (spec_enqueue m (view (w_redis w')))" for r
    using that j k(2) by (simp add: kept_at_def)
qed

lemma retry_safe: "safe w (queue_op S (\<lambda>av. retry R DEFAULT_KEYS av m) w) (\<lambda>_ _. True)"
proof (rule queue_op_safe [OF retry_refines])
  fix w' assume w: "sys w'"
  let ?v = "view (w_redis w')"
  show "sys_inv (w_db w') (snd (spec_retry m ?v)) \<and> sys_rel (w_db w', ?v) (w_db w', snd (spec_retry m ?v))"
  proof (rule moves_keep [OF w])
    have "queue_inv ?v" using w by (simp add: sys_inv_def)
    then show "queue_inv (snd (spec_retry m ?v))" by (rule queue_inv_moves)
    have d: "distinct (v_processing ?v)" using w by (auto simp: sys_inv_def queue_inv_def entries_def)
    show "active (snd (spec_retry m ?v)) = active ?v" using d by (auto simp: spec_retry_def active_def)
    show "set (v_failed (snd (spec_retry m ?v))) = set (v_failed ?v)" by (simp add: spec_retry_def)
  qed
qed simp

lemma entry_places:
  assumes "queue_inv v" "e \<in> set (v_processing v)"
  shows "e \<notin> set (v_pending v)" "e \<notin> set (v_failed v)" "set (remove1 e (v_processing v)) = set (v_processing v) - {e}"
  using assms by (auto simp: queue_inv_def entries_def)

lemma ack_safe:
  assumes m: "names w m jid" and s: "finished_state s" "state_at w jid s"
  shows "safe w (queue_op S (\<lambda>av. ack R DEFAULT_KEYS av m) w) (\<lambda>_ _. True)"
proof (rule queue_op_safe [OF ack_refines])
  fix w' assume w: "sys w" "sys w'" "rel w w'"
  let ?v = "view (w_redis w')"
  have q: "queue_inv ?v" using w(2) by (simp add: sys_inv_def)
  obtain j where j: "get_job jid (w_db w') = Some j" "reference j = m" using names_stable [OF w(1,3) m] by (auto simp: names_def)
  have fin: "finished_state (j_state j)" using state_stable [OF w(1,3) s] j(1) s(1) by (auto simp: state_at_def)
  show "sys_inv (w_db w') (snd (spec_ack m ?v)) \<and> sys_rel (w_db w', ?v) (w_db w', snd (spec_ack m ?v))"
  proof (cases "entry j \<in> set (v_processing ?v)")
    case True
    have "queue_inv (snd (spec_ack m ?v))" using queue_inv_ack [OF q valid_job_entry [OF w(2) j(1)]] j(2) by simp
    then show ?thesis
      by (rule removal_keeps [OF w(2) j(1) fin]) (use True j(2) entry_places [OF q True] in \<open>auto simp: spec_ack_def active_def\<close>)
  next
    case False
    then show ?thesis using w(2) j(2) by (simp add: spec_ack_def)
  qed
qed simp

lemma dead_letter_safe:
  assumes m: "names w m jid" and s: "state_at w jid J_FAILED"
  shows "safe w (queue_op S (\<lambda>av. dead_letter R DEFAULT_KEYS av m) w) (\<lambda>_ _. True)"
proof (rule queue_op_safe [OF dead_letter_refines])
  fix w' assume w: "sys w" "sys w'" "rel w w'"
  let ?v = "view (w_redis w')" and ?f = "spec_quarantine (not_processing m) () (to_json_bytes m)"
  have q: "queue_inv ?v" using w(2) by (simp add: sys_inv_def)
  obtain j where j: "get_job jid (w_db w') = Some j" "reference j = m" using names_stable [OF w(1,3) m] by (auto simp: names_def)
  have st: "j_state j = J_FAILED" using state_stable [OF w(1,3) _ s] j(1) by (auto simp: state_at_def)
  then have fin: "finished_state (j_state j)" by simp
  show "sys_inv (w_db w') (snd (?f ?v)) \<and> sys_rel (w_db w', ?v) (w_db w', snd (?f ?v))"
  proof (cases "entry j \<in> set (v_processing ?v)")
    case True
    have "queue_inv (snd (?f ?v))" using q by (rule queue_inv_moves)
    then show ?thesis
      by (rule removal_keeps [OF w(2) j(1) fin]) (use True j(2) st entry_places [OF q True] in \<open>auto simp: spec_quarantine_def active_def\<close>)
  next
    case False
    then show ?thesis using w(2) j(2) by (simp add: spec_quarantine_def)
  qed
qed simp

lemma claim_reference_safe:
  "safe w (claim_reference S R t w) (\<lambda>x w'. \<forall>m. x = Some m \<longrightarrow> (\<exists>jid. names w' m jid))"
proof -
  let ?Q = "\<lambda>x w'. \<forall>m. x = Some m \<longrightarrow> (\<exists>jid. names w' m jid)"
  have "safe w (queue_op S (\<lambda>av. claim R DEFAULT_KEYS av (redis_at S (Suc (w_tick w))) (PyInt t)) w) ?Q"
  proof (rule redis_op_safe)
    fix w' av res r
    assume inv: "sys w'" and c: "claim R DEFAULT_KEYS av (redis_at S (Suc (w_tick w))) (PyInt t) (w_redis w') = (res, r)"
    have "spec_claim av (redis_at S (Suc (w_tick w))) (PyInt t) (view (w_redis w')) = (res, view r)"
      using claim_refines [of av "redis_at S (Suc (w_tick w))" "PyInt t" "w_redis w'"] c by simp
    then show "sys_inv (w_db w') (view r) \<and> sys_rel (w_db w', view (w_redis w')) (w_db w', view r)
        \<and> (\<forall>x. res = Inr x \<longrightarrow> ?Q x (w'\<lparr>w_redis := r\<rparr>))"
      using spec_claim_keeps [OF inv] by (simp add: names_def)
  qed
  then show ?thesis by (simp add: claim_reference_def safe_def names_def)
qed

end

end
