(* ===== verification/Service_Handlers.thy ===== *)
theory Service_Handlers
  imports Service_Safety
begin

text \<open>Every service keeps the invariant between database and queue.\<close>

lemma decoded_packet_id:
  assumes "decode_telemetry raw t = Inr frame"
  shows "format_packet_id (payload_id frame) (boot_id frame) (sequence_number frame) = Inr (dv_packet_id (telemetry_values frame))"
    and "packet_id_format (dv_packet_id (telemetry_values frame))"
proof -
  have "validate_fields frame (Some t) = Inr ()" using assms by (auto simp: decode_iff_encode encode_telemetry_Inr)
  then show "format_packet_id (payload_id frame) (boot_id frame) (sequence_number frame) = Inr (dv_packet_id (telemetry_values frame))"
    by (auto simp: validate_fields_def format_packet_id_def dv_packet_id_def telemetry_values_def UINT32_MAX_eq SUPPORTED_PAYLOAD_ID_def
        split: if_splits sum.splits)
  then show "packet_id_format (dv_packet_id (telemetry_values frame))" by (rule frame_packet_id_format)
qed

context shared_system
begin

text \<open>Calls whose result does not matter for what follows.\<close>

lemmas safe_then = safe_and_then [where Q = "\<lambda>_ _. True"]

lemmas safe_rules = safe_return safe_if safe_option safe_sum safe_bool safe_then safe_on_error

lemma audit_safely_safe: "safe w (audit_safely S en ai oc rs dt w) (\<lambda>_ _. True)"
  unfolding audit_safely_def by (intro safe_rules frame_op_safe) simp_all

lemma queue_one_safe:
  assumes "names w \<lparr>q_job_id = uuid_str jid, q_packet_id = pid\<rparr> jid"
  shows "safe w (queue_one S R jid pid w) (\<lambda>_ w'. state_at w' jid J_QUEUED)"
proof (cases "queue_message (uuid_str jid) pid")
  case (Inl e)
  then show ?thesis by (auto simp: queue_one_def intro: safe_return)
next
  case (Inr m)
  then have m: "m = \<lparr>q_job_id = uuid_str jid, q_packet_id = pid\<rparr>" by (simp add: queue_message_iff)
  have "safe w (and_then (queue_op S (\<lambda>av. enqueue R DEFAULT_KEYS av m) w)
      (\<lambda>queued. db_op S (\<lambda>env env'. mark_job_queued env jid (uuid_str jid) ''ground-api''))) (\<lambda>_ w'. state_at w' jid J_QUEUED)"
    by (rule safe_and_then [OF enqueue_safe mark_safe]) (use assms m in simp_all)
  then show ?thesis by (simp add: queue_one_def Inr)
qed

lemma job_names: "get_job k (w_db w) = Some j \<Longrightarrow> names w \<lparr>q_job_id = uuid_str (j_job_id j), q_packet_id = j_packet_id j\<rparr> (j_job_id j)"
  using get_job_id [of k "w_db w" j] by (auto simp: names_def reference_def)

lemma recover_jobs_safe: "safe w (recover_jobs S R jids n w) (\<lambda>_ _. True)"
proof (induction jids arbitrary: n w)
  case Nil
  then show ?case by (simp add: safe_return)
next
  case (Cons jid jids)
  show ?case
    unfolding recover_jobs.simps
  proof (rule safe_and_then [OF db_read_safe], rule safe_option, goal_cases)
    case (2 job w' j)
    then show ?case by (intro safe_and_then [OF queue_one_safe [OF job_names]] Cons.IH) simp
  qed (rule Cons.IH)
qed

lemma recover_pending_safe: "safe w (recover_pending_jobs S R limit w) (\<lambda>_ _. True)"
  unfolding recover_pending_jobs_def by (rule safe_and_then [OF query_op_safe(1) recover_jobs_safe])

text \<open>What the answer 202 promises, for the delivery with receipt \<open>rid\<close>.\<close>

definition queued_answer :: "uuid \<Rightarrow> http_response \<Rightarrow> 'r world \<Rightarrow> bool" where
  "queued_answer rid resp w \<longleftrightarrow> (h_status resp = 202 \<longrightarrow> (\<exists>pid jid rest.
     h_content resp = JObj ((''receipt_id'', JStr (uuid_str rid)) # (''packet_id'', JStr pid) # rest)
     \<and> sourced (w_db w) rid pid \<and> names w \<lparr>q_job_id = uuid_str jid, q_packet_id = pid\<rparr> jid \<and> state_at w jid J_QUEUED))"

lemma not_202 [simp]: "s \<noteq> 202 \<Longrightarrow> queued_answer rid (json_response s c) w"
  by (simp add: queued_answer_def json_response_def)

lemma queue_answer_safe:
  assumes src: "sourced (w_db w) rid pid" and n: "names w \<lparr>q_job_id = uuid_str jid, q_packet_id = pid\<rparr> jid"
    and answer: "\<And>b. h_content (answer b) = JObj ((''receipt_id'', JStr (uuid_str rid)) # (''packet_id'', JStr pid) # rest)"
  shows "safe w (and_then (queue_one S R jid pid w) (\<lambda>b w'. (Inr (answer b), w'))) (queued_answer rid)"
proof (rule safe_and_then [OF queue_one_safe [OF n]], rule safe_return, goal_cases)
  case (1 b w' x)
  then show ?case
    using sourced_stable [OF 1(1,3) src] names_stable [OF 1(1,3) n] answer [of b] by (auto simp: queued_answer_def)
qed

lemma requeue_duplicate_safe:
  assumes "accepts rid x w" "\<not> pa_conflict x"
  shows "safe w (case (pa_queue_status x, pa_job_id x, pa_packet_id x) of
        (Q_PENDING_QUEUE, Some job_id, Some pid) \<Rightarrow> queue_one S R job_id pid w | _ \<Rightarrow> (Inr False, w)) (\<lambda>_ _. True)"
proof -
  have "safe w (queue_one S R jid pid w) (\<lambda>_ _. True)" if "pa_job_id x = Some jid" "pa_packet_id x = Some pid" for jid pid
    by (rule safe_weaken [OF queue_one_safe]) (use assms that in \<open>auto simp: accepts_def\<close>)
  then show ?thesis by (auto intro: safe_return split: DeliveryQueueStatus.split option.split)
qed

lemma accept_frame_safe:
  assumes "packet_id_format (dv_packet_id (telemetry_values frame))"
  shows "safe w (accept_frame S R settings rid frame w) (queued_answer rid)"
  unfolding accept_frame_def
proof (rule safe_and_then [OF accept_safe [OF assms]], intro safe_if, goal_cases)
  case (1 x w')
  show ?case by (intro safe_rules metric_safely_safe) auto
next
  case (2 x w')
  then show ?case
    by (intro safe_and_then [OF requeue_duplicate_safe] safe_and_then [OF metric_safely_safe] safe_return) auto
next
  case (3 x w')
  show ?case
  proof (cases "pa_job_id x = None \<or> pa_packet_id x = None")
    case True
    then show ?thesis by (auto intro: safe_return split: option.split)
  next
    case False
    then obtain jid pid where j: "pa_job_id x = Some jid" "pa_packet_id x = Some pid" by auto
    have n: "names w' \<lparr>q_job_id = uuid_str jid, q_packet_id = pid\<rparr> jid" and src: "sourced (w_db w') rid pid"
      and rid: "pa_receipt_id x = rid" using 3(4-6) j by (auto simp: accepts_def)
    have answer: "safe w2 (and_then (queue_one S R jid pid w2) (\<lambda>_ w3. (Inr (json_response 202 [(''receipt_id'', JStr (uuid_str rid)),
        (''packet_id'', JStr pid), (''status'', JStr ''QUEUED''), (''duplicate'', JBool False)]), w3))) (queued_answer rid)"
      if "sys w'" "rel w' w2" for w2
      by (rule queue_answer_safe [OF sourced_stable [OF that src] names_stable [OF that n]]) (simp add: json_response_def)
    show ?thesis unfolding j prod.case option.case rid
      by (rule safe_then) (intro safe_if metric_safely_safe safe_return TrueI, rule answer)
  qed
qed

lemma validate_frame_safe: "safe w (validate_frame S R settings rid raw t w) (queued_answer rid)"
proof (cases "decode_telemetry raw t")
  case (Inl e)
  have "safe w (and_then (db_op S (\<lambda>env env'. reject_delivery env rid (reason_value reason) None ''ground-api'') w) (\<lambda>_ w1.
      and_then (metric_safely S R ''payload_messages_rejected_total'' 1 w1) (\<lambda>_ w2. (Inr (json_response 422 c), w2))))
      (queued_answer rid)" for reason c
    by (intro safe_then frame_op_safe metric_safely_safe safe_return) auto
  then show ?thesis using Inl by (cases e) (auto simp: validate_frame_def intro: safe_return)
next
  case (Inr frame)
  then show ?thesis using accept_frame_safe [OF decoded_packet_id(2)] by (simp add: validate_frame_def)
qed

lemma requeue_safe:
  assumes "sourced (w_db w) (d_receipt_id receipt) pid"
  shows "safe w (requeue S R receipt pid w) (queued_answer (d_receipt_id receipt))"
  unfolding requeue_def
proof (rule safe_and_then [OF db_read_safe], rule safe_option, goal_cases)
  case (1 job w')
  show ?case by (auto intro: safe_return)
next
  case (2 job w' j)
  have inv: "db_inv (w_db w')" and jp: "get_row j_packet_id pid (jobs (w_db w')) = Some j"
    using 2 by (auto simp: sys_inv_def get_job_for_packet_def)
  have n: "names w' \<lparr>q_job_id = uuid_str (j_job_id j), q_packet_id = pid\<rparr> (j_job_id j)" and pid: "j_packet_id j = pid"
    using job_by_packet [OF inv jp] job_names [of "j_job_id j" w' j] by auto
  show ?case unfolding pid
    by (rule queue_answer_safe [OF sourced_stable [OF 2(1,3) assms] n]) (simp add: json_response_def)
qed

lemma reject_with_safe: "safe w (reject_with S R rid reason w) (queued_answer rid')"
  unfolding reject_with_def by (intro safe_rules frame_op_safe metric_safely_safe) auto

lemma validate_delivery_safe:
  assumes "\<And>receipt. existing = Some receipt \<Longrightarrow> get_delivery rid (w_db w) = Some receipt"
  shows "safe w (validate_delivery S R settings request raw t rid existing w) (queued_answer rid)"
proof -
  have "safe w (requeue S R receipt pid w) (queued_answer rid)" if inv: "sys w" and u: "unqueued_packet existing = Some (receipt, pid)" for receipt pid
  proof -
    have r: "existing = Some receipt" "d_validation_status receipt = V_ACCEPTED" "d_logical_packet_id receipt = Some pid"
      using u by (auto simp: unqueued_packet_def split: option.splits if_splits)
    then have "receipt \<in> set (receipts (w_db w))" "d_receipt_id receipt = rid"
      using get_row_Some [OF assms [OF r(1), unfolded get_delivery_def]] by auto
    then show ?thesis using requeue_safe accepted_sourced [of "w_db w" receipt pid] inv r by (auto simp: sys_inv_def)
  qed
  then have "safe w (requeue S R receipt pid w) (queued_answer rid)" if "unqueued_packet existing = Some (receipt, pid)" for receipt pid
    using that by (auto simp: safe_def)
  then show ?thesis unfolding validate_delivery_def
    by (intro safe_rules reject_with_safe validate_frame_safe) (auto split: prod.split)
qed

text \<open>The whole delivery: the receipt holds the body, and 202 keeps its promise.\<close>

definition durable_answer :: "bytes \<Rightarrow> http_response \<Rightarrow> 'r world \<Rightarrow> bool" where
  "durable_answer raw resp w \<longleftrightarrow> (h_status resp = 202 \<longrightarrow> (\<exists>rid. holds_body (w_db w) rid raw \<and> queued_answer rid resp w))"

lemma replay_not_202: "replay_answer receipt = Some resp \<Longrightarrow> h_status resp \<noteq> 202"
  by (auto simp: replay_answer_def json_response_def split: if_splits)

lemma deliver_safe: "safe w (deliver S R settings request raw t w) (durable_answer raw)"
  unfolding deliver_def
proof (rule safe_and_then [OF record_safe], goal_cases)
  case (1 x w1)
  let ?rid = "dr_receipt_id x"
  have body: "holds_body (w_db w1) ?rid raw" using 1(4) by (simp add: vendor_delivery_def)
  have valid: "safe w2 (validate_delivery S R settings request raw t ?rid existing w2) (durable_answer raw)"
    if "sys w1" "rel w1 w2" "\<And>receipt. existing = Some receipt \<Longrightarrow> get_delivery ?rid (w_db w2) = Some receipt" for w2 existing
  proof (rule safe_frame [OF validate_delivery_safe [OF that(3)]])
    have b2: "holds_body (w_db w2) ?rid raw" by (rule body_stable [OF that(1,2) body])
    show "durable_answer raw resp w3" if "sys w2" "rel w2 w3" "queued_answer ?rid resp w3" for resp w3
      using body_stable [OF that(1,2) b2] that(3) unfolding durable_answer_def by blast
  qed
  have later: "safe w2 (and_then (db_read S (get_delivery ?rid) w2) (\<lambda>existing w3. case existing of
        None \<Rightarrow> (Inl (RuntimeFault ''request replay points to missing receipt''), w3)
      | Some receipt \<Rightarrow> (case replay_answer receipt of
           Some response \<Rightarrow> (Inr response, w3)
         | None \<Rightarrow> validate_delivery S R settings request raw t ?rid (Some receipt) w3))) (durable_answer raw)"
    if w: "sys w1" "rel w1 w2" for w2
  proof (rule safe_and_then [OF db_read_safe], goal_cases)
    case (1 existing w3)
    have "rel w1 w3" by (rule rel_trans [OF w 1(3)])
    then show ?case using valid [OF w(1)] 1(4) replay_not_202
      by (intro safe_option safe_return) (auto simp: durable_answer_def)
  qed
  show ?case
  proof (rule safe_then [OF metric_safely_safe], intro safe_if, goal_cases)
    case (1 y w2)
    show ?case by (intro safe_then metric_safely_safe safe_return) (auto simp: durable_answer_def json_response_def)
  next
    case (2 y w2)
    show ?case by (rule later [OF 2(1,3)])
  next
    case (3 y w2)
    show ?case by (rule valid [OF 3(1,3)]) simp
  qed
qed

lemma delivery_faults_safe: "safe w (delivery_faults S R e w) (durable_answer raw)"
  unfolding delivery_faults_def
  by (intro safe_rules metric_safely_safe) (auto simp: durable_answer_def json_response_def)

lemma unauthenticated_safe: "safe w (unauthenticated S R request_id w) (\<lambda>resp _. h_status resp = 401)"
  unfolding unauthenticated_def by (intro safe_rules metric_safely_safe audit_safely_safe) auto

lemma size_rejected_safe: "safe w (size_rejected S request_id e w) (\<lambda>resp _. h_status resp = h_status e)"
  unfolding size_rejected_def Let_def by (intro safe_rules audit_safely_safe) (auto simp: json_response_def)

lemma chunks_status: "read_chunks maximum body stream = Inl e \<Longrightarrow> h_status e \<noteq> 202"
  by (induction maximum body stream rule: read_chunks.induct) (auto simp: http_exception_def split: if_splits)

lemma bounded_status: "bounded_body request maximum = Inl e \<Longrightarrow> h_status e \<noteq> 202"
  by (auto simp: bounded_body_def http_exception_def dest: chunks_status split: option.splits if_splits)

lemma receive_answer_safe:
  "safe w (receive_payload_data S R settings request w) (\<lambda>resp w'. h_status resp = 202 \<longrightarrow>
     (\<exists>raw. bounded_body request (gs_max_telemetry_body_bytes settings) = Inr raw \<and> durable_answer raw resp w'))"
  unfolding receive_payload_data_def
proof (intro safe_sum safe_bool, goal_cases)
  case (1 e)
  show ?case by (auto intro: safe_return)
next
  case (2 b e)
  show ?case by (rule safe_weaken [OF size_rejected_safe]) (use bounded_status [OF 2(3)] in simp)
next
  case (3 b raw)
  show ?case
    by (intro safe_and_then [OF clock_safe] safe_on_error safe_weaken [OF deliver_safe] safe_weaken [OF delivery_faults_safe])
      (use 3 in auto)
next
  case (4 b)
  show ?case by (rule safe_weaken [OF unauthenticated_safe]) simp
qed

lemma receive_safe: "safe w (receive_payload_data S R settings request w) (\<lambda>_ _. True)"
  by (rule safe_weaken [OF receive_answer_safe]) simp

lemma query_safe:
  "safe w (get_raw_payload S R settings mid auth w) (\<lambda>_ _. True)"
  "safe w (get_processed_payload S R settings mid auth w) (\<lambda>_ _. True)"
  "safe w (get_audit_events S R settings limit auth w) (\<lambda>_ _. True)"
  "safe w (get_metrics S R settings auth w) (\<lambda>_ _. True)"
  unfolding get_raw_payload_def get_processed_payload_def get_audit_events_def get_metrics_def authorized_def query_faults_def
  by (intro safe_rules metric_safely_safe query_op_safe safe_weaken [OF db_read_safe] read_safe redis_reads; simp)+

lemma readiness_safe: "safe w (readiness S R w) (\<lambda>_ _. True)"
proof -
  obtain pg w1 where pg: "db_read S (\<lambda>db. ()) w = (pg, w1)" by force
  obtain ping w2 where ping: "queue_op S (queue_ping R) w1 = (ping, w2)" by force
  have 1: "safe w (db_read S (\<lambda>db. ()) w) (\<lambda>_ _. True)" by (rule safe_weaken [OF db_read_safe]) simp
  have 2: "safe w1 (queue_op S (queue_ping R) w1) (\<lambda>_ _. True)" by (intro read_safe redis_reads)
  have "sys w2 \<and> rel w w2" if "sys w" using 1 2 that rel_trans [of w w1 w2] by (auto simp: safe_def pg ping)
  then show ?thesis by (auto simp: safe_def readiness_def pg ping Let_def)
qed

subsection \<open>The worker\<close>

lemma sleep_safe: "safe w (sleep n w) (\<lambda>_ _. True)"
  by (simp add: safe_def sleep_def)

lemma return_or_finish_safe:
  assumes m: "names w m jid"
  shows "safe w (return_or_finish_unclaimed S R m jid w) (\<lambda>_ _. True)"
  unfolding return_or_finish_unclaimed_def
proof (rule safe_and_then [OF db_read_safe], goal_cases)
  case (1 job w')
  have m': "names w' m jid" by (rule names_stable [OF 1(1,3) m])
  then obtain j where j: "job = Some j" "state_at w' jid (j_state j)" using 1(4) by (auto simp: names_def state_at_def)
  have again: "safe w' (and_then (sleep 1 w') (\<lambda>_. queue_op S (\<lambda>av. retry R DEFAULT_KEYS av m))) (\<lambda>_ _. True)"
    by (intro safe_then sleep_safe retry_safe)
  show ?case using ack_safe [OF m' _ j(2)] dead_letter_safe [OF m'] j again by (cases "j_state j") simp_all
qed

lemma fault_unclaimed_safe: "safe w (fault_unclaimed S R m w) (\<lambda>_ _. True)"
  unfolding fault_unclaimed_def
  by (intro safe_then safe_on_error increment_safely_safe sleep_safe retry_safe)
    (auto intro: safe_return split: service_error.split queue_error.split)

lemma report_failure_safe:
  assumes m: "names w m (wi_job_id work)"
  shows "safe w (report_failure S R driver wid m work e w) (\<lambda>_ _. True)"
  unfolding report_failure_def retry_later_def
proof (intro safe_then increment_safely_safe, rule safe_compose [OF fail_safe], goal_cases)
  case (1 x w1 e w2)
  show ?case by (intro safe_rules increment_safely_safe sleep_safe) simp_all
next
  case (2 x w1 failure w2)
  have m2: "names w2 m (wi_job_id work)" using names_stable [OF _ _ names_stable [OF _ _ m]] 2 by blast
  have "safe w2 (queue_op S (\<lambda>av. dead_letter R DEFAULT_KEYS av m) w2) (\<lambda>_ _. True)" if "pf_state failure = J_FAILED"
    using dead_letter_safe [OF m2] 2 that by blast
  then show ?case by (intro safe_rules clock_safe sleep_safe retry_safe) simp_all
qed

lemma finish_processed_safe:
  assumes "names w m jid" "state_at w jid J_COMPLETE"
  shows "safe w (finish_processed S R m assessment w) (\<lambda>_ _. True)"
  unfolding finish_processed_def
proof (rule safe_compose [OF ack_safe [OF assms(1) _ assms(2)]], goal_cases)
  case (3 x w')
  show ?case by (intro safe_rules increment_safely_safe) simp
qed (simp_all add: safe_return)

lemma process_work_safe:
  assumes m: "names w m (wi_job_id work)" and work: "work_at w (wi_job_id work) work"
  shows "safe w (process_work S R wid m work w) (\<lambda>_ _. True)"
proof (cases "processing_result work")
  case (Inl e)
  then show ?thesis by (simp add: process_work_def safe_return)
next
  case (Inr ra)
  obtain res assessment where ra: "ra = (res, assessment)" by force
  have "safe w (and_then (db_op S (\<lambda>env env'. complete_processing_job env (wi_job_id work) res wid None) w)
      (\<lambda>_. finish_processed S R m assessment)) (\<lambda>_ _. True)"
    by (rule safe_and_then [OF complete_safe [OF work]], simp add: Inr ra, rule finish_processed_safe [OF names_stable [OF _ _ m]])
  then show ?thesis by (simp add: process_work_def Inr ra)
qed

lemma handle_reference_safe:
  assumes m: "names w m jid"
  shows "safe w (handle_reference S R driver wid m w) (\<lambda>_ _. True)"
proof -
  have id: "uuid_parse (q_job_id m) = Some jid" using m get_job_id by (auto simp: names_def reference_def)
  have "safe w (case db_op S (\<lambda>env env'. claim_processing_job env jid wid 60) w of
      (Inl e, w1) \<Rightarrow> fault_unclaimed S R m w1
    | (Inr x, w1) \<Rightarrow> (case x of
        None \<Rightarrow> on_error (return_or_finish_unclaimed S R m jid w1) (\<lambda>e. fault_unclaimed S R m)
      | Some work \<Rightarrow> on_error (process_work S R wid m work w1) (report_failure S R driver wid m work))) (\<lambda>_ _. True)"
  proof (rule safe_compose [OF claim_safe fault_unclaimed_safe], rule safe_option, goal_cases)
    case (1 x w1)
    then show ?case by (intro safe_on_error return_or_finish_safe [OF names_stable [OF _ _ m]] fault_unclaimed_safe)
  next
    case (2 x w1 work)
    have work: "work_at w1 (wi_job_id work) work" using 2 by (auto simp: work_at_def)
    have m1: "names w1 m (wi_job_id work)" using names_stable [OF 2(2,4) m] 2 by (auto simp: work_at_def)
    show ?case by (intro safe_on_error process_work_safe m1 work report_failure_safe) (rule names_stable [OF _ _ m1])
  qed
  moreover have "handle_reference S R driver wid m w = (case db_op S (\<lambda>env env'. claim_processing_job env jid wid 60) w of
      (Inl e, w1) \<Rightarrow> fault_unclaimed S R m w1
    | (Inr x, w1) \<Rightarrow> (case x of
        None \<Rightarrow> on_error (return_or_finish_unclaimed S R m jid w1) (\<lambda>e. fault_unclaimed S R m)
      | Some work \<Rightarrow> on_error (process_work S R wid m work w1) (report_failure S R driver wid m work)))"
    by (simp add: handle_reference_def id split: prod.split sum.split option.split)
  ultimately show ?thesis by simp
qed

lemma worker_iteration_safe: "safe w (worker_iteration S R driver settings wid w) (\<lambda>_ _. True)"
proof (cases "claim_reference S R (ws_claim_timeout_seconds settings) w")
  case (Pair res w1)
  have "safe w1 (worker_iteration S R driver settings wid w) (\<lambda>_ _. True)" if "sys w"
  proof -
    have "\<exists>jid. names w1 m jid" if "res = Inr (Some m)" for m
      using claim_reference_safe [of w "ws_claim_timeout_seconds settings"] \<open>sys w\<close> that by (simp add: safe_def Pair)
    then show ?thesis using handle_reference_safe
      by (auto simp: worker_iteration_def Pair intro: safe_return sleep_safe
          split: sum.split service_error.split queue_error.split option.split)
  qed
  then show ?thesis using claim_reference_safe [of w "ws_claim_timeout_seconds settings"] rel_trans [of w w1]
    by (auto simp: safe_def Pair)
qed

lemma worker_loop_safe: "safe w (worker_loop S R driver settings wid n w) (\<lambda>_ _. True)"
proof (induction n arbitrary: w)
  case 0
  then show ?case by (simp add: safe_return)
next
  case (Suc n)
  then show ?case unfolding worker_loop.simps by (intro safe_then worker_iteration_safe)
qed

lemma run_worker_safe:
  assumes "run_worker S R driver settings wid n w = Some out"
  shows "safe w out (\<lambda>_ _. True)"
proof -
  let ?w = "interfere S w"
  obtain x r where x: "recover_processing R DEFAULT_KEYS (redis_at S (w_tick w)) (w_redis ?w) = Some (x, r)"
    and out: "out = and_then (map_sum QueueFault id x, ?w\<lparr>w_redis := r\<rparr>) (\<lambda>_. worker_loop S R driver settings wid n)"
    using assms by (force simp: run_worker_def Let_def)
  have "safe w (map_sum QueueFault id x, ?w\<lparr>w_redis := r\<rparr>) (\<lambda>_ _. True)"
  proof -
    have "view r = snd (spec_call (redis_at S (w_tick w)) spec_recover (view (w_redis ?w)))" by (rule recover_view [OF x])
    then have "view r = view (w_redis ?w) \<or> view r = snd (spec_recover (view (w_redis ?w)))"
      by (cases "redis_at S (w_tick w)") (auto simp: spec_call_def)
    then show ?thesis using interfere_safe [of w] spec_recover_keeps [of "w_db ?w" "view (w_redis ?w)"]
        rel_trans [of w ?w "?w\<lparr>w_redis := r\<rparr>"]
      by (auto simp: safe_def)
  qed
  then show ?thesis unfolding out by (intro safe_then worker_loop_safe)
qed

lemmas services_safe = receive_safe recover_pending_safe query_safe readiness_safe run_worker_safe

lemma service_run_keeps:
  assumes "service_run S R w w'"
  shows "sys w \<Longrightarrow> sys w' \<and> rel w w'"
  using assms
proof (induction rule: service_run.induct)
qed (use services_safe in \<open>auto simp: safe_def\<close>)

end

end
