(* ===== verification/Service_Samples.thy ===== *)
theory Service_Samples
  imports Service_Steps Repository_Samples
begin

text \<open>
  A run of the gateway on the golden vector of the interface document, evaluated: the delivery of the
  vendor with the repository's stand-in for Redis, every service up and nobody else acting.
\<close>

definition golden_tx :: "nat \<Rightarrow> tx_env" where
  "golden_tx n = \<lparr>now = golden_received, row_id = of_nat n, event_id = of_nat n\<rparr>"

definition golden_request_id :: uuid where
  "golden_request_id = 0x6f1ed002ab554c1a93dd000000000001"

definition golden_input :: delivery_input where
  "golden_input = vendor_delivery sample_request golden_raw golden_received"

definition golden_recorded :: telemetry_db where
  "golden_recorded = committed (record_delivery (golden_tx 1) (golden_tx 1) golden_input create_schema)"

definition golden_receipt :: TelemetryDeliveryReceipt where
  "golden_receipt = new_receipt (golden_tx 1) golden_input golden_received (sha256_hexdigest golden_raw) None"

definition golden_values :: DecodedTelemetryValues where
  "golden_values = telemetry_values golden_frame"

definition golden_accepted :: telemetry_db where
  "golden_accepted = committed (accept_packet_and_create_job (golden_tx 3) (golden_tx 3) 1 golden_values 3 ''ground-api'' golden_recorded)"

definition golden_queued :: telemetry_db where
  "golden_queued = committed (mark_job_queued (golden_tx 6) 3 (uuid_str 3) ''ground-api'' golden_accepted)"

lemma golden_uuid: "canonical_uuid4 (Some (uuid_str golden_request_id)) = Some golden_request_id"
  by (simp add: canonical_uuid4_def golden_request_id_def uuid_version_def)

lemma golden_body: "bounded_body sample_request 1024 = Inr golden_raw"
proof -
  have "py_int 10 ''28'' = Some 28" by code_simp
  then show ?thesis by (simp add: bounded_body_def sample_request_def golden_raw_def)
qed

lemma golden_packet_id: "dv_packet_id golden_values = ''TLM-P01-B0000002A-S00000001''"
  by code_simp

lemma golden_media: "media_type ''application/octet-stream'' = ''application/octet-stream''"
  by code_simp

lemma golden_simps:
  "in_raw_body golden_input = golden_raw" "in_peer_certificate_identity golden_input = ''local-token:vendor-simulator''"
  "in_presented_request_id golden_input = Some (uuid_str golden_request_id)"
  "in_canonical_request_id golden_input = Some golden_request_id" "in_content_type golden_input = Some ''application/octet-stream''"
  "in_received_at golden_input = Some golden_received" "in_vendor_sent_at golden_input = None" "in_receipt_id golden_input = None"
  by (simp_all add: golden_input_def vendor_delivery_def sample_request_def VENDOR_IDENTITY_def golden_uuid golden_uuid [unfolded golden_request_id_def]
      flip: golden_request_id_def)

lemma golden_length: "length golden_raw = 28"
  by (simp add: golden_raw_def)

lemma uuid_no_nul [simp]: "CHR 0x00 \<notin> set (uuid_str u)"
  by (auto dest!: uuid_str_char simp: hex_char_def)

lemmas golden_row_simps = golden_tx_def golden_receipt_def golden_simps golden_length committed_def new_packet_def first_state_def new_job_def
  accepted_receipt_def new_receipt_def Let_def row_simps(1,3-) has_row_key column_checks storage_constants statements

lemma record_golden:
  "record_delivery (golden_tx 1) (golden_tx 1) golden_input create_schema = Inr (delivery_result golden_receipt False False, golden_recorded)"
  "receipts golden_recorded = [golden_receipt]" "packets golden_recorded = []" "jobs golden_recorded = []"
  "sequence_states golden_recorded = []" "processed golden_recorded = []" "a_event_id ` set (audit_events golden_recorded) = {1}"
  using hexdigest_text [of golden_raw] length_hexdigest [of golden_raw]
  unfolding golden_recorded_def
  by (simp_all add: create_schema_def delivery_simps golden_row_simps)

definition golden_job :: TelemetryProcessingJob where
  "golden_job = new_job (golden_tx 3) (dv_packet_id golden_values) 3"

lemma golden_values_simps:
  "dv_protocol_version golden_values = 1" "dv_payload_id golden_values = 1" "dv_boot_id golden_values = 42"
  "dv_sequence_number golden_values = 1" "dv_sample_timestamp_us golden_values = 1784203200000000"
  "dv_temperature_centi_c golden_values = 2840" "dv_voltage_mv golden_values = 28100" "dv_operating_mode golden_values = 2"
  "dv_fault_flags golden_values = 0"
  by (simp_all add: golden_values_def telemetry_values_def golden_frame_def)

lemma accept_golden:
  "accept_packet_and_create_job (golden_tx 3) (golden_tx 3) 1 golden_values 3 ''ground-api'' golden_recorded
     = Inr (\<lparr>pa_receipt_id = 1, pa_packet_id = Some (dv_packet_id golden_values), pa_job_id = Some 3,
         pa_validation_status = V_ACCEPTED, pa_queue_status = Q_PENDING_QUEUE, pa_sequence_disposition = Some SD_FIRST,
         pa_missing_before = 1, pa_duplicate = False, pa_conflict = False, pa_duplicate_of_receipt_id = None\<rparr>, golden_accepted)"
  "receipts golden_accepted = [accepted_receipt (golden_tx 3) golden_values golden_receipt]"
  "packets golden_accepted = [new_packet (golden_tx 3) golden_receipt golden_values SD_FIRST 1]"
  "jobs golden_accepted = [golden_job]"
  "sequence_states golden_accepted = [first_state (golden_tx 3) golden_values 1]"
  "processed golden_accepted = []" "a_event_id ` set (audit_events golden_accepted) = {3, 1}"
  using hexdigest_text [of golden_raw] length_hexdigest [of golden_raw] golden_packet_id
  unfolding golden_accepted_def golden_job_def
  by (simp_all add: record_golden(2-) acceptance_simps golden_values_simps golden_row_simps)

definition golden_queued_job :: TelemetryProcessingJob where
  "golden_queued_job = queued_job (golden_tx 6) (uuid_str 3) golden_job"

lemma queue_golden:
  "mark_job_queued (golden_tx 6) 3 (uuid_str 3) ''ground-api'' golden_accepted = Inr (True, golden_queued)"
  "receipts golden_queued = [queued_receipt (golden_tx 6) (accepted_receipt (golden_tx 3) golden_values golden_receipt)]"
  "packets golden_queued = packets golden_accepted"
  "jobs golden_queued = [golden_queued_job]"
  "sequence_states golden_queued = sequence_states golden_accepted"
  "processed golden_queued = []" "a_event_id ` set (audit_events golden_queued) = {6, 3, 1}"
  using hexdigest_text [of golden_raw] length_hexdigest [of golden_raw] golden_packet_id
  unfolding golden_queued_def
  by (simp_all add: accept_golden(2-) mark_job_queued_def golden_queued_job_def queued_job_def queued_receipt_def golden_job_def
      golden_values_simps golden_row_simps)

section \<open>The run\<close>

lemma alone_db:
  "f (tx t) (tx t) db = Inr (x, db') \<Longrightarrow>
   db_op (alone tx) f \<lparr>w_db = db, w_redis = r, w_tick = t\<rparr> = (Inr x, \<lparr>w_db = db', w_redis = r, w_tick = Suc t\<rparr>)"
  by (simp add: db_op_def alone_def interfere_def)

lemma alone_redis:
  "f Up r = (Inr x, r') \<Longrightarrow>
   redis_op fault (alone tx) f \<lparr>w_db = db, w_redis = r, w_tick = t\<rparr> = (Inr x, \<lparr>w_db = db, w_redis = r', w_tick = Suc t\<rparr>)"
  by (simp add: redis_op_def alone_def interfere_def)

lemma alone_metric:
  "metric_safely (alone tx) R name amount \<lparr>w_db = db, w_redis = r, w_tick = t\<rparr>
     = (Inr (), \<lparr>w_db = db, w_redis = snd (increment R Up name amount r), w_tick = Suc t\<rparr>)"
  by (simp add: metric_safely_def redis_op_def alone_def interfere_def split: prod.split)

lemma alone_clock:
  "clock (alone tx) \<lparr>w_db = db, w_redis = r, w_tick = t\<rparr> = (Inr (now (tx t)), \<lparr>w_db = db, w_redis = r, w_tick = Suc t\<rparr>)"
  by (simp add: clock_def alone_def)

definition golden_message :: QueueMessage where
  "golden_message = \<lparr>q_job_id = uuid_str 3, q_packet_id = dv_packet_id golden_values\<rparr>"

lemma golden_message_ok: "queue_message (uuid_str 3) (dv_packet_id golden_values) = Inr golden_message"
proof -
  have "packet_id_format (dv_packet_id golden_values)" unfolding golden_packet_id by code_simp
  then show ?thesis by (auto simp: queue_message_iff golden_message_def)
qed

definition golden_counted :: FakeRedis where
  "golden_counted = snd (increment fake_redis Up ''payload_sequence_gaps_total'' 1
     (snd (increment fake_redis Up ''payload_messages_received_total'' 1 empty_redis)))"

definition golden_redis :: FakeRedis where
  "golden_redis = snd (enqueue fake_redis DEFAULT_KEYS Up golden_message golden_counted)"

lemma golden_counted_view:
  "fake_queue.view golden_counted = \<lparr>v_pending = [], v_processing = [], v_failed = [], v_marked = (\<lambda>_. None)\<rparr>"
proof -
  have "fr_values golden_counted = [] \<and> fr_lists golden_counted = []"
    by (simp add: golden_counted_def increment_def redis_call_def fake_redis_def empty_redis_def Let_def COUNTERS_def)
  then show ?thesis by (simp add: view_of_def assoc_list_def)
qed

lemma golden_enqueue: "enqueue fake_redis DEFAULT_KEYS Up golden_message golden_counted = (Inr True, golden_redis)"
  and golden_redis_view: "fake_queue.view golden_redis = \<lparr>v_pending = [to_json_bytes golden_message], v_processing = [], v_failed = [],
     v_marked = [uuid_str 3 \<mapsto> to_json_bytes golden_message]\<rparr>"
proof -
  have "map_prod id fake_queue.view (enqueue fake_redis DEFAULT_KEYS Up golden_message golden_counted)
      = (Inr True, \<lparr>v_pending = [to_json_bytes golden_message], v_processing = [], v_failed = [],
          v_marked = [uuid_str 3 \<mapsto> to_json_bytes golden_message]\<rparr>)"
    unfolding fake_queue.enqueue_refines golden_counted_view by (simp add: spec_call_def spec_enqueue_def golden_message_def)
  then show "enqueue fake_redis DEFAULT_KEYS Up golden_message golden_counted = (Inr True, golden_redis)"
    "fake_queue.view golden_redis = \<lparr>v_pending = [to_json_bytes golden_message], v_processing = [], v_failed = [],
     v_marked = [uuid_str 3 \<mapsto> to_json_bytes golden_message]\<rparr>"
    by (cases "enqueue fake_redis DEFAULT_KEYS Up golden_message golden_counted"; simp add: golden_redis_def)+
qed

definition golden_start :: "FakeRedis world" where
  "golden_start = \<lparr>w_db = create_schema, w_redis = empty_redis, w_tick = 0\<rparr>"

definition golden_response :: http_response where
  "golden_response = json_response 202 [(''receipt_id'', JStr (uuid_str 1)), (''packet_id'', JStr (dv_packet_id golden_values)),
     (''status'', JStr ''QUEUED''), (''duplicate'', JBool False)]"

lemma golden_now: "now (golden_tx n) = golden_received"
  by (simp add: golden_tx_def)

lemma golden_decodes: "decode_telemetry golden_raw golden_received = Inr golden_frame"
  using golden_encodes by (simp add: decode_iff_encode)

lemma golden_queue_one:
  "queue_one (alone golden_tx) fake_redis 3 (dv_packet_id golden_values) \<lparr>w_db = golden_accepted, w_redis = golden_counted, w_tick = 5\<rparr>
   = (Inr True, \<lparr>w_db = golden_queued, w_redis = golden_redis, w_tick = 7\<rparr>)"
  by (simp add: queue_one_def golden_message_ok alone_redis golden_enqueue alone_db queue_golden(1))

lemma golden_accept_frame:
  "accept_frame (alone golden_tx) fake_redis sample_settings 1 golden_frame
     \<lparr>w_db = golden_recorded, w_redis = snd (increment fake_redis Up ''payload_messages_received_total'' 1 empty_redis), w_tick = 3\<rparr>
   = (Inr golden_response, \<lparr>w_db = golden_queued, w_redis = golden_redis, w_tick = 7\<rparr>)"
  using accept_golden(1)
  by (simp add: accept_frame_def alone_db sample_settings_def flip: golden_values_def golden_counted_def)
    (simp add: alone_metric golden_queue_one golden_response_def flip: golden_counted_def)

lemma golden_deliver:
  "deliver (alone golden_tx) fake_redis sample_settings sample_request golden_raw golden_received
     \<lparr>w_db = create_schema, w_redis = empty_redis, w_tick = 1\<rparr>
   = (Inr golden_response, \<lparr>w_db = golden_queued, w_redis = golden_redis, w_tick = 7\<rparr>)"
proof -
  have res: "dr_receipt_id (delivery_result golden_receipt False False) = 1" "\<not> dr_request_conflict (delivery_result golden_receipt False False)"
    "\<not> dr_request_replay (delivery_result golden_receipt False False)"
    by (simp_all add: delivery_result_def golden_receipt_def new_receipt_def golden_tx_def golden_simps)
  have type: "rq_content_type sample_request = Some ''application/octet-stream''"
    and id: "canonical_uuid4 (rq_request_id sample_request) = Some golden_request_id"
    using golden_uuid by (simp_all add: sample_request_def golden_request_id_def)
  have v: "validate_delivery (alone golden_tx) fake_redis sample_settings sample_request golden_raw golden_received 1 None w
      = accept_frame (alone golden_tx) fake_redis sample_settings 1 golden_frame w" for w
    by (simp add: validate_delivery_def type golden_media id unqueued_packet_def validate_frame_def golden_decodes)
  show ?thesis using record_golden(1)
    by (simp add: deliver_def alone_db res flip: golden_input_def) (simp add: alone_metric v golden_accept_frame [unfolded numeral_3_eq_3])
qed

lemma golden_run:
  "receive_payload_data (alone golden_tx) fake_redis sample_settings sample_request golden_start
   = (Inr golden_response, \<lparr>w_db = golden_queued, w_redis = golden_redis, w_tick = 7\<rparr>)"
proof -
  have "compare_digest ''vendor'' ''vendor'' = Inr True" by code_simp
  then have token: "(case rq_vendor_token sample_request of None \<Rightarrow> Inr False | Some token \<Rightarrow> compare_digest token (gs_vendor_token sample_settings)) = Inr True"
    by (simp add: sample_request_def sample_settings_def)
  have "bounded_body sample_request (gs_max_telemetry_body_bytes sample_settings) = Inr golden_raw"
    by (simp add: sample_settings_def golden_body)
  then show ?thesis by (simp add: receive_payload_data_def token golden_start_def alone_clock golden_now golden_deliver [unfolded One_nat_def])
qed

section \<open>The worker\<close>

definition golden_claimed :: telemetry_db where
  "golden_claimed = committed (claim_processing_job (golden_tx 10) 3 ''worker'' 60 golden_queued)"

definition golden_work :: TelemetryWorkItem where
  "golden_work = \<lparr>wi_job_id = 3, wi_packet_id = dv_packet_id golden_values, wi_raw_body = golden_raw,
     wi_received_at = golden_received, wi_values = golden_values, wi_attempt_count = 1, wi_max_attempts = 3\<rparr>"

definition golden_claimed_job :: TelemetryProcessingJob where
  "golden_claimed_job = claimed_job (golden_tx 10) ''worker'' 60 golden_queued_job"

lemma golden_utc: "as_utc golden_received = golden_received"
  by (simp add: golden_received_def as_utc_def utc_def)

lemma golden_values_record:
  "\<lparr>dv_protocol_version = 1, dv_payload_id = 1, dv_boot_id = 42, dv_sequence_number = 1, dv_sample_timestamp_us = 1784203200000000,
    dv_temperature_centi_c = 2840, dv_voltage_mv = 28100, dv_operating_mode = 2, dv_fault_flags = 0\<rparr> = golden_values"
  by (simp add: golden_values_def telemetry_values_def golden_frame_def)

lemma claim_golden:
  "claim_processing_job (golden_tx 10) 3 ''worker'' 60 golden_queued = Inr (Some golden_work, golden_claimed)"
  "receipts golden_claimed = receipts golden_queued" "packets golden_claimed = packets golden_accepted"
  "jobs golden_claimed = [golden_claimed_job]"
  "processed golden_claimed = []" "a_event_id ` set (audit_events golden_claimed) = {10, 6, 3, 1}"
  using hexdigest_text [of golden_raw] length_hexdigest [of golden_raw] golden_packet_id
  unfolding golden_claimed_def
  by (simp_all add: accept_golden(2-6) queue_golden(2-) claim_processing_job_def claimable_def claimed_job_def golden_queued_job_def
      queued_job_def queued_receipt_def golden_job_def golden_work_def golden_claimed_job_def golden_utc packet_values_def golden_values_record
      golden_values_simps golden_row_simps)

definition golden_result :: ProcessingResultValues where
  "golden_result = \<lparr>pr_temperature_c = temperature_c golden_frame, pr_voltage_v = voltage_v golden_frame,
     pr_operating_mode = ''SCIENCE'', pr_fault_names = [], pr_classification = HealthClassification.NOMINAL, pr_is_stale = False,
     pr_processor_version = ''telemetry-v1''\<rparr>"

lemma golden_processing: "\<exists>a. processing_result golden_work = Inr (golden_result, a) \<and> \<not> is_stale a"
proof -
  have "assess_health golden_frame golden_received
      = Inr \<lparr>classification = HealthClassification.NOMINAL, freshness = CURRENT, temperature = HealthClassification.NOMINAL,
          voltage = HealthClassification.NOMINAL, faults = HealthClassification.NOMINAL\<rparr>" by code_simp
  moreover have "stored_values golden_frame = golden_values" by (simp add: stored_values_def golden_values_def telemetry_values_def)
  moreover have "OperatingMode_of (operating_mode golden_frame) = Some SCIENCE" "fault_names (fault_flags golden_frame) = []" by code_simp+
  ultimately show ?thesis
    by (simp add: processing_result_def golden_work_def golden_decodes golden_result_def is_stale_def PROCESSOR_VERSION_def)
qed

definition golden_processed :: telemetry_db where
  "golden_processed = committed (complete_processing_job (golden_tx 11) 3 golden_result ''worker'' None golden_claimed)"

lemma complete_golden:
  "complete_processing_job (golden_tx 11) 3 golden_result ''worker'' None golden_claimed
     = Inr (processed_row golden_received golden_result golden_claimed_job, golden_processed)"
  "jobs golden_processed = [completed_job golden_received golden_claimed_job]"
  "processed golden_processed = [processed_row golden_received golden_result golden_claimed_job]"
  "packets golden_processed = packets golden_accepted" "receipts golden_processed = receipts golden_queued"
  using hexdigest_text [of golden_raw] length_hexdigest [of golden_raw] golden_packet_id
  unfolding golden_processed_def
  by (simp_all add: accept_golden(2-6) queue_golden(2-6) claim_golden(2-) golden_result_def complete_processing_job_def processed_row_def
      completed_job_def golden_claimed_job_def claimed_job_def golden_queued_job_def queued_job_def queued_receipt_def golden_job_def
      golden_values_simps golden_row_simps)

definition sample_worker :: WorkerSettings where
  "sample_worker = \<lparr>ws_database_url = [], ws_redis_url = [], ws_claim_timeout_seconds = 1\<rparr>"

lemma golden_message_valid: "valid_message golden_message"
  using golden_message_ok by (auto simp: queue_message_iff valid_message_iff golden_message_def)

lemma golden_recover:
  "\<exists>r. recover_processing fake_redis DEFAULT_KEYS Up golden_redis = Some (Inr 0, r) \<and> fake_queue.view r = fake_queue.view golden_redis"
  using fake_queue.recover_refines [of Up golden_redis] unfolding golden_redis_view
  by (auto simp: spec_call_def spec_recover_def)

lemma golden_claim_reference:
  assumes "fake_queue.view r = fake_queue.view golden_redis"
  shows "\<exists>r'. claim fake_redis DEFAULT_KEYS Up Up (PyInt 1) r = (Inr (Some golden_message), r')
    \<and> fake_queue.view r' = \<lparr>v_pending = [], v_processing = [to_json_bytes golden_message], v_failed = [],
          v_marked = [uuid_str 3 \<mapsto> to_json_bytes golden_message]\<rparr>"
proof -
  have "map_prod id fake_queue.view (claim fake_redis DEFAULT_KEYS Up Up (PyInt 1) r)
      = (Inr (Some golden_message), \<lparr>v_pending = [], v_processing = [to_json_bytes golden_message], v_failed = [],
          v_marked = [uuid_str 3 \<mapsto> to_json_bytes golden_message]\<rparr>)"
    unfolding fake_queue.claim_refines assms golden_redis_view
    by (simp add: spec_claim_def checked_timeout_def spec_call_def spec_take_def from_to_json [OF golden_message_valid])
  then show ?thesis by (cases "claim fake_redis DEFAULT_KEYS Up Up (PyInt 1) r") auto
qed

lemma golden_ack:
  assumes "fake_queue.view r = \<lparr>v_pending = [], v_processing = [to_json_bytes golden_message], v_failed = [],
      v_marked = [uuid_str 3 \<mapsto> to_json_bytes golden_message]\<rparr>"
  shows "\<exists>r'. ack fake_redis DEFAULT_KEYS Up golden_message r = (Inr (), r')"
proof -
  have "fst (map_prod id fake_queue.view (ack fake_redis DEFAULT_KEYS Up golden_message r)) = Inr ()"
    unfolding fake_queue.ack_refines assms by (simp add: spec_call_def spec_ack_def)
  then show ?thesis by (cases "ack fake_redis DEFAULT_KEYS Up golden_message r") simp
qed

lemma alone_increment:
  "increment_safely (alone tx) R name \<lparr>w_db = db, w_redis = r, w_tick = t\<rparr>
     = (Inr (), \<lparr>w_db = db, w_redis = snd (increment R Up name 1 r), w_tick = Suc t\<rparr>)"
  by (simp add: increment_safely_def redis_op_def alone_def interfere_def split: prod.split)

lemma golden_worker_run:
  "\<exists>w'. run_worker (alone golden_tx) fake_redis (\<lambda>_. []) sample_worker ''worker'' 1
      \<lparr>w_db = golden_queued, w_redis = golden_redis, w_tick = 7\<rparr> = Some (Inr (), w') \<and> w_db w' = golden_processed"
proof -
  let ?S = "alone golden_tx :: FakeRedis schedule"
  obtain r1 where r1: "recover_processing fake_redis DEFAULT_KEYS Up golden_redis = Some (Inr 0, r1)"
    "fake_queue.view r1 = fake_queue.view golden_redis" using golden_recover by blast
  obtain r2 where r2: "claim fake_redis DEFAULT_KEYS Up Up (PyInt 1) r1 = (Inr (Some golden_message), r2)"
    "fake_queue.view r2 = \<lparr>v_pending = [], v_processing = [to_json_bytes golden_message], v_failed = [],
          v_marked = [uuid_str 3 \<mapsto> to_json_bytes golden_message]\<rparr>" using golden_claim_reference [OF r1(2)] by blast
  obtain r3 where r3: "ack fake_redis DEFAULT_KEYS Up golden_message r2 = (Inr (), r3)" using golden_ack [OF r2(2)] by blast
  obtain a where a: "processing_result golden_work = Inr (golden_result, a)" "\<not> is_stale a" using golden_processing by blast
  have ref: "claim_reference ?S fake_redis 1 \<lparr>w_db = golden_queued, w_redis = r1, w_tick = 8\<rparr>
      = (Inr (Some golden_message), \<lparr>w_db = golden_queued, w_redis = r2, w_tick = 10\<rparr>)"
    using r2(1) by (simp add: claim_reference_def redis_op_def alone_def interfere_def)
  have "process_work ?S fake_redis ''worker'' golden_message golden_work \<lparr>w_db = golden_claimed, w_redis = r2, w_tick = 11\<rparr>
      = (Inr (), \<lparr>w_db = golden_processed, w_redis = snd (increment fake_redis Up ''payload_processing_successes_total'' 1 r3), w_tick = 14\<rparr>)"
    using complete_golden(1)
    by (simp add: process_work_def a golden_work_def [THEN arg_cong [of _ _ wi_job_id]] alone_db finish_processed_def alone_redis r3 alone_increment)
  then have "handle_reference ?S fake_redis (\<lambda>_. []) ''worker'' golden_message \<lparr>w_db = golden_queued, w_redis = r2, w_tick = 10\<rparr>
      = (Inr (), \<lparr>w_db = golden_processed, w_redis = snd (increment fake_redis Up ''payload_processing_successes_total'' 1 r3), w_tick = 14\<rparr>)"
    using claim_golden(1) by (simp add: handle_reference_def golden_message_def alone_db)
  then show ?thesis using r1(1) ref
    by (simp add: run_worker_def worker_iteration_def sample_worker_def alone_def [THEN arg_cong [of _ _ redis_at]]
        interfere_def [of "alone golden_tx"] alone_def [THEN arg_cong [of _ _ others]])
qed

end
