(* ===== verification/Service_Properties.thy ===== *)
theory Service_Properties
  imports Service_Handlers Service_Samples
begin

text \<open>What the gateway and the worker guarantee together.\<close>

section \<open>The contract holds\<close>

lemma metric_kind: "key_kind METRIC_HASH_KEY = KHash"
  by (simp add: key_kind_def METRIC_HASH_KEY_def DEFAULT_KEYS_def)

interpretation fake_alone: shared_system fake_redis key_kind "\<lambda>r. map_of (fr_values r)" "\<lambda>r. assoc_list (fr_lists r)"
    "\<lambda>r k. map_of (assoc_list (fr_hashes r) k)" "alone tx"
  by unfold_locales (simp_all add: metric_kind alone_def)

text \<open>The worker itself is an environment that keeps the contract.\<close>

interpretation fake_beside: shared_system fake_redis key_kind "\<lambda>r. map_of (fr_values r)" "\<lambda>r. assoc_list (fr_lists r)"
    "\<lambda>r k. map_of (assoc_list (fr_hashes r) k)" "beside_worker tx fake_redis driver settings wid iterations"
proof unfold_locales
  show "key_kind METRIC_HASH_KEY = KHash" by (rule metric_kind)
  fix db n and r :: FakeRedis and db' r'
  let ?w = "\<lparr>w_db = db, w_redis = r, w_tick = n\<rparr>"
  assume inv: "sys_inv db (fake_queue.view r)" and o: "others (beside_worker tx fake_redis driver settings wid iterations) n (db, r) = (db', r')"
  have "fake_alone.safe ?w (worker_loop (alone tx) fake_redis driver settings wid (iterations n) ?w) (\<lambda>_ _. True)"
    by (rule fake_alone.worker_loop_safe)
  then show "sys_inv db' (fake_queue.view r') \<and> sys_rel (db, fake_queue.view r) (db', fake_queue.view r')"
    using inv o by (auto simp: fake_alone.safe_def beside_worker_def Let_def)
qed

lemma sys_inv_start: "sys_inv create_schema \<lparr>v_pending = [], v_processing = [], v_failed = [], v_marked = (\<lambda>_. None)\<rparr>"
  using db_inv_schema by (simp add: sys_inv_def queue_inv_def entries_def get_job_def create_schema_def get_row_def)

text \<open>The invariant along the runs of the services, from an empty database and an empty queue.\<close>

lemma runs_keep:
  assumes "shared_system R kind val_at list_at hash_at S" "(service_run S R)\<^sup>*\<^sup>* w w'"
    and "sys_inv (w_db w) (view_of val_at list_at DEFAULT_KEYS (w_redis w))"
  shows "sys_inv (w_db w') (view_of val_at list_at DEFAULT_KEYS (w_redis w'))"
  using assms(2)
proof (induction rule: rtranclp_induct)
  case base
  then show ?case by (rule assms(3))
next
  case (step a b)
  then show ?case using shared_system.service_run_keeps [OF assms(1)] by blast
qed

text \<open>What the answer 202 and a stored result say, for the properties that follow a packet.\<close>

lemma answer_sources:
  assumes shared: "shared_system R kind val_at list_at hash_at S"
    and inv: "sys_inv (w_db w) (view_of val_at list_at DEFAULT_KEYS (w_redis w))"
    and run: "receive_payload_data S R settings request w = (Inr resp, w')" "h_status resp = 202"
  obtains raw rid pid jid job rest where "bounded_body request (gs_max_telemetry_body_bytes settings) = Inr raw"
    "h_content resp = JObj ((''receipt_id'', JStr (uuid_str rid)) # (''packet_id'', JStr pid) # rest)"
    "holds_body (w_db w') rid raw" "sourced (w_db w') rid pid"
    "get_job jid (w_db w') = Some job" "j_packet_id job = pid" "j_state job = J_QUEUED"
    "sys_inv (w_db w') (view_of val_at list_at DEFAULT_KEYS (w_redis w'))"
proof -
  note post = shared_system.receive_answer_safe [OF shared, of w settings request, unfolded shared_system.safe_def [OF shared] run(1)]
  show ?thesis
    using that post inv run(2)
    by (auto simp: shared_system.durable_answer_def [OF shared] shared_system.queued_answer_def [OF shared]
        shared_system.names_def [OF shared] shared_system.state_at_def [OF shared] reference_def)
qed

lemma stored_result_work:
  assumes "sys_inv db v" and "get_processed pid db = Some t"
  obtains work res a where "work_of db pid work" "processing_result work = Inr (res, a)" "same_processing_result t res"
proof -
  have "t \<in> set (processed db)" "t_packet_id t = pid" using assms(2) get_row_Some by (fastforce simp: get_processed_def)+
  then show ?thesis using that assms(1) by (auto simp: sys_inv_def result_ok_def)
qed

lemma runs_rel:
  assumes "shared_system R kind val_at list_at hash_at S" "(service_run S R)\<^sup>*\<^sup>* w w'"
    and "sys_inv (w_db w) (view_of val_at list_at DEFAULT_KEYS (w_redis w))"
  shows "repo_step\<^sup>*\<^sup>* (w_db w) (w_db w')"
  using assms(2)
proof (induction rule: rtranclp_induct)
  case (step a b)
  have "repo_step\<^sup>*\<^sup>* (w_db a) (w_db b)"
    using shared_system.service_run_keeps [OF assms(1) step.hyps(2)] runs_keep [OF assms(1) step.hyps(1) assms(3)] by (auto simp: sys_rel_def)
  then show ?case using step.IH by simp
qed simp

text \<open>
  C2. No job is lost and no reference dangles: the database and the queue start empty, and the gateway,
  its recovery and any number of workers run, in any order, under any schedule of outages, lost answers
  and interference by processes that keep the same contract (\<open>shared_system\<close>). Then every job that is
  queued, claimed or waiting for a retry has its reference in the waiting or the held list; each entry
  of the three lists is the reference of a stored job and is there once; and only failed jobs are set
  aside.
\<close>

theorem no_job_is_lost:
  assumes "shared_system R kind val_at list_at hash_at S"
    and start: "w_db w = create_schema"
      "view_of val_at list_at DEFAULT_KEYS (w_redis w) = \<lparr>v_pending = [], v_processing = [], v_failed = [], v_marked = (\<lambda>_. None)\<rparr>"
    and runs: "(service_run S R)\<^sup>*\<^sup>* w w'" and v: "v = view_of val_at list_at DEFAULT_KEYS (w_redis w')"
  shows "(\<forall>k j. get_job k (w_db w') = Some j \<longrightarrow>
        (j_state j \<in> {J_QUEUED, J_PROCESSING, J_RETRY_WAIT} \<longrightarrow>
           to_json_bytes (reference j) \<in> set (v_pending v) \<union> set (v_processing v))
        \<and> (to_json_bytes (reference j) \<in> set (v_failed v) \<longrightarrow> j_state j = J_FAILED))
    \<and> (\<forall>e \<in> set (v_pending v @ v_processing v @ v_failed v). \<exists>k j. get_job k (w_db w') = Some j \<and> e = to_json_bytes (reference j))
    \<and> distinct (v_pending v @ v_processing v @ v_failed v)"
proof -
  have "sys_inv (w_db w') v" unfolding v using start sys_inv_start by (intro runs_keep [OF assms(1) runs]) simp
  then show ?thesis by (auto simp: sys_inv_def queue_inv_def entries_def active_def)
qed

lemma golden_view_start: "fake_queue.view (w_redis golden_start) = \<lparr>v_pending = [], v_processing = [], v_failed = [], v_marked = (\<lambda>_. None)\<rparr>"
  by (simp add: golden_start_def empty_view)

lemma golden_service_run:
  "service_run (alone golden_tx) fake_redis golden_start \<lparr>w_db = golden_queued, w_redis = golden_redis, w_tick = 7\<rparr>"
  using run_receive [of "alone golden_tx" fake_redis golden_start sample_settings sample_request] by (simp add: golden_run)

theorem no_job_is_lost_witness:
  "to_json_bytes (reference golden_queued_job) \<in> set (v_pending (fake_queue.view golden_redis)) \<union> set (v_processing (fake_queue.view golden_redis))"
proof -
  have "get_job 3 golden_queued = Some golden_queued_job" "j_state golden_queued_job = J_QUEUED"
    by (simp_all add: get_job_def queue_golden get_row_def golden_queued_job_def queued_job_def golden_job_def new_job_def golden_tx_def)
  moreover have "(service_run (alone golden_tx) fake_redis)\<^sup>*\<^sup>* golden_start \<lparr>w_db = golden_queued, w_redis = golden_redis, w_tick = 7\<rparr>"
    using golden_service_run by blast
  moreover have "w_db golden_start = create_schema" by (simp add: golden_start_def)
  ultimately show ?thesis
    using no_job_is_lost [OF fake_alone.shared_system_axioms _ golden_view_start _ refl] by fastforce
qed

text \<open>
  C3. An accepted delivery is durable when it is answered: whenever the gateway answers 202, the receipt
  it names holds exactly the body of the request and is accepted and queued, the packet it names came
  from that receipt, the packet's job is queued, and its reference is in the queue. This holds for a new
  delivery and for a repeated one, under any schedule of outages and interference.
\<close>

theorem queued_answer_is_durable:
  assumes shared: "shared_system R kind val_at list_at hash_at S"
    and inv: "sys_inv (w_db w) (view_of val_at list_at DEFAULT_KEYS (w_redis w))"
    and run: "receive_payload_data S R settings request w = (Inr resp, w')" "h_status resp = 202"
  shows "\<exists>raw rid pid rest receipt packet job.
      bounded_body request (gs_max_telemetry_body_bytes settings) = Inr raw
    \<and> h_content resp = JObj ((''receipt_id'', JStr (uuid_str rid)) # (''packet_id'', JStr pid) # rest)
    \<and> get_delivery rid (w_db w') = Some receipt \<and> d_raw_body receipt = raw
    \<and> d_validation_status receipt = V_ACCEPTED \<and> d_queue_status receipt = Q_QUEUED
    \<and> get_packet pid (w_db w') = Some packet \<and> p_source_receipt_id packet = rid
    \<and> get_job_for_packet pid (w_db w') = Some job \<and> j_state job = J_QUEUED
    \<and> to_json_bytes (reference job) \<in> set (v_pending (view_of val_at list_at DEFAULT_KEYS (w_redis w')))
        \<union> set (v_processing (view_of val_at list_at DEFAULT_KEYS (w_redis w')))"
proof -
  obtain raw rid pid jid job rest where a: "bounded_body request (gs_max_telemetry_body_bytes settings) = Inr raw"
    "h_content resp = JObj ((''receipt_id'', JStr (uuid_str rid)) # (''packet_id'', JStr pid) # rest)"
    and body: "holds_body (w_db w') rid raw" and src: "sourced (w_db w') rid pid"
    and job: "get_job jid (w_db w') = Some job" "j_packet_id job = pid" "j_state job = J_QUEUED"
    and inv': "sys_inv (w_db w') (view_of val_at list_at DEFAULT_KEYS (w_redis w'))"
    by (rule answer_sources [OF shared inv run])
  have dbi: "db_inv (w_db w')" using inv' by (simp add: sys_inv_def)
  obtain receipt where r: "get_delivery rid (w_db w') = Some receipt" "d_validation_status receipt = V_ACCEPTED"
      "d_queue_status receipt = Q_QUEUED" using sourced_status [OF dbi src job(1,2)] job(3) by auto
  have "get_job_for_packet pid (w_db w') = Some job"
    using get_row_unique [OF inv_keys(6) [OF dbi], of job] get_row_Some job(1,2) by (fastforce simp: get_job_for_packet_def get_job_def)
  moreover have "entry job \<in> active (view_of val_at list_at DEFAULT_KEYS (w_redis w'))" using inv' job by (simp add: sys_inv_def)
  ultimately show ?thesis using a body src r job(3) by (auto simp: holds_body_def sourced_def active_def)
qed

theorem queued_answer_is_durable_witness:
  "h_status golden_response = 202 \<and> (\<exists>raw rid receipt. bounded_body sample_request 1024 = Inr raw
     \<and> get_delivery rid golden_queued = Some receipt \<and> d_raw_body receipt = raw \<and> d_queue_status receipt = Q_QUEUED)"
proof -
  have status: "h_status golden_response = 202" by (simp add: golden_response_def json_response_def)
  have "sys_inv (w_db golden_start) (fake_queue.view (w_redis golden_start))"
    unfolding golden_view_start using sys_inv_start by (simp add: golden_start_def)
  from queued_answer_is_durable [OF fake_alone.shared_system_axioms this golden_run status] status
  show ?thesis by (auto simp: sample_settings_def)
qed

text \<open>
  C4. Every stored result is the engineering reading of the preserved bytes: after any runs of the
  services, a processed result belongs to a packet whose source receipt decodes to a frame with the
  packet's values, and its temperature and voltage are that frame's in degrees and volts as the nearest
  doubles, its mode, faults, classification and staleness those of the frame at the time of receipt.
\<close>

theorem results_read_preserved_bytes:
  assumes shared: "shared_system R kind val_at list_at hash_at S"
    and inv: "sys_inv (w_db w) (view_of val_at list_at DEFAULT_KEYS (w_redis w))"
    and runs: "(service_run S R)\<^sup>*\<^sup>* w w'" and t: "get_processed pid (w_db w') = Some t"
  shows "\<exists>packet receipt frame assessment mode. get_packet pid (w_db w') = Some packet
    \<and> get_delivery (p_source_receipt_id packet) (w_db w') = Some receipt
    \<and> decode_telemetry (d_raw_body receipt) (as_utc (d_received_at receipt)) = Inr frame
    \<and> packet_values packet = stored_values frame
    \<and> assess_health frame (as_utc (d_received_at receipt)) = Inr assessment
    \<and> OperatingMode_of (operating_mode frame) = Some mode
    \<and> t_temperature_c t = round_double (of_int (temperature_centi_c frame) / 100)
    \<and> t_voltage_v t = round_double (of_int (voltage_mv frame) / 1000)
    \<and> t_operating_mode t = operating_mode_name mode \<and> t_fault_names t = fault_names (fault_flags frame)
    \<and> t_classification t = classification assessment \<and> t_is_stale t = is_stale assessment"
proof -
  have "sys_inv (w_db w') (view_of val_at list_at DEFAULT_KEYS (w_redis w'))" by (rule runs_keep [OF shared runs inv])
  then obtain work res a where work: "work_of (w_db w') pid work" "processing_result work = Inr (res, a)" "same_processing_result t res"
    using t by (rule stored_result_work)
  then show ?thesis
    by (auto simp: processing_result_def work_of_def same_processing_result_def temperature_c_def voltage_v_def
        split: sum.splits if_splits option.splits)
qed

theorem results_read_preserved_bytes_witness:
  "\<exists>t packet receipt frame. get_processed (dv_packet_id golden_values) golden_processed = Some t
    \<and> get_packet (dv_packet_id golden_values) golden_processed = Some packet
    \<and> get_delivery (p_source_receipt_id packet) golden_processed = Some receipt
    \<and> decode_telemetry (d_raw_body receipt) (as_utc (d_received_at receipt)) = Inr frame
    \<and> t_temperature_c t = round_double (of_int (temperature_centi_c frame) / 100)"
proof -
  obtain w' where w': "run_worker (alone golden_tx) fake_redis (\<lambda>_. []) sample_worker ''worker'' 1
      \<lparr>w_db = golden_queued, w_redis = golden_redis, w_tick = 7\<rparr> = Some (Inr (), w')" "w_db w' = golden_processed"
    using golden_worker_run by blast
  have "(service_run (alone golden_tx) fake_redis)\<^sup>*\<^sup>* golden_start w'"
    using golden_service_run run_processing [OF w'(1)] by (metis rtranclp.simps snd_conv)
  moreover have "sys_inv (w_db golden_start) (fake_queue.view (w_redis golden_start))"
    unfolding golden_view_start using sys_inv_start by (simp add: golden_start_def)
  moreover have "\<exists>t. get_processed (dv_packet_id golden_values) (w_db w') = Some t"
    by (simp add: get_processed_def w'(2) complete_golden(3) get_row_def processed_row_def golden_claimed_job_def claimed_job_def
        golden_queued_job_def queued_job_def golden_job_def new_job_def)
  ultimately show ?thesis
    using results_read_preserved_bytes [OF fake_alone.shared_system_axioms, of golden_start golden_tx w'] w'(2) by metis
qed

end
