(* ===== verification/Service_Progress.thy ===== *)
theory Service_Progress
  imports Service_Properties
begin

text \<open>
  The worker makes progress. A claim and a completion succeed on rows that fit their columns; on services
  that answer, one iteration then takes the oldest reference to a stored result, and \<open>n\<close> iterations empty
  a queue of at most \<open>n\<close> references. An iteration takes at most seven calls, which bounds the event
  identifiers it can draw: they are asked to be fresh for that many ticks only.
\<close>

section \<open>Transactions that succeed\<close>

text \<open>A worker name the columns hold.\<close>

definition worker_name :: "string \<Rightarrow> bool" where
  "worker_name worker \<longleftrightarrow> worker \<noteq> [] \<and> varchar 255 worker"

definition event_ids :: "telemetry_db \<Rightarrow> uuid set" where
  "event_ids db = a_event_id ` set (audit_events db)"

lemma job_rows:
  assumes inv: "db_inv db" and job: "get_job k db = Some j"
  obtains packet receipt where "get_row p_packet_id (j_packet_id j) (packets db) = Some packet"
    "get_row d_receipt_id (p_source_receipt_id packet) (receipts db) = Some receipt" "varchar 64 (j_packet_id j)"
    "j_state j = J_COMPLETE \<longleftrightarrow> has_row t_packet_id (j_packet_id j) (processed db)"
proof -
  have j: "j \<in> set (jobs db)" using job get_row_Some by (fastforce simp: get_job_def)
  then have jok: "job_ok db j" using inv by (simp add: db_inv_def rows_ok_def)
  then have "has_row p_packet_id (j_packet_id j) (packets db)" by (simp add: job_ok_def)
  then obtain packet where p: "get_row p_packet_id (j_packet_id j) (packets db) = Some packet"
    using get_row_None [of p_packet_id "j_packet_id j" "packets db"] by blast
  then have "packet \<in> set (packets db)" "p_packet_id packet = j_packet_id j" using get_row_Some by fastforce+
  then have pok: "packet_ok db packet" using inv by (simp add: db_inv_def rows_ok_def)
  then have "has_row d_receipt_id (p_source_receipt_id packet) (receipts db)" by (auto simp: packet_ok_def has_row_def)
  then obtain receipt where "get_row d_receipt_id (p_source_receipt_id packet) (receipts db) = Some receipt"
    using get_row_None [of d_receipt_id "p_source_receipt_id packet" "receipts db"] by blast
  moreover have "varchar 64 (j_packet_id j)"
    using pok \<open>p_packet_id packet = j_packet_id j\<close> by (simp add: packet_ok_def check_packet_def split: if_splits)
  ultimately show ?thesis using that p jok by (simp add: job_ok_def)
qed

lemma claim_succeeds:
  assumes inv: "db_inv db" and job: "get_job k db = Some j" "j_state j = J_QUEUED"
    and row: "check_job j = None" "j_attempt_count j < 2147483647"
    and w: "worker_name worker" "0 < lease" and fresh: "event_id env \<notin> event_ids db"
  shows "\<exists>work db1. claim_processing_job env k worker lease db = Inr (Some work, db1) \<and>
    jobs db1 = put_row j_job_id (claimed_job env worker lease j) (jobs db) \<and> event_ids db1 = insert (event_id env) (event_ids db) \<and>
    check_job (claimed_job env worker lease j) = None"
proof -
  obtain packet receipt where r: "get_row p_packet_id (j_packet_id j) (packets db) = Some packet"
    "get_row d_receipt_id (p_source_receipt_id packet) (receipts db) = Some receipt" "varchar 64 (j_packet_id j)"
    "\<not> has_row t_packet_id (j_packet_id j) (processed db)" by (rule job_rows [OF inv job(1)]) (use job(2) in simp)
  have g: "get_row j_job_id k (jobs db) = Some j" "get_row t_packet_id (j_packet_id j) (processed db) = None"
    using job r(4) get_row_None [of t_packet_id "j_packet_id j" "processed db"] by (auto simp: get_job_def)
  have keys: "has_row j_job_id (j_job_id j) (jobs db)" "has_row p_packet_id (p_packet_id packet) (packets db)"
    "has_row d_receipt_id (d_receipt_id receipt) (receipts db)" "p_packet_id packet = j_packet_id j"
    using get_row_Some [OF g(1)] has_row_get [OF g(1)] get_row_Some [OF r(1)] has_row_get [OF r(1)] get_row_Some [OF r(2)] has_row_get [OF r(2)]
    by simp_all
  have check: "check_job (claimed_job env worker lease j) = None"
    using row w by (auto simp: check_job_def claimed_job_def worker_name_def int4_def opt_ok_def split: if_splits)
  have names: "varchar 64 ''payload-worker''" "varchar 128 ''telemetry.processing.claimed''" "varchar 64 ''PROCESSING''" "varchar 512 worker"
    using w by (auto simp: varchar_def pg_text_def worker_name_def)
  have fresh': "\<not> has_row a_event_id (event_id env) (audit_events db)" using fresh by (simp add: event_ids_def has_row_key)
  show ?thesis
    using g r(1,2,3) keys check names fresh' w job(2)
    by (simp add: claim_processing_job_def claimable_def worker_name_def save_job_def checked_def audit_def insert_audit_def check_audit_def
        opt_ok_def has_row_opt_def event_ids_def Let_def)
qed

text \<open>A result fits the columns.\<close>

lemma result_fits: "processing_result work = Inr (res, a) \<Longrightarrow> varchar 32 (pr_operating_mode res) \<and> varchar 64 (pr_processor_version res)"
proof -
  have "varchar 32 (operating_mode_name m)" for m by (cases m) (simp_all add: varchar_def pg_text_def)
  moreover have "varchar 64 PROCESSOR_VERSION" by (simp add: varchar_def pg_text_def PROCESSOR_VERSION_def)
  ultimately show "processing_result work = Inr (res, a) \<Longrightarrow> varchar 32 (pr_operating_mode res) \<and> varchar 64 (pr_processor_version res)"
    by (auto simp: processing_result_def split: sum.splits if_splits option.splits)
qed

lemma complete_succeeds:
  assumes inv: "db_inv db" and job: "get_job k db = Some j" "j_state j = J_PROCESSING" "j_claimed_by j = Some worker"
    and row: "check_job j = None" and w: "worker_name worker" and fresh: "event_id env \<notin> event_ids db"
    and fits: "varchar 32 (pr_operating_mode res)" "varchar 64 (pr_processor_version res)"
  shows "\<exists>x db1. complete_processing_job env k res worker None db = Inr (x, db1) \<and>
    jobs db1 = put_row j_job_id (completed_job (now env) j) (jobs db) \<and> event_ids db1 = insert (event_id env) (event_ids db) \<and>
    get_processed (j_packet_id j) db1 = Some (processed_row (now env) res j)"
proof -
  obtain packet receipt where r: "get_row p_packet_id (j_packet_id j) (packets db) = Some packet"
    "get_row d_receipt_id (p_source_receipt_id packet) (receipts db) = Some receipt" "varchar 64 (j_packet_id j)"
    "\<not> has_row t_packet_id (j_packet_id j) (processed db)" by (rule job_rows [OF inv job(1)]) (use job(2) in simp)
  have g: "get_row j_job_id k (jobs db) = Some j" "get_row t_packet_id (j_packet_id j) (processed db) = None"
    using job r(4) get_row_None [of t_packet_id "j_packet_id j" "processed db"] by (auto simp: get_job_def)
  have keys: "has_row j_job_id (j_job_id j) (jobs db)" "has_row p_packet_id (j_packet_id j) (packets db)"
    using get_row_Some [OF g(1)] has_row_get [OF g(1)] get_row_Some [OF r(1)] has_row_get [OF r(1)] by simp_all
  have new: "\<not> has_row t_processing_job_id (j_job_id j) (processed db)"
  proof
    assume "has_row t_processing_job_id (j_job_id j) (processed db)"
    then obtain t where t: "t \<in> set (processed db)" "t_processing_job_id t = j_job_id j" by (auto simp: has_row_def)
    then obtain i where i: "i \<in> set (jobs db)" "j_job_id i = j_job_id j" "j_packet_id i = t_packet_id t"
      using inv by (auto simp: db_inv_def rows_ok_def processed_ok_def)
    have "get_row j_job_id (j_job_id j) (jobs db) = Some i" using get_row_unique [OF inv_keys(5) [OF inv] i(1)] i(2) by simp
    then have "i = j" using g(1) get_row_Some [OF g(1)] by simp
    then show False using i(3) t(1) r(4) by (auto simp: has_row_def)
  qed
  have check: "check_job (completed_job (now env) j) = None"
    using row by (auto simp: check_job_def completed_job_def opt_ok_def split: if_splits)
  have names: "varchar 64 ''payload-worker''" "varchar 128 ''telemetry.processing.completed''" "varchar 64 ''COMPLETE''" "varchar 512 worker"
    using w by (auto simp: varchar_def pg_text_def worker_name_def)
  have fresh': "\<not> has_row a_event_id (event_id env) (audit_events db)" using fresh by (simp add: event_ids_def has_row_key)
  show ?thesis
    using g r(3,4) keys check names fresh' fits new job
    by (simp add: complete_processing_job_def save_job_def checked_def audit_def insert_audit_def check_audit_def insert_processed_def
        check_processed_def processed_row_def opt_ok_def has_row_opt_def event_ids_def get_processed_def Let_def get_row_append_None)
qed

section \<open>Nothing fails\<close>

text \<open>Every service answers and nobody else acts.\<close>

definition all_up :: "'r schedule \<Rightarrow> bool" where
  "all_up S \<longleftrightarrow> (\<forall>n s. others S n s = s) \<and> (\<forall>n. db_at S n = Up) \<and> (\<forall>n. redis_at S n = Up)"

text \<open>The event identifiers drawn from now until tick \<open>m\<close> are new and pairwise different.\<close>

definition fresh_draws :: "'r schedule \<Rightarrow> nat \<Rightarrow> 'r world \<Rightarrow> bool" where
  "fresh_draws S m w \<longleftrightarrow> distinct (map (\<lambda>n. event_id (tx_at S n)) [w_tick w..<m]) \<and>
     (\<forall>n \<in> {w_tick w..<m}. event_id (tx_at S n) \<notin> event_ids (w_db w))"

text \<open>A queued job whose packet can be processed.\<close>

definition processable :: "telemetry_db \<Rightarrow> TelemetryProcessingJob \<Rightarrow> bool" where
  "processable db j \<longleftrightarrow> j_state j = J_QUEUED \<and> check_job j = None \<and> j_attempt_count j < 2147483647 \<and>
     (\<exists>work res a. work_of db (j_packet_id j) work \<and> processing_result work = Inr (res, a))"

definition waiting_jobs :: "telemetry_db \<Rightarrow> TelemetryProcessingJob list \<Rightarrow> bool" where
  "waiting_jobs db js \<longleftrightarrow> distinct (map j_job_id js) \<and> (\<forall>j \<in> set js. get_job (j_job_id j) db = Some j \<and> processable db j)"

lemma processing_result_of: "work_of db pid work \<Longrightarrow> work_of db pid work' \<Longrightarrow> processing_result work' = processing_result work"
proof -
  assume "work_of db pid work" "work_of db pid work'"
  then have "wi_raw_body work' = wi_raw_body work" "wi_received_at work' = wi_received_at work" "wi_values work' = wi_values work"
    by (auto simp: work_of_def)
  then show ?thesis by (simp add: processing_result_def cong: sum.case_cong if_cong)
qed

lemma up_interfere: "all_up S \<Longrightarrow> interfere S w = w\<lparr>w_tick := Suc (w_tick w)\<rparr>"
  by (simp add: all_up_def interfere_def)

lemma up_db_op:
  "all_up S \<Longrightarrow> db_op S f w =
     (case f (tx_at S (w_tick w)) (retry_tx S (w_tick w)) (w_db w) of
        Inl e \<Rightarrow> (Inl (StorageFault e), w\<lparr>w_tick := Suc (w_tick w)\<rparr>)
      | Inr (x, db) \<Rightarrow> (Inr x, w\<lparr>w_tick := Suc (w_tick w), w_db := db\<rparr>))"
  by (simp add: db_op_def Let_def up_interfere) (simp add: all_up_def split: sum.split)

lemma up_redis_op:
  "all_up S \<Longrightarrow> redis_op fault S f w =
     (case f Up (w_redis w) of (res, r) \<Rightarrow> (map_sum fault id res, w\<lparr>w_tick := Suc (w_tick w), w_redis := r\<rparr>))"
  by (simp add: redis_op_def Let_def up_interfere) (simp add: all_up_def)

context shared_system
begin

lemma up_increment:
  assumes "all_up S"
  shows "\<exists>r. increment_safely S R name w = (Inr (), w\<lparr>w_tick := Suc (w_tick w), w_redis := r\<rparr>) \<and> view r = view (w_redis w)"
  using metric_view [of Up name 1 "w_redis w"]
  by (intro exI [of _ "snd (increment R Up name 1 (w_redis w))"]) (simp add: increment_safely_def up_redis_op [OF assms] split_beta)

lemma up_claim:
  assumes up: "all_up S" and sys: "sys w" and e: "v_pending (view (w_redis w)) = es @ [entry j]" "get_job k (w_db w) = Some j"
    and t: "\<not> isl (checked_timeout (PyInt timeout))"
  shows "\<exists>r. claim_reference S R timeout w = (Inr (Some (reference j)), w\<lparr>w_tick := w_tick w + 2, w_redis := r\<rparr>) \<and>
    view r = (view (w_redis w))\<lparr>v_pending := es, v_processing := entry j # v_processing (view (w_redis w))\<rparr>"
proof -
  have "from_json_bytes (entry j) = Inr (reference j)" by (rule from_to_json [OF valid_job_entry [OF sys e(2)]])
  then have "map_prod id view (claim R DEFAULT_KEYS Up Up (PyInt timeout) (w_redis w)) = (Inr (Some (reference j)),
      (view (w_redis w))\<lparr>v_pending := es, v_processing := entry j # v_processing (view (w_redis w))\<rparr>)"
    using t unfolding claim_refines
    by (auto simp: spec_claim_def spec_call_def spec_take_def e(1) split: sum.split)
  moreover have "redis_at S n = Up" for n using up by (simp add: all_up_def)
  ultimately show ?thesis
    by (intro exI [of _ "snd (claim R DEFAULT_KEYS Up Up (PyInt timeout) (w_redis w))"])
      (simp add: claim_reference_def up_redis_op [OF up] split_beta prod_eq_iff)
qed

lemma up_ack:
  assumes up: "all_up S" and e: "v_processing (view (w_redis w)) = to_json_bytes m # rest"
  shows "\<exists>r. queue_op S (\<lambda>av. ack R DEFAULT_KEYS av m) w = (Inr (), w\<lparr>w_tick := Suc (w_tick w), w_redis := r\<rparr>) \<and>
    v_pending (view r) = v_pending (view (w_redis w)) \<and> v_processing (view r) = rest \<and> v_failed (view r) = v_failed (view (w_redis w))"
proof -
  have "map_prod id view (ack R DEFAULT_KEYS Up m (w_redis w)) = (Inr (), (view (w_redis w))\<lparr>v_processing := rest,
      v_marked := (v_marked (view (w_redis w)))(q_job_id m := None)\<rparr>)"
    unfolding ack_refines by (simp add: spec_call_def spec_ack_def e)
  then show ?thesis
    by (intro exI [of _ "snd (ack R DEFAULT_KEYS Up m (w_redis w))"]) (simp add: up_redis_op [OF up] split_beta prod_eq_iff)
qed

lemma up_finish:
  assumes up: "all_up S" and e: "v_processing (view (w_redis w)) = to_json_bytes m # rest"
  shows "\<exists>w'. finish_processed S R m a w = (Inr (), w') \<and> w_db w' = w_db w \<and> w_tick w < w_tick w' \<and> w_tick w' \<le> w_tick w + 3 \<and>
    v_pending (view (w_redis w')) = v_pending (view (w_redis w)) \<and> v_processing (view (w_redis w')) = rest"
proof -
  obtain r where r: "queue_op S (\<lambda>av. ack R DEFAULT_KEYS av m) w = (Inr (), w\<lparr>w_tick := Suc (w_tick w), w_redis := r\<rparr>)"
    "v_pending (view r) = v_pending (view (w_redis w))" "v_processing (view r) = rest" using up_ack [OF up e] by blast
  let ?w1 = "w\<lparr>w_tick := Suc (w_tick w), w_redis := r\<rparr>"
  obtain r2 where r2: "increment_safely S R ''payload_processing_successes_total'' ?w1 = (Inr (), ?w1\<lparr>w_tick := Suc (w_tick ?w1), w_redis := r2\<rparr>)"
    "view r2 = view (w_redis ?w1)" using up_increment [OF up] by blast
  let ?w2 = "?w1\<lparr>w_tick := Suc (w_tick ?w1), w_redis := r2\<rparr>"
  obtain r3 where r3: "increment_safely S R ''payload_stale_results_total'' ?w2 = (Inr (), ?w2\<lparr>w_tick := Suc (w_tick ?w2), w_redis := r3\<rparr>)"
    "view r3 = view (w_redis ?w2)" using up_increment [OF up] by blast
  show ?thesis
    using r r2 r3 by (cases "is_stale a") (auto simp: finish_processed_def)
qed

text \<open>The three calls of an iteration on the database and the queue.\<close>

lemma up_handle:
  assumes up: "all_up S" and inv: "sys w" and fresh: "fresh_draws S m w" "Suc (w_tick w) < m" and name: "worker_name wid"
    and job: "get_job k (w_db w) = Some j" "processable (w_db w) j"
    and e: "v_processing (view (w_redis w)) = entry j # rest"
  shows "\<exists>w'. handle_reference S R driver wid (reference j) w = (Inr (), w') \<and>
    v_pending (view (w_redis w')) = v_pending (view (w_redis w)) \<and> v_processing (view (w_redis w')) = rest \<and>
    fresh_draws S m w' \<and> w_tick w' \<le> w_tick w + 5 \<and>
    (\<exists>j'. get_job k (w_db w') = Some j' \<and> j_state j' = J_COMPLETE) \<and> get_processed (j_packet_id j) (w_db w') \<noteq> None \<and>
    (\<forall>i. i \<noteq> k \<longrightarrow> get_job i (w_db w') = get_job i (w_db w))"
proof -
  let ?t = "w_tick w" let ?env = "tx_at S ?t" and ?env' = "tx_at S (Suc ?t)"
  have ids: "event_id (tx_at S n) \<notin> event_ids (w_db w)" if "?t \<le> n" "n < m" for n using fresh that by (simp add: fresh_draws_def)
  have inj: "inj_on (\<lambda>n. event_id (tx_at S n)) {?t..<m}" using fresh(1) by (simp add: fresh_draws_def distinct_map)
  have differ: "event_id (tx_at S n) \<noteq> event_id (tx_at S i)" if "n \<noteq> i" "?t \<le> n" "n < m" "?t \<le> i" "i < m" for n i
    using inj that by (auto dest: inj_onD)
  have dbi: "db_inv (w_db w)" using inv by (simp add: sys_inv_def)
  have jp: "j_state j = J_QUEUED" "check_job j = None" "j_attempt_count j < 2147483647" using job(2) by (simp_all add: processable_def)
  obtain work db1 where claim: "claim_processing_job ?env k wid 60 (w_db w) = Inr (Some work, db1)"
    "jobs db1 = put_row j_job_id (claimed_job ?env wid 60 j) (jobs (w_db w))" "event_ids db1 = insert (event_id ?env) (event_ids (w_db w))"
    "check_job (claimed_job ?env wid 60 j) = None"
    using claim_succeeds [OF dbi job(1) jp name, of 60 ?env] ids [of ?t] fresh(2) by auto
  have keeps1: "sys_inv db1 (view (w_redis w))" using claim_keeps [OF inv claim(1)] by blast
  have dbi1: "db_inv db1" using keeps1 by (simp add: sys_inv_def)
  let ?j = "claimed_job ?env wid 60 j"
  have j1: "get_job k db1 = Some ?j"
    using claim(2) get_row_Some [of j_job_id k "jobs (w_db w)" j] has_row_get [of j_job_id k "jobs (w_db w)" j] job(1)
    by (simp add: get_job_def get_put_row claimed_job_def)
  obtain work' res a where work': "work_of (w_db w) (j_packet_id j) work'" "processing_result work' = Inr (res, a)"
    using job(2) by (auto simp: processable_def)
  have "work_of db1 (j_packet_id j) work'"
    using extends_work [OF _ dbi1 work'(1)] repo_step_keeps [OF repo_step.step_claim [OF claim(1)] dbi] by blast
  moreover have w1: "wi_job_id work = k" "work_of db1 (j_packet_id j) work"
    using claims [OF dbi claim(1)] j1 by (auto simp: claimed_job_def)
  ultimately have pr: "processing_result work = Inr (res, a)" using processing_result_of work'(2) by metis
  obtain x db2 where complete: "complete_processing_job ?env' k res wid None db1 = Inr (x, db2)"
    "jobs db2 = put_row j_job_id (completed_job (now ?env') ?j) (jobs db1)" "event_ids db2 = insert (event_id ?env') (event_ids db1)"
    "get_processed (j_packet_id ?j) db2 = Some (processed_row (now ?env') res ?j)"
    using complete_succeeds [OF dbi1 j1 _ _ claim(4) name, of ?env' res] result_fits [OF pr] ids [of "Suc ?t"] claim(3) differ [of "Suc ?t" ?t] fresh(2)
    by (auto simp: claimed_job_def)
  let ?w1 = "w\<lparr>w_tick := Suc ?t, w_db := db1\<rparr>" and ?w2 = "w\<lparr>w_tick := Suc (Suc ?t), w_db := db2\<rparr>"
  obtain w' where w': "finish_processed S R (reference j) a ?w2 = (Inr (), w')" "w_db w' = db2" "Suc (Suc ?t) < w_tick w'" "w_tick w' \<le> ?t + 5"
    "v_pending (view (w_redis w')) = v_pending (view (w_redis w))" "v_processing (view (w_redis w')) = rest"
    using up_finish [OF up, of ?w2 "reference j" rest a] e by auto
  have "process_work S R wid (reference j) work ?w1 = (Inr (), w')"
    using complete(1) w'(1) by (simp add: process_work_def pr w1(1) up_db_op [OF up])
  moreover have "uuid_parse (q_job_id (reference j)) = Some k" using get_job_id [OF job(1)] by (simp add: reference_def)
  ultimately have "handle_reference S R driver wid (reference j) w = (Inr (), w')"
    using claim(1) by (simp add: handle_reference_def up_db_op [OF up])
  moreover have "fresh_draws S m w'"
    using ids claim(3) complete(3) w'(2,3) differ inj_on_subset [OF inj, of "{w_tick w'..<m}"]
    by (auto simp: fresh_draws_def distinct_map)
  moreover have "get_job k db2 = Some (completed_job (now ?env') ?j)"
    using complete(2) get_row_Some [of j_job_id k "jobs db1" ?j] has_row_get [of j_job_id k "jobs db1" ?j] j1
    by (simp add: get_job_def get_put_row completed_job_def)
  moreover have "get_job i db2 = get_job i (w_db w)" if "i \<noteq> k" for i
    using that claim(2) complete(2) get_job_id [OF job(1)] by (simp add: get_job_def get_put_row claimed_job_def completed_job_def)
  ultimately show ?thesis using w' complete(4) by (auto simp: completed_job_def claimed_job_def)
qed


lemma fresh_later:
  "fresh_draws S m w \<Longrightarrow> w_tick w \<le> w_tick w' \<Longrightarrow> m' \<le> m \<Longrightarrow> event_ids (w_db w') = event_ids (w_db w) \<Longrightarrow> fresh_draws S m' w'"
  by (auto simp: fresh_draws_def distinct_map intro: inj_on_subset)

lemma up_iteration:
  assumes up: "all_up S" and inv: "sys w" and fresh: "fresh_draws S m w" "w_tick w + 7 \<le> m" and name: "worker_name wid"
    and q: "v_pending (view (w_redis w)) = rev (map entry (j # js))" "v_processing (view (w_redis w)) = []"
    and t: "\<not> isl (checked_timeout (PyInt (ws_claim_timeout_seconds settings)))" and waiting: "waiting_jobs (w_db w) (j # js)"
  shows "\<exists>w'. worker_iteration S R driver settings wid w = (Inr (), w') \<and>
    v_pending (view (w_redis w')) = rev (map entry js) \<and> v_processing (view (w_redis w')) = [] \<and>
    fresh_draws S m w' \<and> w_tick w' \<le> w_tick w + 7 \<and> waiting_jobs (w_db w') js \<and> state_at w' (j_job_id j) J_COMPLETE"
proof -
  have job: "get_job (j_job_id j) (w_db w) = Some j" "processable (w_db w) j" using waiting by (simp_all add: waiting_jobs_def)
  obtain r where r: "claim_reference S R (ws_claim_timeout_seconds settings) w = (Inr (Some (reference j)), w\<lparr>w_tick := w_tick w + 2, w_redis := r\<rparr>)"
    "view r = (view (w_redis w))\<lparr>v_pending := rev (map entry js), v_processing := entry j # v_processing (view (w_redis w))\<rparr>"
    using up_claim [OF up inv _ job(1) t, of "rev (map entry js)"] q(1) by auto
  let ?w = "w\<lparr>w_tick := w_tick w + 2, w_redis := r\<rparr>"
  have sys1: "sys ?w" using claim_reference_safe [of w "ws_claim_timeout_seconds settings"] inv by (simp add: safe_def r(1))
  obtain w' where w': "handle_reference S R driver wid (reference j) ?w = (Inr (), w')"
    "v_pending (view (w_redis w')) = rev (map entry js)" "v_processing (view (w_redis w')) = []" "fresh_draws S m w'" "w_tick w' \<le> w_tick w + 7"
    "state_at w' (j_job_id j) J_COMPLETE" "\<And>i. i \<noteq> j_job_id j \<Longrightarrow> get_job i (w_db w') = get_job i (w_db w)"
    using up_handle [OF up sys1 fresh_later [OF fresh(1), of _ m] _ name, of "j_job_id j" j "[]" driver] fresh(2) job q(2) r(2)
    by (auto simp: state_at_def)
  have sys2: "sys w' \<and> rel ?w w'"
    using handle_reference_safe [of ?w "reference j" "j_job_id j" driver wid] sys1 job(1) w'(1) by (simp add: safe_def names_def)
  have "processable (w_db w') i" if "processable (w_db w) i" for i
  proof -
    have "db_inv (w_db w')" "db_inv (w_db w)" "repo_step\<^sup>*\<^sup>* (w_db w) (w_db w')" using sys2 inv by (auto simp: sys_inv_def sys_rel_def)
    then have "work_of (w_db w') pid work" if "work_of (w_db w) pid work" for pid work
      using extends_work [OF _ _ that] steps_keep by blast
    then show ?thesis using that unfolding processable_def by blast
  qed
  moreover have "j_job_id i \<noteq> j_job_id j" if "i \<in> set js" for i using waiting that by (auto simp: waiting_jobs_def image_iff)
  ultimately have "waiting_jobs (w_db w') js" using waiting w'(7) by (simp add: waiting_jobs_def)
  then show ?thesis using w' by (simp add: worker_iteration_def r(1))
qed

lemma up_idle:
  assumes up: "all_up S" and q: "v_pending (view (w_redis w)) = []"
    and t: "\<not> isl (checked_timeout (PyInt (ws_claim_timeout_seconds settings)))"
  shows "\<exists>r. worker_iteration S R driver settings wid w = (Inr (), w\<lparr>w_tick := w_tick w + 2, w_redis := r\<rparr>) \<and> view r = view (w_redis w)"
proof -
  have "map_prod id view (claim R DEFAULT_KEYS Up Up (PyInt (ws_claim_timeout_seconds settings)) (w_redis w)) = (Inr None, view (w_redis w))"
    using t unfolding claim_refines by (auto simp: spec_claim_def spec_call_def spec_take_def q split: sum.split)
  moreover have "redis_at S n = Up" for n using up by (simp add: all_up_def)
  ultimately show ?thesis
    by (intro exI [of _ "snd (claim R DEFAULT_KEYS Up Up (PyInt (ws_claim_timeout_seconds settings)) (w_redis w))"])
      (simp add: worker_iteration_def claim_reference_def up_redis_op [OF up] split_beta prod_eq_iff)
qed

lemma up_loop:
  assumes up: "all_up S" and t: "\<not> isl (checked_timeout (PyInt (ws_claim_timeout_seconds settings)))" and name: "worker_name wid"
  shows "sys w \<Longrightarrow> fresh_draws S m w \<Longrightarrow> w_tick w + 7 * length js \<le> m \<Longrightarrow> length js \<le> n \<Longrightarrow>
    v_pending (view (w_redis w)) = rev (map entry js) \<Longrightarrow> v_processing (view (w_redis w)) = [] \<Longrightarrow> waiting_jobs (w_db w) js \<Longrightarrow>
    \<exists>w'. worker_loop S R driver settings wid n w = (Inr (), w') \<and> active (view (w_redis w')) = {} \<and>
      (\<forall>j \<in> set js. state_at w' (j_job_id j) J_COMPLETE)"
proof (induction n arbitrary: js w m)
  case 0
  then show ?case by (simp add: active_def)
next
  case (Suc n)
  show ?case
  proof (cases js)
    case Nil
    obtain r where r: "worker_iteration S R driver settings wid w = (Inr (), w\<lparr>w_tick := w_tick w + 2, w_redis := r\<rparr>)"
      "view r = view (w_redis w)" using up_idle [OF up _ t, of w driver wid] Suc.prems(5) Nil by auto
    then show ?thesis
      using Suc.IH [of "w\<lparr>w_tick := w_tick w + 2, w_redis := r\<rparr>" "w_tick w + 2" "[]"] Suc.prems Nil
      by (simp add: fresh_draws_def waiting_jobs_def)
  next
    case (Cons j rest)
    obtain w1 where w1: "worker_iteration S R driver settings wid w = (Inr (), w1)"
      "v_pending (view (w_redis w1)) = rev (map entry rest)" "v_processing (view (w_redis w1)) = []" "fresh_draws S m w1"
      "w_tick w1 \<le> w_tick w + 7" "waiting_jobs (w_db w1) rest" "state_at w1 (j_job_id j) J_COMPLETE"
      using up_iteration [OF up Suc.prems(1,2) _ name _ Suc.prems(6) t, of j rest driver] Suc.prems Cons by auto
    have sys1: "sys w1" using worker_iteration_safe [of w driver settings wid] Suc.prems(1) by (simp add: safe_def w1(1))
    obtain w' where w': "worker_loop S R driver settings wid n w1 = (Inr (), w')" "active (view (w_redis w')) = {}"
      "\<forall>j \<in> set rest. state_at w' (j_job_id j) J_COMPLETE"
      using Suc.IH [OF sys1 w1(4), of rest] w1 Suc.prems(3,4) Cons by auto
    have "rel w1 w'" using worker_loop_safe [of w1 driver settings wid n] sys1 by (simp add: safe_def w'(1))
    then have "state_at w' (j_job_id j) J_COMPLETE" using state_stable [OF sys1 _ _ w1(7)] by simp
    then show ?thesis using w' Cons by (simp add: w1(1))
  qed
qed


lemma ready_jobs:
  assumes inv: "sys_inv db v" and ready: "\<forall>e \<in> active v. \<exists>k j. get_job k db = Some j \<and> e = entry j \<and> processable db j"
  obtains js where "v_processing v @ v_pending v = rev (map entry js)" "waiting_jobs db js"
proof -
  let ?P = "\<lambda>j. get_job (j_job_id j) db = Some j \<and> processable db j"
  have "\<exists>j. e = entry j \<and> ?P j" if "e \<in> set (rev (v_processing v @ v_pending v))" for e
    using ready that get_job_id by (fastforce simp: active_def)
  then obtain f where f: "\<And>e. e \<in> set (rev (v_processing v @ v_pending v)) \<Longrightarrow> e = entry (f e) \<and> ?P (f e)" by metis
  let ?js = "map f (rev (v_processing v @ v_pending v))"
  have "map entry ?js = rev (v_processing v @ v_pending v)" using f by (auto intro: map_idI)
  moreover have "distinct (rev (v_processing v @ v_pending v))" using inv by (auto simp: sys_inv_def queue_inv_def entries_def)
  moreover have ps: "\<forall>j \<in> set ?js. ?P j" using f by auto
  ultimately have "distinct (map entry ?js)" by simp
  then have "inj_on entry (set ?js)" "distinct ?js" by (simp_all only: distinct_map)
  moreover have "inj_on j_job_id (set ?js)" using ps by (intro inj_onI) (metis option.inject)
  ultimately have "waiting_jobs db ?js" using ps by (simp only: waiting_jobs_def distinct_map)
  then show ?thesis using that \<open>map entry ?js = _\<close> by (metis rev_rev_ident)
qed

lemma up_run:
  assumes up: "all_up S" and inv: "sys w" and name: "worker_name wid"
    and t: "\<not> isl (checked_timeout (PyInt (ws_claim_timeout_seconds settings)))"
    and ready: "\<forall>e \<in> active (view (w_redis w)). \<exists>k j. get_job k (w_db w) = Some j \<and> e = entry j \<and> processable (w_db w) j"
    and n: "length (v_processing (view (w_redis w)) @ v_pending (view (w_redis w))) \<le> n" and fresh: "fresh_draws S (w_tick w + 1 + 7 * n) w"
  shows "\<exists>w'. run_worker S R driver settings wid n w = Some (Inr (), w') \<and> active (view (w_redis w')) = {} \<and>
    (\<forall>k j. get_job k (w_db w) = Some j \<and> j_state j = J_QUEUED \<longrightarrow> state_at w' k J_COMPLETE)"
proof -
  obtain js where js: "v_processing (view (w_redis w)) @ v_pending (view (w_redis w)) = rev (map entry js)" "waiting_jobs (w_db w) js"
    by (rule ready_jobs [OF inv ready])
  let ?w = "w\<lparr>w_tick := Suc (w_tick w)\<rparr>"
  have "redis_at S (w_tick w) = Up" using up by (simp add: all_up_def)
  then have "map_option (map_prod id view) (recover_processing R DEFAULT_KEYS (redis_at S (w_tick w)) (w_redis w)) = Some (spec_recover (view (w_redis w)))"
    unfolding recover_refines by (simp add: spec_call_def)
  then obtain x r where r: "recover_processing R DEFAULT_KEYS (redis_at S (w_tick w)) (w_redis w) = Some (Inr x, r)"
    "view r = (view (w_redis w))\<lparr>v_pending := rev (map entry js), v_processing := []\<rparr>"
    by (auto simp: spec_recover_def js(1) map_prod_def split: prod.splits)
  let ?w1 = "?w\<lparr>w_redis := r\<rparr>"
  have run: "run_worker S R driver settings wid n w = Some (worker_loop S R driver settings wid n ?w1)"
    by (simp add: run_worker_def up_interfere [OF up] r(1))
  have "sys ?w1" using spec_recover_keeps [of "w_db w" "view (w_redis w)"] inv r(2) by (simp add: spec_recover_def js(1))
  moreover have "length js \<le> n" using n by (simp only: js(1)) simp
  moreover have "fresh_draws S (w_tick ?w1 + 7 * length js) ?w1"
    by (rule fresh_later [OF fresh]) (use \<open>length js \<le> n\<close> in simp_all)
  ultimately obtain w' where w': "worker_loop S R driver settings wid n ?w1 = (Inr (), w')" "active (view (w_redis w')) = {}"
    "\<forall>j \<in> set js. state_at w' (j_job_id j) J_COMPLETE" using up_loop [OF up t name, of ?w1 "w_tick ?w1 + 7 * length js" js n driver] js(2) r(2) by auto
  have "state_at w' k J_COMPLETE" if j: "get_job k (w_db w) = Some j" "j_state j = J_QUEUED" for k j
  proof -
    have "entry j \<in> active (view (w_redis w))" using inv j by (simp add: sys_inv_def)
    then have "entry j \<in> set (rev (map entry js))" unfolding js(1) [symmetric] by (auto simp: active_def)
    then obtain i where "i \<in> set js" "entry j = entry i" by auto
    then show ?thesis using w'(3) js(2) entry_inject [OF inv j(1)] by (auto simp: waiting_jobs_def)
  qed
  then show ?thesis using run w'(1,2) by auto
qed


lemma completed_result:
  assumes inv: "sys w" and rel: "sys w' \<and> rel w w'" and job: "get_job k (w_db w) = Some j" and st: "state_at w' k J_COMPLETE"
  shows "\<exists>j' t. get_job k (w_db w') = Some j' \<and> j_state j' = J_COMPLETE \<and> get_processed (j_packet_id j) (w_db w') = Some t"
proof -
  obtain j' where j': "get_job k (w_db w') = Some j'" "reference j' = reference j" using rel_job [OF inv _ job] rel by blast
  have complete: "j_state j' = J_COMPLETE" using st j'(1) by (simp add: state_at_def)
  have "db_inv (w_db w')" using rel by (simp add: sys_inv_def)
  then have "has_row t_packet_id (j_packet_id j') (processed (w_db w'))" using job_rows [OF _ j'(1)] complete by metis
  moreover have "j_packet_id j' = j_packet_id j" using j'(2) by (simp add: reference_def)
  ultimately show ?thesis
    using j'(1) complete get_row_None [of t_packet_id "j_packet_id j" "processed (w_db w')"] by (cases "get_processed (j_packet_id j) (w_db w')") (auto simp: get_processed_def)
qed

end

section \<open>The queue runs empty\<close>

text \<open>
  C5. The worker gets its work done: when every service answers, nobody interferes and the references on
  the lists name queued jobs whose packets can be processed, \<^verbatim>\<open>run_worker\<close> with as many iterations as there
  are references leaves both lists empty, and every job that was queued is complete with a stored result.
\<close>

theorem worker_drains_queue:
  assumes shared: "shared_system R kind val_at list_at hash_at S" and up: "all_up S"
    and inv: "sys_inv (w_db w) (view_of val_at list_at DEFAULT_KEYS (w_redis w))"
    and settings: "worker_name worker_id" "0 \<le> ws_claim_timeout_seconds settings"
    and ready: "\<forall>e \<in> active (view_of val_at list_at DEFAULT_KEYS (w_redis w)).
      \<exists>k j. get_job k (w_db w) = Some j \<and> e = to_json_bytes (reference j) \<and> processable (w_db w) j"
    and n: "length (v_processing (view_of val_at list_at DEFAULT_KEYS (w_redis w))
      @ v_pending (view_of val_at list_at DEFAULT_KEYS (w_redis w))) \<le> n"
    and fresh: "fresh_draws S (w_tick w + 1 + 7 * n) w"
  shows "\<exists>w'. run_worker S R driver settings worker_id n w = Some (Inr (), w')
    \<and> active (view_of val_at list_at DEFAULT_KEYS (w_redis w')) = {}
    \<and> (\<forall>k j. get_job k (w_db w) = Some j \<and> j_state j = J_QUEUED \<longrightarrow>
        (\<exists>j' t. get_job k (w_db w') = Some j' \<and> j_state j' = J_COMPLETE \<and> get_processed (j_packet_id j) (w_db w') = Some t))"
proof -
  have t: "\<not> isl (checked_timeout (PyInt (ws_claim_timeout_seconds settings)))" using settings(2) by (simp add: checked_timeout_def)
  obtain w' where w': "run_worker S R driver settings worker_id n w = Some (Inr (), w')"
    "active (view_of val_at list_at DEFAULT_KEYS (w_redis w')) = {}"
    "\<forall>k j. get_job k (w_db w) = Some j \<and> j_state j = J_QUEUED \<longrightarrow> shared_system.state_at w' k J_COMPLETE"
    using shared_system.up_run [OF shared up inv settings(1) t ready n fresh] by blast
  then show ?thesis
    using shared_system.completed_result [OF shared inv] shared_system.run_worker_safe [OF shared w'(1)] inv
    by (fastforce simp: shared_system.safe_def [OF shared])
qed

lemma golden_ready: "processable golden_queued golden_queued_job"
proof -
  obtain a where "processing_result golden_work = Inr (golden_result, a)" using golden_processing by blast
  moreover have "work_of golden_queued (j_packet_id golden_queued_job) golden_work"
    using golden_packet_id
    by (simp add: work_of_def get_packet_def get_delivery_def queue_golden accept_golden golden_work_def golden_utc packet_values_def
        golden_values_record golden_queued_job_def queued_job_def queued_receipt_def golden_job_def golden_values_simps golden_row_simps)
  ultimately show ?thesis
    using golden_packet_id unfolding processable_def
    by (auto simp: golden_queued_job_def queued_job_def golden_job_def new_job_def check_job_def golden_row_simps int4_def opt_ok_def)
qed

theorem worker_drains_queue_witness:
  "\<exists>w' j'. run_worker (alone golden_tx) fake_redis (\<lambda>_. []) sample_worker ''worker'' 3
      \<lparr>w_db = golden_queued, w_redis = golden_redis, w_tick = 7\<rparr> = Some (Inr (), w')
    \<and> active (fake_queue.view (w_redis w')) = {} \<and> get_job 3 (w_db w') = Some j' \<and> j_state j' = J_COMPLETE"
proof -
  let ?w = "\<lparr>w_db = golden_queued, w_redis = golden_redis, w_tick = 7\<rparr>"
  have up: "all_up (alone golden_tx :: FakeRedis schedule)" by (simp add: all_up_def alone_def)
  have job: "get_job 3 golden_queued = Some golden_queued_job"
    by (simp add: get_job_def get_row_def queue_golden(4) golden_queued_job_def queued_job_def golden_job_def new_job_def golden_tx_def)
  have inv: "sys_inv golden_queued (fake_queue.view golden_redis)"
    using runs_keep [OF fake_alone.shared_system_axioms r_into_rtranclp [where r = "service_run (alone golden_tx) fake_redis", OF golden_service_run]] sys_inv_start golden_view_start by (simp add: golden_start_def)
  have ref: "reference golden_queued_job = golden_message"
    by (simp add: reference_def golden_message_def golden_queued_job_def queued_job_def golden_job_def new_job_def golden_tx_def)
  have entries: "\<forall>e \<in> active (fake_queue.view golden_redis). \<exists>k j. get_job k golden_queued = Some j \<and> e = to_json_bytes (reference j) \<and> processable golden_queued j"
    using job golden_ready by (simp add: active_def golden_redis_view flip: ref) blast
  have draws: "fresh_draws (alone golden_tx :: FakeRedis schedule) 29 ?w"
    by (simp add: fresh_draws_def event_ids_def queue_golden(7) alone_def golden_tx_def upt_rec flip: set_upt)
  have name: "worker_name ''worker''" by (simp add: worker_name_def varchar_def pg_text_def)
  have queued: "j_state golden_queued_job = J_QUEUED" by (simp add: golden_queued_job_def queued_job_def)
  obtain w' where "run_worker (alone golden_tx) fake_redis (\<lambda>_. []) sample_worker ''worker'' 3 ?w = Some (Inr (), w')"
    "active (fake_queue.view (w_redis w')) = {}"
    "\<forall>k j. get_job k golden_queued = Some j \<and> j_state j = J_QUEUED \<longrightarrow>
        (\<exists>j' t. get_job k (w_db w') = Some j' \<and> j_state j' = J_COMPLETE \<and> get_processed (j_packet_id j) (w_db w') = Some t)"
    using worker_drains_queue [OF fake_alone.shared_system_axioms up, of ?w "''worker''" sample_worker 3 "\<lambda>_. []"] inv entries draws name
    by (auto simp: sample_worker_def golden_redis_view)
  then show ?thesis using job queued by blast
qed

end
