(* ===== verification/Gateway_Access.thy ===== *)
theory Gateway_Access
  imports Service_Properties
begin

text \<open>
  Access to the gateway: what a request without the right credential can do, and what it is answered. The
  predicate \<open>answers\<close> carries a fact about the response through the control structure of the handlers.
\<close>

section \<open>Answers\<close>











text \<open>A response that does not ask for a credential.\<close>

definition admitted :: "http_response \<Rightarrow> bool" where
  "admitted resp \<longleftrightarrow> h_status resp \<noteq> 401 \<and> h_status resp \<noteq> 403"

lemma admitted_status [simp]: "admitted (json_response s c) \<longleftrightarrow> s \<noteq> 401 \<and> s \<noteq> 403"
  "admitted (http_exception s d hs) \<longleftrightarrow> s \<noteq> 401 \<and> s \<noteq> 403"
  by (simp_all add: admitted_def json_response_def http_exception_def)









section \<open>Without a credential\<close>













section \<open>Readers\<close>


















section \<open>Access\<close>



end
