(* ===== verification/Vendor_Simulator.thy ===== *)
theory Vendor_Simulator
  imports Telemetry_Codec Telemetry_Config Py_Float_Text Py_Json "HOL-Library.Product_Lexorder"
begin

text \<open>
  The payload and vendor simulator (\<^verbatim>\<open>mission_ground/services/vendor_simulator.py\<close>): the payload that
  numbers and encodes frames, its boot counter in a file, the failures it injects on the wire, the
  forwarding of exact bytes to the ground with at most three attempts, and the handler of a control
  request. The file is its content, replaced atomically; a write may fail and then leaves it alone. The
  HTTP client is a parameter, one outcome per attempt. A \<^verbatim>\<open>float\<close> is the number it denotes.
\<close>

section \<open>Requests\<close>

datatype FailureMode = NONE | CORRUPT_CRC | UNSUPPORTED_VERSION | SKIP_SEQUENCE | DUPLICATE_LAST

datatype OperatingModeName = SAFE_NAME | STANDBY_NAME | SCIENCE_NAME | CALIBRATION_NAME

fun mode_name_value :: "OperatingModeName \<Rightarrow> string" where
  "mode_name_value SAFE_NAME = ''SAFE''"
| "mode_name_value STANDBY_NAME = ''STANDBY''"
| "mode_name_value SCIENCE_NAME = ''SCIENCE''"
| "mode_name_value CALIBRATION_NAME = ''CALIBRATION''"

text \<open>The lookup \<^verbatim>\<open>OperatingMode[name]\<close>; \<open>None\<close> is its \<^verbatim>\<open>KeyError\<close>.\<close>

definition OperatingMode_named :: "string \<Rightarrow> OperatingMode option" where
  "OperatingMode_named = map_of [(''SAFE'', SAFE), (''STANDBY'', STANDBY), (''SCIENCE'', SCIENCE), (''CALIBRATION'', CALIBRATION)]"

record TelemetryRequest =
  tr_temperature_c :: rat
  tr_voltage_v :: rat
  tr_operating_mode :: OperatingModeName
  tr_fault_flags :: int
  tr_failure_mode :: FailureMode

text \<open>The bounds of the request model; the framework refuses any other request.\<close>

definition request_ok :: "TelemetryRequest \<Rightarrow> bool" where
  "request_ok r \<longleftrightarrow> -100 \<le> tr_temperature_c r \<and> tr_temperature_c r \<le> 150 \<and> 0 \<le> tr_voltage_v r \<and> tr_voltage_v r \<le> 50 \<and>
     0 \<le> tr_fault_flags r \<and> tr_fault_flags r \<le> 0x3F"

datatype vendor_error = RuntimeError string | OSError | VendorValueError string | UnicodeDecodeError | VendorKeyError string
  | VendorIndexError | CodecFault codec_error | HTTPException int string | HTTPError string | OtherException string | AssertionError string

text \<open>
  \<^verbatim>\<open>_timestamp_us\<close>: the seconds of the clock as a double, multiplied by a million and truncated.
\<close>

definition clock_timestamp_us :: "int \<Rightarrow> int" where
  "clock_timestamp_us now_us =
     (let seconds = round_double (of_int now_us / 1000000); us = round_double (seconds * 1000000)
      in if 0 \<le> us then \<lfloor>us\<rfloor> else \<lceil>us\<rceil>)"

text \<open>\<^verbatim>\<open>Decimal(str(value))\<close>: the shortest decimal that rounds to the double, see \<open>float_repr\<close>.\<close>

definition shortest_decimal :: "rat \<Rightarrow> rat" where
  "shortest_decimal x =
     (if x = 0 then 0
      else let p = decimal_point \<bar>x\<bar>;
               ok = (\<lambda>k. round_double (scale10 (p - int k) (of_int (rounded_digits \<bar>x\<bar> p k))) = \<bar>x\<bar>);
               k = (case find ok [1..<17] of None \<Rightarrow> 17 | Some k \<Rightarrow> k)
           in sgn x * scale10 (p - int k) (of_int (rounded_digits \<bar>x\<bar> p k)))"

definition round_half_up :: "rat \<Rightarrow> int" where
  "round_half_up x = (if 0 \<le> x then \<lfloor>x + 1 / 2\<rfloor> else - \<lfloor>- x + 1 / 2\<rfloor>)"

definition scaled :: "rat \<Rightarrow> int \<Rightarrow> int" where
  "scaled value factor = round_half_up (shortest_decimal value * of_int factor)"

section \<open>The boot counter\<close>

definition previous_boot_id :: "string option \<Rightarrow> vendor_error + int" where
  "previous_boot_id file =
     (case file of
        None \<Rightarrow> Inr 0
      | Some content \<Rightarrow>
          if \<not> list_all (\<lambda>c. of_char c < (128 :: nat)) content then Inl UnicodeDecodeError
          else let text = py_strip content in
            if text = [] then Inr 0
            else (case py_int 10 text of None \<Rightarrow> Inl (VendorValueError text) | Some n \<Rightarrow> Inr n))"

definition persist :: "bool \<Rightarrow> int \<Rightarrow> string option \<Rightarrow> (vendor_error + unit) \<times> string option" where
  "persist writable value file =
     (if writable then (Inr (), Some (py_str value @ [CHR 0x0A])) else (Inl OSError, file))"

definition load_next_boot_id :: "bool \<Rightarrow> string option \<Rightarrow> (vendor_error + int) \<times> string option" where
  "load_next_boot_id writable file =
     (case previous_boot_id file of
        Inl e \<Rightarrow> (Inl e, file)
      | Inr previous \<Rightarrow>
          if \<not> (0 \<le> previous \<and> previous < UINT32_MAX)
          then (Inl (RuntimeError ''persisted boot identifier cannot be incremented safely''), file)
          else let current = previous + 1 in
            (case persist writable current file of (Inl e, f) \<Rightarrow> (Inl e, f) | (Inr _, f) \<Rightarrow> (Inr current, f)))"

section \<open>The payload\<close>

record PayloadSimulator =
  ps_boot_id :: int
  ps_next_sequence :: int

definition roll_session_if_needed ::
  "bool \<Rightarrow> PayloadSimulator \<times> string option \<Rightarrow> (vendor_error + unit) \<times> PayloadSimulator \<times> string option" where
  "roll_session_if_needed writable st =
     (case st of (self, file) \<Rightarrow>
        if ps_next_sequence self \<le> UINT32_MAX then (Inr (), self, file)
        else if ps_boot_id self = UINT32_MAX
        then (Inl (RuntimeError ''payload boot identifier space is exhausted''), self, file)
        else let self1 = self\<lparr>ps_boot_id := ps_boot_id self + 1\<rparr> in
          (case persist writable (ps_boot_id self1) file of
             (Inl e, f) \<Rightarrow> (Inl e, self1, f)
           | (Inr _, f) \<Rightarrow> (Inr (), self1\<lparr>ps_next_sequence := 0\<rparr>, f)))"

definition request_frame :: "int \<Rightarrow> TelemetryRequest \<Rightarrow> int \<Rightarrow> int \<Rightarrow> vendor_error + TelemetryFrame" where
  "request_frame now_us r boot sequence =
     (case OperatingMode_named (mode_name_value (tr_operating_mode r)) of
        None \<Rightarrow> Inl (VendorKeyError (mode_name_value (tr_operating_mode r)))
      | Some mode \<Rightarrow> Inr
          \<lparr>payload_id = 1, boot_id = boot, sequence_number = sequence, timestamp_us = clock_timestamp_us now_us,
           temperature_centi_c = scaled (tr_temperature_c r) 100, voltage_mv = scaled (tr_voltage_v r) 1000,
           operating_mode = OperatingMode_int mode, fault_flags = tr_fault_flags r, protocol_version = PROTOCOL_VERSION\<rparr>)"

definition frame_bytes :: "TelemetryFrame \<Rightarrow> vendor_error + bytes \<times> string" where
  "frame_bytes frame =
     (case encode_telemetry frame None of
        Inl e \<Rightarrow> Inl (CodecFault e)
      | Inr raw \<Rightarrow> (case frame_packet_id frame of Inl e \<Rightarrow> Inl (CodecFault e) | Inr message_id \<Rightarrow> Inr (raw, message_id)))"

definition make_frame ::
  "bool \<Rightarrow> int \<Rightarrow> TelemetryRequest \<Rightarrow> PayloadSimulator \<times> string option \<Rightarrow>
     (vendor_error + bytes \<times> string) \<times> PayloadSimulator \<times> string option" where
  "make_frame writable now_us r st =
     (let st1 = (if tr_failure_mode r = SKIP_SEQUENCE then apfst (ps_next_sequence_update (\<lambda>n. n + 1)) st else st)
      in case roll_session_if_needed writable st1 of
           (Inl e, st2) \<Rightarrow> (Inl e, st2)
         | (Inr _, self, file) \<Rightarrow>
             let sequence = ps_next_sequence self; self1 = self\<lparr>ps_next_sequence := sequence + 1\<rparr> in
             (case request_frame now_us r (ps_boot_id self1) sequence of
                Inl e \<Rightarrow> (Inl e, self1, file)
              | Inr frame \<Rightarrow> (frame_bytes frame, self1, file)))"

definition apply_wire_failure :: "bytes \<Rightarrow> FailureMode \<Rightarrow> vendor_error + bytes" where
  "apply_wire_failure raw failure_mode =
     (if failure_mode = CORRUPT_CRC
      then (if raw = [] then Inl VendorIndexError else Inr (raw[length raw - 1 := raw ! (length raw - 1) XOR 1]))
      else if failure_mode = UNSUPPORTED_VERSION
      then (if raw = [] then Inl VendorIndexError
            else let changed = raw[0 := 2] in
              (case struct_pack CRC32_BIG_ENDIAN [crc32_iso_hdlc (take TELEMETRY_V1_BODY_SIZE changed)] of
                 None \<Rightarrow> Inl (CodecFault CodecStructError)
               | Some crc \<Rightarrow> Inr (take TELEMETRY_V1_BODY_SIZE changed @ crc)))
      else Inr raw)"

section \<open>Forwarding\<close>

record vendor_post =
  vp_url :: string
  vp_content :: bytes
  vp_content_type :: string
  vp_request_id :: string
  vp_vendor_token :: string

text \<open>An answer of the ground; \<open>gr_json\<close> is \<open>None\<close> when the client cannot read the body as JSON.\<close>

record ground_response =
  gr_status_code :: int
  gr_json :: "json option"
  gr_text :: string

datatype post_outcome = Responded ground_response | ClientError string | OtherFailure string

datatype vendor_event = Posted vendor_post | Slept rat

fun forward_attempts :: "vendor_post \<Rightarrow> (nat \<Rightarrow> post_outcome) \<Rightarrow> nat list \<Rightarrow> (vendor_error + ground_response) \<times> vendor_event list" where
  "forward_attempts request post [] = (Inl (AssertionError ''unreachable vendor retry state''), [])"
| "forward_attempts request post (attempt # later) =
     (let retry = (case forward_attempts request post later of
                     (res, events) \<Rightarrow> (res, [Posted request, Slept (1 / 4 * 2 ^ (attempt - 1))] @ events))
      in case post attempt of
           OtherFailure e \<Rightarrow> (Inl (OtherException e), [Posted request])
         | ClientError e \<Rightarrow> if attempt = 3 then (Inl (HTTPError e), [Posted request]) else retry
         | Responded response \<Rightarrow>
             if gr_status_code response < 500 \<or> attempt = 3 then (Inr response, [Posted request]) else retry)"

definition forward ::
  "VendorSettings \<Rightarrow> (nat \<Rightarrow> post_outcome) \<Rightarrow> bytes \<Rightarrow> uuid \<Rightarrow> (vendor_error + ground_response) \<times> vendor_event list" where
  "forward settings post raw request_id =
     forward_attempts
       \<lparr>vp_url = vs_ground_api_url settings @ ''/vendor/payload-data'', vp_content = raw,
        vp_content_type = ''application/octet-stream'', vp_request_id = uuid_str request_id,
        vp_vendor_token = vs_vendor_token settings\<rparr> post [1..<4]"

section \<open>The service\<close>

record vendor_app =
  va_payload :: PayloadSimulator
  va_file :: "string option"
  va_last :: "(bytes \<times> string) option"

definition start_app :: "bool \<Rightarrow> string option \<Rightarrow> (vendor_error + vendor_app) \<times> string option" where
  "start_app writable file =
     (case load_next_boot_id writable file of
        (Inl e, f) \<Rightarrow> (Inl e, f)
      | (Inr boot, f) \<Rightarrow> (Inr \<lparr>va_payload = \<lparr>ps_boot_id = boot, ps_next_sequence = 0\<rparr>, va_file = f, va_last = None\<rparr>, f))"

text \<open>The part of \<^verbatim>\<open>submit_telemetry\<close> under the lock.\<close>

definition choose_frame :: "bool \<Rightarrow> int \<Rightarrow> TelemetryRequest \<Rightarrow> vendor_app \<Rightarrow> (vendor_error + bytes \<times> string) \<times> vendor_app" where
  "choose_frame writable now_us r app =
     (if tr_failure_mode r = DUPLICATE_LAST
      then (case va_last app of
              None \<Rightarrow> (Inl (HTTPException 409 ''DUPLICATE_LAST requires one earlier telemetry frame''), app)
            | Some earlier \<Rightarrow> (Inr earlier, app))
      else (case make_frame writable now_us r (va_payload app, va_file app) of
              (res, self, file) \<Rightarrow>
                let app1 = app\<lparr>va_payload := self, va_file := file\<rparr> in
                (case res of
                   Inl e \<Rightarrow> (Inl e, app1)
                 | Inr (raw, message_id) \<Rightarrow>
                     (case apply_wire_failure raw (tr_failure_mode r) of
                        Inl e \<Rightarrow> (Inl e, app1)
                      | Inr sent \<Rightarrow> (Inr (sent, message_id),
                          if tr_failure_mode r = NONE \<or> tr_failure_mode r = SKIP_SEQUENCE
                          then app1\<lparr>va_last := Some (sent, message_id)\<rparr> else app1)))))"

record vendor_answer =
  vw_message_id :: string
  vw_request_id :: string
  vw_raw_hex :: string
  vw_ground_status :: int
  vw_ground_response :: json

definition response_body :: "ground_response \<Rightarrow> json" where
  "response_body response =
     (case gr_json response of Some v \<Rightarrow> v | None \<Rightarrow> JObj [(''detail'', JStr (take 500 (gr_text response)))])"

definition submit_telemetry ::
  "VendorSettings \<Rightarrow> bool \<Rightarrow> int \<Rightarrow> uuid \<Rightarrow> (nat \<Rightarrow> post_outcome) \<Rightarrow> TelemetryRequest \<Rightarrow> vendor_app \<Rightarrow>
     (vendor_error + vendor_answer) \<times> vendor_app \<times> vendor_event list" where
  "submit_telemetry settings writable now_us request_id post r app =
     (case choose_frame writable now_us r app of
        (Inl e, app1) \<Rightarrow> (Inl e, app1, [])
      | (Inr (raw, message_id), app1) \<Rightarrow>
          (case forward settings post raw request_id of
             (Inl (HTTPError e), events) \<Rightarrow> (Inl (HTTPException 502 ''ground-api could not be reached''), app1, events)
           | (Inl e, events) \<Rightarrow> (Inl e, app1, events)
           | (Inr response, events) \<Rightarrow>
               (Inr \<lparr>vw_message_id = message_id, vw_request_id = uuid_str request_id,
                     vw_raw_hex = concat (map (\<lambda>b. fmt_hex 2 (uint b)) raw),
                     vw_ground_status = gr_status_code response, vw_ground_response = response_body response\<rparr>, app1, events)))"

definition automatic_request :: TelemetryRequest where
  "automatic_request =
     \<lparr>tr_temperature_c = round_double (284 / 10), tr_voltage_v = round_double (281 / 10), tr_operating_mode = SCIENCE_NAME,
      tr_fault_flags = 0, tr_failure_mode = NONE\<rparr>"

text \<open>One turn of \<^verbatim>\<open>_automatic_loop\<close>: any exception of the handler is logged and dropped.\<close>

definition automatic_turn ::
  "VendorSettings \<Rightarrow> bool \<Rightarrow> int \<Rightarrow> uuid \<Rightarrow> (nat \<Rightarrow> post_outcome) \<Rightarrow> vendor_app \<Rightarrow> vendor_app \<times> vendor_event list" where
  "automatic_turn settings writable now_us request_id post app =
     snd (submit_telemetry settings writable now_us request_id post automatic_request app)"

section \<open>The clock\<close>

lemma last_place_upper:
  assumes x: "0 < x"
  shows "x < 2 ^ 53 * scale2 (last_place x) 1"
proof -
  obtain n d where q: "quotient_of x = (n, d)" by (cases "quotient_of x")
  have d: "0 < d" and xd: "x = of_int n / of_int d" using quotient_of_denom_pos [OF q] quotient_of_div [OF q] by auto
  have n: "0 < n" using x d xd by (simp add: zero_less_divide_iff)
  let ?e = "bitlen n - bitlen d - 53"
  define e where "e = (if 2 ^ 53 \<le> scale2 (- ?e) x then ?e + 1 else ?e)"
  have "x < 2 powi bitlen n / 2 powi (bitlen d - 1)"
    unfolding xd using bitlen_upper [OF n] bitlen_lower [OF d] n by (intro frac_less) auto
  also have "\<dots> = 2 powi (54 + ?e)" by (simp add: power_int_diff [symmetric] algebra_simps)
  also have "\<dots> = 2 ^ 53 * scale2 (?e + 1) 1"
    unfolding scale2_powi using power_int_add [of "2 :: rat" 53 "?e + 1"] by (simp add: add.commute)
  finally have up: "x < 2 ^ 53 * scale2 (?e + 1) 1" .
  have "x < 2 ^ 53 * scale2 e 1"
  proof (cases "2 ^ 53 \<le> scale2 (- ?e) x")
    case False
    have "scale2 (- ?e) x * scale2 ?e 1 < 2 ^ 53 * scale2 ?e 1" using False scale2_pos [of ?e] by (intro mult_strict_right_mono) auto
    then have "x < 2 ^ 53 * scale2 ?e 1" by (simp only: scale2_back)
    then show ?thesis using False by (simp add: e_def)
  qed (use up in \<open>simp add: e_def\<close>)
  moreover have "e \<le> last_place x" by (simp add: last_place_def q e_def)
  then have "scale2 e 1 \<le> scale2 (last_place x) 1" unfolding scale2_powi by (rule power_int_increasing) simp
  ultimately show ?thesis by (simp add: order_less_le_trans)
qed

lemma powi_less: "(2 powi a :: rat) < 2 powi b \<Longrightarrow> a < b"
  using power_int_increasing [of b a "2 :: rat"] by (cases "a < b") simp_all

lemma last_place_eq:
  assumes "2 powi k \<le> x" "x < 2 powi (k + 1)" "- 1022 < k"
  shows "last_place x = k - 52"
proof -
  have x: "0 < x" using assms(1) by (meson order_less_le_trans zero_less_numeral zero_less_power_int)
  have "2 powi k < (2 powi (53 + last_place x) :: rat)"
    using last_place_upper [OF x] assms(1) by (simp add: scale2_powi power_int_add)
  then have low: "k < 53 + last_place x" by (rule powi_less)
  then have "last_place x \<noteq> - 1074" using assms(3) by linarith
  then have "2 powi (52 + last_place x) < (2 powi (k + 1) :: rat)"
    using last_place_bound [OF x] assms(2) by (simp add: scale2_powi power_int_add)
  then have "52 + last_place x < k + 1" by (rule powi_less)
  then show ?thesis using low by linarith
qed

text \<open>From the project epoch to January 2038 the clock reading is exact to the microsecond.\<close>

lemma clock_timestamp_exact:
  assumes now: "PROJECT_EPOCH_US \<le> now" "now < 2 ^ 31 * 1000000"
  shows "clock_timestamp_us now = now"
proof -
  let ?t = "of_int now / 1000000 :: rat"
  have t: "1767225600 \<le> ?t" "?t < 2 ^ 31"
    using now of_int_le_iff [of "1767225600000000" now, where ?'a = rat] of_int_less_iff [of now "2 ^ 31 * 1000000", where ?'a = rat]
    by (simp_all add: PROJECT_EPOCH_US_def)
  define y where "y = round_double ?t"
  have "last_place ?t = - 22" using t last_place_eq [of 30 ?t] by simp
  then have "\<bar>y - ?t\<bar> \<le> 1 / 2 ^ 23" using round_double_error [of ?t] t by (simp add: y_def scale2_def)
  then have v: "\<bar>y * 1000000 - of_int now\<bar> < 1 / 8" by (simp add: abs_if split: if_splits)
  then have "\<bar>4 * (y * 1000000) - of_int (4 * now)\<bar> < 1 / 2" by (simp add: abs_if split: if_splits)
  then have r: "round_half_even (4 * (y * 1000000)) = 4 * now" by (rule round_half_even_near)
  have "2 ^ 50 \<le> y * 1000000" "y * 1000000 < 2 ^ 51" using v t by (auto simp: abs_if split: if_splits)
  moreover from this have "last_place (y * 1000000) = - 2" using last_place_eq [of 50 "y * 1000000"] by simp
  ultimately have "round_double (y * 1000000) = of_int now"
    using r by (simp add: round_double_def scale2_def mult.commute)
  moreover have "0 \<le> now" using now by (simp add: PROJECT_EPOCH_US_def)
  ultimately show ?thesis by (simp add: clock_timestamp_us_def y_def)
qed

section \<open>The wire units\<close>

lemma round_double_any:
  assumes "0 \<le> y"
  shows "\<bar>round_double y - y\<bar> \<le> y / 2 ^ 53 + 1 / 2 ^ 100"
proof (cases "y = 0")
  case False
  then have y: "0 < y" using assms by simp
  show ?thesis
  proof (cases "last_place y = - 1074")
    case True
    have "\<bar>round_double y - y\<bar> \<le> 1 / 2 ^ 1074 / 2" using round_double_error [OF y] by (simp add: True scale2_def)
    also have "\<dots> \<le> 1 / 2 ^ 100" by simp
    finally show ?thesis using y by (simp add: add_increasing)
  next
    case False
    then show ?thesis using round_double_relative [OF y False] by (intro add_increasing2) auto
  qed
qed simp

lemma scale10_back: "scale10 (- e) (scale10 e x) = x"
  by (simp add: scale10_def)

lemma scale10_nonneg: "0 \<le> x \<Longrightarrow> 0 \<le> scale10 e x"
  by (simp add: scale10_def)

lemma scale10_diff: "scale10 e x - scale10 e y = scale10 e (x - y)"
  by (simp add: scale10_def algebra_simps diff_divide_distrib)

lemma scale10_small: "e \<le> - 14 \<Longrightarrow> \<bar>x\<bar> \<le> 1 / 2 \<Longrightarrow> \<bar>scale10 e x\<bar> \<le> 1 / 2 / 10 ^ 14"
proof -
  assume e: "e \<le> - 14" and x: "\<bar>x\<bar> \<le> 1 / 2"
  have "(10 :: rat) ^ 14 \<le> 10 ^ nat (- e)" using e by (intro power_increasing) auto
  then have "\<bar>x\<bar> / 10 ^ nat (- e) \<le> (1 / 2) / 10 ^ 14" using x by (intro frac_le) auto
  then show ?thesis using e by (simp add: scale10_def)
qed

lemma round_half_even_nonneg: "0 \<le> x \<Longrightarrow> 0 \<le> round_half_even x"
  by (simp add: round_half_even_def Let_def)

lemma decimal_point_bound: "x < 1000 \<Longrightarrow> decimal_point x \<le> 3"
proof (cases "1 \<le> x")
  case True
  assume "x < 1000"
  then have "nat \<lfloor>x\<rfloor> < 10 ^ 3" using True by (simp add: nat_less_iff floor_less_iff)
  then show ?thesis using nat_digits_length [of "nat \<lfloor>x\<rfloor>" 3] True by (simp add: decimal_point_def)
qed (auto simp: decimal_point_def split: option.splits)

lemma shortest_decimal_near:
  assumes x: "0 < x" "x \<le> 150"
  shows "0 \<le> shortest_decimal x \<and> \<bar>shortest_decimal x - x\<bar> \<le> 1 / 10 ^ 10"
proof -
  let ?p = "decimal_point x"
  let ?d = "\<lambda>k. scale10 (?p - int k) (of_int (rounded_digits x ?p k))"
  have pos: "0 \<le> ?d k" for k
    using x by (intro scale10_nonneg) (simp add: rounded_digits_def round_half_even_nonneg scale10_nonneg)
  have ok: "\<bar>?d k - x\<bar> \<le> 1 / 10 ^ 10" if k: "round_double (?d k) = x" for k
  proof -
    have "\<bar>x - ?d k\<bar> \<le> ?d k / 2 ^ 53 + 1 / 2 ^ 100" using round_double_any [OF pos [of k]] k by simp
    moreover from this have "?d k \<le> 151" using x(2) pos [of k] by (simp add: abs_if split: if_splits)
    ultimately show ?thesis by (simp add: abs_if split: if_splits)
  qed
  have last: "\<bar>?d 17 - x\<bar> \<le> 1 / 10 ^ 10"
  proof -
    let ?r = "of_int (rounded_digits x ?p 17) - scale10 (17 - ?p) x :: rat"
    have "?d 17 - x = scale10 (?p - 17) ?r" using scale10_back [of "17 - ?p" x] by (simp add: scale10_diff [symmetric])
    moreover have "\<bar>?r\<bar> \<le> 1 / 2" unfolding rounded_digits_def using round_half_even_error by simp
    ultimately show ?thesis using scale10_small [of "?p - 17" ?r] decimal_point_bound [of x] x(2) by simp
  qed
  show ?thesis
    using x pos ok last find_Some_iff [of "\<lambda>k. round_double (?d k) = x" "[1..<17]"]
    by (auto simp: shortest_decimal_def Let_def split: option.splits)
qed

lemma shortest_decimal_minus: "shortest_decimal (- x) = - shortest_decimal x"
  by (simp add: shortest_decimal_def Let_def sgn_minus)

lemma shortest_decimal_close:
  assumes "\<bar>x\<bar> \<le> 150"
  shows "\<bar>shortest_decimal x - x\<bar> \<le> 1 / 10 ^ 10"
  using assms shortest_decimal_near [of x] shortest_decimal_near [of "- x"] shortest_decimal_minus [of x]
  by (cases x "0 :: rat" rule: linorder_cases) (auto simp: shortest_decimal_def abs_minus_commute)

lemma round_half_up_error: "\<bar>of_int (round_half_up x) - x\<bar> \<le> 1 / 2"
proof -
  have "\<bar>of_int \<lfloor>y + 1 / 2\<rfloor> - y\<bar> \<le> 1 / 2" for y :: rat by linarith
  from this [of x] this [of "- x"] show ?thesis by (auto simp: round_half_up_def abs_if split: if_splits)
qed

text \<open>The wire unit is the nearest one, and the bounds of the request are the bounds of the wire.\<close>

lemma scaled_error:
  assumes x: "\<bar>x\<bar> \<le> 150" and f: "0 \<le> f" "f \<le> 1000"
  shows "\<bar>of_int (scaled x f) - x * of_int f\<bar> \<le> 1 / 2 + 1 / 10 ^ 7"
proof -
  have "\<bar>shortest_decimal x - x\<bar> * of_int f \<le> 1 / 10 ^ 10 * 1000"
    using shortest_decimal_close [OF x] f of_int_le_iff [of f 1000, where ?'a = rat] by (intro mult_mono) auto
  then have "\<bar>shortest_decimal x * of_int f - x * of_int f\<bar> \<le> 1 / 10 ^ 7"
    using f by (simp add: abs_mult left_diff_distrib [symmetric])
  then show ?thesis unfolding scaled_def using round_half_up_error [of "shortest_decimal x * of_int f"] by linarith
qed

lemma scaled_range:
  assumes x: "of_int lo \<le> x" "x \<le> of_int hi" "- 150 \<le> lo" "hi \<le> 150" and f: "0 \<le> f" "f \<le> 1000"
  shows "lo * f \<le> scaled x f \<and> scaled x f \<le> hi * f"
proof -
  have f': "(0 :: rat) \<le> of_int f" using f by simp
  have "of_int lo * of_int f \<le> x * of_int f" "x * of_int f \<le> of_int hi * of_int f"
    using x f' by (auto intro: mult_right_mono)
  moreover have "of_int (- 150) \<le> (of_int lo :: rat)" "of_int hi \<le> (of_int 150 :: rat)" using x by (auto simp only: of_int_le_iff)
  then have "\<bar>x\<bar> \<le> 150" using x by simp
  ultimately have "of_int (lo * f) - 1 < (of_int (scaled x f) :: rat)" "of_int (scaled x f) < (of_int (hi * f) + 1 :: rat)"
    using scaled_error [of x f] f by (auto simp: abs_if split: if_splits)
  then show ?thesis by linarith
qed

section \<open>Frames\<close>

text \<open>The wire codes of the operating modes.\<close>

definition wire_mode :: "OperatingModeName \<Rightarrow> int" where
  "wire_mode m = (case m of SAFE_NAME \<Rightarrow> 0 | STANDBY_NAME \<Rightarrow> 1 | SCIENCE_NAME \<Rightarrow> 2 | CALIBRATION_NAME \<Rightarrow> 3)"

lemma mode_named: "\<exists>mode. OperatingMode_named (mode_name_value m) = Some mode"
  by (cases m) (simp_all add: OperatingMode_named_def)

lemma request_frame_valid:
  assumes r: "request_ok r" and b: "1 \<le> b" "b \<le> UINT32_MAX" and s: "0 \<le> s" "s \<le> UINT32_MAX"
    and now: "PROJECT_EPOCH_US \<le> now" "now < 2 ^ 31 * 1000000" "now \<le> received"
  obtains frame where "request_frame now r b s = Inr frame" "validate_fields frame None = Inr ()"
    "validate_fields frame (Some (utc received)) = Inr ()" "boot_id frame = b" "sequence_number frame = s" "timestamp_us frame = now"
    "temperature_centi_c frame = scaled (tr_temperature_c r) 100" "voltage_mv frame = scaled (tr_voltage_v r) 1000" "payload_id frame = 1"
    "fault_flags frame = tr_fault_flags r" "operating_mode frame = wire_mode (tr_operating_mode r)"
proof -
  obtain mode where m: "OperatingMode_named (mode_name_value (tr_operating_mode r)) = Some mode" using mode_named by blast
  have t: "-10000 \<le> scaled (tr_temperature_c r) 100" "scaled (tr_temperature_c r) 100 \<le> 15000"
    using r scaled_range [of "- 100" "tr_temperature_c r" 150 100] by (simp_all add: request_ok_def)
  have v: "0 \<le> scaled (tr_voltage_v r) 1000" "scaled (tr_voltage_v r) 1000 \<le> 50000"
    using r scaled_range [of 0 "tr_voltage_v r" 50 1000] by (simp_all add: request_ok_def)
  have f: "tr_fault_flags r AND RESERVED_FAULT_MASK = 0" "0 \<le> tr_fault_flags r" "tr_fault_flags r \<le> 255"
    using r reserved_bits [of "tr_fault_flags r"] by (auto simp: request_ok_def)
  have u: "0 \<le> now" "now < 18446744073709551616" using now by (simp_all add: PROJECT_EPOCH_US_def)
  have skew: "validate_future_skew now (Some (utc received)) = Inr ()" "validate_future_skew now None = Inr ()"
    using now(3) by (simp_all add: validate_future_skew_def MAX_FUTURE_SKEW_US_def)
  let ?frame = "\<lparr>payload_id = 1, boot_id = b, sequence_number = s, timestamp_us = now,
    temperature_centi_c = scaled (tr_temperature_c r) 100, voltage_mv = scaled (tr_voltage_v r) 1000,
    operating_mode = OperatingMode_int mode, fault_flags = tr_fault_flags r, protocol_version = PROTOCOL_VERSION\<rparr>"
  have "request_frame now r b s = Inr ?frame"
    using m clock_timestamp_exact [OF now(1,2)] by (simp add: request_frame_def)
  moreover have "validate_fields ?frame None = Inr ()" "validate_fields ?frame (Some (utc received)) = Inr ()"
    using b s t v f u now(1) skew
    by (simp_all add: validate_fields_def SUPPORTED_PAYLOAD_ID_def MIN_TEMPERATURE_CENTI_C_def
        MAX_TEMPERATURE_CENTI_C_def MIN_VOLTAGE_MV_def MAX_VOLTAGE_MV_def push_bit_eq_mult)
  moreover have "OperatingMode_int mode = wire_mode (tr_operating_mode r)"
    using m by (cases "tr_operating_mode r") (auto simp: OperatingMode_named_def wire_mode_def)
  ultimately show ?thesis using that [of ?frame] by simp
qed

lemma valid_ranges:
  assumes "validate_fields f None = Inr ()"
  shows "protocol_version f = 1" "payload_id f = 1" "0 \<le> boot_id f" "boot_id f < 4294967296" "0 \<le> sequence_number f"
    "sequence_number f < 4294967296" "0 \<le> timestamp_us f" "timestamp_us f < 18446744073709551616"
    "- 32768 \<le> temperature_centi_c f" "temperature_centi_c f < 32768" "0 \<le> voltage_mv f" "voltage_mv f < 65536"
    "0 \<le> operating_mode f" "operating_mode f < 256" "0 \<le> fault_flags f" "fault_flags f < 256"
  using assms unfolding validate_fields_def codec_constants UINT32_MAX_eq push_bit_eq_mult
  by (simp_all add: OperatingMode_of_None split: if_splits sum.splits)

lemma valid_frame_packs:
  assumes "validate_fields f None = Inr ()"
  obtains b where "struct_pack TELEMETRY_V1_BODY (frame_values f) = Some b"
proof -
  have "struct_pack TELEMETRY_V1_BODY (frame_values f) \<noteq> None"
    using valid_ranges [OF assms] by (simp add: TELEMETRY_V1_BODY_def frame_values_def pack_code_def code_min_def code_limit_def)
  then show ?thesis using that by blast
qed

lemma frame_bytes_valid:
  assumes v: "validate_fields f None = Inr ()" "validate_fields f (Some t) = Inr ()"
  obtains raw i where "frame_bytes f = Inr (raw, i)" "frame_packet_id f = Inr i" "decode_telemetry raw t = Inr f"
proof -
  obtain b where b: "struct_pack TELEMETRY_V1_BODY (frame_values f) = Some b" using v(1) by (rule valid_frame_packs)
  let ?raw = "b @ be_bytes 4 (zlib_crc32 b)"
  obtain i where i: "frame_packet_id f = Inr i"
    using valid_ranges [OF v(1)] by (simp add: frame_packet_id_def format_packet_id_def UINT32_MAX_eq)
  have "encode_telemetry f None = Inr ?raw" "encode_telemetry f (Some t) = Inr ?raw" using v b by (simp_all add: encode_telemetry_Inr)
  then show ?thesis using that i by (simp add: frame_bytes_def decode_iff_encode)
qed

lemma wire_failures:
  assumes d: "decode_telemetry raw t = Inr f"
  shows "\<exists>sent m. apply_wire_failure raw CORRUPT_CRC = Inr sent \<and> length sent = 28 \<and> take 27 sent = take 27 raw \<and>
      decode_telemetry sent t = Inl (Rejected CRC_MISMATCH m)"
    and "\<exists>sent m. apply_wire_failure raw UNSUPPORTED_VERSION = Inr sent \<and> length sent = 28 \<and> take 23 (drop 1 sent) = take 23 (drop 1 raw) \<and>
      be_value (drop 24 sent) = zlib_crc32 (take 24 sent) \<and> decode_telemetry sent t = Inl (Rejected UNSUPPORTED_PROTOCOL_VERSION m)"
proof -
  have raw: "raw \<noteq> []" "length raw = 28" using decode_telemetry_Inr_framed [OF d] by auto
  have flip: "x XOR 1 \<noteq> x" for x :: byte
    by (metis bit_1_0 bit_xor_iff)
  show "\<exists>sent m. apply_wire_failure raw CORRUPT_CRC = Inr sent \<and> length sent = 28 \<and> take 27 sent = take 27 raw \<and>
      decode_telemetry sent t = Inl (Rejected CRC_MISMATCH m)"
    using decode_corrupt_crc [OF d, of 27 "raw ! 27 XOR 1"] flip raw by (simp add: apply_wire_failure_def)
  let ?b = "take 24 (raw[0 := 2])"
  have seal: "be_value (be_bytes 4 (zlib_crc32 ?b)) = zlib_crc32 ?b"
    using crc_field_iff [of "be_bytes 4 (zlib_crc32 ?b)" ?b] by simp
  have sent: "apply_wire_failure raw UNSUPPORTED_VERSION = Inr (?b @ be_bytes 4 (zlib_crc32 ?b))"
    using raw by (simp add: apply_wire_failure_def crc32_iso_hdlc_eq pack_crc Let_def)
  obtain x xs where r: "raw = x # xs" "length xs = 27" using raw by (cases raw) auto
  have b: "?b = 2 # take 23 xs" using r by (simp add: take_Cons')
  have "\<exists>m. decode_telemetry (?b @ be_bytes 4 (zlib_crc32 ?b)) t = Inl (Rejected UNSUPPORTED_PROTOCOL_VERSION m)"
    unfolding b by (simp add: decode_telemetry_def PROTOCOL_VERSION_def)
  moreover have "length (?b @ be_bytes 4 (zlib_crc32 ?b)) = 28" using raw by simp
  moreover have "take 23 (drop 1 (?b @ be_bytes 4 (zlib_crc32 ?b))) = take 23 (drop 1 raw)" unfolding b using r by simp
  ultimately show "\<exists>sent m. apply_wire_failure raw UNSUPPORTED_VERSION = Inr sent \<and> length sent = 28 \<and>
      take 23 (drop 1 sent) = take 23 (drop 1 raw) \<and> be_value (drop 24 sent) = zlib_crc32 (take 24 sent) \<and>
      decode_telemetry sent t = Inl (Rejected UNSUPPORTED_PROTOCOL_VERSION m)"
    using sent seal raw by auto
qed

end
