(* ===== verification/Vendor_Life.thy ===== *)
theory Vendor_Life
  imports Vendor_Simulator
begin

text \<open>
  Properties of the vendor simulator: its frames on the ground, the uniqueness of its packet identifiers
  over all restarts, and the forwarding of a frame.
\<close>

section \<open>Identifiers\<close>

text \<open>
  A source of keys: a state with the keys made so far and a lower bound of the keys to come, which no
  step lowers, and a step makes at most one key, between the old bound and the new one.
\<close>

locale key_source =
  fixes good :: "'s \<Rightarrow> bool" and made :: "'s \<Rightarrow> 'k::linorder list" and bound :: "'s \<Rightarrow> 'k" and step :: "'s \<Rightarrow> 's \<Rightarrow> bool"
  assumes step_good: "good s \<Longrightarrow> step s s' \<Longrightarrow> good s'"
    and step_made: "good s \<Longrightarrow> step s s' \<Longrightarrow>
      bound s \<le> bound s' \<and> (made s' = made s \<or> (\<exists>k. made s' = made s @ [k] \<and> bound s \<le> k \<and> k < bound s'))"
begin

definition fresh :: "'s \<Rightarrow> bool" where
  "fresh s \<longleftrightarrow> good s \<and> sorted_wrt (<) (made s) \<and> (\<forall>k \<in> set (made s). k < bound s)"

lemma fresh_step: "fresh s \<Longrightarrow> step s s' \<Longrightarrow> fresh s'"
  using step_good [of s s'] step_made [of s s'] by (fastforce simp: fresh_def sorted_wrt_append)

lemma fresh_steps: "step\<^sup>*\<^sup>* s s' \<Longrightarrow> fresh s \<Longrightarrow> fresh s'"
  by (induction rule: rtranclp_induct) (auto intro: fresh_step)

lemma fresh_distinct: "fresh s \<Longrightarrow> distinct (made s)"
  by (simp add: fresh_def strict_sorted_iff)

end

text \<open>
  The life of a simulator: processes start from the file, make frames and may end at any time, also
  between the write of the file and the next frame. The log collects the key and the identifier of
  every frame made.
\<close>

record vendor_life =
  vl_app :: "vendor_app option"
  vl_file :: "string option"
  vl_log :: "((int \<times> int) \<times> string) list"

inductive vendor_step :: "vendor_life \<Rightarrow> vendor_life \<Rightarrow> bool" where
  step_start: "start_app writable (vl_file s) = (res, file) \<Longrightarrow>
    vendor_step s (s\<lparr>vl_file := file, vl_app := (case res of Inl e \<Rightarrow> None | Inr app \<Rightarrow> Some app)\<rparr>)"
| step_frame: "vl_app s = Some app \<Longrightarrow> choose_frame writable now_us r app = (res, app1) \<Longrightarrow>
    vendor_step s (s\<lparr>vl_app := Some app1, vl_file := va_file app1,
      vl_log := vl_log s @ (case res of
        Inr (raw, message_id) \<Rightarrow> if tr_failure_mode r = DUPLICATE_LAST then []
          else [((ps_boot_id (va_payload app1), ps_next_sequence (va_payload app1) - 1), message_id)]
      | Inl e \<Rightarrow> [])\<rparr>)"
| step_end: "vendor_step s (s\<lparr>vl_app := None\<rparr>)"

definition boot_value :: "string option \<Rightarrow> int" where
  "boot_value file = (case previous_boot_id file of Inr n \<Rightarrow> n | Inl e \<Rightarrow> 0)"

definition payload_ok :: "string option \<Rightarrow> PayloadSimulator \<Rightarrow> bool" where
  "payload_ok file self \<longleftrightarrow> 0 \<le> ps_next_sequence self \<and> (\<exists>n. previous_boot_id file = Inr n) \<and>
     1 \<le> boot_value file \<and> boot_value file \<le> ps_boot_id self \<and> ps_boot_id self \<le> UINT32_MAX \<and>
     (ps_next_sequence self \<le> UINT32_MAX \<longrightarrow> ps_boot_id self = boot_value file)"

definition payload_bound :: "string option \<Rightarrow> PayloadSimulator \<Rightarrow> int \<times> int" where
  "payload_bound file self =
     (if ps_next_sequence self \<le> UINT32_MAX then (ps_boot_id self, ps_next_sequence self) else (boot_value file + 1, 0))"

definition life_bound :: "vendor_life \<Rightarrow> int \<times> int" where
  "life_bound s = (case vl_app s of Some app \<Rightarrow> payload_bound (vl_file s) (va_payload app) | None \<Rightarrow> (boot_value (vl_file s) + 1, 0))"

definition life_ok :: "vendor_life \<Rightarrow> bool" where
  "life_ok s \<longleftrightarrow> (case vl_app s of None \<Rightarrow> True | Some app \<Rightarrow> va_file app = vl_file s \<and> payload_ok (vl_file s) (va_payload app)) \<and>
     (\<forall>(key, i) \<in> set (vl_log s). format_packet_id 1 (fst key) (snd key) = Inr i)"

lemma strip_newline: "\<forall>c \<in> set s. \<not> py_space c \<Longrightarrow> py_strip (s @ [CHR 0x0A]) = s"
proof (cases s)
  case Nil
  then show ?thesis by (simp add: strip_by_def py_space_def)
next
  case (Cons c cs)
  assume s: "\<forall>c \<in> set s. \<not> py_space c"
  have "dropWhile py_space (s @ [CHR 0x0A]) = s @ [CHR 0x0A]" using s Cons by simp
  moreover have "dropWhile py_space (rev s) = rev s" using s by (intro dropWhile_none) simp
  ultimately show ?thesis by (simp add: strip_by_def py_space_def)
qed

lemma previous_persisted:
  assumes "0 \<le> v" "v \<le> UINT32_MAX"
  shows "previous_boot_id (Some (py_str v @ [CHR 0x0A])) = Inr v"
proof -
  have str: "py_str v = map upper_digit (nat_digits 10 (nat v))" using assms by (simp add: py_format_def zero_fill_def)
  have dig: "d < 10" if "d \<in> set (nat_digits 10 (nat v))" for d using nat_digits_bound [of 10 d] that by simp
  have i: "py_int 10 (py_str v) = Some v" using assms by (intro py_int_str [where w = 10]) (auto simp: UINT32_MAX_eq)
  have s: "py_strip (py_str v @ [CHR 0x0A]) = py_str v"
    unfolding str by (rule strip_newline) (use dig upper_digit_plain in auto)
  have a: "list_all (\<lambda>c. of_char c < (128 :: nat)) (py_str v @ [CHR 0x0A])"
    unfolding str using dig by (fastforce simp: list_all_iff upper_digit_def)
  have "py_str v \<noteq> []" unfolding str using nat_digits_nonempty by simp
  then show ?thesis using i s a by (simp add: previous_boot_id_def Let_def)
qed

lemma boot_persisted: "0 \<le> v \<Longrightarrow> v \<le> UINT32_MAX \<Longrightarrow> boot_value (Some (py_str v @ [CHR 0x0A])) = v"
  by (simp add: boot_value_def previous_persisted)

lemma request_frame_key:
  "request_frame now r b s = Inr f \<Longrightarrow> payload_id f = 1 \<and> boot_id f = b \<and> sequence_number f = s"
  by (auto simp: request_frame_def split: option.splits)

lemma frame_bytes_key:
  "request_frame now r b s = Inr f \<Longrightarrow> frame_bytes f = Inr (raw, i) \<Longrightarrow> format_packet_id 1 b s = Inr i"
  by (auto simp: frame_bytes_def frame_packet_id_def split: sum.splits dest!: request_frame_key)

lemma roll_effect:
  assumes ok: "payload_ok file self" and roll: "roll_session_if_needed writable (self\<lparr>ps_next_sequence := n\<rparr>, file) = (res, self1, file1)"
    and n: "ps_next_sequence self \<le> n"
  shows "payload_ok file1 self1 \<and> payload_bound file self \<le> payload_bound file1 self1 \<and> (res = Inr () \<longrightarrow> ps_next_sequence self1 \<le> UINT32_MAX)"
proof (cases "n \<le> UINT32_MAX \<or> ps_boot_id self = UINT32_MAX")
  case True
  then have "self1 = self\<lparr>ps_next_sequence := n\<rparr>" "file1 = file" "res = Inr () \<longrightarrow> n \<le> UINT32_MAX"
    using roll by (auto simp: roll_session_if_needed_def split: if_splits)
  then show ?thesis using ok n by (auto simp: payload_ok_def payload_bound_def less_eq_prod_def)
next
  case False
  show ?thesis
  proof (cases writable)
    case True
    then have "self1 = \<lparr>ps_boot_id = ps_boot_id self + 1, ps_next_sequence = 0\<rparr>" "file1 = Some (py_str (ps_boot_id self + 1) @ [CHR 0x0A])"
      using False roll by (auto simp: roll_session_if_needed_def persist_def Let_def)
    moreover have "previous_boot_id (Some (py_str (ps_boot_id self + 1) @ [CHR 0x0A])) = Inr (ps_boot_id self + 1)"
      using ok False by (intro previous_persisted) (auto simp: payload_ok_def)
    ultimately show ?thesis using ok n False by (auto simp: payload_ok_def payload_bound_def boot_value_def less_eq_prod_def UINT32_MAX_eq)
  next
    case fails: False
    then have "self1 = self\<lparr>ps_next_sequence := n, ps_boot_id := ps_boot_id self + 1\<rparr>" "file1 = file" "res \<noteq> Inr ()"
      using False roll by (auto simp: roll_session_if_needed_def persist_def Let_def)
    then show ?thesis using ok n False by (auto simp: payload_ok_def payload_bound_def less_eq_prod_def)
  qed
qed

lemma make_frame_effect:
  assumes ok: "payload_ok file self" and made: "make_frame writable now r (self, file) = (res, self1, file1)"
  shows "payload_ok file1 self1 \<and> payload_bound file self \<le> payload_bound file1 self1"
    and "res = Inr (raw, i) \<Longrightarrow> format_packet_id 1 (ps_boot_id self1) (ps_next_sequence self1 - 1) = Inr i \<and>
      payload_bound file self \<le> (ps_boot_id self1, ps_next_sequence self1 - 1) \<and>
      (ps_boot_id self1, ps_next_sequence self1 - 1) < payload_bound file1 self1"
proof -
  define n where "n = (if tr_failure_mode r = SKIP_SEQUENCE then ps_next_sequence self + 1 else ps_next_sequence self)"
  obtain rolled self2 file2 where roll: "roll_session_if_needed writable (self\<lparr>ps_next_sequence := n\<rparr>, file) = (rolled, self2, file2)"
    by (metis prod_cases3)
  have st: "(if tr_failure_mode r = SKIP_SEQUENCE then apfst (ps_next_sequence_update (\<lambda>n. n + 1)) (self, file) else (self, file)) =
      (self\<lparr>ps_next_sequence := n\<rparr>, file)" by (simp add: n_def)
  have eff: "payload_ok file2 self2 \<and> payload_bound file self \<le> payload_bound file2 self2"
    "rolled = Inr () \<Longrightarrow> ps_next_sequence self2 \<le> UINT32_MAX"
    using roll_effect [OF ok roll] by (simp_all add: n_def)
  consider e where "rolled = Inl e" "res = Inl e" "self1 = self2" "file1 = file2"
    | "rolled = Inr ()" "self1 = self2\<lparr>ps_next_sequence := ps_next_sequence self2 + 1\<rparr>" "file1 = file2"
      "\<forall>raw i. res = Inr (raw, i) \<longrightarrow> format_packet_id 1 (ps_boot_id self2) (ps_next_sequence self2) = Inr i"
    using made unfolding make_frame_def Let_def st roll
    by (cases rolled) (auto split: sum.splits dest: frame_bytes_key)
  then have both: "payload_ok file1 self1 \<and> payload_bound file self \<le> payload_bound file1 self1 \<and>
    (\<forall>raw i. res = Inr (raw, i) \<longrightarrow> format_packet_id 1 (ps_boot_id self1) (ps_next_sequence self1 - 1) = Inr i \<and>
      payload_bound file self \<le> (ps_boot_id self1, ps_next_sequence self1 - 1) \<and>
      (ps_boot_id self1, ps_next_sequence self1 - 1) < payload_bound file1 self1)"
  proof cases
    case 1
    then show ?thesis using eff(1) by simp
  next
    case 2
    then have b: "payload_bound file self \<le> (ps_boot_id self2, ps_next_sequence self2)"
      using eff by (auto simp: payload_bound_def split: if_splits)
    have "payload_ok file1 self1 \<and> (ps_boot_id self2, ps_next_sequence self2) < payload_bound file1 self1"
      using eff 2 by (auto simp: payload_ok_def payload_bound_def less_prod_def)
    then show ?thesis using 2 b by auto
  qed
  then show "payload_ok file1 self1 \<and> payload_bound file self \<le> payload_bound file1 self1" by blast
  show "res = Inr (raw, i) \<Longrightarrow> format_packet_id 1 (ps_boot_id self1) (ps_next_sequence self1 - 1) = Inr i \<and>
      payload_bound file self \<le> (ps_boot_id self1, ps_next_sequence self1 - 1) \<and>
      (ps_boot_id self1, ps_next_sequence self1 - 1) < payload_bound file1 self1" using both by blast
qed

lemma choose_frame_effect:
  assumes c: "choose_frame writable now r app = (res, app1)" and r: "tr_failure_mode r \<noteq> DUPLICATE_LAST"
  obtains made where "make_frame writable now r (va_payload app, va_file app) = (made, va_payload app1, va_file app1)"
    "\<And>raw i. res = Inr (raw, i) \<Longrightarrow> \<exists>raw'. made = Inr (raw', i)"
  using assms by (auto simp: choose_frame_def Let_def split: prod.splits sum.splits if_splits)

lemma choose_duplicate: "choose_frame writable now r app = (res, app1) \<Longrightarrow> tr_failure_mode r = DUPLICATE_LAST \<Longrightarrow> app1 = app"
  by (auto simp: choose_frame_def split: option.splits)

lemma start_app_effect:
  assumes "start_app writable file = (res, file1)"
  shows "case res of Inl e \<Rightarrow> file1 = file
    | Inr app \<Rightarrow> va_file app = file1 \<and> payload_ok file1 (va_payload app) \<and> payload_bound file1 (va_payload app) = (boot_value file + 1, 0)"
proof (cases "load_next_boot_id writable file")
  case (Pair loaded f)
  show ?thesis
  proof (cases loaded)
    case (Inl e)
    then have "f = file" using Pair by (auto simp: load_next_boot_id_def persist_def Let_def split: sum.splits if_splits)
    then show ?thesis using assms Pair Inl by (auto simp: start_app_def)
  next
    case (Inr boot)
    then obtain n where n: "previous_boot_id file = Inr n" "0 \<le> n" "n < UINT32_MAX" "boot = n + 1" "f = Some (py_str (n + 1) @ [CHR 0x0A])"
      using Pair by (auto simp: load_next_boot_id_def persist_def Let_def split: sum.splits if_splits)
    then have "previous_boot_id f = Inr (n + 1)" "boot_value file = n" using previous_persisted [of "n + 1"] by (simp_all add: boot_value_def)
    then show ?thesis using assms Pair Inr n by (auto simp: start_app_def payload_ok_def payload_bound_def boot_value_def UINT32_MAX_eq)
  qed
qed

lemma bound_below_next: "payload_ok file self \<Longrightarrow> payload_bound file self \<le> (boot_value file + 1, 0)"
  by (auto simp: payload_ok_def payload_bound_def less_eq_prod_def)

lemma life_below_next: "life_ok s \<Longrightarrow> life_bound s \<le> (boot_value (vl_file s) + 1, 0)"
  by (auto simp: life_ok_def life_bound_def bound_below_next split: option.splits)

lemma vendor_step_effect:
  assumes "life_ok s" "vendor_step s s'"
  shows "life_ok s' \<and> life_bound s \<le> life_bound s' \<and> (vl_log s' = vl_log s \<or>
    (\<exists>k i. vl_log s' = vl_log s @ [(k, i)] \<and> life_bound s \<le> k \<and> k < life_bound s'))"
  using assms(2)
proof cases
  case (step_start writable res content)
  show ?thesis
    using start_app_effect [OF step_start(2)] life_below_next [OF assms(1)] assms(1) unfolding step_start(1)
    by (cases res) (auto simp: life_ok_def life_bound_def)
next
  case (step_frame app writable now r res app1)
  have app: "va_file app = vl_file s" "payload_ok (vl_file s) (va_payload app)" using assms(1) step_frame(2) by (auto simp: life_ok_def)
  show ?thesis
  proof (cases "tr_failure_mode r = DUPLICATE_LAST")
    case True
    then show ?thesis using choose_duplicate [OF step_frame(3)] assms(1) step_frame(1,2) app
      by (auto simp: life_ok_def life_bound_def split: sum.splits)
  next
    case False
    obtain made where made: "make_frame writable now r (va_payload app, vl_file s) = (made, va_payload app1, va_file app1)"
      and id: "\<And>raw i. res = Inr (raw, i) \<Longrightarrow> \<exists>raw'. made = Inr (raw', i)"
      using choose_frame_effect [OF step_frame(3) False] app(1) by metis
    note eff = make_frame_effect [OF app(2) made]
    show ?thesis
    proof (cases res)
      case (Inl e)
      then show ?thesis using eff(1) assms(1) step_frame(1,2) by (auto simp: life_ok_def life_bound_def)
    next
      case (Inr p)
      obtain raw i where p: "p = (raw, i)" by (cases p)
      then obtain raw' where "made = Inr (raw', i)" using id Inr by blast
      then show ?thesis using eff(1) eff(2) [of raw' i] assms(1) step_frame(1,2) Inr p False by (auto simp: life_ok_def life_bound_def)
    qed
  qed
next
  case step_end
  then show ?thesis using life_below_next [OF assms(1)] assms(1) by (auto simp: life_ok_def life_bound_def)
qed

interpretation ids: key_source life_ok "\<lambda>s. map fst (vl_log s)" life_bound vendor_step
  by unfold_locales (use vendor_step_effect in fastforce)+

lemma log_ids_distinct:
  assumes "life_ok s" "distinct (map fst (vl_log s))"
  shows "distinct (map snd (vl_log s))"
proof -
  have "inj_on snd (set (vl_log s))"
  proof (rule inj_onI, clarsimp)
    fix b n b' n' i
    assume "((b, n), i) \<in> set (vl_log s)" "((b', n'), i) \<in> set (vl_log s)"
    then have "format_packet_id 1 b n = Inr i" "format_packet_id 1 b' n' = Inr i" using assms(1) by (auto simp: life_ok_def)
    then show "b = b' \<and> n = n'" using format_packet_id_inject by blast
  qed
  then show ?thesis using assms(2) by (simp add: distinct_map)
qed

section \<open>An ordinary frame\<close>

definition frame_sequence :: "TelemetryRequest \<Rightarrow> PayloadSimulator \<Rightarrow> int" where
  "frame_sequence r self = ps_next_sequence self + (if tr_failure_mode r = SKIP_SEQUENCE then 1 else 0)"

lemma make_frame_ordinary:
  assumes r: "request_ok r" and b: "1 \<le> ps_boot_id self" "ps_boot_id self \<le> UINT32_MAX"
    and n: "0 \<le> ps_next_sequence self" "ps_next_sequence self < UINT32_MAX"
    and now: "PROJECT_EPOCH_US \<le> now" "now < 2 ^ 31 * 1000000" "now \<le> received"
  obtains frame raw i where "make_frame writable now r (self, file) = (Inr (raw, i), self\<lparr>ps_next_sequence := frame_sequence r self + 1\<rparr>, file)"
    "decode_telemetry raw (utc received) = Inr frame" "frame_packet_id frame = Inr i" "boot_id frame = ps_boot_id self"
    "sequence_number frame = frame_sequence r self" "timestamp_us frame = now"
    "temperature_centi_c frame = scaled (tr_temperature_c r) 100" "voltage_mv frame = scaled (tr_voltage_v r) 1000"
    "fault_flags frame = tr_fault_flags r" "operating_mode frame = wire_mode (tr_operating_mode r)"
proof -
  have s: "0 \<le> frame_sequence r self" "frame_sequence r self \<le> UINT32_MAX" using n by (simp_all add: frame_sequence_def)
  obtain frame where f: "request_frame now r (ps_boot_id self) (frame_sequence r self) = Inr frame" "validate_fields frame None = Inr ()"
    "validate_fields frame (Some (utc received)) = Inr ()" "boot_id frame = ps_boot_id self" "sequence_number frame = frame_sequence r self"
    "timestamp_us frame = now" "temperature_centi_c frame = scaled (tr_temperature_c r) 100" "voltage_mv frame = scaled (tr_voltage_v r) 1000"
    "fault_flags frame = tr_fault_flags r" "operating_mode frame = wire_mode (tr_operating_mode r)"
    using request_frame_valid [OF r b s now] by metis
  obtain raw i where w: "frame_bytes frame = Inr (raw, i)" "frame_packet_id frame = Inr i" "decode_telemetry raw (utc received) = Inr frame"
    using f(2,3) by (rule frame_bytes_valid)
  have "(if tr_failure_mode r = SKIP_SEQUENCE then apfst (ps_next_sequence_update (\<lambda>n. n + 1)) (self, file) else (self, file)) =
      (self\<lparr>ps_next_sequence := frame_sequence r self\<rparr>, file)" by (simp add: frame_sequence_def)
  then have "make_frame writable now r (self, file) = (Inr (raw, i), self\<lparr>ps_next_sequence := frame_sequence r self + 1\<rparr>, file)"
    using s f(1) w(1) unfolding make_frame_def Let_def by (simp add: roll_session_if_needed_def)
  then show ?thesis using that w f by simp
qed

lemma choose_made:
  assumes "make_frame writable now r (va_payload app, va_file app) = (Inr (raw, i), self, file)" "tr_failure_mode r \<noteq> DUPLICATE_LAST"
    "apply_wire_failure raw (tr_failure_mode r) = Inr sent"
  obtains app1 where "choose_frame writable now r app = (Inr (sent, i), app1)" "va_payload app1 = self" "va_file app1 = file"
  using assms by (auto simp: choose_frame_def Let_def)

definition plain_request :: TelemetryRequest where
  "plain_request = \<lparr>tr_temperature_c = 57 / 2, tr_voltage_v = 28, tr_operating_mode = SCIENCE_NAME, tr_fault_flags = 0, tr_failure_mode = NONE\<rparr>"

definition sample_now :: int where "sample_now = 1784203200000000"

section \<open>Properties\<close>

text \<open>
  C29. A packet identifier is never used twice. However often the simulator is stopped, at whatever moment,
  and restarted from the file it keeps, and whatever requests, failed writes and sequence roll-overs
  occur, the keys of the frames it makes are strictly increasing, boot session first, and their
  printed identifiers are pairwise different.
\<close>

theorem packet_ids_never_repeat:
  assumes "vendor_step\<^sup>*\<^sup>* \<lparr>vl_app = None, vl_file = file, vl_log = []\<rparr> s"
  shows "distinct (map snd (vl_log s)) \<and> sorted_wrt (<) (map fst (vl_log s)) \<and>
    list_all (\<lambda>((boot, sequence), message_id). format_packet_id 1 boot sequence = Inr message_id) (vl_log s)"
proof -
  have "ids.fresh \<lparr>vl_app = None, vl_file = file, vl_log = []\<rparr>" by (simp add: ids.fresh_def life_ok_def)
  then have f: "ids.fresh s" using ids.fresh_steps [OF assms] by blast
  then have "life_ok s" "sorted_wrt (<) (map fst (vl_log s))" by (simp_all add: ids.fresh_def)
  then show ?thesis using log_ids_distinct ids.fresh_distinct [OF f] by (auto simp: list_all_iff life_ok_def)
qed

lemma session_with_frame:
  assumes prev: "previous_boot_id file = Inr n" "0 \<le> n" "n < UINT32_MAX"
  obtains s i where "vendor_step\<^sup>*\<^sup>* \<lparr>vl_app = None, vl_file = file, vl_log = older\<rparr> s" "vl_app s = None"
    "previous_boot_id (vl_file s) = Inr (n + 1)" "vl_log s = older @ [((n + 1, 0), i)]"
proof -
  let ?file = "Some (py_str (n + 1) @ [CHR 0x0A])" and ?self = "\<lparr>ps_boot_id = n + 1, ps_next_sequence = 0\<rparr>"
  let ?app = "\<lparr>va_payload = ?self, va_file = ?file, va_last = None\<rparr>"
  have start: "start_app True file = (Inr ?app, ?file)"
    using prev by (simp add: start_app_def load_next_boot_id_def persist_def Let_def)
  have ok: "request_ok plain_request" by (simp add: request_ok_def plain_request_def)
  have "1 \<le> ps_boot_id ?self" "ps_boot_id ?self \<le> UINT32_MAX" "0 \<le> ps_next_sequence ?self" "ps_next_sequence ?self < UINT32_MAX"
    using prev by (simp_all add: UINT32_MAX_eq)
  then obtain raw i where "make_frame True sample_now plain_request (?self, ?file) =
      (Inr (raw, i), ?self\<lparr>ps_next_sequence := frame_sequence plain_request ?self + 1\<rparr>, ?file)"
    by (rule make_frame_ordinary [OF ok, where now = sample_now and received = sample_now])
      (simp_all add: sample_now_def PROJECT_EPOCH_US_def)
  then obtain app1 where c: "choose_frame True sample_now plain_request ?app = (Inr (raw, i), app1)"
    "va_payload app1 = ?self\<lparr>ps_next_sequence := 1\<rparr>" "va_file app1 = ?file"
    using choose_made [of True sample_now plain_request ?app raw i] by (auto simp: plain_request_def apply_wire_failure_def frame_sequence_def)
  let ?s = "\<lambda>app file older. \<lparr>vl_app = app, vl_file = file, vl_log = older\<rparr>"
  have "vendor_step (?s None file older) (?s (Some ?app) ?file older)" using step_start [of True "?s None file older"] start by simp
  moreover have "vendor_step (?s (Some ?app) ?file older) (?s (Some app1) ?file (older @ [((n + 1, 0), i)]))"
    using step_frame [of "?s (Some ?app) ?file older" ?app True sample_now plain_request] c by (simp add: plain_request_def)
  moreover have "vendor_step (?s (Some app1) ?file (older @ [((n + 1, 0), i)])) (?s None ?file (older @ [((n + 1, 0), i)]))"
    using step_end [of "?s (Some app1) ?file (older @ [((n + 1, 0), i)])"] by simp
  ultimately have "vendor_step\<^sup>*\<^sup>* (?s None file older) (?s None ?file (older @ [((n + 1, 0), i)]))"
    by (meson rtranclp.rtrancl_refl rtranclp.rtrancl_into_rtrancl)
  moreover have "previous_boot_id ?file = Inr (n + 1)" using prev by (intro previous_persisted) auto
  ultimately show ?thesis using that by simp
qed

theorem packet_ids_never_repeat_witness:
  "\<exists>s i j. vendor_step\<^sup>*\<^sup>* \<lparr>vl_app = None, vl_file = None, vl_log = []\<rparr> s \<and> vl_log s = [((1, 0), i), ((2, 0), j)] \<and> i \<noteq> j"
proof -
  obtain s i where s: "vendor_step\<^sup>*\<^sup>* \<lparr>vl_app = None, vl_file = None, vl_log = []\<rparr> s" "vl_app s = None"
    "previous_boot_id (vl_file s) = Inr 1" "vl_log s = [((1, 0), i)]"
    by (rule session_with_frame [of None 0 "[]"]) (auto simp: previous_boot_id_def UINT32_MAX_eq)
  obtain t j where t: "vendor_step\<^sup>*\<^sup>* \<lparr>vl_app = None, vl_file = vl_file s, vl_log = vl_log s\<rparr> t" "vl_log t = [((1, 0), i), ((2, 0), j)]"
    by (rule session_with_frame [OF s(3), of "vl_log s"]) (auto simp: s(4) UINT32_MAX_eq)
  have "\<lparr>vl_app = None, vl_file = vl_file s, vl_log = vl_log s\<rparr> = s" using s(2) by simp
  then have run: "vendor_step\<^sup>*\<^sup>* \<lparr>vl_app = None, vl_file = None, vl_log = []\<rparr> t" using s(1) t(1) by (metis rtranclp_trans)
  then show ?thesis using packet_ids_never_repeat [OF run] t(2) by auto
qed

text \<open>
  C30. The simulator's frames do on the ground what their failure mode says. For every request within
  the bounds of the request model and every ordinary state of the payload, at a clock between the
  project epoch and January 2038, a frame is made; received at any later time, it decodes to the frame
  with the next sequence number (or the one after it, if one is to be skipped), the clock's own
  microsecond, the nearest wire units of the temperature and the voltage, the wire code of the
  requested mode and the requested fault flags, unless its checksum is to be corrupt, when its last byte
  differs and it is rejected for its checksum, or its version unsupported, when its first byte and its
  checksum differ and it is rejected for its version although its checksum is right.
\<close>

theorem vendor_frames_as_advertised:
  assumes "request_ok r" and "tr_failure_mode r \<noteq> DUPLICATE_LAST" and "1 \<le> ps_boot_id (va_payload app)" "ps_boot_id (va_payload app) \<le> UINT32_MAX"
    and "0 \<le> ps_next_sequence (va_payload app)" "ps_next_sequence (va_payload app) < UINT32_MAX"
    and "PROJECT_EPOCH_US \<le> now" "now < 2 ^ 31 * 1000000" "now \<le> received"
  shows "\<exists>sent i app1 frame raw. choose_frame writable now r app = (Inr (sent, i), app1) \<and> frame_packet_id frame = Inr i \<and>
    boot_id frame = ps_boot_id (va_payload app) \<and>
    sequence_number frame = ps_next_sequence (va_payload app) + (if tr_failure_mode r = SKIP_SEQUENCE then 1 else 0) \<and>
    timestamp_us frame = now \<and>
    \<bar>of_int (temperature_centi_c frame) - tr_temperature_c r * 100\<bar> \<le> 1 / 2 + 1 / 10 ^ 7 \<and>
    \<bar>of_int (voltage_mv frame) - tr_voltage_v r * 1000\<bar> \<le> 1 / 2 + 1 / 10 ^ 7 \<and>
    operating_mode frame = (case tr_operating_mode r of SAFE_NAME \<Rightarrow> 0 | STANDBY_NAME \<Rightarrow> 1 | SCIENCE_NAME \<Rightarrow> 2 | CALIBRATION_NAME \<Rightarrow> 3) \<and>
    fault_flags frame = tr_fault_flags r \<and> decode_telemetry raw (utc received) = Inr frame \<and>
    (case tr_failure_mode r of
       CORRUPT_CRC \<Rightarrow> length sent = 28 \<and> take 27 sent = take 27 raw \<and>
         (\<exists>m. decode_telemetry sent (utc received) = Inl (Rejected CRC_MISMATCH m))
     | UNSUPPORTED_VERSION \<Rightarrow> length sent = 28 \<and> take 23 (drop 1 sent) = take 23 (drop 1 raw) \<and>
         be_value (drop 24 sent) = zlib_crc32 (take 24 sent) \<and>
         (\<exists>m. decode_telemetry sent (utc received) = Inl (Rejected UNSUPPORTED_PROTOCOL_VERSION m))
     | _ \<Rightarrow> sent = raw)"
proof -
  obtain frame raw i where m: "make_frame writable now r (va_payload app, va_file app) =
      (Inr (raw, i), (va_payload app)\<lparr>ps_next_sequence := frame_sequence r (va_payload app) + 1\<rparr>, va_file app)"
    "decode_telemetry raw (utc received) = Inr frame" "frame_packet_id frame = Inr i" "boot_id frame = ps_boot_id (va_payload app)"
    "sequence_number frame = frame_sequence r (va_payload app)" "timestamp_us frame = now"
    "temperature_centi_c frame = scaled (tr_temperature_c r) 100" "voltage_mv frame = scaled (tr_voltage_v r) 1000"
    "fault_flags frame = tr_fault_flags r" "operating_mode frame = wire_mode (tr_operating_mode r)"
    using make_frame_ordinary [OF assms(1) assms(3-9)] by metis
  obtain sent where s: "apply_wire_failure raw (tr_failure_mode r) = Inr sent" and d: "case tr_failure_mode r of
       CORRUPT_CRC \<Rightarrow> length sent = 28 \<and> take 27 sent = take 27 raw \<and>
         (\<exists>m. decode_telemetry sent (utc received) = Inl (Rejected CRC_MISMATCH m))
     | UNSUPPORTED_VERSION \<Rightarrow> length sent = 28 \<and> take 23 (drop 1 sent) = take 23 (drop 1 raw) \<and>
         be_value (drop 24 sent) = zlib_crc32 (take 24 sent) \<and>
         (\<exists>m. decode_telemetry sent (utc received) = Inl (Rejected UNSUPPORTED_PROTOCOL_VERSION m))
     | _ \<Rightarrow> sent = raw"
    using wire_failures [OF m(2)] by (cases "tr_failure_mode r") (auto simp: apply_wire_failure_def)
  obtain app1 where c: "choose_frame writable now r app = (Inr (sent, i), app1)" using choose_made [OF m(1) assms(2) s] by metis
  have "\<bar>tr_temperature_c r\<bar> \<le> 150" "\<bar>tr_voltage_v r\<bar> \<le> 150" using assms(1) by (auto simp: request_ok_def)
  then have near: "\<bar>of_int (temperature_centi_c frame) - tr_temperature_c r * 100\<bar> \<le> 1 / 2 + 1 / 10 ^ 7"
    "\<bar>of_int (voltage_mv frame) - tr_voltage_v r * 1000\<bar> \<le> 1 / 2 + 1 / 10 ^ 7"
    using scaled_error [of "tr_temperature_c r" 100] scaled_error [of "tr_voltage_v r" 1000] m(7,8) by simp_all
  show ?thesis
    by (intro exI [of _ sent] exI [of _ i] exI [of _ app1] exI [of _ frame] exI [of _ raw] conjI)
      (fact c m(3,4,6) m(5) [unfolded frame_sequence_def] near m(10) [unfolded wire_mode_def] m(9,2) d)+
qed

definition plain_app :: vendor_app where
  "plain_app = \<lparr>va_payload = \<lparr>ps_boot_id = 42, ps_next_sequence = 7\<rparr>, va_file = Some ''42'', va_last = None\<rparr>"

theorem vendor_frames_as_advertised_witness:
  "\<exists>sent i app1 frame. choose_frame True sample_now (plain_request\<lparr>tr_failure_mode := SKIP_SEQUENCE, tr_fault_flags := 5\<rparr>) plain_app =
       (Inr (sent, i), app1) \<and> boot_id frame = 42 \<and> sequence_number frame = 8 \<and> operating_mode frame = 2 \<and> fault_flags frame = 5 \<and>
     decode_telemetry sent (utc (sample_now + 5)) = Inr frame"
proof -
  have ok: "request_ok (plain_request\<lparr>tr_failure_mode := SKIP_SEQUENCE, tr_fault_flags := 5\<rparr>)" by (simp add: request_ok_def plain_request_def)
  show ?thesis
    using vendor_frames_as_advertised [OF ok, of plain_app sample_now "sample_now + 5" True]
    by (auto simp: plain_app_def plain_request_def sample_now_def PROJECT_EPOCH_US_def UINT32_MAX_eq)
qed

definition temporary :: "post_outcome \<Rightarrow> bool" where
  "temporary out = (case out of Responded response \<Rightarrow> 500 \<le> gr_status_code response | ClientError e \<Rightarrow> True | OtherFailure e \<Rightarrow> False)"

definition handoff_result :: "post_outcome \<Rightarrow> vendor_error + ground_response" where
  "handoff_result out = (case out of Responded response \<Rightarrow> Inr response | ClientError e \<Rightarrow> Inl (HTTPError e) | OtherFailure e \<Rightarrow> Inl (OtherException e))"

definition handoff_events :: "vendor_post \<Rightarrow> nat \<Rightarrow> vendor_event list" where
  "handoff_events request attempts =
     (if attempts = 1 then [Posted request]
      else if attempts = 2 then [Posted request, Slept (1 / 4), Posted request]
      else [Posted request, Slept (1 / 4), Posted request, Slept (1 / 2), Posted request])"

lemma forward_step:
  "forward_attempts request post (attempt # later) =
     (if temporary (post attempt) \<and> attempt \<noteq> 3
      then (case forward_attempts request post later of
              (res, events) \<Rightarrow> (res, [Posted request, Slept (1 / 4 * 2 ^ (attempt - 1))] @ events))
      else (handoff_result (post attempt), [Posted request]))"
  by (auto simp: Let_def temporary_def handoff_result_def split: post_outcome.splits)

definition handoff_attempts :: "(nat \<Rightarrow> post_outcome) \<Rightarrow> nat" where
  "handoff_attempts post = (if \<not> temporary (post 1) then 1 else if \<not> temporary (post 2) then 2 else 3)"

lemma forward_attempts_eq:
  "forward_attempts request post [1..<4] = (handoff_result (post (handoff_attempts post)), handoff_events request (handoff_attempts post))"
proof -
  have l: "[Suc 0..<4] = [1, 2, 3]" by (simp add: upt_rec)
  show ?thesis
    by (cases "temporary (post (Suc 0))"; cases "temporary (post 2)")
      (simp_all add: l forward_step handoff_events_def handoff_attempts_def del: forward_attempts.simps(2))
qed

text \<open>
  C31. Forwarding always ends, after one, two or three posts of the very same request, with the same
  request identifier and exactly the payload's bytes, a quarter and half a second apart. It goes on
  exactly after a temporary failure, an error of the client or an answer of 500 or above, as long as
  fewer than three posts were made, and its result is the outcome of the last post; the assertion
  after the loop is never reached.
\<close>

theorem forward_retries_exactly:
  "\<exists>request. vp_content request = raw \<and> vp_request_id request = uuid_str request_id \<and>
     vp_vendor_token request = vs_vendor_token settings \<and>
     forward settings post raw request_id =
       (handoff_result (post (handoff_attempts post)), handoff_events request (handoff_attempts post))"
proof -
  let ?request = "\<lparr>vp_url = vs_ground_api_url settings @ ''/vendor/payload-data'', vp_content = raw,
    vp_content_type = ''application/octet-stream'', vp_request_id = uuid_str request_id, vp_vendor_token = vs_vendor_token settings\<rparr>"
  have "forward settings post raw request_id =
      (handoff_result (post (handoff_attempts post)), handoff_events ?request (handoff_attempts post))"
    unfolding forward_def by (rule forward_attempts_eq)
  then show ?thesis by (intro exI [of _ ?request]) simp
qed

end
