(* ===== verification/End_To_End.thy ===== *)
theory End_To_End
  imports Service_Properties Vendor_Life
begin

text \<open>
  The telemetry half from end to end: a request of the payload simulator becomes a frame, the frame a
  delivery, the delivery a packet and a job, and the job a stored result. The network between
  simulator and gateway only splits the body into chunks.
\<close>


section \<open>The hand-over\<close>

text \<open>
  The request the gateway sees when the simulator's client posts: the body arrives in chunks, and the
  client declares its length.
\<close>

definition gateway_request :: "vendor_post \<Rightarrow> bytes list \<Rightarrow> vendor_request" where
  "gateway_request p stream =
     \<lparr>rq_vendor_token = Some (vp_vendor_token p), rq_request_id = Some (vp_request_id p),
      rq_content_length = Some (py_str (int (length (vp_content p)))), rq_content_type = Some (vp_content_type p), rq_stream = stream\<rparr>"

lemma read_chunks_concat: "read_chunks maximum body stream = Inr raw \<Longrightarrow> raw = body @ concat stream"
proof (induction stream arbitrary: body)
  case (Cons chunk stream)
  then show ?case using Cons.IH [of "body @ chunk"] by (simp split: if_splits)
qed simp

lemma bounded_body_stream: "bounded_body request maximum = Inr raw \<Longrightarrow> raw = concat (rq_stream request)"
  by (auto simp: bounded_body_def dest!: read_chunks_concat split: option.splits if_splits)

lemma posted_content:
  assumes "Posted p \<in> set (snd (forward settings post raw request_id))"
  shows "vp_content p = raw \<and> vp_request_id p = uuid_str request_id \<and> vp_vendor_token p = vs_vendor_token settings"
proof -
  have "q = p" if "Posted p \<in> set (handoff_events q n)" for q n using that by (auto simp: handoff_events_def split: if_splits)
  then show ?thesis using assms unfolding forward_def forward_attempts_eq by fastforce
qed

lemma packed_frame_unique:
  assumes "struct_pack TELEMETRY_V1_BODY (frame_values f) = Some b" "struct_pack TELEMETRY_V1_BODY (frame_values g) = Some b"
  shows "f = g"
proof -
  have "frame_values f = frame_values g" using body.unpack_pack [OF assms(1)] body.unpack_pack [OF assms(2)] by simp
  then have "Some f = Some g" by (metis frame_of_frame_values)
  then show ?thesis by simp
qed

lemma encoded_frame_unique:
  assumes "encode_telemetry f t = Inr raw" "encode_telemetry g t' = Inr raw"
  shows "f = g"
proof -
  obtain b where b: "struct_pack TELEMETRY_V1_BODY (frame_values f) = Some b" "raw = b @ be_bytes 4 (zlib_crc32 b)"
    using assms(1) by (auto simp: encode_telemetry_Inr)
  obtain c where c: "struct_pack TELEMETRY_V1_BODY (frame_values g) = Some c" "raw = c @ be_bytes 4 (zlib_crc32 c)"
    using assms(2) by (auto simp: encode_telemetry_Inr)
  have "length b = length c" using body.pack_size [OF b(1)] body.pack_size [OF c(1)] by simp
  then have "b = c" using b(2) c(2) by simp
  then show ?thesis using packed_frame_unique [OF b(1)] c(1) by simp
qed

text \<open>What is read back from a frame of the simulator is the frame it made.\<close>

lemma made_frame_read_back:
  assumes made: "make_frame writable now_us r st = (Inr (raw, i), st')" and d: "decode_telemetry raw t = Inr frame"
  obtains mode where "frame_packet_id frame = Inr i" "fault_flags frame = tr_fault_flags r"
    "temperature_centi_c frame = scaled (tr_temperature_c r) 100" "voltage_mv frame = scaled (tr_voltage_v r) 1000"
    "operating_mode frame = OperatingMode_int mode" "operating_mode_name mode = mode_name_value (tr_operating_mode r)"
proof -
  obtain boot s f where f: "request_frame now_us r boot s = Inr f" "frame_bytes f = Inr (raw, i)"
    using made by (auto simp: make_frame_def Let_def split: prod.splits sum.splits)
  have "encode_telemetry f None = Inr raw" "frame_packet_id f = Inr i" using f(2) by (auto simp: frame_bytes_def split: sum.splits)
  moreover have "encode_telemetry frame (Some t) = Inr raw" using d by (simp add: decode_iff_encode)
  ultimately have "frame_packet_id frame = Inr i" "f = frame" using encoded_frame_unique by blast+
  moreover have "operating_mode_name mode = mode_name_value (tr_operating_mode r)"
    if "OperatingMode_named (mode_name_value (tr_operating_mode r)) = Some mode" for mode
    using that by (cases "tr_operating_mode r") (auto simp: OperatingMode_named_def)
  ultimately show ?thesis using that f(1) by (auto simp: request_frame_def split: option.splits)
qed

lemma round_double_near: "\<bar>round_double y - y\<bar> \<le> \<bar>y\<bar> / 2 ^ 53 + 1 / 2 ^ 100"
proof (cases "0 \<le> y")
  case True
  then show ?thesis using round_double_any [of y] by simp
next
  case False
  have "\<bar>round_double (- y) - (- y)\<bar> = \<bar>round_double y - y\<bar>" by (simp add: round_double_minus)
  then show ?thesis using round_double_any [of "- y"] False by simp
qed

text \<open>A reading that is the nearest double of the nearest wire unit is within about half a unit.\<close>

lemma reading_close:
  assumes e: "\<bar>of_int n - x * k\<bar> \<le> 1 / 2 + 1 / 10 ^ 7" and x: "\<bar>x\<bar> \<le> 150" and k: "100 \<le> k"
  shows "\<bar>round_double (of_int n / k) - x\<bar> \<le> (1 / 2 + 1 / 10 ^ 7) / k + 1 / 10 ^ 13"
proof -
  let ?y = "of_int n / k :: rat"
  have "?y - x = (of_int n - x * k) / k" using k by (simp add: field_simps)
  then have near: "\<bar>?y - x\<bar> \<le> (1 / 2 + 1 / 10 ^ 7) / k" using divide_right_mono [OF e, of k] k by (simp only: abs_divide) simp
  also have "\<dots> \<le> 1" using k by (simp add: divide_le_eq)
  finally have "\<bar>?y\<bar> \<le> 151" using x by simp
  then have "\<bar>?y\<bar> / 2 ^ 53 + 1 / 2 ^ 100 \<le> 1 / 10 ^ 13" by simp
  then show ?thesis using near round_double_near [of ?y] by linarith
qed

text \<open>The identifier of the packet is that of the frame its receipt decodes to.\<close>

lemma result_of_frame:
  assumes inv: "sys_inv db v" and t: "get_processed pid db = Some t" and src: "sourced db rid pid" and body: "holds_body db rid raw"
  obtains frame received mode where "decode_telemetry raw received = Inr frame" "frame_packet_id frame = Inr pid"
    "OperatingMode_of (operating_mode frame) = Some mode" "t_operating_mode t = operating_mode_name mode"
    "t_temperature_c t = temperature_c frame" "t_voltage_v t = voltage_v frame" "t_fault_names t = fault_names (fault_flags frame)"
proof -
  obtain work res a where w: "work_of db pid work" "processing_result work = Inr (res, a)" "same_processing_result t res"
    by (rule stored_result_work [OF inv t])
  obtain p receipt where p: "get_packet pid db = Some p" "p_source_receipt_id p = rid" "get_delivery rid db = Some receipt"
    "d_raw_body receipt = raw" using src body by (auto simp: sourced_def holds_body_def)
  then have d: "wi_raw_body work = raw" "wi_values work = packet_values p" using w(1) by (auto simp: work_of_def)
  then obtain frame where f: "decode_telemetry raw (wi_received_at work) = Inr frame" "stored_values frame = packet_values p"
    using w(2) by (auto simp: processing_result_def split: sum.splits if_splits)
  have "p \<in> set (packets db)" "p_packet_id p = pid" using get_row_Some [OF p(1) [unfolded get_packet_def]] by simp_all
  then have "packet_ok db p" using inv by (simp add: sys_inv_def db_inv_def rows_ok_def)
  then have "dv_packet_id (stored_values frame) = pid" using f(2) \<open>p_packet_id p = pid\<close> by (simp add: packet_ok_def)
  then have "frame_packet_id frame = Inr pid"
    using decoded_packet_id(1) [OF f(1)] by (simp add: frame_packet_id_def telemetry_values_def stored_values_def)
  then show ?thesis using that f w(2,3) d
    by (auto simp: processing_result_def same_processing_result_def split: sum.splits if_splits option.splits)
qed

section \<open>A measurement\<close>


definition golden_measurement :: TelemetryRequest where
  "golden_measurement = \<lparr>tr_temperature_c = 284 / 10, tr_voltage_v = 281 / 10, tr_operating_mode = SCIENCE_NAME, tr_fault_flags = 0, tr_failure_mode = NONE\<rparr>"

definition golden_app :: vendor_app where
  "golden_app = \<lparr>va_payload = \<lparr>ps_boot_id = 42, ps_next_sequence = 1\<rparr>, va_file = Some ''42'', va_last = None\<rparr>"

definition golden_client :: VendorSettings where
  "golden_client = \<lparr>vs_ground_api_url = ''http://ground-api:8000'', vs_vendor_token = ''vendor'', vs_boot_id_file = ''boot_id'', vs_auto_send_interval_seconds = Finite 0\<rparr>"

definition golden_post :: vendor_post where
  "golden_post = \<lparr>vp_url = ''http://ground-api:8000/vendor/payload-data'', vp_content = golden_raw,
     vp_content_type = ''application/octet-stream'', vp_request_id = uuid_str golden_request_id, vp_vendor_token = ''vendor''\<rparr>"

lemma scaled_exact:
  assumes "\<bar>x\<bar> \<le> 150" "0 \<le> k" "k \<le> 1000" "x * of_int k = of_int n"
  shows "scaled x k = n"
proof -
  have "\<bar>of_int (scaled x k) - of_int n :: rat\<bar> < 1" using scaled_error [OF assms(1-3)] assms(4) by simp
  then have "\<bar>scaled x k - n\<bar> < 1" by linarith
  then show ?thesis by simp
qed

lemma golden_choice: "\<exists>app1. choose_frame True 1784203200000000 golden_measurement golden_app = (Inr (golden_raw, dv_packet_id golden_values), app1)"
proof -
  have "request_frame 1784203200000000 golden_measurement 42 1 = Inr golden_frame"
    using scaled_exact [of "284 / 10" 100 2840] scaled_exact [of "281 / 10" 1000 28100] clock_timestamp_exact [of 1784203200000000]
    by (simp add: request_frame_def golden_measurement_def golden_frame_def OperatingMode_named_def PROJECT_EPOCH_US_def codec_constants)
  moreover have "encode_telemetry golden_frame None = Inr golden_raw"
    using golden_encodes by (auto simp: encode_telemetry_Inr validate_fields_def validate_future_skew_def split: sum.splits if_splits)
  moreover have "frame_packet_id golden_frame = Inr (dv_packet_id golden_values)"
    using decoded_packet_id(1) [OF golden_decodes] by (simp add: frame_packet_id_def golden_values_def)
  ultimately show ?thesis
    by (simp add: choose_frame_def make_frame_def Let_def golden_app_def roll_session_if_needed_def frame_bytes_def golden_measurement_def
        apply_wire_failure_def UINT32_MAX_eq)
qed

lemma golden_hop: "gateway_request golden_post [golden_raw] = sample_request"
proof -
  have "py_str 28 = ''28''" by code_simp
  then show ?thesis by (simp add: gateway_request_def golden_post_def sample_request_def golden_request_id_def golden_raw_def)
qed


section \<open>From the sensor to the stored result\<close>

text \<open>
  C1. What the simulator measures is what the ground stores. A request with values in range, to be sent
  unspoiled, becomes a frame that is forwarded to the gateway, in however many chunks it arrives; the
  gateway answers 202 and names a packet, and services run on in any order, under any schedule of
  outages and interference. If the packet then has a result, it is that of the simulator's own packet,
  with the mode and faults of the request and its temperature and voltage to about half a wire unit
  (0.0051 degrees, 0.00051 volts).
\<close>

theorem measurement_reaches_storage:
  assumes shared: "shared_system R kind val_at list_at hash_at S"
    and inv: "sys_inv (w_db w) (view_of val_at list_at DEFAULT_KEYS (w_redis w))"
    and r: "request_ok r" "tr_failure_mode r \<in> {NONE, SKIP_SEQUENCE}"
    and made: "choose_frame writable now_us r app = (Inr (sent, message_id), app1)"
    and posted: "Posted p \<in> set (snd (forward settings post sent request_id))" and arrives: "concat stream = vp_content p"
    and run: "receive_payload_data S R ground (gateway_request p stream) w = (Inr resp, w')" "h_status resp = 202"
    and named: "h_content resp = JObj ((''receipt_id'', receipt_id) # (''packet_id'', JStr pid) # rest)"
    and later: "(service_run S R)\<^sup>*\<^sup>* w' w''" "get_processed pid (w_db w'') = Some t"
  shows "pid = message_id
    \<and> \<bar>t_temperature_c t - tr_temperature_c r\<bar> \<le> 51 / 10000 \<and> \<bar>t_voltage_v t - tr_voltage_v r\<bar> \<le> 51 / 100000
    \<and> t_operating_mode t = mode_name_value (tr_operating_mode r) \<and> t_fault_names t = fault_names (tr_fault_flags r)"
proof -
  obtain raw rid pid' rest' where answer: "bounded_body (gateway_request p stream) (gs_max_telemetry_body_bytes ground) = Inr raw"
    "h_content resp = JObj ((''receipt_id'', JStr (uuid_str rid)) # (''packet_id'', JStr pid') # rest')"
    "holds_body (w_db w') rid raw" "sourced (w_db w') rid pid'"
    and inv': "sys_inv (w_db w') (view_of val_at list_at DEFAULT_KEYS (w_redis w'))"
    by (rule answer_sources [OF shared inv run])
  have "raw = sent" using bounded_body_stream [OF answer(1)] arrives posted_content [OF posted] by (simp add: gateway_request_def)
  then have body: "holds_body (w_db w') rid sent" and src: "sourced (w_db w') rid pid" using answer named by simp_all
  note steps = runs_rel [OF shared later(1) inv']
  have db: "db_inv (w_db w')" using inv' by (simp add: sys_inv_def)
  obtain frame received mode where f: "decode_telemetry sent received = Inr frame" "frame_packet_id frame = Inr pid"
    "OperatingMode_of (operating_mode frame) = Some mode" "t_operating_mode t = operating_mode_name mode"
    "t_temperature_c t = temperature_c frame" "t_voltage_v t = voltage_v frame" "t_fault_names t = fault_names (fault_flags frame)"
    by (rule result_of_frame [OF runs_keep [OF shared later(1) inv'] later(2) steps_sourced [OF steps db src] steps_body [OF steps db body]])
  obtain st where "make_frame writable now_us r (va_payload app, va_file app) = (Inr (sent, message_id), st)"
    using made r(2) by (auto simp: choose_frame_def apply_wire_failure_def Let_def split: prod.splits sum.splits if_splits)
  then obtain m where m: "frame_packet_id frame = Inr message_id" "fault_flags frame = tr_fault_flags r"
    "temperature_centi_c frame = scaled (tr_temperature_c r) 100" "voltage_mv frame = scaled (tr_voltage_v r) 1000"
    "operating_mode frame = OperatingMode_int m" "operating_mode_name m = mode_name_value (tr_operating_mode r)"
    by (rule made_frame_read_back [OF _ f(1)])
  have x: "\<bar>tr_temperature_c r\<bar> \<le> 150" "\<bar>tr_voltage_v r\<bar> \<le> 150" using r(1) by (auto simp: request_ok_def)
  have "mode = m" using f(3) m(5) by simp
  moreover have "\<bar>temperature_c frame - tr_temperature_c r\<bar> \<le> 51 / 10000"
    using reading_close [OF _ x(1), of "scaled (tr_temperature_c r) 100" 100] scaled_error [OF x(1), of 100] by (simp add: temperature_c_def m(3))
  moreover have "\<bar>voltage_v frame - tr_voltage_v r\<bar> \<le> 51 / 100000"
    using reading_close [OF _ x(2), of "scaled (tr_voltage_v r) 1000" 1000] scaled_error [OF x(2), of 1000] by (simp add: voltage_v_def m(4))
  ultimately show ?thesis using f m by simp
qed

theorem measurement_reaches_storage_witness:
  "\<exists>t. get_processed (dv_packet_id golden_values) golden_processed = Some t \<and> \<bar>t_temperature_c t - 284 / 10\<bar> \<le> 51 / 10000
    \<and> \<bar>t_voltage_v t - 281 / 10\<bar> \<le> 51 / 100000 \<and> t_operating_mode t = ''SCIENCE''"
proof -
  obtain w' where w': "run_worker (alone golden_tx) fake_redis (\<lambda>_. []) sample_worker ''worker'' 1
      \<lparr>w_db = golden_queued, w_redis = golden_redis, w_tick = 7\<rparr> = Some (Inr (), w')" "w_db w' = golden_processed"
    using golden_worker_run by blast
  have runs: "(service_run (alone golden_tx) fake_redis)\<^sup>*\<^sup>* \<lparr>w_db = golden_queued, w_redis = golden_redis, w_tick = 7\<rparr> w'"
    using run_processing [OF w'(1)] by (metis r_into_rtranclp snd_conv)
  have inv: "sys_inv (w_db golden_start) (fake_queue.view (w_redis golden_start))"
    unfolding golden_view_start using sys_inv_start by (simp add: golden_start_def)
  obtain t where t: "get_processed (dv_packet_id golden_values) (w_db w') = Some t"
    by (simp add: get_processed_def w'(2) complete_golden(3) get_row_def processed_row_def golden_claimed_job_def claimed_job_def
        golden_queued_job_def queued_job_def golden_job_def new_job_def)
  obtain app1 where made: "choose_frame True 1784203200000000 golden_measurement golden_app = (Inr (golden_raw, dv_packet_id golden_values), app1)"
    using golden_choice by blast
  have posted: "Posted golden_post \<in> set (snd (forward golden_client (\<lambda>_. Responded \<lparr>gr_status_code = 202, gr_json = None, gr_text = []\<rparr>) golden_raw golden_request_id))"
    unfolding forward_def forward_attempts_eq by (simp add: handoff_events_def golden_client_def golden_post_def)
  have answer: "h_status golden_response = 202" "h_content golden_response =
      JObj ((''receipt_id'', JStr (uuid_str 1)) # (''packet_id'', JStr (dv_packet_id golden_values)) # [(''status'', JStr ''QUEUED''), (''duplicate'', JBool False)])"
    by (simp_all add: golden_response_def json_response_def)
  have r: "request_ok golden_measurement" "tr_failure_mode golden_measurement \<in> {NONE, SKIP_SEQUENCE}"
    and stream: "concat [golden_raw] = vp_content golden_post"
    by (simp_all add: request_ok_def golden_measurement_def golden_post_def)
  show ?thesis
    using measurement_reaches_storage [OF fake_alone.shared_system_axioms inv r made posted stream
        golden_run [folded golden_hop] answer runs t] w'(2) t by (auto simp: golden_measurement_def)
qed

end
