(* ===== verification/Py_Json_Print.thy ===== *)
theory Py_Json_Print
  imports Py_Json
begin

text \<open>
  \<^verbatim>\<open>json.dumps(v, separators=(",", ":"))\<close>, which keeps the order of a dictionary, and the round trip
  through \<^verbatim>\<open>json.loads\<close>: every value whose numbers are literals is read back as it was written, whatever
  characters its strings have.
\<close>

fun json_text :: "json \<Rightarrow> string" where
  "json_text JNull = ''null''"
| "json_text (JBool b) = (if b then ''true'' else ''false'')"
| "json_text (JNum s) = s"
| "json_text (JStr s) = json_string s"
| "json_text (JArr vs) = ''['' @ join_with '','' (map json_text vs) @ '']''"
| "json_text (JObj kvs) =
     ''{'' @ join_with '','' (map (\<lambda>(k, v). json_string k @ '':'' @ json_text v) kvs) @ ''}''"

text \<open>\<^verbatim>\<open>json.dumps(v, separators=(",", ":")).encode()\<close>.\<close>

definition json_bytes :: "json \<Rightarrow> bytes" where
  "json_bytes v = ascii_bytes (json_text v)"

section \<open>Strings\<close>

lemma hex_digits_read: "n < 256 \<Longrightarrow> \<exists>w x y z. fmt_hex 4 (int n) = [w, x, y, z] \<and> hex4 w x y z = Some n"
proof -
  assume n: "n < 256"
  define a b where "a = n div 16" and "b = n mod 16"
  have a: "a < 16" "b < 16" "a * 16 + b = n" using n by (auto simp: a_def b_def less_mult_imp_div_less)
  have four: "(4 :: nat) = Suc (Suc (Suc (Suc 0)))" by simp
  have "fixed_digits 16 4 n = [a div 16 div 16 mod 16, a div 16 mod 16, a mod 16, b]"
    unfolding four by (simp only: fixed_digits.simps append.simps a_def b_def)
  then have "fixed_digits 16 4 n = [0, 0, a, b]" using a by simp
  moreover have "fmt_hex 4 (int n) = map lower_digit (fixed_digits 16 4 n)"
    using n py_format_fixed [of 16 "int n" 4 lower_digit] by simp
  ultimately have "fmt_hex 4 (int n) = [lower_digit 0, lower_digit 0, lower_digit a, lower_digit b]"
    by simp
  then show ?thesis using a by (simp add: hex4_def hex_digit_value)
qed

lemma control_chars:
  "(of_char c :: nat) = 10 \<longleftrightarrow> c = CHR 0x0A" "(of_char c :: nat) = 13 \<longleftrightarrow> c = CHR 0x0D"
  "(of_char c :: nat) = 9 \<longleftrightarrow> c = CHR 0x09" "(of_char c :: nat) = 12 \<longleftrightarrow> c = CHR 0x0C" "(of_char c :: nat) = 8 \<longleftrightarrow> c = CHR 0x08"
  using of_char_eq_iff [of c "CHR 0x0A", where 'a = nat] of_char_eq_iff [of c "CHR 0x0D", where 'a = nat]
    of_char_eq_iff [of c "CHR 0x09", where 'a = nat] of_char_eq_iff [of c "CHR 0x0C", where 'a = nat]
    of_char_eq_iff [of c "CHR 0x08", where 'a = nat] by simp_all

lemma escape_char_cases:
  obtains e where "escape_char c = [CHR 0x5C, e]" "e \<noteq> CHR ''u''" "simple_escape e = Some c"
    | "escape_char c = [c]" "c \<noteq> CHR 0x22" "c \<noteq> CHR 0x5C" "32 \<le> (of_char c :: nat)"
    | "escape_char c = [CHR 0x5C, CHR ''u''] @ fmt_hex 4 (int (of_char c))"
  unfolding escape_char_def Let_def control_chars by (fastforce simp: simple_escape_def split: if_splits)

lemma json_chars_escape: "json_chars (escape_char c @ rest) = map_option (map_prod ((#) c) id) (json_chars rest)"
proof (cases c rule: escape_char_cases)
  case 3
  have b: "(of_char c :: nat) < 256" using of_char_mod_256 [of c] by (metis mod_less_divisor zero_less_numeral)
  then obtain w x y z where "fmt_hex 4 (int (of_char c)) = [w, x, y, z]" "hex4 w x y z = Some (of_char c)"
    using hex_digits_read by blast
  then show ?thesis using 3 b by simp
qed simp_all

lemma json_chars_string: "json_chars (concat (map escape_char s) @ CHR 0x22 # rest) = Some (s, rest)"
  by (induction s) (simp_all add: json_chars_escape)

section \<open>Numbers\<close>

text \<open>What may follow a value in a printed text.\<close>

definition delimited :: "string \<Rightarrow> bool" where
  "delimited r \<longleftrightarrow> r = [] \<or> hd r = CHR '','' \<or> hd r = CHR '']'' \<or> hd r = CHR ''}''"

definition number_literal :: "string \<Rightarrow> bool" where
  "number_literal s \<longleftrightarrow> json_number s = Some (s, [])"

lemma scan_append:
  "r = [] \<or> \<not> P (hd r) \<Longrightarrow> takeWhile P (s @ r) = takeWhile P s \<and> dropWhile P (s @ r) = dropWhile P s @ r"
  by (induction s) (cases r; auto)+

lemma digits_append:
  "delimited r \<Longrightarrow> takeWhile dec_char (s @ r) = takeWhile dec_char s \<and> dropWhile dec_char (s @ r) = dropWhile dec_char s @ r"
  by (rule scan_append) (auto simp: delimited_def dec_char_def)

lemma delimited_scan:
  assumes "delimited r"
  shows "takeWhile dec_char r = []" "dropWhile dec_char r = r" "json_fraction r = ([], r)" "json_exponent r = ([], r)"
  using assms by (cases r; auto simp: delimited_def dec_char_def json_fraction_def json_exponent_def)+

lemma json_integer_append:
  assumes "json_integer s = Some (i, t)" "delimited r"
  shows "json_integer (s @ r) = Some (i, t @ r)"
  using assms(1) digits_append [OF assms(2)] delimited_scan [OF assms(2)]
  by (cases s; cases "tl s") (auto simp: json_integer_def Let_def split: if_splits)

lemma json_fraction_append:
  assumes "json_fraction s = (f, t)" "delimited r"
  shows "json_fraction (s @ r) = (f, t @ r)"
proof (cases s)
  case Nil
  then show ?thesis using assms delimited_scan by (simp add: json_fraction_def)
next
  case (Cons c cs)
  then show ?thesis using assms(1) digits_append [OF assms(2), of cs]
    by (auto simp: json_fraction_def split: if_splits)
qed

lemma json_exponent_append:
  assumes "json_exponent s = (f, t)" "delimited r"
  shows "json_exponent (s @ r) = (f, t @ r)"
proof (cases s rule: remdups_adj.cases)
  case 1
  then show ?thesis using assms delimited_scan [OF assms(2)] by (simp add: json_exponent_def)
next
  case (2 c)
  then show ?thesis using assms delimited_scan(1) [of r]
    by (cases r) (auto simp: json_exponent_def delimited_def dec_char_def)
next
  case (3 c d es)
  then show ?thesis using assms(1) digits_append [OF assms(2), of es] digits_append [OF assms(2), of "d # es"]
    by (auto simp: json_exponent_def split: if_splits)
qed

lemma json_number_append:
  assumes "number_literal s" "delimited r"
  shows "json_number (s @ r) = Some (s, r)"
proof -
  obtain i t f t' e where i: "json_integer s = Some (i, t)" and f: "json_fraction t = (f, t')"
    and e: "json_exponent t' = (e, [])" and s: "i @ f @ e = s"
    using assms(1) by (auto simp: number_literal_def json_number_def split: option.splits prod.splits)
  show ?thesis
    using json_integer_append [OF i assms(2)] json_fraction_append [OF f assms(2)] json_exponent_append [OF e assms(2)] s
    by (simp add: json_number_def)
qed

lemma number_head:
  assumes "number_literal s"
  shows "\<exists>c cs. s = c # cs \<and> (c = CHR ''-'' \<or> dec_char c)"
proof -
  obtain i t where i: "json_integer s = Some (i, t)"
    using assms by (auto simp: number_literal_def json_number_def split: option.splits prod.splits)
  then show ?thesis by (cases s) (auto simp: json_integer_def dec_char_def split: if_splits)
qed

lemma json_word_number:
  assumes "number_literal s" "delimited r"
  shows "json_word (s @ r) = Some (JNum s, r)"
proof -
  obtain c cs where s: "s = c # cs" and c: "c = CHR ''-'' \<or> dec_char c" using number_head [OF assms(1)] by auto
  have "c \<noteq> CHR ''n''" "c \<noteq> CHR ''t''" "c \<noteq> CHR ''f''" using c by (auto simp: dec_char_def)
  then show ?thesis using json_number_append [OF assms] by (simp add: json_word_def s)
qed

section \<open>Values\<close>

fun printable :: "json \<Rightarrow> bool" where
  "printable (JNum s) = number_literal s"
| "printable (JArr vs) = (\<forall>v \<in> set vs. printable v)"
| "printable (JObj kvs) = (\<forall>(k, v) \<in> set kvs. printable v)"
| "printable _ = True"

text \<open>A printed value starts with a character that is neither white space nor a closing bracket.\<close>

definition value_head :: "char \<Rightarrow> bool" where
  "value_head c \<longleftrightarrow> \<not> json_space c \<and> c \<noteq> CHR '']'' \<and> c \<noteq> CHR ''}'' \<and> c \<noteq> CHR '',''"

lemma json_text_head: "printable v \<Longrightarrow> \<exists>c cs. json_text v = c # cs \<and> value_head c"
  by (cases v) (auto simp: value_head_def json_space_def json_string_def dec_char_def dest!: number_head)

lemma skip_text: "printable v \<Longrightarrow> skip_space (json_text v @ r) = json_text v @ r"
  using json_text_head [of v] by (auto simp: value_head_def)

text \<open>With enough fuel the parser reads the printed text and stops behind it.\<close>

definition reads :: "json \<Rightarrow> bool" where
  "reads v \<longleftrightarrow> (\<exists>N. \<forall>n \<ge> N. \<forall>r. delimited r \<longrightarrow> json_value n (json_text v @ r) = Some (v, r))"

lemma reads_elements:
  assumes "vs \<noteq> []" "\<forall>v \<in> set vs. printable v \<and> reads v"
  shows "\<exists>N. \<forall>n \<ge> N. \<forall>r. json_elements n (join_with '','' (map json_text vs) @ CHR '']'' # r) = Some (vs, r)"
  using assms
proof (induction vs rule: list_nonempty_induct)
  case (single v)
  then obtain N where N: "\<And>n r. N \<le> n \<Longrightarrow> delimited r \<Longrightarrow> json_value n (json_text v @ r) = Some (v, r)"
    by (auto simp: reads_def)
  have "json_elements n (json_text v @ CHR '']'' # r) = Some ([v], r)" if "Suc N \<le> n" for n r
    using N [of "n - 1" "CHR '']'' # r"] that by (cases n) (auto simp: delimited_def json_space_def)
  then show ?case by auto
next
  case (cons v vs)
  have "reads v" using cons.prems by simp
  then obtain N where N: "\<And>n r. N \<le> n \<Longrightarrow> delimited r \<Longrightarrow> json_value n (json_text v @ r) = Some (v, r)"
    unfolding reads_def by blast
  from cons obtain M where M: "\<And>n r. M \<le> n \<Longrightarrow> json_elements n (join_with '','' (map json_text vs) @ CHR '']'' # r) = Some (vs, r)"
    by auto
  obtain w ws where vs: "vs = w # ws" using cons.hyps by (cases vs) auto
  have sk: "skip_space (join_with '','' (map json_text vs) @ CHR '']'' # r) = join_with '','' (map json_text vs) @ CHR '']'' # r" for r
    using skip_text [of w] cons.prems by (cases ws) (auto simp: vs)
  have "json_elements n (join_with '','' (map json_text (v # vs)) @ CHR '']'' # r) = Some (v # vs, r)"
    if le: "Suc (max N M) \<le> n" for n r
  proof -
    obtain m where m: "n = Suc m" "N \<le> m" "M \<le> m" using le by (cases n) auto
    have "join_with '','' (map json_text (v # vs)) = json_text v @ '','' @ join_with '','' (map json_text vs)" by (simp add: vs)
    then show ?thesis using N [OF m(2), of "CHR '','' # join_with '','' (map json_text vs) @ CHR '']'' # r"] M [OF m(3), of r] sk [of r]
      by (simp add: m(1) delimited_def json_space_def)
  qed
  then show ?case by blast
qed

abbreviation member_text :: "string \<times> json \<Rightarrow> string" where
  "member_text \<equiv> \<lambda>(k, v). json_string k @ '':'' @ json_text v"

lemma json_members_one:
  assumes r: "json_value n (json_text v @ c # cs) = Some (v, c # cs)" and v: "printable v" and c: "\<not> json_space c"
  shows "json_members (Suc n) (json_string k @ '':'' @ json_text v @ c # cs) =
    (if c = CHR ''}'' then Some ([(k, v)], cs)
     else if c = CHR '','' then map_option (map_prod ((#) (k, v)) id) (json_members n (skip_space cs)) else None)"
proof -
  have "json_chars (concat (map escape_char k) @ CHR 0x22 # CHR '':'' # json_text v @ c # cs) = Some (k, CHR '':'' # json_text v @ c # cs)"
    by (rule json_chars_string)
  then show ?thesis using r c skip_text [OF v, of "c # cs"] by (simp add: json_string_def json_space_def)
qed

lemma reads_members:
  assumes "kvs \<noteq> []" "\<forall>(k, v) \<in> set kvs. printable v \<and> reads v"
  shows "\<exists>N. \<forall>n \<ge> N. \<forall>r. json_members n (join_with '','' (map member_text kvs) @ CHR ''}'' # r) = Some (kvs, r)"
  using assms
proof (induction kvs rule: list_nonempty_induct)
  case (single kv)
  obtain k v where kv: "kv = (k, v)" by (cases kv)
  with single have "reads v" and p: "printable v" by auto
  then obtain N where N: "\<And>n r. N \<le> n \<Longrightarrow> delimited r \<Longrightarrow> json_value n (json_text v @ r) = Some (v, r)"
    unfolding reads_def by blast
  have "json_members n (member_text kv @ CHR ''}'' # r) = Some ([kv], r)" if "Suc N \<le> n" for n r
    using json_members_one [OF N p, of "n - 1" "CHR ''}''" r k] that
    by (cases n) (auto simp: kv delimited_def json_space_def simp del: json_members.simps)
  then show ?case by auto
next
  case (cons kv kvs)
  obtain k v where kv: "kv = (k, v)" by (cases kv)
  with cons.prems have "reads v" and p: "printable v" by auto
  then obtain N where N: "\<And>n r. N \<le> n \<Longrightarrow> delimited r \<Longrightarrow> json_value n (json_text v @ r) = Some (v, r)"
    unfolding reads_def by blast
  from cons obtain M where M: "\<And>n r. M \<le> n \<Longrightarrow> json_members n (join_with '','' (map member_text kvs) @ CHR ''}'' # r) = Some (kvs, r)"
    by auto
  obtain kw ws where kvs: "kvs = kw # ws" using cons.hyps by (cases kvs) auto
  have sk: "skip_space (join_with '','' (map member_text kvs) @ CHR ''}'' # r) = join_with '','' (map member_text kvs) @ CHR ''}'' # r" for r
    by (cases ws; cases kw) (auto simp: kvs json_string_def json_space_def)
  have "json_members n (join_with '','' (map member_text (kv # kvs)) @ CHR ''}'' # r) = Some (kv # kvs, r)"
    if le: "Suc (max N M) \<le> n" for n r
  proof -
    obtain m where m: "n = Suc m" "N \<le> m" "M \<le> m" using le by (cases n) auto
    have j: "join_with '','' (map member_text (kv # kvs)) = json_string k @ '':'' @ json_text v @ '','' @ join_with '','' (map member_text kvs)"
      by (simp add: kvs kv)
    show ?thesis
      using json_members_one [OF N [OF m(2)] p, of "CHR '',''" "join_with '','' (map member_text kvs) @ CHR ''}'' # r" k]
        M [OF m(3), of r] sk [of r]
      unfolding m(1) j by (simp add: delimited_def json_space_def kv del: json_members.simps)
  qed
  then show ?case by blast
qed

lemma printable_reads: "printable v \<Longrightarrow> reads v"
proof (induction v)
  case (JArr vs)
  show ?case
  proof (cases "vs = []")
    case True
    have "json_value n (json_text (JArr vs) @ r) = Some (JArr vs, r)" if "1 \<le> n" for n r
      using that True by (cases n) (auto simp: json_space_def)
    then show ?thesis unfolding reads_def by blast
  next
    case False
    then obtain v ws where vs: "vs = v # ws" by (cases vs) auto
    obtain N where N: "\<And>n r. N \<le> n \<Longrightarrow> json_elements n (join_with '','' (map json_text vs) @ CHR '']'' # r) = Some (vs, r)"
      using reads_elements [OF False] JArr printable.simps(2) by metis
    have sk: "\<exists>c cs. join_with '','' (map json_text vs) @ CHR '']'' # r = c # cs \<and> value_head c" for r
      using json_text_head [of v] JArr.prems by (cases ws) (auto simp: vs)
    have "json_value n (json_text (JArr vs) @ r) = Some (JArr vs, r)" if "Suc N \<le> n" for n r
      using that N [of "n - 1" r] sk [of r] by (cases n) (auto simp: value_head_def)
    then show ?thesis unfolding reads_def by blast
  qed
next
  case (JObj kvs)
  show ?case
  proof (cases "kvs = []")
    case True
    have "json_value n (json_text (JObj kvs) @ r) = Some (JObj kvs, r)" if "1 \<le> n" for n r
      using that True by (cases n) (auto simp: json_space_def)
    then show ?thesis unfolding reads_def by blast
  next
    case False
    then obtain kw ws where kvs: "kvs = kw # ws" by (cases kvs) auto
    have "\<forall>(k, v) \<in> set kvs. printable v \<and> reads v" using JObj by fastforce
    then obtain N where N: "\<And>n r. N \<le> n \<Longrightarrow> json_members n (join_with '','' (map member_text kvs) @ CHR ''}'' # r) = Some (kvs, r)"
      using reads_members [OF False] by blast
    have sk: "\<exists>cs. join_with '','' (map member_text kvs) @ CHR ''}'' # r = CHR 0x22 # cs" for r
      by (cases ws; cases kw) (auto simp: kvs json_string_def)
    have "json_value n (json_text (JObj kvs) @ r) = Some (JObj kvs, r)" if "Suc N \<le> n" for n r
      using that N [of "n - 1" r] sk [of r] by (cases n) (auto simp: json_space_def)
    then show ?thesis unfolding reads_def by blast
  qed
next
  case (JNum s)
  then have "json_value n (json_text (JNum s) @ r) = Some (JNum s, r)" if "1 \<le> n" "delimited r" for n r
    using that number_head [of s] json_word_number [of s r] by (cases n) (auto simp: dec_char_def)
  then show ?case unfolding reads_def by blast
next
  case (JStr s)
  have "json_value n (json_text (JStr s) @ r) = Some (JStr s, r)" if "1 \<le> n" for n r
    using that by (cases n) (auto simp: json_string_def json_chars_string)
  then show ?case unfolding reads_def by blast
next
  case JNull
  have "json_value n (json_text JNull @ r) = Some (JNull, r)" if "1 \<le> n" for n r
    using that by (cases n) (auto simp: json_word_def)
  then show ?case unfolding reads_def by blast
next
  case (JBool b)
  have "json_value n (json_text (JBool b) @ r) = Some (JBool b, r)" if "1 \<le> n" for n r
    using that by (cases n) (auto simp: json_word_def)
  then show ?case unfolding reads_def by blast
qed

text \<open>A printed text has graphic ASCII characters and blanks only, hence no line break.\<close>

definition ascii_char :: "char \<Rightarrow> bool" where
  "ascii_char c \<longleftrightarrow> 32 \<le> (of_char c :: nat) \<and> (of_char c :: nat) \<le> 126"

abbreviation ascii :: "string \<Rightarrow> bool" where
  "ascii \<equiv> list_all ascii_char"

lemma ascii_marks [simp]:
  "ascii_char (CHR 0x22)" "ascii_char (CHR 0x5C)" "ascii_char (CHR '','')" "ascii_char (CHR '':'')" "ascii_char (CHR ''['')"
  "ascii_char (CHR '']'')" "ascii_char (CHR ''{'')" "ascii_char (CHR ''}'')" "ascii_char (CHR ''-'')" "ascii_char (CHR ''+'')"
  "ascii_char (CHR ''.'')" "ascii_char (CHR ''E'')" "ascii_char (CHR ''/'')" "ascii_char (CHR ''0'')"
  by (simp_all add: ascii_char_def)

lemma ascii_letters [simp]:
  "ascii_char (CHR ''a'')" "ascii_char (CHR ''b'')" "ascii_char (CHR ''e'')" "ascii_char (CHR ''f'')" "ascii_char (CHR ''l'')"
  "ascii_char (CHR ''n'')" "ascii_char (CHR ''r'')" "ascii_char (CHR ''s'')" "ascii_char (CHR ''t'')" "ascii_char (CHR ''u'')"
  by (simp_all add: ascii_char_def)

lemma ascii_lower_digit: "d < 16 \<Longrightarrow> ascii_char (lower_digit d)"
  by (auto simp: ascii_char_def lower_digit_def take_bit_eq_mod)

lemma ascii_escape: "ascii (escape_char c)"
proof (cases c rule: escape_char_cases)
  case (1 e)
  then show ?thesis by (auto simp: simple_escape_def split: if_splits)
next
  case 2
  have "ascii_char c" if "escape_char c = [c]"
    using that by (auto simp: escape_char_def ascii_char_def Let_def split: if_splits)
  then show ?thesis using 2 by simp
next
  case 3
  have "(of_char c :: nat) < 256" using of_char_mod_256 [of c] by (metis mod_less_divisor zero_less_numeral)
  then have "(of_char c :: nat) < 16 ^ 4" by (rule less_trans) simp
  then have "int (of_char c) < int (16 ^ 4)" by (simp only: of_nat_less_iff)
  then have "fmt_hex 4 (int (of_char c)) = map lower_digit (fixed_digits 16 4 (nat (int (of_char c))))"
    by (intro py_format_fixed) auto
  then show ?thesis using 3 fixed_digits_bound [of 16 _ 4 "of_char c"] by (auto simp: list_all_iff ascii_lower_digit)
qed

lemma ascii_string: "ascii (json_string s)"
  by (induction s) (simp_all add: json_string_def ascii_escape)

lemma ascii_join: "ascii sep \<Longrightarrow> \<forall>x \<in> set xs. ascii x \<Longrightarrow> ascii (join_with sep xs)"
  by (induction sep xs rule: join_with.induct) auto

lemma ascii_dec: "dec_char c \<Longrightarrow> ascii_char c"
  by (simp add: dec_char_def ascii_char_def Let_def)

lemma ascii_digits [simp]: "ascii (takeWhile dec_char s)"
  by (induction s) (auto simp: ascii_dec)

lemma ascii_number:
  assumes "number_literal s"
  shows "ascii s"
proof -
  obtain i t f t' e where i: "json_integer s = Some (i, t)" and f: "json_fraction t = (f, t')"
    and e: "json_exponent t' = (e, [])" and s: "i @ f @ e = s"
    using assms by (auto simp: number_literal_def json_number_def split: option.splits prod.splits)
  have "ascii i" using i ascii_dec by (auto simp: json_integer_def split: if_splits list.splits)
  moreover have "ascii f" using f by (auto simp: json_fraction_def split: if_splits list.splits)
  moreover have "ascii e" using e ascii_dec by (auto simp: json_exponent_def split: if_splits list.splits)
  ultimately show ?thesis unfolding s [symmetric] by simp
qed

lemma ascii_json_text: "printable v \<Longrightarrow> ascii (json_text v)"
proof (induction v)
  case (JNum s)
  then show ?case by (simp add: ascii_number)
next
  case (JArr vs)
  then have "ascii (join_with '','' (map json_text vs))" by (intro ascii_join) auto
  then show ?case by simp
next
  case (JObj kvs)
  then have "ascii (member_text kv)" if "kv \<in> set kvs" for kv
    using that by (cases kv) (auto simp: ascii_string)
  then have "ascii (join_with '','' (map member_text kvs))" by (intro ascii_join) auto
  then show ?case by simp
qed (simp_all add: ascii_string)

text \<open>A value that is printed by \<^verbatim>\<open>json.dumps\<close> is what \<^verbatim>\<open>json.loads\<close> reads.\<close>

lemma json_round_trip: "printable v \<Longrightarrow> json_loads (json_bytes v) = Some v"
proof -
  assume p: "printable v"
  let ?s = "json_text v"
  obtain N where N: "\<And>n. N \<le> n \<Longrightarrow> json_value n ?s = Some (v, [])"
    using printable_reads [OF p] unfolding reads_def by (metis append_Nil2 delimited_def)
  have "json_value (2 * length ?s + 2) ?s = json_value (max N (2 * length ?s + 2)) ?s"
    by (rule json_value_fuel) auto
  then have "json_value (2 * length ?s + 2) ?s = Some (v, [])" using N [of "max N (2 * length ?s + 2)"] by simp
  moreover have "ascii_text (ascii_bytes ?s) = Some ?s"
    using ascii_json_text [OF p] by (intro ascii_text_bytes) (fastforce simp: list_all_iff ascii_char_def)
  moreover have "skip_space ?s = ?s" using skip_text [OF p, of "[]"] by simp
  ultimately show ?thesis by (simp add: json_loads_def json_bytes_def)
qed

end
