(* ===== verification/Space_Packet.thy ===== *)
theory Space_Packet
  imports Crc32 Py_Float
begin

text \<open>
  The space packets of the legacy mission link (\<^verbatim>\<open>mission_ground/common/packet.py\<close>): a CCSDS-like
  primary header, the payload and a CRC-32 trailer; the health and command acknowledgement payloads
  that travel in them, and the command frame sent to the spacecraft. \<^verbatim>\<open>PacketError\<close> is
  \<open>PacketError\<close>; \<^verbatim>\<open>struct.error\<close>, which the packing of a value out of range raises and which is no
  \<^verbatim>\<open>PacketError\<close>, is \<open>PacketStructError\<close>. Floats are finite.
\<close>

section \<open>Formats and data\<close>

definition PRIMARY_HEADER :: "struct_code list" where "PRIMARY_HEADER = [Fmt_H, Fmt_H, Fmt_H]"

definition PACKET_CRC :: "struct_code list" where "PACKET_CRC = [Fmt_I]"

definition HEALTH_PAYLOAD :: "struct_code list" where
  "HEALTH_PAYLOAD = [Fmt_Q, Fmt_H, Fmt_h, Fmt_i, Fmt_B, Fmt_B]"

definition ACK_PAYLOAD :: "struct_code list" where "ACK_PAYLOAD = [Fmt_I, Fmt_B, Fmt_i, Fmt_Q]"

definition COMMAND_PAYLOAD :: "struct_code list" where "COMMAND_PAYLOAD = [Fmt_I, Fmt_B, Fmt_i, Fmt_Q]"

definition APID_HEALTH :: int where "APID_HEALTH = 100"

definition APID_COMMAND_ACK :: int where "APID_COMMAND_ACK = 101"

definition MAX_SEQUENCE :: int where "MAX_SEQUENCE = push_bit 14 1 - 1"

datatype packet_error = PacketError string | PacketStructError

record SpacePacket =
  sp_apid :: int
  sp_sequence_count :: int
  sp_payload :: bytes
  sp_packet_type :: int

record HealthTelemetry =
  ht_timestamp_ns :: int
  ht_bus_voltage_v :: rat
  ht_battery_temp_c :: rat
  ht_wheel_rpm :: int
  ht_mode :: int
  ht_fault_flags :: int

record CommandAck =
  ca_command_id :: int
  ca_status :: int
  ca_applied_value :: int
  ca_timestamp_ns :: int

record CommandFrame =
  cf_command_id :: int
  cf_opcode :: int
  cf_argument :: int
  cf_issued_ns :: int

section \<open>Packets\<close>

definition validate_apid :: "int \<Rightarrow> packet_error + unit" where
  "validate_apid apid =
     (if \<not> (0 \<le> apid \<and> apid \<le> 0x7FF) then Inl (PacketError (''APID out of range: '' @ py_str apid))
      else Inr ())"

text \<open>\<^verbatim>\<open>Struct.pack\<close>, whose failure is \<^verbatim>\<open>struct.error\<close>.\<close>

definition pack_or_error :: "struct_code list \<Rightarrow> int list \<Rightarrow> packet_error + bytes" where
  "pack_or_error cs vs = (case struct_pack cs vs of None \<Rightarrow> Inl PacketStructError | Some b \<Rightarrow> Inr b)"

definition unpack_or_error :: "struct_code list \<Rightarrow> bytes \<Rightarrow> packet_error + int list" where
  "unpack_or_error cs b = (case struct_unpack cs b of None \<Rightarrow> Inl PacketStructError | Some vs \<Rightarrow> Inr vs)"

definition packet_checksum :: "bytes \<Rightarrow> int" where
  "packet_checksum data = zlib_crc32 data AND 0xFFFFFFFF"

definition encode_space_packet :: "int \<Rightarrow> int \<Rightarrow> bytes \<Rightarrow> int \<Rightarrow> packet_error + bytes" where
  "encode_space_packet apid sequence_count payload packet_type =
     bindE (validate_apid apid) (\<lambda>_.
       if \<not> (packet_type = 0 \<or> packet_type = 1)
       then Inl (PacketError ''packet_type must be 0 (telemetry) or 1 (command)'')
       else if \<not> (0 \<le> sequence_count \<and> sequence_count \<le> MAX_SEQUENCE)
       then Inl (PacketError (''sequence_count out of range: '' @ py_str sequence_count))
       else if payload = [] then Inl (PacketError ''payload must not be empty'')
       else let first_word = push_bit 12 packet_type OR push_bit 11 1 OR apid;
                second_word = push_bit 14 3 OR sequence_count;
                data_length = int (length payload) + int (struct_size PACKET_CRC) - 1
            in bindE (pack_or_error PRIMARY_HEADER [first_word, second_word, data_length]) (\<lambda>header.
               bindE (pack_or_error PACKET_CRC [packet_checksum (header @ payload)]) (\<lambda>checksum.
               Inr (header @ payload @ checksum))))"

text \<open>\<^verbatim>\<open>raw[-n:]\<close> and \<^verbatim>\<open>raw[:-n]\<close> for \<open>0 < n\<close>.\<close>

definition last_bytes :: "nat \<Rightarrow> bytes \<Rightarrow> bytes" where "last_bytes n raw = drop (length raw - n) raw"

definition all_but_last :: "nat \<Rightarrow> bytes \<Rightarrow> bytes" where "all_but_last n raw = take (length raw - n) raw"

definition decode_space_packet :: "bytes \<Rightarrow> packet_error + SpacePacket" where
  "decode_space_packet raw =
     (if length raw < struct_size PRIMARY_HEADER + struct_size PACKET_CRC + 1
      then Inl (PacketError ''packet is too short'')
      else bindE (unpack_or_error PRIMARY_HEADER (take (struct_size PRIMARY_HEADER) raw)) (\<lambda>header.
        let first_word = header ! 0; second_word = header ! 1; data_length = header ! 2;
            expected_total = int (struct_size PRIMARY_HEADER) + data_length + 1
        in if int (length raw) \<noteq> expected_total
           then Inl (PacketError (''length mismatch: expected '' @ py_str expected_total @ '', got '' @ py_str (int (length raw))))
           else bindE (unpack_or_error PACKET_CRC (last_bytes (struct_size PACKET_CRC) raw)) (\<lambda>crc.
             let expected_crc = crc ! 0; actual_crc = packet_checksum (all_but_last (struct_size PACKET_CRC) raw)
             in if expected_crc \<noteq> actual_crc then Inl (PacketError ''CRC mismatch'')
                else let version = drop_bit 13 first_word AND 7
                     in if version \<noteq> 0 then Inl (PacketError (''unsupported packet version: '' @ py_str version))
                        else Inr \<lparr>sp_apid = first_word AND 0x7FF, sp_sequence_count = second_word AND MAX_SEQUENCE,
                                  sp_payload = drop (struct_size PRIMARY_HEADER) (all_but_last (struct_size PACKET_CRC) raw),
                                  sp_packet_type = drop_bit 12 first_word AND 1\<rparr>)))"

section \<open>Payloads\<close>

text \<open>\<^verbatim>\<open>round(x * k)\<close> for a double \<open>x\<close> and an integer \<open>k\<close>: the product is rounded to a double first.\<close>

definition round_scaled :: "rat \<Rightarrow> int \<Rightarrow> int" where
  "round_scaled x k = round_half_even (round_double (x * of_int k))"

definition encode_health :: "int \<Rightarrow> HealthTelemetry \<Rightarrow> packet_error + bytes" where
  "encode_health sequence_count sample =
     bindE (pack_or_error HEALTH_PAYLOAD
       [ht_timestamp_ns sample, round_scaled (ht_bus_voltage_v sample) 1000,
        round_scaled (ht_battery_temp_c sample) 100, ht_wheel_rpm sample, ht_mode sample, ht_fault_flags sample])
       (\<lambda>payload. encode_space_packet APID_HEALTH sequence_count payload 0)"

definition decode_health :: "SpacePacket \<Rightarrow> packet_error + HealthTelemetry" where
  "decode_health packet =
     (if sp_apid packet \<noteq> APID_HEALTH
      then Inl (PacketError (''expected health APID '' @ py_str APID_HEALTH @ '', got '' @ py_str (sp_apid packet)))
      else if length (sp_payload packet) \<noteq> struct_size HEALTH_PAYLOAD
      then Inl (PacketError ''invalid health payload length'')
      else bindE (unpack_or_error HEALTH_PAYLOAD (sp_payload packet)) (\<lambda>vs.
        Inr \<lparr>ht_timestamp_ns = vs ! 0, ht_bus_voltage_v = round_double (of_int (vs ! 1) / 1000),
             ht_battery_temp_c = round_double (of_int (vs ! 2) / 100), ht_wheel_rpm = vs ! 3,
             ht_mode = vs ! 4, ht_fault_flags = vs ! 5\<rparr>))"

definition encode_ack :: "int \<Rightarrow> CommandAck \<Rightarrow> packet_error + bytes" where
  "encode_ack sequence_count ack =
     bindE (pack_or_error ACK_PAYLOAD [ca_command_id ack, ca_status ack, ca_applied_value ack, ca_timestamp_ns ack])
       (\<lambda>payload. encode_space_packet APID_COMMAND_ACK sequence_count payload 0)"

definition decode_ack :: "SpacePacket \<Rightarrow> packet_error + CommandAck" where
  "decode_ack packet =
     (if sp_apid packet \<noteq> APID_COMMAND_ACK
      then Inl (PacketError (''expected ACK APID '' @ py_str APID_COMMAND_ACK @ '', got '' @ py_str (sp_apid packet)))
      else if length (sp_payload packet) \<noteq> struct_size ACK_PAYLOAD
      then Inl (PacketError ''invalid ACK payload length'')
      else bindE (unpack_or_error ACK_PAYLOAD (sp_payload packet)) (\<lambda>vs.
        Inr \<lparr>ca_command_id = vs ! 0, ca_status = vs ! 1, ca_applied_value = vs ! 2, ca_timestamp_ns = vs ! 3\<rparr>))"

definition encode_command :: "CommandFrame \<Rightarrow> packet_error + bytes" where
  "encode_command frame =
     bindE (pack_or_error COMMAND_PAYLOAD [cf_command_id frame, cf_opcode frame, cf_argument frame, cf_issued_ns frame])
       (\<lambda>payload. bindE (pack_or_error PACKET_CRC [packet_checksum payload]) (\<lambda>crc. Inr (payload @ crc)))"

definition decode_command :: "bytes \<Rightarrow> packet_error + CommandFrame" where
  "decode_command raw =
     (if length raw \<noteq> struct_size COMMAND_PAYLOAD + struct_size PACKET_CRC
      then Inl (PacketError ''invalid command frame length'')
      else let payload = all_but_last (struct_size PACKET_CRC) raw; crc_raw = last_bytes (struct_size PACKET_CRC) raw
           in bindE (unpack_or_error PACKET_CRC crc_raw) (\<lambda>crc.
             if crc ! 0 \<noteq> packet_checksum payload then Inl (PacketError ''command CRC mismatch'')
             else bindE (unpack_or_error COMMAND_PAYLOAD payload) (\<lambda>vs.
               Inr \<lparr>cf_command_id = vs ! 0, cf_opcode = vs ! 1, cf_argument = vs ! 2, cf_issued_ns = vs ! 3\<rparr>)))"

section \<open>Framing\<close>

interpretation header: wire_struct "struct_pack PRIMARY_HEADER" "struct_unpack PRIMARY_HEADER" 6
  using struct_wire [of PRIMARY_HEADER] by (simp add: PRIMARY_HEADER_def)

interpretation health: wire_struct "struct_pack HEALTH_PAYLOAD" "struct_unpack HEALTH_PAYLOAD" 18
  using struct_wire [of HEALTH_PAYLOAD] by (simp add: HEALTH_PAYLOAD_def)

interpretation ack_wire: wire_struct "struct_pack ACK_PAYLOAD" "struct_unpack ACK_PAYLOAD" 17
  using struct_wire [of ACK_PAYLOAD] by (simp add: ACK_PAYLOAD_def)

interpretation command_wire: wire_struct "struct_pack COMMAND_PAYLOAD" "struct_unpack COMMAND_PAYLOAD" 17
  using struct_wire [of COMMAND_PAYLOAD] by (simp add: COMMAND_PAYLOAD_def)

lemma packet_sizes [simp]:
  "struct_size PRIMARY_HEADER = 6" "struct_size PACKET_CRC = 4" "struct_size HEALTH_PAYLOAD = 18"
  "struct_size ACK_PAYLOAD = 17" "struct_size COMMAND_PAYLOAD = 17"
  by (simp_all add: PRIMARY_HEADER_def PACKET_CRC_def HEALTH_PAYLOAD_def ACK_PAYLOAD_def COMMAND_PAYLOAD_def)

lemma packet_checksum_eq: "packet_checksum data = zlib_crc32 data"
  by (simp add: packet_checksum_def zlib_crc32_mask)

lemma pack_checksum: "pack_or_error PACKET_CRC [packet_checksum data] = Inr (be_bytes 4 (zlib_crc32 data))"
  using zlib_crc32_bounds [of data] pack_word32 [of "zlib_crc32 data"]
  by (simp add: pack_or_error_def PACKET_CRC_def packet_checksum_eq)

lemma unpack_checksum: "length b = 4 \<Longrightarrow> unpack_or_error PACKET_CRC b = Inr [be_value b]"
  by (simp add: unpack_or_error_def PACKET_CRC_def unpack_word32 del: struct_unpack.simps)

lemma pack_or_error_Inr: "pack_or_error cs vs = Inr b \<longleftrightarrow> struct_pack cs vs = Some b"
  by (auto simp: pack_or_error_def split: option.splits)

lemma unpack_or_error_Inr: "unpack_or_error cs b = Inr vs \<longleftrightarrow> struct_unpack cs b = Some vs"
  by (auto simp: unpack_or_error_def split: option.splits)

lemma two_bytes_bounds: "0 \<le> be_value (take 2 xs) \<and> be_value (take 2 xs) < 65536"
proof -
  have "(256 :: int) ^ length (take 2 xs) \<le> 256 ^ 2" by (rule power_increasing) simp_all
  then show ?thesis using be_value_bounds [of "take 2 xs"] by simp
qed

lemma unpack_header:
  assumes "6 \<le> length raw"
  shows "unpack_or_error PRIMARY_HEADER (take 6 raw) =
    Inr [be_value (take 2 raw), be_value (take 2 (drop 2 raw)), be_value (take 2 (drop 4 raw))]"
proof -
  have "take 2 (take 6 raw) = take 2 raw" "take 2 (drop 2 (take 6 raw)) = take 2 (drop 2 raw)"
    "take 2 (drop 2 (drop 2 (take 6 raw))) = take 2 (drop 4 raw)" "drop 2 (drop 2 (drop 2 (take 6 raw))) = []"
    using assms by (simp_all add: drop_take)
  then show ?thesis using assms two_bytes_bounds [of raw] two_bytes_bounds [of "drop 2 raw"] two_bytes_bounds [of "drop 4 raw"]
    by (simp add: unpack_or_error_def PRIMARY_HEADER_def unpack_code_def code_limit_def)
qed

text \<open>The fields of the header words.\<close>

lemma and_low_bits: "(w :: int) AND (2 ^ n - 1) = w mod 2 ^ n"
  by (simp add: take_bit_eq_mask [symmetric] mask_eq_exp_minus_1 [symmetric] take_bit_eq_mod)

lemma MAX_SEQUENCE_eq: "MAX_SEQUENCE = 16383"
  by (simp add: MAX_SEQUENCE_def push_bit_eq_mult)

lemma header_fields:
  fixes w :: int
  shows "w AND 0x7FF = w mod 2048" "w AND MAX_SEQUENCE = w mod 16384"
    "drop_bit 12 w AND 1 = w div 4096 mod 2" "drop_bit 13 w AND 7 = w div 8192 mod 8"
proof -
  show "w AND 0x7FF = w mod 2048" using and_low_bits [of w 11] by simp
  show "w AND MAX_SEQUENCE = w mod 16384" using and_low_bits [of w 14] by (simp add: MAX_SEQUENCE_eq)
  show "drop_bit 12 w AND 1 = w div 4096 mod 2" using and_low_bits [of "drop_bit 12 w" 1] by (simp add: drop_bit_eq_div)
  show "drop_bit 13 w AND 7 = w div 8192 mod 8" using and_low_bits [of "drop_bit 13 w" 3] by (simp add: drop_bit_eq_div)
qed

lemma or_disjoint:
  fixes a b :: int
  assumes "0 \<le> a" "a < 2 ^ n"
  shows "push_bit n b OR a = 2 ^ n * b + a"
proof -
  have "take_bit n a = a" using assms by (simp add: take_bit_int_eq_self)
  then have "\<not> bit a m" if "n \<le> m" for m
    using bit_take_bit_iff [of n a m] that by simp
  then have "\<not> bit (push_bit n b) m \<or> \<not> bit a m" for m
    by (cases "m < n") (auto simp: bit_push_bit_iff)
  then have "push_bit n b + a = push_bit n b OR a" by (rule disjunctive_add)
  then show ?thesis by (simp add: push_bit_eq_mult ac_simps)
qed

lemma first_word:
  fixes apid t :: int
  assumes "0 \<le> apid" "apid \<le> 0x7FF"
  shows "push_bit 12 t OR push_bit 11 1 OR apid = 4096 * t + 2048 + apid"
  using or_disjoint [of apid 11 1] or_disjoint [of "2048 + apid" 12 t] assms
  by (simp add: or.assoc)

lemma second_word:
  fixes s :: int
  assumes "0 \<le> s" "s \<le> MAX_SEQUENCE"
  shows "push_bit 14 3 OR s = 49152 + s"
  using or_disjoint [of s 14 3] assms by (simp add: MAX_SEQUENCE_eq)

definition packet_header :: "int \<Rightarrow> int \<Rightarrow> int \<Rightarrow> int \<Rightarrow> bytes" where
  "packet_header apid s t n = be_bytes 2 (4096 * t + 2048 + apid) @ be_bytes 2 (49152 + s) @ be_bytes 2 (n + 3)"

lemma length_packet_header [simp]: "length (packet_header apid s t n) = 6"
  by (simp add: packet_header_def)

lemma pack_header:
  assumes "0 \<le> apid" "apid \<le> 0x7FF" "t = 0 \<or> t = 1" "0 \<le> s" "s \<le> 16383" "0 \<le> n"
  shows "struct_pack PRIMARY_HEADER [4096 * t + 2048 + apid, 49152 + s, n + 3] =
    (if n + 3 < 65536 then Some (packet_header apid s t n) else None)"
proof -
  have "4096 * t + 2048 + apid < 65536" "0 \<le> 4096 * t + 2048 + apid" using assms by auto
  then show ?thesis using assms
    by (simp add: PRIMARY_HEADER_def pack_code_def code_min_def code_limit_def packet_header_def)
qed

lemma encode_space_packet_Inr:
  "encode_space_packet apid s payload t = Inr raw \<longleftrightarrow>
     0 \<le> apid \<and> apid \<le> 0x7FF \<and> (t = 0 \<or> t = 1) \<and> 0 \<le> s \<and> s \<le> 16383 \<and> payload \<noteq> [] \<and>
     int (length payload) + 3 < 65536 \<and>
     raw = (let body = packet_header apid s t (int (length payload)) @ payload in body @ be_bytes 4 (zlib_crc32 body))"
  (is "?l \<longleftrightarrow> ?r")
proof (cases "0 \<le> apid \<and> apid \<le> 0x7FF \<and> (t = 0 \<or> t = 1) \<and> 0 \<le> s \<and> s \<le> 16383 \<and> payload \<noteq> []")
  case True
  then have w: "push_bit 12 t OR push_bit 11 1 OR apid = 4096 * t + 2048 + apid" "push_bit 14 3 OR s = 49152 + s"
    using first_word [of apid t] second_word [of s] by (simp_all add: MAX_SEQUENCE_eq)
  from True show ?thesis
    using pack_header [of apid t s "int (length payload)"]
    unfolding encode_space_packet_def validate_apid_def w Let_def
    by (auto simp: MAX_SEQUENCE_eq pack_checksum pack_or_error_def [of PRIMARY_HEADER] add.commute)
next
  case False
  then show ?thesis by (auto simp: encode_space_packet_def validate_apid_def MAX_SEQUENCE_eq)
qed

lemma first_word_fields:
  assumes "0 \<le> apid" "apid \<le> 2047" "t = 0 \<or> t = 1" "w = 4096 * t + 2048 + (apid :: int)"
  shows "w mod 2048 = apid" "w div 4096 mod 2 = t" "w div 8192 = 0" "w div 2048 mod 2 = 1"
proof -
  show "w mod 2048 = apid" using assms by (intro int_mod_pos_eq [of _ _ "2 * t + 1"]) auto
  have "w div 4096 = t" using assms by (intro int_div_pos_eq [of _ _ _ "2048 + apid"]) auto
  then show "w div 4096 mod 2 = t" using assms by auto
  have "w div 2048 = 2 * t + 1" using assms by (intro int_div_pos_eq [of _ _ _ apid]) auto
  then show "w div 2048 mod 2 = 1" by simp
  show "w div 8192 = 0" using assms by (intro div_pos_pos_trivial) auto
qed

lemma second_word_fields:
  assumes "0 \<le> s" "s \<le> (16383 :: int)"
  shows "(49152 + s) mod 16384 = s" "(49152 + s) div 16384 = 3"
  using int_mod_pos_eq [of "49152 + s" 16384 3 s] int_div_pos_eq [of "49152 + s" 16384 3 s] assms by auto

lemma word_version: "0 \<le> (w :: int) \<Longrightarrow> w < 65536 \<Longrightarrow> w div 8192 mod 8 = w div 8192"
proof (rule mod_pos_pos_trivial)
  assume w: "0 \<le> w" "w < 65536"
  have "w = 8192 * (w div 8192) + w mod 8192" by simp
  moreover have "0 \<le> w mod 8192" "w mod 8192 < 8192" by simp_all
  ultimately show "w div 8192 < 8" using w by linarith
qed simp

lemma decode_space_packet_long:
  assumes "11 \<le> length raw"
  shows "decode_space_packet raw =
     (let w = be_value (take 2 raw); n = be_value (take 2 (drop 4 raw)) in
      if int (length raw) \<noteq> n + 7
      then Inl (PacketError (''length mismatch: expected '' @ py_str (6 + n + 1) @ '', got '' @ py_str (int (length raw))))
      else if be_value (drop (length raw - 4) raw) \<noteq> zlib_crc32 (take (length raw - 4) raw)
      then Inl (PacketError ''CRC mismatch'')
      else if w div 8192 \<noteq> 0 then Inl (PacketError (''unsupported packet version: '' @ py_str (w div 8192)))
      else Inr \<lparr>sp_apid = w mod 2048, sp_sequence_count = be_value (take 2 (drop 2 raw)) mod 16384,
                sp_payload = take (length raw - 10) (drop 6 raw), sp_packet_type = w div 4096 mod 2\<rparr>)"
proof -
  have v: "be_value (take 2 raw) div 8192 mod 8 = be_value (take 2 raw) div 8192"
    using two_bytes_bounds [of raw] by (intro word_version) auto
  have l: "length (last_bytes 4 raw) = 4" using assms by (simp add: last_bytes_def)
  show ?thesis using assms unfolding decode_space_packet_def
    by (simp add: unpack_header Let_def header_fields v unpack_checksum [OF l] packet_checksum_eq)
      (simp add: last_bytes_def all_but_last_def drop_take)
qed

lemma decode_space_packet_short: "length raw < 11 \<Longrightarrow> decode_space_packet raw = Inl (PacketError ''packet is too short'')"
  by (simp add: decode_space_packet_def)

text \<open>
  The header flags the encoder always sets and the decoder does not look at: a secondary header is
  present, the packet is not segmented.
\<close>

definition canonical_header :: "bytes \<Rightarrow> bool" where
  "canonical_header raw \<longleftrightarrow> be_value (take 2 raw) div 2048 mod 2 = 1 \<and> be_value (take 2 (drop 2 raw)) div 16384 = 3"

lemma be_value_two: "0 \<le> v \<Longrightarrow> v < 65536 \<Longrightarrow> be_value (be_bytes 2 v) = v"
  by (simp add: be_value_be_bytes)

lemma decode_encoded:
  assumes e: "encode_space_packet apid s payload t = Inr raw"
  shows "decode_space_packet raw = Inr \<lparr>sp_apid = apid, sp_sequence_count = s, sp_payload = payload, sp_packet_type = t\<rparr>
    \<and> canonical_header raw"
proof -
  let ?n = "int (length payload)" and ?body = "packet_header apid s t (int (length payload)) @ payload"
  from e have a: "0 \<le> apid" "apid \<le> 0x7FF" "t = 0 \<or> t = 1" "0 \<le> s" "s \<le> 16383" "payload \<noteq> []" "?n + 3 < 65536"
    and raw: "raw = ?body @ be_bytes 4 (zlib_crc32 ?body)"
    by (auto simp: encode_space_packet_Inr Let_def)
  have len: "length raw = length payload + 10" by (simp add: raw)
  have w: "take 2 raw = be_bytes 2 (4096 * t + 2048 + apid)" "take 2 (drop 2 raw) = be_bytes 2 (49152 + s)"
    "take 2 (drop 4 raw) = be_bytes 2 (?n + 3)" "take (length raw - 10) (drop 6 raw) = payload"
    by (simp_all add: raw packet_header_def)
  have b: "be_value (take 2 raw) = 4096 * t + 2048 + apid" "be_value (take 2 (drop 2 raw)) = 49152 + s"
    "be_value (take 2 (drop 4 raw)) = ?n + 3"
    unfolding w using a by (auto intro!: be_value_two)
  have c: "be_value (drop (length raw - 4) raw) = zlib_crc32 (take (length raw - 4) raw)"
    using zlib_crc32_bounds [of ?body] by (simp add: raw be_value_be_bytes)
  have "1 \<le> length payload" using a(6) by (simp add: Suc_le_eq)
  then have "11 \<le> length raw" using len by simp
  moreover have "int (length raw) = ?n + 3 + 7" using len by simp
  moreover note f = first_word_fields [OF a(1,2,3) refl] second_word_fields [OF a(4,5)]
  ultimately show ?thesis
    by (simp only: decode_space_packet_long Let_def canonical_header_def b c w(4) f simp_thms if_False)
qed

text \<open>The words of a canonical header are determined by the fields.\<close>

lemma first_word_join:
  assumes ver: "(w :: int) div 8192 = 0" and flag: "w div 2048 mod 2 = 1"
  shows "w = 4096 * (w div 4096 mod 2) + 2048 + w mod 2048"
proof -
  have a: "w div 2048 div 2 = w div 4096" "w div 4096 div 2 = w div 8192"
    by (simp_all add: zdiv_zmult2_eq [symmetric])
  have "w div 2048 = w div 4096 * 2 + 1"
    using div_mult_mod_eq [of "w div 2048" 2] unfolding a flag by simp
  moreover have "w div 4096 mod 2 = w div 4096"
    using div_mult_mod_eq [of "w div 4096" 2] unfolding a ver by simp
  moreover have "w = w div 2048 * 2048 + w mod 2048" by simp
  moreover have "(b * 2 + 1) * 2048 + r = 4096 * b + 2048 + r" for b r :: int by simp
  ultimately show ?thesis by metis
qed

lemma second_word_join: "(v :: int) div 16384 = 3 \<Longrightarrow> v = 49152 + v mod 16384"
  using div_mult_mod_eq [of v 16384] by simp

lemma header_join:
  assumes "6 \<le> length (raw :: bytes)"
  shows "be_bytes 2 (be_value (take 2 raw)) @ be_bytes 2 (be_value (take 2 (drop 2 raw))) @
    be_bytes 2 (be_value (take 2 (drop 4 raw))) = take 6 raw"
proof -
  have b2: "be_bytes 2 (be_value (take 2 xs)) = take 2 xs" if "2 \<le> length xs" for xs :: bytes
    using be_bytes_be_value [of "take 2 xs"] that by simp
  have "take 6 raw = take 2 raw @ take 2 (drop 2 raw) @ take 2 (drop 4 raw)"
    using take_add [of 2 4 raw] take_add [of 2 2 "drop 2 raw"] by simp
  then show ?thesis using assms b2 [of raw] b2 [of "drop 2 raw"] b2 [of "drop 4 raw"] by simp
qed

lemma decoded_encodes:
  assumes d: "decode_space_packet raw = Inr \<lparr>sp_apid = apid, sp_sequence_count = s, sp_payload = payload, sp_packet_type = t\<rparr>"
    and h: "canonical_header raw"
  shows "encode_space_packet apid s payload t = Inr raw"
proof -
  define w v n where "w = be_value (take 2 raw)" and "v = be_value (take 2 (drop 2 raw))" and "n = be_value (take 2 (drop 4 raw))"
  have l: "11 \<le> length raw" using d decode_space_packet_short [of raw] by (cases "length raw < 11") auto
  from d have len: "int (length raw) = n + 7" and c: "be_value (drop (length raw - 4) raw) = zlib_crc32 (take (length raw - 4) raw)"
    and ver: "w div 8192 = 0" and f: "apid = w mod 2048" "s = v mod 16384" "t = w div 4096 mod 2"
    and p: "payload = take (length raw - 10) (drop 6 raw)"
    unfolding decode_space_packet_long [OF l] Let_def w_def [symmetric] v_def [symmetric] n_def [symmetric]
    by (simp_all only: sum.inject sum.distinct SpacePacket.ext_inject simp_thms not_not split: if_splits)
  have bnd: "0 \<le> w" "w < 65536" "0 \<le> v" "v < 65536" "n < 65536"
    using two_bytes_bounds unfolding w_def v_def n_def by auto
  have "w div 2048 mod 2 = 1" "v div 16384 = 3" using h by (simp_all only: canonical_header_def w_def v_def)
  then have w: "w = 4096 * t + 2048 + apid" and v: "v = 49152 + s"
    unfolding f using first_word_join [OF ver] second_word_join [of v] by blast+
  have pl: "int (length payload) + 3 = n" "payload \<noteq> []" using l len p by auto
  have r: "raw = take (length raw - 4) raw @ drop (length raw - 4) raw" by simp
  have "take (length raw - 4) raw = take 6 raw @ payload"
    using l take_add [of 6 "length raw - 10" raw] by (simp add: p)
  then have body: "packet_header apid s t (int (length payload)) @ payload = take (length raw - 4) raw"
    using header_join [of raw] l unfolding packet_header_def pl(1) w [symmetric] v [symmetric] w_def v_def n_def by simp
  have crc: "drop (length raw - 4) raw = be_bytes 4 (zlib_crc32 (take (length raw - 4) raw))"
    using c l by (subst crc_field_iff [symmetric]) auto
  have rng: "0 \<le> apid" "apid \<le> 0x7FF" "t = 0 \<or> t = 1" "0 \<le> s" "s \<le> 16383"
    using f pos_mod_bound [of 2048 w] pos_mod_bound [of 16384 v] by auto
  show ?thesis
    unfolding encode_space_packet_Inr Let_def body crc [symmetric] r [symmetric]
    using rng pl bnd(5) by simp
qed

text \<open>An integer of up to 16 bits survives the division and the multiplication by a scale of at most 1000.\<close>

lemma round_scaled_quotient:
  assumes n: "\<bar>n\<bar> \<le> 65535" and k: "0 < k" "k \<le> 1000"
  shows "round_scaled (round_double (of_int n / of_int k)) k = n"
proof (cases "n = 0")
  case True
  then show ?thesis by (simp add: round_scaled_def round_half_even_def)
next
  case False
  let ?n = "of_int n :: rat" and ?k = "of_int k :: rat"
  define y where "y = round_double (?n / ?k) * ?k"
  have k0: "0 < ?k" "?k \<le> 1000" using k by simp_all
  have n1: "1 \<le> \<bar>?n\<bar>" "\<bar>?n\<bar> \<le> 65535" using False n by (simp_all flip: of_int_abs)
  have "1 / 1000 \<le> \<bar>?n\<bar> / ?k" using k0 n1 by (intro frac_le) auto
  then have "\<bar>round_double (?n / ?k) - ?n / ?k\<bar> \<le> \<bar>?n\<bar> / ?k / 2 ^ 53"
    using round_double_close [of "?n / ?k"] k0 by (simp add: abs_divide)
  moreover have "\<bar>y - ?n\<bar> = \<bar>round_double (?n / ?k) - ?n / ?k\<bar> * ?k"
    using k0 by (simp add: y_def field_simps flip: abs_mult_pos)
  ultimately have d: "\<bar>y - ?n\<bar> \<le> \<bar>?n\<bar> / 2 ^ 53"
    using k0 by (simp add: field_simps)
  have "\<bar>?n\<bar> / 2 ^ 53 \<le> 65535 / 2 ^ 53" using n1 by (intro divide_right_mono) auto
  then have e: "\<bar>y - ?n\<bar> \<le> 1 / 100" using d by simp
  have y: "1 / 1000 \<le> \<bar>y\<bar>" "\<bar>y\<bar> \<le> 65536" using e n1 by linarith+
  have "\<bar>y\<bar> / 2 ^ 53 \<le> 65536 / 2 ^ 53" using y by (intro divide_right_mono) auto
  then have "\<bar>round_double y - y\<bar> \<le> 1 / 100" using round_double_close [OF y(1)] by simp
  then have "\<bar>round_double y - ?n\<bar> < 1 / 2" using e by linarith
  then show ?thesis unfolding round_scaled_def y_def by (rule round_half_even_near)
qed

lemma round_double_small:
  assumes "\<bar>x\<bar> \<le> 100000"
  shows "\<bar>round_double x - x\<bar> \<le> 1 / 500"
proof (cases "1 / 1000 \<le> \<bar>x\<bar>")
  case True
  have "\<bar>x\<bar> / 2 ^ 53 \<le> 100000 / 2 ^ 53" using assms by (intro divide_right_mono) auto
  then show ?thesis using round_double_close [OF True] by simp
next
  case False
  have pos: "\<bar>round_double y - y\<bar> \<le> 1 / 500" if "0 < y" "y < 1 / 1000" for y
  proof (cases "last_place y = - 1074")
    case True
    then show ?thesis using round_double_error [OF that(1)] by (simp add: scale2_def)
  next
    case False
    have "y / 2 ^ 53 \<le> y" using that by simp
    then show ?thesis using round_double_relative [OF that(1) False] that(2) by linarith
  qed
  show ?thesis
    using False pos [of x] pos [of "- x"] round_double_minus [of x] by (cases x "0 :: rat" rule: linorder_cases) (auto simp: abs_minus_commute)
qed

lemma round_scaled_near:
  assumes "\<bar>v * of_int k\<bar> \<le> 100000"
  shows "\<bar>of_int (round_scaled v k) - v * of_int k\<bar> \<le> 1"
  using round_double_small [OF assms] round_half_even_error [of "round_double (v * of_int k)"]
  unfolding round_scaled_def by linarith

text \<open>A value that reaches the wire comes back to about half a wire unit.\<close>

lemma round_scaled_back:
  assumes n: "\<bar>round_scaled v k\<bar> \<le> 65535" and k: "0 < k" "k \<le> 1000"
  shows "\<bar>round_double (of_int (round_scaled v k) / of_int k) - v\<bar> * of_int k \<le> 51 / 100"
proof -
  let ?n = "of_int (round_scaled v k) :: rat" and ?x = "v * of_int k" and ?k = "of_int k :: rat"
  have k0: "0 < ?k" "?k \<le> 1000" using k by simp_all
  have n0: "\<bar>?n\<bar> \<le> 65535" using n by (simp flip: of_int_abs)
  have h: "\<bar>?n - round_double ?x\<bar> \<le> 1 / 2" using round_half_even_error [of "round_double ?x"] unfolding round_scaled_def by simp
  have x: "\<bar>?x\<bar> \<le> 100000"
  proof (rule ccontr)
    assume big: "\<not> \<bar>?x\<bar> \<le> 100000"
    then have "\<bar>round_double ?x - ?x\<bar> \<le> \<bar>?x\<bar> / 2 ^ 53" by (intro round_double_close) simp
    moreover have "\<bar>round_double ?x\<bar> \<le> 65536" using h n0 by linarith
    ultimately have "\<bar>?x\<bar> \<le> 65536 + \<bar>?x\<bar> / 2 ^ 53" by linarith
    then show False using big by simp
  qed
  have "\<bar>?n - ?x\<bar> \<le> 1 / 2 + 1 / 500" using round_double_small [OF x] h by linarith
  moreover have "\<bar>round_double (?n / ?k) - ?n / ?k\<bar> * ?k \<le> 1 / 1000"
  proof (cases "round_scaled v k = 0")
    case False
    then have n1: "1 \<le> \<bar>?n\<bar>" by (simp flip: of_int_abs)
    then have "1 / 1000 \<le> \<bar>?n\<bar> / ?k" using k0 by (intro frac_le) auto
    then have "\<bar>round_double (?n / ?k) - ?n / ?k\<bar> \<le> \<bar>?n\<bar> / ?k / 2 ^ 53"
      using round_double_close [of "?n / ?k"] k0 by (simp add: abs_divide)
    then have "\<bar>round_double (?n / ?k) - ?n / ?k\<bar> * ?k \<le> \<bar>?n\<bar> / 2 ^ 53" using k0 by (simp add: field_simps)
    moreover have "\<bar>?n\<bar> / 2 ^ 53 \<le> 65535 / 2 ^ 53" using n0 by (intro divide_right_mono) auto
    ultimately show ?thesis by simp
  qed simp
  moreover have "\<bar>round_double (?n / ?k) - v\<bar> * ?k = \<bar>(round_double (?n / ?k) - ?n / ?k) * ?k + (?n - ?x)\<bar>"
    using k0 by (simp add: abs_mult_pos' field_simps)
  moreover have "\<bar>(round_double (?n / ?k) - ?n / ?k) * ?k\<bar> = \<bar>round_double (?n / ?k) - ?n / ?k\<bar> * ?k" using k0 by (simp add: abs_mult)
  ultimately show ?thesis by linarith
qed

section \<open>Round trips\<close>

lemma space_packet_damaged:
  assumes d: "decode_space_packet raw = Inr p" and i: "i < length raw" and b: "b \<noteq> raw ! i"
  shows "\<exists>m. decode_space_packet (raw[i := b]) = Inl (PacketError m)"
proof -
  have l: "11 \<le> length raw" using d decode_space_packet_short [of raw] by (cases "length raw < 11") auto
  then have "be_value (drop (length raw - 4) raw) = zlib_crc32 (take (length raw - 4) raw)"
    using d by (auto simp: decode_space_packet_long Let_def split: if_splits)
  then have "be_value (drop (length raw - 4) (raw[i := b])) \<noteq> zlib_crc32 (take (length raw - 4) (raw[i := b]))"
    using l i b by (intro crc_seal_broken) auto
  then show ?thesis using l by (auto simp: decode_space_packet_long Let_def)
qed

lemma decode_command_long:
  assumes "length raw = 21"
  shows "decode_command raw =
     (if be_value (drop 17 raw) \<noteq> zlib_crc32 (take 17 raw) then Inl (PacketError ''command CRC mismatch'')
      else bindE (unpack_or_error COMMAND_PAYLOAD (take 17 raw)) (\<lambda>vs.
        Inr \<lparr>cf_command_id = vs ! 0, cf_opcode = vs ! 1, cf_argument = vs ! 2, cf_issued_ns = vs ! 3\<rparr>))"
  using assms by (simp add: decode_command_def all_but_last_def last_bytes_def unpack_checksum packet_checksum_eq)

lemma decode_command_length: "decode_command raw = Inr f \<Longrightarrow> length raw = 21"
  by (auto simp: decode_command_def split: if_splits)

lemma four_values: "struct_unpack [c1, c2, c3, c4] b = Some vs \<Longrightarrow> vs = [vs ! 0, vs ! 1, vs ! 2, vs ! 3]"
  by (auto split: if_splits option.splits)

lemma encode_command_Inr:
  "encode_command f = Inr raw \<longleftrightarrow>
     (\<exists>payload. struct_pack COMMAND_PAYLOAD [cf_command_id f, cf_opcode f, cf_argument f, cf_issued_ns f] = Some payload \<and>
        raw = payload @ be_bytes 4 (zlib_crc32 payload))"
  by (auto simp: encode_command_def pack_checksum pack_or_error_def [of COMMAND_PAYLOAD] split: option.splits)

lemma decode_iff_encode_command: "decode_command raw = Inr f \<longleftrightarrow> encode_command f = Inr raw"
proof
  assume d: "decode_command raw = Inr f"
  then have l: "length raw = 21" by (rule decode_command_length)
  from d obtain vs where c: "be_value (drop 17 raw) = zlib_crc32 (take 17 raw)"
    and u: "struct_unpack COMMAND_PAYLOAD (take 17 raw) = Some vs"
    and f: "f = \<lparr>cf_command_id = vs ! 0, cf_opcode = vs ! 1, cf_argument = vs ! 2, cf_issued_ns = vs ! 3\<rparr>"
    by (auto simp: decode_command_long [OF l] bindE_Inr unpack_or_error_Inr split: if_splits)
  have "vs = [vs ! 0, vs ! 1, vs ! 2, vs ! 3]" using u unfolding COMMAND_PAYLOAD_def by (rule four_values)
  then have "struct_pack COMMAND_PAYLOAD [vs ! 0, vs ! 1, vs ! 2, vs ! 3] = Some (take 17 raw)"
    using command_wire.pack_unpack [OF u] by simp
  moreover have "drop 17 raw = be_bytes 4 (zlib_crc32 (take 17 raw))" using c l by (subst crc_field_iff [symmetric]) auto
  ultimately show "encode_command f = Inr raw" unfolding encode_command_Inr f
    by (metis append_take_drop_id CommandFrame.select_convs)
next
  assume "encode_command f = Inr raw"
  then obtain payload where p: "struct_pack COMMAND_PAYLOAD [cf_command_id f, cf_opcode f, cf_argument f, cf_issued_ns f] = Some payload"
    and raw: "raw = payload @ be_bytes 4 (zlib_crc32 payload)" by (auto simp: encode_command_Inr)
  have "length payload = 17" by (rule command_wire.pack_size [OF p])
  then show "decode_command raw = Inr f"
    using command_wire.unpack_pack [OF p] zlib_crc32_bounds [of payload]
    by (simp add: decode_command_long raw be_value_be_bytes unpack_or_error_def)
qed

lemma six_values: "struct_unpack [c1, c2, c3, c4, c5, c6] b = Some vs \<Longrightarrow> vs = [vs ! 0, vs ! 1, vs ! 2, vs ! 3, vs ! 4, vs ! 5]"
  by (auto split: if_splits option.splits)

lemma unpack_code_bounds: "length b = code_size c \<Longrightarrow> code_min c \<le> unpack_code c b \<and> unpack_code c b < code_limit c"
  using pack_unpack_code [of b c] by (auto simp: pack_code_def split: if_splits)

lemma health_values_bounds:
  assumes "struct_unpack HEALTH_PAYLOAD b = Some vs"
  shows "0 \<le> vs ! 1" "vs ! 1 < 65536" "- 32768 \<le> vs ! 2" "vs ! 2 < 32768"
  using assms unpack_code_bounds [of "take 2 (drop 8 b)" Fmt_H] unpack_code_bounds [of "take 2 (drop 2 (drop 8 b))" Fmt_h]
  by (auto simp: HEALTH_PAYLOAD_def code_min_def code_limit_def split: if_splits option.splits)

lemma decode_health_Inr:
  "decode_health p = Inr h \<longleftrightarrow> sp_apid p = APID_HEALTH \<and>
     (\<exists>vs. struct_unpack HEALTH_PAYLOAD (sp_payload p) = Some vs \<and>
        h = \<lparr>ht_timestamp_ns = vs ! 0, ht_bus_voltage_v = round_double (of_int (vs ! 1) / 1000),
             ht_battery_temp_c = round_double (of_int (vs ! 2) / 100), ht_wheel_rpm = vs ! 3,
             ht_mode = vs ! 4, ht_fault_flags = vs ! 5\<rparr>)"
  using health.unpack_Some_iff [of "sp_payload p"]
  by (auto simp: decode_health_def unpack_or_error_def split: option.splits)

lemma health_reencodes:
  assumes "decode_health p = Inr h"
  shows "encode_health s h = encode_space_packet APID_HEALTH s (sp_payload p) 0"
proof -
  from assms obtain vs where u: "struct_unpack HEALTH_PAYLOAD (sp_payload p) = Some vs"
    and h: "h = \<lparr>ht_timestamp_ns = vs ! 0, ht_bus_voltage_v = round_double (of_int (vs ! 1) / 1000),
             ht_battery_temp_c = round_double (of_int (vs ! 2) / 100), ht_wheel_rpm = vs ! 3,
             ht_mode = vs ! 4, ht_fault_flags = vs ! 5\<rparr>"
    by (auto simp: decode_health_Inr)
  have "round_scaled (round_double (of_int (vs ! 1) / of_int 1000)) 1000 = vs ! 1"
    "round_scaled (round_double (of_int (vs ! 2) / of_int 100)) 100 = vs ! 2"
    using health_values_bounds [OF u] by (intro round_scaled_quotient; simp)+
  moreover have "vs = [vs ! 0, vs ! 1, vs ! 2, vs ! 3, vs ! 4, vs ! 5]"
    using u unfolding HEALTH_PAYLOAD_def by (rule six_values)
  ultimately show ?thesis
    using health.pack_unpack [OF u] by (simp add: encode_health_def h pack_or_error_def)
qed

lemma ack_travels: "encode_ack s a = Inr raw \<Longrightarrow>
  \<exists>payload. decode_space_packet raw = Inr \<lparr>sp_apid = APID_COMMAND_ACK, sp_sequence_count = s, sp_payload = payload, sp_packet_type = 0\<rparr>
    \<and> decode_ack \<lparr>sp_apid = APID_COMMAND_ACK, sp_sequence_count = s, sp_payload = payload, sp_packet_type = 0\<rparr> = Inr a"
proof -
  assume "encode_ack s a = Inr raw"
  then obtain payload where p: "struct_pack ACK_PAYLOAD [ca_command_id a, ca_status a, ca_applied_value a, ca_timestamp_ns a] = Some payload"
    and e: "encode_space_packet APID_COMMAND_ACK s payload 0 = Inr raw"
    by (auto simp: encode_ack_def bindE_Inr pack_or_error_Inr)
  have "length payload = 17" by (rule ack_wire.pack_size [OF p])
  then show ?thesis using decode_encoded [OF e] ack_wire.unpack_pack [OF p]
    by (auto simp: decode_ack_def unpack_or_error_def)
qed

lemma health_travels: "encode_health s h = Inr raw \<Longrightarrow>
  \<exists>p. decode_space_packet raw = Inr p \<and> sp_apid p = APID_HEALTH \<and> sp_sequence_count p = s \<and>
    decode_health p = Inr (h\<lparr>ht_bus_voltage_v := round_double (of_int (round_scaled (ht_bus_voltage_v h) 1000) / 1000),
      ht_battery_temp_c := round_double (of_int (round_scaled (ht_battery_temp_c h) 100) / 100)\<rparr>)"
proof -
  assume "encode_health s h = Inr raw"
  then obtain payload where p: "struct_pack HEALTH_PAYLOAD [ht_timestamp_ns h, round_scaled (ht_bus_voltage_v h) 1000,
        round_scaled (ht_battery_temp_c h) 100, ht_wheel_rpm h, ht_mode h, ht_fault_flags h] = Some payload"
    and e: "encode_space_packet APID_HEALTH s payload 0 = Inr raw"
    by (auto simp: encode_health_def bindE_Inr pack_or_error_Inr)
  from decode_encoded [OF e] show ?thesis
    using health.unpack_pack [OF p] by (auto simp: decode_health_Inr)
qed

lemma health_units:
  assumes "encode_health s h = Inr raw"
  shows "\<bar>round_scaled (ht_bus_voltage_v h) 1000\<bar> \<le> 65535" "\<bar>round_scaled (ht_battery_temp_c h) 100\<bar> \<le> 65535"
  using assms by (auto simp: encode_health_def bindE_Inr pack_or_error_Inr HEALTH_PAYLOAD_def pack_code_def code_min_def code_limit_def
      split: option.splits if_splits)

lemma health_arrives:
  assumes "encode_health s sample = Inr raw"
  shows "\<exists>p h. decode_space_packet raw = Inr p \<and> sp_sequence_count p = s \<and> decode_health p = Inr h \<and>
    ht_timestamp_ns h = ht_timestamp_ns sample \<and> ht_wheel_rpm h = ht_wheel_rpm sample \<and>
    ht_mode h = ht_mode sample \<and> ht_fault_flags h = ht_fault_flags sample \<and>
    \<bar>ht_bus_voltage_v h - ht_bus_voltage_v sample\<bar> \<le> 51 / 100000 \<and>
    \<bar>ht_battery_temp_c h - ht_battery_temp_c sample\<bar> \<le> 51 / 10000"
proof -
  note units = round_scaled_back [OF health_units(1) [OF assms]] round_scaled_back [OF health_units(2) [OF assms]]
  have "\<bar>round_double (of_int (round_scaled (ht_bus_voltage_v sample) 1000) / 1000) - ht_bus_voltage_v sample\<bar> \<le> 51 / 100000"
    "\<bar>round_double (of_int (round_scaled (ht_battery_temp_c sample) 100) / 100) - ht_battery_temp_c sample\<bar> \<le> 51 / 10000"
    using units by (simp_all add: field_simps)
  then show ?thesis using health_travels [OF assms] by fastforce
qed

lemma command_damaged:
  assumes d: "decode_command raw = Inr f" and i: "i < length raw" and b: "b \<noteq> raw ! i"
  shows "decode_command (raw[i := b]) = Inl (PacketError ''command CRC mismatch'')"
proof -
  have l: "length raw = 21" using d by (rule decode_command_length)
  then have "be_value (drop 17 raw) = zlib_crc32 (take 17 raw)"
    using d by (auto simp: decode_command_long split: if_splits)
  then have "be_value (drop 17 (raw[i := b])) \<noteq> zlib_crc32 (take 17 (raw[i := b]))"
    using l i b by (intro crc_seal_broken) auto
  then show ?thesis using l by (simp add: decode_command_long)
qed

text \<open>What the decoder accepts is, up to the header flags it ignores, a packet of the encoder.\<close>

lemma decoded_fields:
  assumes d: "decode_space_packet raw = Inr p"
  shows "0 \<le> sp_apid p \<and> sp_apid p \<le> 0x7FF \<and> (sp_packet_type p = 0 \<or> sp_packet_type p = 1) \<and>
    0 \<le> sp_sequence_count p \<and> sp_sequence_count p \<le> 16383 \<and> sp_payload p \<noteq> [] \<and> int (length (sp_payload p)) + 3 < 65536"
proof -
  have l: "11 \<le> length raw" using d decode_space_packet_short [of raw] by (cases "length raw < 11") auto
  have n: "be_value (take 2 (drop 4 raw)) < 65536" using two_bytes_bounds by simp
  from d have len: "int (length raw) = be_value (take 2 (drop 4 raw)) + 7"
    and p: "p = \<lparr>sp_apid = be_value (take 2 raw) mod 2048, sp_sequence_count = be_value (take 2 (drop 2 raw)) mod 16384,
      sp_payload = take (length raw - 10) (drop 6 raw), sp_packet_type = be_value (take 2 raw) div 4096 mod 2\<rparr>"
    unfolding decode_space_packet_long [OF l] Let_def
    by (simp_all only: sum.inject sum.distinct simp_thms not_not split: if_splits)
  have "int (length (sp_payload p)) + 3 = be_value (take 2 (drop 4 raw))" "sp_payload p \<noteq> []" using l len by (auto simp: p)
  then show ?thesis using n pos_mod_bound [of 2048 "be_value (take 2 raw)"] pos_mod_bound [of 16384 "be_value (take 2 (drop 2 raw))"]
    by (auto simp: p)
qed

lemma decodable_iff_encodable:
  "(\<exists>raw. decode_space_packet raw = Inr p) \<longleftrightarrow>
   (\<exists>raw. encode_space_packet (sp_apid p) (sp_sequence_count p) (sp_payload p) (sp_packet_type p) = Inr raw)"
proof
  assume "\<exists>raw. decode_space_packet raw = Inr p"
  then show "\<exists>raw. encode_space_packet (sp_apid p) (sp_sequence_count p) (sp_payload p) (sp_packet_type p) = Inr raw"
    unfolding encode_space_packet_Inr using decoded_fields by blast
next
  assume "\<exists>raw. encode_space_packet (sp_apid p) (sp_sequence_count p) (sp_payload p) (sp_packet_type p) = Inr raw"
  then show "\<exists>raw. decode_space_packet raw = Inr p" using decode_encoded by (cases p) fastforce
qed

text \<open>
  C34. The codecs of the mission link correspond. Encoding a packet gives some bytes exactly when these
  bytes decode to the packet's fields and carry the two header flags, secondary header present and packet
  not segmented, that the encoder always sets and the decoder ignores: other bytes with a right checksum
  decode to the same fields, but every packet that some bytes decode to is one that can be encoded.
  Decoding a command frame gives a command exactly when that command encodes to these bytes.
\<close>

theorem link_codecs_exact:
  "(encode_space_packet apid s payload t = Inr raw \<longleftrightarrow>
      decode_space_packet raw = Inr \<lparr>sp_apid = apid, sp_sequence_count = s, sp_payload = payload, sp_packet_type = t\<rparr> \<and>
      be_value (take 2 raw) div 2048 mod 2 = 1 \<and> be_value (take 2 (drop 2 raw)) div 16384 = 3)
   \<and> ((\<exists>bytes. decode_space_packet bytes = Inr p) \<longleftrightarrow>
      (\<exists>bytes. encode_space_packet (sp_apid p) (sp_sequence_count p) (sp_payload p) (sp_packet_type p) = Inr bytes))
   \<and> (decode_command frame = Inr c \<longleftrightarrow> encode_command c = Inr frame)"
  using decode_encoded [of apid s payload t raw] decoded_encodes [of raw apid s payload t] decodable_iff_encodable [of p]
    decode_iff_encode_command [of frame c]
  unfolding canonical_header_def by blast

text \<open>
  C35. Any change of one byte of a packet or of a command frame that would be accepted is refused as a
  \<^verbatim>\<open>PacketError\<close>, whichever byte it is: header, payload or checksum.
\<close>

theorem link_damage_refused:
  assumes "decode_space_packet raw = Inr p" and "i < length raw" and "b \<noteq> raw ! i"
    and "decode_command frame = Inr c" and "j < length frame" and "d \<noteq> frame ! j"
  shows "(\<exists>m. decode_space_packet (raw[i := b]) = Inl (PacketError m)) \<and>
    (\<exists>m. decode_command (frame[j := d]) = Inl (PacketError m))"
  using space_packet_damaged [OF assms(1-3)] command_damaged [OF assms(4-6)] by blast

definition sample_command :: CommandFrame where
  "sample_command = \<lparr>cf_command_id = 7, cf_opcode = 2, cf_argument = -1500, cf_issued_ns = 1767225600000000000\<rparr>"

definition sample_ack :: CommandAck where
  "sample_ack = \<lparr>ca_command_id = 7, ca_status = 0, ca_applied_value = -1500, ca_timestamp_ns = 1767225600000000000\<rparr>"

definition sample_packet :: bytes where
  "sample_packet = (let body = packet_header 100 5 0 1 @ [0x2A] in body @ be_bytes 4 (zlib_crc32 body))"

definition sample_frame :: bytes where
  "sample_frame = (let body = be_bytes 4 7 @ be_bytes 1 2 @ be_bytes 4 (-1500) @ be_bytes 8 1767225600000000000
     in body @ be_bytes 4 (zlib_crc32 body))"

lemma sample_packet_decodes:
  "decode_space_packet sample_packet = Inr \<lparr>sp_apid = 100, sp_sequence_count = 5, sp_payload = [0x2A], sp_packet_type = 0\<rparr>"
  using decode_encoded [of 100 5 "[0x2A]" 0 sample_packet] by (simp add: encode_space_packet_Inr sample_packet_def)

lemma sample_frame_decodes: "decode_command sample_frame = Inr sample_command"
  by (simp add: decode_iff_encode_command encode_command_Inr sample_command_def sample_frame_def Let_def
      COMMAND_PAYLOAD_def pack_code_def code_min_def code_limit_def)

theorem link_damage_refused_witness:
  "(\<exists>m. decode_space_packet (sample_packet[6 := 0x2B]) = Inl (PacketError m)) \<and>
   (\<exists>m. decode_command (sample_frame[0 := 1]) = Inl (PacketError m))"
proof -
  have "sample_packet ! 6 = 0x2A" by (simp add: sample_packet_def Let_def nth_append)
  moreover have "sample_frame ! 0 = 0"
    by (simp add: sample_frame_def Let_def nth_append be_bytes_widths)
  ultimately show ?thesis
    using link_damage_refused [OF sample_packet_decodes, of 6 "0x2B" sample_frame sample_command 0 1] sample_frame_decodes
    by (simp add: sample_packet_def sample_frame_def Let_def)
qed

text \<open>
  C36. The payloads survive the link. An acknowledgement that is sent is read back unchanged, with its
  sequence count. A health sample that is sent is read back with its sequence count, its time, wheel speed,
  mode and fault flags unchanged, its voltage to 0.00051 V and its temperature to 0.0051 degrees, half a
  wire unit and the rounding of the doubles. And a sample that was read from a packet encodes again to
  exactly the payload it was read from: the conversions never move a value to another wire unit.
\<close>

theorem payloads_survive_link:
  "(encode_ack s a = Inr raw \<longrightarrow>
      (\<exists>p. decode_space_packet raw = Inr p \<and> sp_sequence_count p = s \<and> decode_ack p = Inr a)) \<and>
   (encode_health s sample = Inr sent \<longrightarrow>
      (\<exists>p h. decode_space_packet sent = Inr p \<and> sp_sequence_count p = s \<and> decode_health p = Inr h \<and>
         ht_timestamp_ns h = ht_timestamp_ns sample \<and> ht_wheel_rpm h = ht_wheel_rpm sample \<and>
         ht_mode h = ht_mode sample \<and> ht_fault_flags h = ht_fault_flags sample \<and>
         \<bar>ht_bus_voltage_v h - ht_bus_voltage_v sample\<bar> \<le> 51 / 100000 \<and>
         \<bar>ht_battery_temp_c h - ht_battery_temp_c sample\<bar> \<le> 51 / 10000)) \<and>
   (decode_health q = Inr h \<longrightarrow> encode_health n h = encode_space_packet APID_HEALTH n (sp_payload q) 0)"
  using ack_travels [of s a raw] health_arrives [of s sample sent] health_reencodes [of q h n] by auto

definition sample_health_packet :: SpacePacket where
  "sample_health_packet = \<lparr>sp_apid = 100, sp_sequence_count = 5,
     sp_payload = be_bytes 8 1767225600000000000 @ be_bytes 2 28399 @ be_bytes 2 (-1234) @ be_bytes 4 1200 @ be_bytes 1 1 @ be_bytes 1 0,
     sp_packet_type = 0\<rparr>"

lemma sample_health_values:
  "struct_unpack HEALTH_PAYLOAD (sp_payload sample_health_packet) = Some [1767225600000000000, 28399, -1234, 1200, 1, 0]"
  by (rule health.unpack_pack)
    (simp add: HEALTH_PAYLOAD_def sample_health_packet_def pack_code_def code_min_def code_limit_def)

lemma sample_ack_encodes: "\<exists>raw. encode_ack 9 sample_ack = Inr raw"
  by (simp add: encode_ack_def sample_ack_def ACK_PAYLOAD_def pack_or_error_def pack_code_def code_min_def code_limit_def
      encode_space_packet_Inr APID_COMMAND_ACK_def Let_def)

definition sample_health :: HealthTelemetry where
  "sample_health = \<lparr>ht_timestamp_ns = 1767225600000000000, ht_bus_voltage_v = 0, ht_battery_temp_c = 0, ht_wheel_rpm = 1200,
     ht_mode = 1, ht_fault_flags = 0\<rparr>"

lemma sample_health_encodes: "\<exists>raw. encode_health 9 sample_health = Inr raw"
  by (simp add: encode_health_def sample_health_def HEALTH_PAYLOAD_def pack_or_error_def pack_code_def code_min_def code_limit_def
      round_scaled_def round_half_even_def encode_space_packet_Inr APID_HEALTH_def Let_def)

theorem payloads_survive_link_witness:
  "(\<exists>raw p. encode_ack 9 sample_ack = Inr raw \<and> decode_space_packet raw = Inr p \<and> decode_ack p = Inr sample_ack) \<and>
   (\<exists>raw p h. encode_health 9 sample_health = Inr raw \<and> decode_space_packet raw = Inr p \<and> decode_health p = Inr h \<and>
     ht_wheel_rpm h = 1200 \<and> \<bar>ht_bus_voltage_v h\<bar> \<le> 51 / 100000) \<and>
   (\<exists>h. decode_health sample_health_packet = Inr h \<and>
     encode_health 5 h = encode_space_packet APID_HEALTH 5 (sp_payload sample_health_packet) 0)"
proof -
  obtain h where h: "decode_health sample_health_packet = Inr h"
    using sample_health_values by (auto simp: decode_health_Inr) (simp add: sample_health_packet_def APID_HEALTH_def)
  obtain raw sent where e: "encode_ack 9 sample_ack = Inr raw" "encode_health 9 sample_health = Inr sent"
    using sample_ack_encodes sample_health_encodes by blast
  show ?thesis
    using e h payloads_survive_link [of 9 sample_ack raw sample_health sent sample_health_packet h 5]
    by (auto simp: sample_health_def)
qed

end
