(* ===== verification/Mission_Common.thy ===== *)
theory Mission_Common
  imports Space_Packet Telemetry_Config Py_Float_Text
begin

text \<open>
  What the legacy mission services share (\<^verbatim>\<open>mission_ground/common\<close>): environment variables
  (\<^verbatim>\<open>config.py\<close>), the start-up retry (\<^verbatim>\<open>retry.py\<close>), the sequence tracker (\<^verbatim>\<open>sequence.py\<close>), the health
  limits (\<^verbatim>\<open>limits.py\<close>) and the command table (\<^verbatim>\<open>commands.py\<close>).
\<close>

section \<open>Environment\<close>

definition env :: "environment \<Rightarrow> string \<Rightarrow> string \<Rightarrow> string" where
  "env environ name dflt = getenv environ name dflt"

definition env_int :: "environment \<Rightarrow> string \<Rightarrow> int \<Rightarrow> config_error + int" where
  "env_int environ name dflt =
     (let raw = getenv environ name (py_str dflt)
      in case py_int 10 raw of None \<Rightarrow> Inl (NotAnInteger raw) | Some v \<Rightarrow> Inr v)"

definition env_float :: "environment \<Rightarrow> string \<Rightarrow> rat \<Rightarrow> config_error + py_num" where
  "env_float environ name dflt =
     (let raw = getenv environ name (float_repr dflt)
      in case py_float_of raw of None \<Rightarrow> Inl (NotAFloat raw) | Some v \<Rightarrow> Inr v)"

section \<open>Retry\<close>

datatype 'e retry_error = Raised 'e | NoAttempt

text \<open>
  \<^verbatim>\<open>retry_async\<close>: the operation acts on a state and answers or raises; the list collects the delays
  that were slept. \<open>NoAttempt\<close> is the failing assertion when \<open>attempts\<close> is zero.
\<close>

fun retry_loop :: "('s \<Rightarrow> ('e + 'a) \<times> 's) \<Rightarrow> nat \<Rightarrow> rat \<Rightarrow> rat \<Rightarrow> 'e option \<Rightarrow> 's \<Rightarrow> rat list
    \<Rightarrow> ('e retry_error + 'a) \<times> 's \<times> rat list" where
  "retry_loop operation 0 delay max_delay last_error s slept =
     (case last_error of None \<Rightarrow> Inl NoAttempt | Some e \<Rightarrow> Inl (Raised e), s, slept)"
| "retry_loop operation (Suc n) delay max_delay last_error s slept =
     (case operation s of
        (Inr x, s') \<Rightarrow> (Inr x, s', slept)
      | (Inl e, s') \<Rightarrow>
          retry_loop operation n (min (round_double (delay * (3 / 2))) max_delay) max_delay (Some e) s' (slept @ [delay]))"

definition retry_async :: "('s \<Rightarrow> ('e + 'a) \<times> 's) \<Rightarrow> nat \<Rightarrow> rat \<Rightarrow> rat \<Rightarrow> 's \<Rightarrow> ('e retry_error + 'a) \<times> 's \<times> rat list" where
  "retry_async operation attempts initial_delay max_delay s =
     retry_loop operation attempts initial_delay max_delay None s []"

definition RETRY_ATTEMPTS :: nat where "RETRY_ATTEMPTS = 30"

definition RETRY_INITIAL_DELAY :: rat where "RETRY_INITIAL_DELAY = 1 / 2"

definition RETRY_MAX_DELAY :: rat where "RETRY_MAX_DELAY = 5"

section \<open>Sequence tracker\<close>

type_synonym SequenceTracker = "int \<rightharpoonup> int"

definition observe :: "int \<Rightarrow> int \<Rightarrow> SequenceTracker \<Rightarrow> int \<times> SequenceTracker" where
  "observe apid current tracker =
     (let previous = tracker apid; tracker' = tracker(apid \<mapsto> current)
      in case previous of
           None \<Rightarrow> (0, tracker')
         | Some p \<Rightarrow>
             (let expected = (p + 1) AND MAX_SEQUENCE
              in if current = expected then (0, tracker')
                 else ((current - expected) AND MAX_SEQUENCE, tracker')))"

section \<open>Limits\<close>

text \<open>A value of a violation is a float or an int.\<close>

datatype limit_value = FloatValue py_num | IntValue int

record LimitViolation =
  lv_parameter :: string
  lv_value :: limit_value
  lv_severity :: string
  lv_message :: string

definition violation :: "string \<Rightarrow> limit_value \<Rightarrow> string \<Rightarrow> string \<Rightarrow> LimitViolation" where
  "violation p v s m = \<lparr>lv_parameter = p, lv_value = v, lv_severity = s, lv_message = m\<rparr>"

text \<open>\<^verbatim>\<open>b < a\<close> for a double \<open>a\<close>; nothing is less than a NaN.\<close>

fun num_greater :: "py_num \<Rightarrow> rat \<Rightarrow> bool" where
  "num_greater (Finite a) b = (b < a)"
| "num_greater (Infinite negative) b = (\<not> negative)"
| "num_greater NotANumber b = False"

text \<open>
  \<^verbatim>\<open>evaluate_health\<close> over the fields it reads; the voltage and the temperature may be any double here,
  because the processor builds its samples from JSON.
\<close>

definition evaluate_health :: "py_num \<Rightarrow> py_num \<Rightarrow> int \<Rightarrow> int \<Rightarrow> LimitViolation list" where
  "evaluate_health bus_voltage_v battery_temp_c wheel_rpm flags =
     (if num_less bus_voltage_v 24
      then [violation ''bus_voltage_v'' (FloatValue bus_voltage_v) ''CRITICAL'' ''Bus voltage below 24.0 V'']
      else if num_less bus_voltage_v 26
      then [violation ''bus_voltage_v'' (FloatValue bus_voltage_v) ''WARNING'' ''Bus voltage below 26.0 V'']
      else [])
   @ (if num_greater battery_temp_c 65
      then [violation ''battery_temp_c'' (FloatValue battery_temp_c) ''CRITICAL'' ''Battery temperature above 65 C'']
      else if num_greater battery_temp_c 55
      then [violation ''battery_temp_c'' (FloatValue battery_temp_c) ''WARNING'' ''Battery temperature above 55 C'']
      else [])
   @ (if 5500 < \<bar>wheel_rpm\<bar>
      then [violation ''wheel_rpm'' (IntValue wheel_rpm) ''CRITICAL'' ''Reaction wheel speed exceeds 5500 RPM'']
      else [])
   @ (if flags \<noteq> 0
      then [violation ''fault_flags'' (IntValue flags) ''CRITICAL'' ''Spacecraft fault flag is set'']
      else [])"

section \<open>Commands\<close>

record CommandDefinition =
  cd_opcode :: int
  cd_minimum :: int
  cd_maximum :: int

definition COMMANDS :: "(string \<times> CommandDefinition) list" where
  "COMMANDS =
     [(''SET_MODE'', \<lparr>cd_opcode = 1, cd_minimum = 0, cd_maximum = 3\<rparr>),
      (''SET_WHEEL_RPM'', \<lparr>cd_opcode = 2, cd_minimum = -6000, cd_maximum = 6000\<rparr>),
      (''RESET_FAULTS'', \<lparr>cd_opcode = 3, cd_minimum = 0, cd_maximum = 0\<rparr>)]"

definition OPCODE_TO_NAME :: "(int \<times> string) list" where
  "OPCODE_TO_NAME = map (\<lambda>(name, d). (cd_opcode d, name)) COMMANDS"

definition validate_command :: "string \<Rightarrow> int \<Rightarrow> string + CommandDefinition" where
  "validate_command name argument =
     (case map_of COMMANDS name of
        None \<Rightarrow> Inl (''unsupported command: '' @ name)
      | Some d \<Rightarrow>
          if \<not> (cd_minimum d \<le> argument \<and> argument \<le> cd_maximum d)
          then Inl (''argument '' @ py_str argument @ '' outside ['' @ py_str (cd_minimum d) @ '', '' @ py_str (cd_maximum d)
                 @ ''] for '' @ name)
          else Inr d)"

section \<open>The retry returns\<close>

text \<open>The state after \<open>k\<close> failed attempts, and the delay before attempt \<open>k + 1\<close>.\<close>

definition tried :: "('s \<Rightarrow> ('e + 'a) \<times> 's) \<Rightarrow> nat \<Rightarrow> 's \<Rightarrow> 's" where
  "tried operation k s = ((snd \<circ> operation) ^^ k) s"

fun retry_delay_at :: "rat \<Rightarrow> rat \<Rightarrow> nat \<Rightarrow> rat" where
  "retry_delay_at d m 0 = d"
| "retry_delay_at d m (Suc k) = retry_delay_at (min (round_double (d * (3 / 2))) m) m k"

lemma tried_Suc: "tried operation (Suc k) s = tried operation k (snd (operation s))"
  by (simp add: tried_def funpow_swap1)

lemma map_upt_Suc_shift: "map f [0..<Suc n] = f 0 # map (\<lambda>k. f (Suc k)) [0..<n]"
  by (simp add: map_upt_Suc del: upt_Suc)

lemma retry_loop_success:
  assumes "k < n" "\<forall>j < k. \<exists>e. fst (operation (tried operation j s)) = Inl e"
    "operation (tried operation k s) = (Inr x, s')"
  shows "retry_loop operation n d m l s slept = (Inr x, s', slept @ map (retry_delay_at d m) [0..<k])"
  using assms
proof (induction k arbitrary: n d l s slept)
  case 0
  then show ?case by (cases n) (auto simp: tried_def)
next
  case (Suc k)
  obtain n' where n: "n = Suc n'" using Suc.prems by (cases n) auto
  obtain e s1 where o1: "operation s = (Inl e, s1)"
    using Suc.prems(2) by (metis prod.collapse tried_def funpow_0 zero_less_Suc)
  have "\<forall>j < k. \<exists>e. fst (operation (tried operation j s1)) = Inl e"
    using Suc.prems(2) tried_Suc [of operation _ s] o1 by (metis Suc_less_eq snd_conv)
  then show ?case using Suc.IH [of n' s1] Suc.prems n o1
    by (simp add: tried_Suc map_upt_Suc_shift del: upt_Suc)
qed

lemma retry_loop_failure:
  assumes "\<forall>j < n. \<exists>e. fst (operation (tried operation j s)) = Inl e" "0 < n"
  shows "\<exists>e. fst (operation (tried operation (n - 1) s)) = Inl e \<and>
    retry_loop operation n d m l s slept = (Inl (Raised e), tried operation n s, slept @ map (retry_delay_at d m) [0..<n])"
  using assms
proof (induction n arbitrary: d l s slept)
  case (Suc n)
  obtain e s1 where o1: "operation s = (Inl e, s1)"
    using Suc.prems(1) by (metis prod.collapse tried_def funpow_0 zero_less_Suc)
  show ?case
  proof (cases n)
    case 0
    then show ?thesis using o1 by (simp add: tried_def)
  next
    case (Suc n')
    have "\<forall>j < n. \<exists>e. fst (operation (tried operation j s1)) = Inl e"
      using Suc.prems(1) tried_Suc [of operation _ s] o1 by (metis Suc_less_eq snd_conv)
    then show ?thesis
      using Suc.IH [of s1 "min (round_double (d * (3 / 2))) m" "Some e" "slept @ [d]"] Suc o1
      by (simp add: tried_Suc map_upt_Suc_shift del: upt_Suc)
  qed
qed simp

lemma retry_grows: "1 / 1000 \<le> d \<Longrightarrow> d \<le> round_double (d * (3 / 2))"
proof -
  assume d: "1 / 1000 \<le> d"
  then have "\<bar>round_double (d * (3 / 2)) - d * (3 / 2)\<bar> \<le> \<bar>d * (3 / 2)\<bar> / 2 ^ 53"
    by (intro round_double_close) auto
  also have "\<dots> \<le> d * (1 / 2)" using d by simp
  finally show ?thesis by linarith
qed

lemma retry_delay_bounds:
  assumes "1 / 1000 \<le> d" "d \<le> m"
  shows "d \<le> retry_delay_at d m k \<and> retry_delay_at d m k \<le> m \<and> retry_delay_at d m k \<le> retry_delay_at d m (Suc k)"
  using assms
proof (induction k arbitrary: d)
  case 0
  then show ?case using retry_grows [of d] by simp
next
  case (Suc k)
  let ?d = "min (round_double (d * (3 / 2))) m"
  have d: "d \<le> ?d" "?d \<le> m" using retry_grows [of d] Suc.prems by auto
  then have "1 / 1000 \<le> ?d" using Suc.prems by linarith
  from Suc.IH [OF this d(2)] have "?d \<le> retry_delay_at ?d m k" "retry_delay_at ?d m k \<le> m"
    "retry_delay_at ?d m k \<le> retry_delay_at ?d m (Suc k)" by auto
  then show ?case using order_trans [OF d(1)] by (simp only: retry_delay_at.simps)
qed

lemma retry_delays_sorted:
  assumes "1 / 1000 \<le> d" "d \<le> m"
  shows "sorted (map (retry_delay_at d m) [0..<n])"
  using retry_delay_bounds [OF assms]
  by (induction n) (auto simp: sorted_append intro: lift_Suc_mono_le [of "retry_delay_at d m"])

lemma retry_delays_total:
  assumes "1 / 1000 \<le> d" "d \<le> m"
  shows "sum_list (map (retry_delay_at d m) [0..<n]) \<le> of_nat n * m"
  using retry_delay_bounds [OF assms] by (induction n) (auto simp: algebra_simps add_mono)

text \<open>
  The start-up retry terminates, whatever the operation does: it calls the operation until it
  answers for the first time and returns that answer, or, when all attempts fail, raises the error of
  the last one. It sleeps once per failed attempt; the delays never shrink, none exceeds the maximum,
  and together they are at most the number of attempts times the maximum.
\<close>

lemma retry_async_returns:
  assumes "0 < attempts" "1 / 1000 \<le> d" "d \<le> m"
  shows "\<exists>k \<le> attempts. (\<forall>j < k. \<exists>e. fst (operation (tried operation j s)) = Inl e) \<and>
     (let slept = map (retry_delay_at d m) [0..<k] in
      sorted slept \<and> (\<forall>x \<in> set slept. x \<le> m) \<and> sum_list slept \<le> of_nat attempts * m \<and>
      (if k < attempts
       then \<exists>x s'. operation (tried operation k s) = (Inr x, s') \<and> retry_async operation attempts d m s = (Inr x, s', slept)
       else \<exists>e. fst (operation (tried operation (attempts - 1) s)) = Inl e \<and>
              retry_async operation attempts d m s = (Inl (Raised e), tried operation attempts s, slept)))"
proof -
  define fails where "fails j \<longleftrightarrow> (\<exists>e. fst (operation (tried operation j s)) = Inl e)" for j
  obtain k where le: "k \<le> attempts" and before: "\<forall>j < k. fails j" and at: "k < attempts \<Longrightarrow> \<not> fails k"
  proof (cases "\<forall>j < attempts. fails j")
    case True
    then show ?thesis using that [of attempts] by simp
  next
    case False
    then obtain i where i: "i < attempts" "\<not> fails i" by auto
    show ?thesis
    proof (rule that [of "LEAST j. \<not> fails j"])
      show "(LEAST j. \<not> fails j) \<le> attempts" using Least_le [of "\<lambda>j. \<not> fails j", OF i(2)] i(1) by linarith
      show "\<forall>j < (LEAST j. \<not> fails j). fails j" using not_less_Least by blast
      show "\<not> fails (LEAST j. \<not> fails j)" by (rule LeastI [of "\<lambda>j. \<not> fails j", OF i(2)])
    qed
  qed
  let ?slept = "map (retry_delay_at d m) [0..<k]"
  have "0 \<le> m" using assms by simp
  then have "sum_list ?slept \<le> of_nat attempts * m"
    using retry_delays_total [OF assms(2,3), of k] le by (meson mult_right_mono of_nat_mono order_trans)
  moreover have "\<exists>x s'. operation (tried operation k s) = (Inr x, s') \<and> retry_async operation attempts d m s = (Inr x, s', ?slept)"
    if lt: "k < attempts"
  proof -
    obtain x s' where x: "operation (tried operation k s) = (Inr x, s')"
      using at [OF lt] unfolding fails_def by (cases "operation (tried operation k s)"; cases "fst (operation (tried operation k s))") auto
    then show ?thesis
      using retry_loop_success [of k attempts operation s x s' d m None "[]"] lt before unfolding fails_def retry_async_def by auto
  qed
  moreover have "\<exists>e. fst (operation (tried operation (attempts - 1) s)) = Inl e \<and>
      retry_async operation attempts d m s = (Inl (Raised e), tried operation attempts s, ?slept)" if eq: "k = attempts"
    using retry_loop_failure [of attempts operation s d m None "[]"] before assms(1) unfolding eq fails_def retry_async_def by auto
  ultimately show ?thesis
    using le before retry_delays_sorted [OF assms(2,3), of k] retry_delay_bounds [OF assms(2,3)]
    unfolding fails_def Let_def by (intro exI [of _ k]) auto
qed

section \<open>Gap accounting\<close>

lemma observe_eq:
  "observe apid current tracker =
     (case tracker apid of None \<Rightarrow> 0 | Some p \<Rightarrow> (current - (p + 1)) mod 16384, tracker(apid \<mapsto> current))"
proof (cases "tracker apid")
  case (Some p)
  have "((p + 1) mod 16384 - (p + 1)) mod 16384 = (0 :: int)" by (subst mod_diff_left_eq) simp
  then show ?thesis using Some
    by (simp add: observe_def Let_def header_fields mod_diff_right_eq)
qed (simp add: observe_def)

text \<open>The missing counts reported for a run of packets, and the tracker after it.\<close>

fun observe_all :: "(int \<times> int) list \<Rightarrow> SequenceTracker \<Rightarrow> int list \<times> SequenceTracker" where
  "observe_all [] tracker = ([], tracker)"
| "observe_all ((apid, current) # rest) tracker =
     (let (missing, tracker1) = observe apid current tracker; (ms, tracker2) = observe_all rest tracker1
      in (missing # ms, tracker2))"

definition counts_of :: "int \<Rightarrow> (int \<times> int) list \<Rightarrow> int list" where
  "counts_of apid packets = map snd (filter (\<lambda>x. fst x = apid) packets)"

definition missing_of :: "int \<Rightarrow> (int \<times> int) list \<Rightarrow> SequenceTracker \<Rightarrow> int list" where
  "missing_of apid packets tracker =
     map snd (filter (\<lambda>(x, m). fst x = apid) (zip packets (fst (observe_all packets tracker))))"

lemma observe_all_Cons:
  "fst (observe_all ((a, c) # rest) t) = fst (observe a c t) # fst (observe_all rest (t(a \<mapsto> c)))"
  "snd (observe_all ((a, c) # rest) t) = snd (observe_all rest (t(a \<mapsto> c)))"
  using observe_eq [of a c t] by (auto simp: split_beta Let_def)

lemma missing_of_Cons:
  "missing_of apid ((a, c) # rest) t =
     (if a = apid then [fst (observe a c t)] else []) @ missing_of apid rest (t(a \<mapsto> c))"
  by (simp add: missing_of_def observe_all_Cons del: observe_all.simps)

lemma counts_of_Cons: "counts_of apid ((a, c) # rest) = (if a = apid then [c] else []) @ counts_of apid rest"
  by (simp add: counts_of_def)

lemma tracker_known:
  assumes "t apid = Some p"
  shows "(snd (observe_all packets t) apid = Some (last (p # counts_of apid packets))) \<and>
    (p + sum_list (missing_of apid packets t) + int (length (counts_of apid packets))) mod 16384
      = last (p # counts_of apid packets) mod 16384"
  using assms
proof (induction packets arbitrary: t p)
  case Nil
  then show ?case by (simp add: counts_of_def missing_of_def)
next
  case (Cons x packets)
  obtain a c where x: "x = (a, c)" by (cases x)
  show ?case
  proof (cases "a = apid")
    case True
    define t1 where "t1 = t(apid \<mapsto> c)"
    have t1: "t1 apid = Some c" by (simp add: t1_def)
    let ?m = "(c - (p + 1)) mod 16384" and ?rest = "sum_list (missing_of apid packets t1) + int (length (counts_of apid packets))"
    have "(p + 1 + ?m) mod 16384 = c mod 16384" by (simp add: mod_add_right_eq)
    then have "(p + 1 + ?m + ?rest) mod 16384 = (c + ?rest) mod 16384" by (metis mod_add_left_eq)
    then show ?thesis using Cons.IH [of t1 c] t1 Cons.prems True
      by (simp add: x observe_all_Cons missing_of_Cons counts_of_Cons observe_eq algebra_simps flip: t1_def del: observe_all.simps)
  next
    case False
    define t1 where "t1 = t(a \<mapsto> c)"
    have "t1 apid = Some p" using False Cons.prems by (simp add: t1_def)
    then show ?thesis using Cons.IH [of t1 p] False
      by (simp add: x observe_all_Cons missing_of_Cons counts_of_Cons flip: t1_def del: observe_all.simps)
  qed
qed

lemma missing_range: "m \<in> set (missing_of apid packets t) \<Longrightarrow> 0 \<le> m \<and> m \<le> MAX_SEQUENCE"
proof (induction packets arbitrary: t)
  case (Cons x packets)
  obtain a c where x: "x = (a, c)" by (cases x)
  have "0 \<le> fst (observe a c t) \<and> fst (observe a c t) \<le> MAX_SEQUENCE"
    using pos_mod_bound [of 16384] by (auto simp: observe_eq MAX_SEQUENCE_eq split: option.splits)
  then show ?case using Cons x by (auto simp: missing_of_Cons split: if_splits)
qed (simp add: missing_of_def)

text \<open>
  The gap counts balance. After the first packet of an application, whatever packets of other
  applications are interleaved, the missing counts reported for its later packets plus the number of
  these packets bring its first sequence count to its last one, modulo the 14-bit wrap; each count is
  at most 16383, and the tracker holds the last count. (A repeated packet therefore counts 16383
  missing ones.)
\<close>

lemma gap_accounting:
  assumes "tracker apid = None"
  shows "let packets = (apid, first) # rest in
    missing_of apid packets tracker = 0 # tl (missing_of apid packets tracker) \<and>
    snd (observe_all packets tracker) apid = Some (last (counts_of apid packets)) \<and>
    (first + sum_list (missing_of apid packets tracker) + int (length (counts_of apid rest))) mod 16384
      = last (counts_of apid packets) mod 16384 \<and>
    (\<forall>m \<in> set (missing_of apid packets tracker). 0 \<le> m \<and> m \<le> MAX_SEQUENCE)"
proof -
  define t1 where "t1 = tracker(apid \<mapsto> first)"
  have "t1 apid = Some first" by (simp add: t1_def)
  then show ?thesis using assms tracker_known [of t1 apid first rest] missing_range [of _ apid "(apid, first) # rest" tracker]
    by (simp add: Let_def observe_all_Cons missing_of_Cons counts_of_Cons observe_eq flip: t1_def del: observe_all.simps)
qed

lemma duplicate_counts_as_gap: "tracker apid = Some c \<Longrightarrow> fst (observe apid c tracker) = 16383"
  by (simp add: observe_eq)

end
