(* ===== verification/Mission_World.thy ===== *)
theory Mission_World
  imports Db_Tables Py_Json_Print Mission_Common "HOL-Library.AList"
begin

text \<open>
  The world the legacy mission services act on: the four PostgreSQL tables of \<^verbatim>\<open>common/db.py\<close>, the
  JetStream stream \<^verbatim>\<open>GROUND\<close> (a log of published messages, and how each delivery was settled), the UDP
  datagrams sent to the spacecraft, and the Prometheus counters. Every call to a service consumes one tick
  of a schedule, which gives the clock and says whether the call is answered, refused, or carried out
  with its answer lost. Statements are committed one by one, as the services run them outside transactions.
  A JSONB column holds the value its text denotes; PostgreSQL refuses a JSON text with the tokens that
  are not numbers, or with a NUL character.
\<close>

section \<open>Tables\<close>

record health_row =
  hr_spacecraft_time_ns :: int
  hr_received_at :: int
  hr_sequence_count :: int
  hr_bus_voltage_v :: py_num
  hr_battery_temp_c :: py_num
  hr_wheel_rpm :: int
  hr_mode :: int
  hr_fault_flags :: int
  hr_raw :: json

record alert_row =
  al_created_at :: int
  al_parameter :: string
  al_value :: py_num
  al_severity :: string
  al_message :: string
  al_telemetry_sequence :: int

record command_row =
  cm_id :: int
  cm_created_at :: int
  cm_updated_at :: int
  cm_name :: string
  cm_argument :: int
  cm_dry_run :: bool
  cm_status :: string
  cm_operator_id :: string
  cm_status_detail :: "string option"

record audit_row =
  ad_created_at :: int
  ad_actor :: string
  ad_action :: string
  ad_object_type :: string
  ad_object_id :: string
  ad_detail :: json

record mission_db =
  telemetry_health_table :: "health_row list"
  alerts_table :: "alert_row list"
  commands_table :: "command_row list"
  audit_events_table :: "audit_row list"
  commands_id_seq :: int

definition empty_mission_db :: mission_db where
  "empty_mission_db = \<lparr>telemetry_health_table = [], alerts_table = [], commands_table = [], audit_events_table = [],
     commands_id_seq = 0\<rparr>"

fun jsonb_ok :: "json \<Rightarrow> bool" where
  "jsonb_ok (JNum s) = number_literal s"
| "jsonb_ok (JStr s) = pg_text s"
| "jsonb_ok (JArr vs) = (\<forall>v \<in> set vs. jsonb_ok v)"
| "jsonb_ok (JObj kvs) = (\<forall>(k, v) \<in> set kvs. pg_text k \<and> jsonb_ok v)"
| "jsonb_ok _ = True"

section \<open>Messages\<close>

record message =
  msg_subject :: string
  msg_data :: bytes

datatype settlement = Acked nat | Naked nat int

datatype fate = Answered | Refused | AnswerLost

record mission =
  m_db :: mission_db
  m_stream :: "message list"
  m_settled :: "settlement list"
  m_uplink :: "bytes list"
  m_counts :: "(string \<times> string list \<times> int) list"
  m_gauges :: "string \<rightharpoonup> py_num"
  m_observed :: "rat list"
  m_tracker :: SequenceTracker
  m_tick :: nat

record mission_schedule =
  fate_at :: "nat \<Rightarrow> fate"
  clock_ns :: "nat \<Rightarrow> int"
  connected_at :: "nat \<Rightarrow> bool"

datatype mission_error = DatabaseDown | DataError string | BrokerDown | SocketError | BadJson | KeyError string
  | TypeError string | ValueError string | PacketFault packet_error | HttpError int string

type_synonym 'a mission_action = "mission \<Rightarrow> (mission_error, 'a, mission) outcome"

text \<open>One call: the effect happens unless the call is refused; the caller sees an error unless it is answered.\<close>

definition service_call :: "mission_error \<Rightarrow> mission_schedule \<Rightarrow> (mission \<Rightarrow> 'a \<times> mission) \<Rightarrow> 'a mission_action" where
  "service_call down S f w =
     (let w1 = w\<lparr>m_tick := Suc (m_tick w)\<rparr>
      in case fate_at S (m_tick w) of
           Refused \<Rightarrow> (Inl down, w1)
         | Answered \<Rightarrow> (case f w1 of (x, w2) \<Rightarrow> (Inr x, w2))
         | AnswerLost \<Rightarrow> (case f w1 of (x, w2) \<Rightarrow> (Inl down, w2)))"

text \<open>A statement; asyncpg checks the types of the arguments before anything is sent.\<close>

definition sql :: "mission_schedule \<Rightarrow> bool \<Rightarrow> (int \<Rightarrow> mission_db \<Rightarrow> 'a \<times> mission_db) \<Rightarrow> 'a mission_action" where
  "sql S well_typed f w =
     (if \<not> well_typed then (Inl (DataError ''invalid input for query argument''), w\<lparr>m_tick := Suc (m_tick w)\<rparr>)
      else service_call DatabaseDown S
             (\<lambda>w1. case f (clock_ns S (m_tick w) div 1000) (m_db w1) of (x, db) \<Rightarrow> (x, w1\<lparr>m_db := db\<rparr>)) w)"

definition publish :: "mission_schedule \<Rightarrow> string \<Rightarrow> json \<Rightarrow> unit mission_action" where
  "publish S subject v =
     service_call BrokerDown S (\<lambda>w. ((), w\<lparr>m_stream := m_stream w @ [\<lparr>msg_subject = subject, msg_data = json_bytes v\<rparr>]\<rparr>))"

definition settle :: "mission_schedule \<Rightarrow> settlement \<Rightarrow> unit mission_action" where
  "settle S s = service_call BrokerDown S (\<lambda>w. ((), w\<lparr>m_settled := m_settled w @ [s]\<rparr>))"

definition inc :: "string \<Rightarrow> string list \<Rightarrow> int \<Rightarrow> mission \<Rightarrow> mission" where
  "inc counter labels n w = w\<lparr>m_counts := m_counts w @ [(counter, labels, n)]\<rparr>"

definition set_gauge :: "string \<Rightarrow> py_num \<Rightarrow> mission \<Rightarrow> mission" where
  "set_gauge name v w = w\<lparr>m_gauges := (m_gauges w)(name \<mapsto> v)\<rparr>"

text \<open>\<^verbatim>\<open>now_ns()\<close>.\<close>

definition read_clock :: "mission_schedule \<Rightarrow> int mission_action" where
  "read_clock S w = (Inr (clock_ns S (m_tick w)), w\<lparr>m_tick := Suc (m_tick w)\<rparr>)"

text \<open>A computation that raises without touching the world; \<^verbatim>\<open>except Exception\<close>.\<close>

definition raising :: "mission_error + 'a \<Rightarrow> 'a mission_action" where
  "raising r w = (r, w)"

fun except :: "(mission_error, 'a, mission) outcome \<Rightarrow> (mission_error \<Rightarrow> mission \<Rightarrow> (mission_error, 'a, mission) outcome)
    \<Rightarrow> (mission_error, 'a, mission) outcome" where
  "except (Inl e, w) h = h e w"
| "except (Inr x, w) h = (Inr x, w)"

section \<open>Reading JSON values\<close>

text \<open>A dictionary keeps the position of a repeated key and its last value. \<^verbatim>\<open>json.loads(msg.data)\<close>, \<^verbatim>\<open>v[key]\<close>, \<^verbatim>\<open>v.get(key)\<close>, \<^verbatim>\<open>int(v)\<close> and \<^verbatim>\<open>float(v)\<close> of what it returns.\<close>

fun as_dict :: "json \<Rightarrow> json" where
  "as_dict (JArr vs) = JArr (map as_dict vs)"
| "as_dict (JObj kvs) = JObj (foldl (\<lambda>d (k, v). AList.update k v d) [] (map (\<lambda>(k, v). (k, as_dict v)) kvs))"
| "as_dict v = v"

definition loads :: "bytes \<Rightarrow> mission_error + json" where
  "loads raw = (case json_loads raw of None \<Rightarrow> Inl BadJson | Some v \<Rightarrow> Inr (as_dict v))"

definition item :: "json \<Rightarrow> string \<Rightarrow> mission_error + json" where
  "item v key =
     (case v of
        JObj kvs \<Rightarrow> (case map_of kvs key of None \<Rightarrow> Inl (KeyError key) | Some x \<Rightarrow> Inr x)
      | _ \<Rightarrow> Inl (TypeError ''not subscriptable by a string''))"

definition integer_text :: "string \<Rightarrow> bool" where
  "integer_text s \<longleftrightarrow> list_all (\<lambda>c. c \<noteq> CHR ''.'' \<and> c \<noteq> CHR ''e'' \<and> c \<noteq> CHR ''E'') s"

text \<open>A JSON number is an int when its literal has neither fraction nor exponent, a float otherwise.\<close>

definition json_num :: "string \<Rightarrow> py_num" where
  "json_num s = (case py_float_of s of None \<Rightarrow> NotANumber | Some x \<Rightarrow> x)"

definition truncate :: "rat \<Rightarrow> int" where
  "truncate x = (if x < 0 then - \<lfloor>- x\<rfloor> else \<lfloor>x\<rfloor>)"

definition int_of_json :: "json \<Rightarrow> mission_error + int" where
  "int_of_json v =
     (case v of
        JNum s \<Rightarrow>
          if integer_text s \<and> dec_char (last s)
          then (case py_int 10 s of None \<Rightarrow> Inl (ValueError ''integer string conversion'') | Some n \<Rightarrow> Inr n)
          else (case json_num s of Finite x \<Rightarrow> Inr (truncate x) | _ \<Rightarrow> Inl (ValueError ''cannot convert float to integer''))
      | JStr s \<Rightarrow> (case py_int 10 s of None \<Rightarrow> Inl (ValueError ''invalid literal for int()'') | Some n \<Rightarrow> Inr n)
      | JBool b \<Rightarrow> Inr (if b then 1 else 0)
      | _ \<Rightarrow> Inl (TypeError ''int() argument''))"

definition float_of_json :: "json \<Rightarrow> mission_error + py_num" where
  "float_of_json v =
     (case v of
        JNum s \<Rightarrow> Inr (json_num s)
      | JStr s \<Rightarrow> (case py_float_of s of None \<Rightarrow> Inl (ValueError ''could not convert string to float'') | Some x \<Rightarrow> Inr x)
      | JBool b \<Rightarrow> Inr (Finite (if b then 1 else 0))
      | _ \<Rightarrow> Inl (TypeError ''float() argument''))"

definition int_item :: "json \<Rightarrow> string \<Rightarrow> mission_error + int" where
  "int_item v key = bindE (item v key) int_of_json"

definition float_item :: "json \<Rightarrow> string \<Rightarrow> mission_error + py_num" where
  "float_item v key = bindE (item v key) float_of_json"

text \<open>
  \<^verbatim>\<open>str(v)\<close>. A list or a dictionary, which the services only ever show as the label of a counter, is
  shown as its JSON text.
\<close>

definition num_text :: "py_num \<Rightarrow> string" where
  "num_text x = (case x of Finite r \<Rightarrow> float_repr r | Infinite negative \<Rightarrow> (if negative then ''-inf'' else ''inf'') | NotANumber \<Rightarrow> ''nan'')"

definition str_of_json :: "json \<Rightarrow> string" where
  "str_of_json v =
     (case v of
        JStr s \<Rightarrow> s
      | JNum s \<Rightarrow> (if integer_text s \<and> dec_char (last s) then (case py_int 10 s of None \<Rightarrow> s | Some n \<Rightarrow> py_str n) else num_text (json_num s))
      | JNull \<Rightarrow> ''None''
      | JBool b \<Rightarrow> (if b then ''True'' else ''False'')
      | _ \<Rightarrow> json_text v)"

text \<open>Numbers as \<^verbatim>\<open>json.dumps\<close> prints them.\<close>

definition jint :: "int \<Rightarrow> json" where "jint n = JNum (py_str n)"

definition jfloat :: "py_num \<Rightarrow> json" where
  "jfloat x = JNum (case x of Finite r \<Rightarrow> float_repr r | Infinite negative \<Rightarrow> (if negative then ''-Infinity'' else ''Infinity'') | NotANumber \<Rightarrow> ''NaN'')"

section \<open>Messages are read back\<close>

lemma nat_digits_lead: "2 \<le> b \<Longrightarrow> hd (nat_digits b n) = 0 \<Longrightarrow> n = 0"
proof (induction b n rule: nat_digits.induct)
  case (1 b n)
  show ?case
  proof (cases "n < b")
    case True
    then show ?thesis using "1.prems" by (subst (asm) nat_digits.simps) simp
  next
    case False
    then have "nat_digits b n = nat_digits b (n div b) @ [n mod b]" using "1.prems" by (subst nat_digits.simps) simp
    then have "hd (nat_digits b (n div b)) = 0" using "1.prems" nat_digits_nonempty by (metis hd_append2)
    then have "n div b = 0" using "1.IH" "1.prems" False by simp
    then show ?thesis using False "1.prems" by (simp add: div_eq_0_iff)
  qed
qed

lemma upper_digit_dec_char: "d < 10 \<Longrightarrow> dec_char (upper_digit d)"
  by (simp add: dec_char_def upper_digit_def take_bit_eq_mod Let_def)

lemma number_digits: "json_integer (map upper_digit (nat_digits 10 n)) = Some (map upper_digit (nat_digits 10 n), [])
    \<and> json_integer (CHR ''-'' # map upper_digit (nat_digits 10 n)) = Some (CHR ''-'' # map upper_digit (nat_digits 10 n), [])"
proof -
  let ?s = "map upper_digit (nat_digits 10 n)"
  obtain d es where ds: "nat_digits 10 n = d # es" using nat_digits_nonempty [of 10 n] by (cases "nat_digits 10 n") auto
  have all: "\<forall>x \<in> set (d # es). x < 10" using nat_digits_bound [of 10 _ n] ds by auto
  then have dec: "\<forall>c \<in> set ?s. dec_char c" using ds upper_digit_dec_char by auto
  have zero: "upper_digit d = CHR ''0'' \<Longrightarrow> es = []"
  proof -
    assume "upper_digit d = CHR ''0''"
    then have "of_char (upper_digit d) = (48 :: nat)" by simp
    then have "d = 0" using all by (simp add: upper_digit_def take_bit_eq_mod)
    then have "n = 0" using nat_digits_lead [of 10 n] ds by simp
    then show "es = []" using ds by (subst (asm) nat_digits.simps) simp
  qed
  have minus: "upper_digit d \<noteq> CHR ''-''" using all upper_digit_plain [of d] by simp
  have t: "takeWhile dec_char ?s = ?s" "dropWhile dec_char ?s = []" using dec by (simp_all only: takeWhile_eq_all_conv dropWhile_eq_Nil_conv)
  show ?thesis using zero minus t dec unfolding ds by (auto simp: json_integer_def)
qed

lemma number_py_str: "number_literal (py_str n)"
  using number_digits [of "nat \<bar>n\<bar>"]
  by (auto simp: number_literal_def json_number_def json_fraction_def json_exponent_def py_format_def zero_fill_def)

lemma printable_jint [simp]: "printable (jint n)"
  by (simp add: jint_def number_py_str)

lemma py_str_integer: "integer_text (py_str n) \<and> dec_char (last (py_str n))"
proof -
  let ?ds = "nat_digits 10 (nat \<bar>n\<bar>)"
  have all: "\<forall>d \<in> set ?ds. d < 10" using nat_digits_bound [of 10] by auto
  have s: "py_str n = (if n < 0 then [CHR ''-''] else []) @ map upper_digit ?ds" by (auto simp: py_format_def zero_fill_def)
  have "last (py_str n) = upper_digit (last ?ds)" unfolding s using nat_digits_nonempty by (simp add: last_map)
  moreover have "last ?ds \<in> set ?ds" using nat_digits_nonempty by (rule last_in_set)
  ultimately have l: "dec_char (last (py_str n))" using all upper_digit_dec_char by simp
  have "c \<noteq> CHR ''.'' \<and> c \<noteq> CHR ''e'' \<and> c \<noteq> CHR ''E''" if "dec_char c" for c using that by (auto simp: dec_char_def)
  then have "integer_text (py_str n)" unfolding s integer_text_def using all upper_digit_dec_char by (auto simp: list_all_iff)
  with l show ?thesis by simp
qed

lemma int_of_jint: "int8 n \<Longrightarrow> int_of_json (jint n) = Inr n"
proof -
  assume "int8 n"
  then have "py_int 10 (py_str n) = Some n" by (intro py_int_str [of _ 20]) (auto simp: int8_def)
  then show ?thesis using py_str_integer [of n] by (simp add: int_of_json_def jint_def)
qed

lemma int4_int8: "int4 n \<Longrightarrow> int8 n"
  by (simp add: int4_def int8_def)

text \<open>An object whose keys differ, with values that are not dictionaries, is what is read.\<close>

lemma update_new: "k \<notin> fst ` set d \<Longrightarrow> AList.update k v d = d @ [(k, v)]"
  by (induction d) auto

lemma update_all: "distinct (map fst (d @ kvs)) \<Longrightarrow> foldl (\<lambda>d (k, v). AList.update k v d) d kvs = d @ kvs"
proof (induction kvs arbitrary: d)
  case (Cons kv kvs)
  then show ?case by (cases kv) (simp add: update_new)
qed simp

lemma as_dict_object: "distinct (map fst kvs) \<Longrightarrow> \<forall>(k, v) \<in> set kvs. as_dict v = v \<Longrightarrow> as_dict (JObj kvs) = JObj kvs"
proof -
  assume d: "distinct (map fst kvs)" and v: "\<forall>(k, v) \<in> set kvs. as_dict v = v"
  have "map (\<lambda>(k, v). (k, as_dict v)) kvs = kvs" using v by (induction kvs) auto
  then show ?thesis using update_all [of "[]" kvs] d by simp
qed

lemma as_dict_jint [simp]: "as_dict (jint n) = jint n"
  by (simp add: jint_def)

lemma loads_bytes: "printable v \<Longrightarrow> as_dict v = v \<Longrightarrow> loads (json_bytes v) = Inr v"
  by (simp add: loads_def json_round_trip)

end
