(* ===== verification/Structured_Logging.thy ===== *)
theory Structured_Logging
  imports Ground_Api Mission_World
begin

text \<open>
  Log lines of the telemetry services (\<^verbatim>\<open>mission_ground/telemetry/structured_logging.py\<close>): a record of the
  logging library becomes one line of JSON, and each service configures a logger of its own. A record is
  its attribute dictionary in order, with its level and its formatted message; values the JSON encoder does
  not know are shown by \<^verbatim>\<open>str\<close>. The registry of the library maps a name to its logger.
\<close>

section \<open>Records\<close>

datatype log_value = LNull | LBool bool | LInt int | LFloat py_num | LStr string | LList "log_value list"
  | LDict "(string \<times> log_value) list" | LObject string

text \<open>What \<^verbatim>\<open>json.dumps(..., default=str)\<close> makes of a value; \<open>LObject\<close> holds the text of an object of another type.\<close>

fun log_json :: "log_value \<Rightarrow> json" where
  "log_json LNull = JNull"
| "log_json (LBool b) = JBool b"
| "log_json (LInt n) = jint n"
| "log_json (LFloat x) = jfloat x"
| "log_json (LStr s) = JStr s"
| "log_json (LList vs) = JArr (map log_json vs)"
| "log_json (LDict kvs) = JObj (map (\<lambda>(k, v). (k, log_json v)) kvs)"
| "log_json (LObject s) = JStr s"

record LogRecord =
  lr_levelname :: string
  lr_message :: string
  lr_dict :: "(string \<times> log_value) list"
  lr_exception :: "string option"

definition STANDARD_FIELDS :: "string list" where
  "STANDARD_FIELDS = [''args'', ''asctime'', ''created'', ''exc_info'', ''exc_text'', ''filename'', ''funcName'', ''levelname'',
     ''levelno'', ''lineno'', ''module'', ''msecs'', ''message'', ''msg'', ''name'', ''pathname'', ''process'', ''processName'',
     ''relativeCreated'', ''stack_info'', ''thread'', ''threadName'', ''taskName'']"

text \<open>The loop over \<^verbatim>\<open>record.__dict__\<close>, and \<^verbatim>\<open>JsonFormatter.format\<close>.\<close>

fun add_context :: "(string \<times> json) list \<Rightarrow> (string \<times> log_value) list \<Rightarrow> (string \<times> json) list" where
  "add_context payload [] = payload"
| "add_context payload ((k, v) # kvs) =
     add_context (if k \<notin> set STANDARD_FIELDS \<and> k \<notin> fst ` set payload \<and> \<not> starts_with ''_'' k then payload @ [(k, log_json v)] else payload) kvs"

definition log_header :: "string \<Rightarrow> datetime \<Rightarrow> LogRecord \<Rightarrow> (string \<times> json) list" where
  "log_header service t r =
     [(''timestamp'', JStr (py_replace ''+00:00'' ''Z'' (isoformat t) 0)), (''level'', JStr (lr_levelname r)),
      (''service_name'', JStr service),
      (''event_name'', case map_of (lr_dict r) ''event_name'' of None \<Rightarrow> JStr ''service_log'' | Some v \<Rightarrow> log_json v),
      (''message'', JStr (lr_message r))]"

definition log_payload :: "string \<Rightarrow> datetime \<Rightarrow> LogRecord \<Rightarrow> (string \<times> json) list" where
  "log_payload service t r =
     (let payload = add_context (log_header service t r) (lr_dict r)
      in case lr_exception r of None \<Rightarrow> payload | Some trace \<Rightarrow> AList.update ''exception'' (JStr trace) payload)"

definition log_format :: "string \<Rightarrow> datetime \<Rightarrow> LogRecord \<Rightarrow> string" where
  "log_format service t r = json_text (JObj (log_payload service t r))"

section \<open>Loggers\<close>

text \<open>A handler is a stream handler with the formatter of a service. \<^verbatim>\<open>setLevel\<close> knows these names.\<close>

record Logger =
  lg_handlers :: "string list"
  lg_level :: int
  lg_propagate :: bool

definition new_logger :: Logger where
  "new_logger = \<lparr>lg_handlers = [], lg_level = 0, lg_propagate = True\<rparr>"

definition LEVELS :: "string \<rightharpoonup> int" where
  "LEVELS = map_of [(''CRITICAL'', 50), (''FATAL'', 50), (''ERROR'', 40), (''WARN'', 30), (''WARNING'', 30), (''INFO'', 20), (''DEBUG'', 10),
     (''NOTSET'', 0)]"

definition upper_ascii :: "string \<Rightarrow> string" where
  "upper_ascii = map (\<lambda>c. if 97 \<le> (of_char c :: nat) \<and> (of_char c :: nat) \<le> 122 then char_of ((of_char c :: nat) - 32) else c)"

text \<open>An unknown level is refused when the handlers are already replaced.\<close>

definition configure_logging :: "environment \<Rightarrow> string \<Rightarrow> (string \<rightharpoonup> Logger) \<Rightarrow> (config_error + Logger) \<times> (string \<rightharpoonup> Logger)" where
  "configure_logging environ service loggers =
     (let lg = (case loggers service of None \<Rightarrow> new_logger | Some lg \<Rightarrow> lg);
          lg1 = lg\<lparr>lg_handlers := [service]\<rparr>;
          level = upper_ascii (getenv environ ''LOG_LEVEL'' ''INFO'')
      in case LEVELS level of
           None \<Rightarrow> (Inl (ConfigValueError (''Unknown level: '' @ level)), loggers(service \<mapsto> lg1))
         | Some n \<Rightarrow> let lg2 = lg1\<lparr>lg_level := n, lg_propagate := False\<rparr> in (Inr lg2, loggers(service \<mapsto> lg2)))"

section \<open>The fields of a line\<close>

definition context_field :: "string \<Rightarrow> bool" where
  "context_field k \<longleftrightarrow> k \<notin> set STANDARD_FIELDS \<and> \<not> starts_with ''_'' k"

lemma add_context_keeps: "map_of payload k = Some v \<Longrightarrow> map_of (add_context payload kvs) k = Some v"
  by (induction payload kvs rule: add_context.induct) (auto simp: map_add_Some_iff map_add_def)

lemma add_context_distinct: "distinct (map fst payload) \<Longrightarrow> distinct (map fst (add_context payload kvs))"
  by (induction payload kvs rule: add_context.induct) auto

lemma add_context_field:
  "map_of payload k = None \<Longrightarrow> map_of (add_context payload kvs) k = (if context_field k then map_option log_json (map_of kvs k) else None)"
proof (induction payload kvs rule: add_context.induct)
  case (2 payload k' v kvs)
  let ?p = "if k' \<notin> set STANDARD_FIELDS \<and> k' \<notin> fst ` set payload \<and> \<not> starts_with ''_'' k' then payload @ [(k', log_json v)] else payload"
  show ?case
  proof (cases "k = k'")
    case True
    have "k' \<notin> fst ` set payload" using "2.prems" True by (simp add: map_of_eq_None_iff)
    then show ?thesis using "2.IH" "2.prems" True add_context_keeps [of ?p k "log_json v" kvs]
      by (auto simp: context_field_def map_add_def)
  next
    case False
    then have "map_of ?p k = None" using "2.prems" by (auto simp: map_add_def)
    then show ?thesis using "2.IH" False by simp
  qed
qed simp

lemma add_context_set: "set (add_context payload kvs) \<subseteq> set payload \<union> (\<lambda>(k, v). (k, log_json v)) ` set kvs"
proof (induction payload kvs rule: add_context.induct)
  case (2 payload k v kvs)
  let ?p = "if k \<notin> set STANDARD_FIELDS \<and> k \<notin> fst ` set payload \<and> \<not> starts_with ''_'' k then payload @ [(k, log_json v)] else payload"
  have "set ?p \<subseteq> insert (k, log_json v) (set payload)" by auto
  then show ?case using "2.IH" unfolding add_context.simps by fastforce
qed simp

lemma update_set: "set (AList.update k v kvs) \<subseteq> insert (k, v) (set kvs)"
  by (induction kvs) auto

lemma log_payload_printable:
  assumes "\<forall>(k, v) \<in> set (lr_dict r). printable (log_json v)"
  shows "printable (JObj (log_payload service t r))"
proof -
  have h: "printable v" if "(k, v) \<in> set (log_header service t r)" for k v
    using that assms map_of_SomeD [of "lr_dict r" "''event_name''"] by (fastforce simp: log_header_def split: option.splits)
  have c: "printable v" if "(k, v) \<in> set (add_context (log_header service t r) (lr_dict r))" for k v
    using subsetD [OF add_context_set that] h assms by auto
  have "printable v" if "(k, v) \<in> set (log_payload service t r)" for k v
    using that c [of k v] update_set [of "''exception''"]
    by (fastforce simp: log_payload_def Let_def split: option.splits)
  then show ?thesis by auto
qed

lemma log_payload_distinct: "distinct (map fst (log_payload service t r))"
proof -
  have "distinct (map fst (log_header service t r))" by (simp add: log_header_def)
  then show ?thesis by (auto simp: log_payload_def Let_def add_context_distinct distinct_update split: option.splits)
qed

lemma log_payload_field:
  "map_of (log_payload service t r) k =
     (if k = ''exception'' \<and> lr_exception r \<noteq> None then map_option JStr (lr_exception r)
      else case map_of (log_header service t r) k of Some v \<Rightarrow> Some v
        | None \<Rightarrow> if context_field k then map_option log_json (map_of (lr_dict r) k) else None)"
  using add_context_field [of "log_header service t r" k "lr_dict r"] add_context_keeps [of "log_header service t r" k]
  by (auto simp: log_payload_def Let_def update_conv split: option.splits)

lemma printable_graphic: "printable v \<Longrightarrow> \<forall>c \<in> set (json_text v). 32 \<le> (of_char c :: nat) \<and> (of_char c :: nat) \<le> 126"
  using ascii_json_text by (simp add: list_all_iff ascii_char_def)

text \<open>
  C39. A log record is one line that says what was recorded. Whatever characters its message, its context
  values and its traceback contain, the formatted record has graphic ASCII characters and blanks only, so
  it cannot start a second line, and reading it as JSON gives an object without repeated keys: the time,
  level, service and message of the record, its event name, each context field under its own name with
  its own value, none of which replaces one of the five fields before, no private or standard attribute,
  and the traceback if there is one.
\<close>

theorem log_line_reads_back:
  assumes "\<forall>(k, v) \<in> set (lr_dict r). printable (log_json v)"
  shows "(\<forall>c \<in> set (log_format service t r). 32 \<le> (of_char c :: nat) \<and> (of_char c :: nat) \<le> 126) \<and>
    (\<exists>fields. json_loads (ascii_bytes (log_format service t r)) = Some (JObj fields) \<and> distinct (map fst fields) \<and>
       map_of fields ''level'' = Some (JStr (lr_levelname r)) \<and> map_of fields ''service_name'' = Some (JStr service) \<and>
       map_of fields ''message'' = Some (JStr (lr_message r)) \<and>
       map_of fields ''event_name'' = Some (case map_of (lr_dict r) ''event_name'' of None \<Rightarrow> JStr ''service_log'' | Some v \<Rightarrow> log_json v) \<and>
       map_of fields ''timestamp'' = Some (JStr (py_replace ''+00:00'' ''Z'' (isoformat t) 0)) \<and>
       (\<forall>k. k \<notin> {''timestamp'', ''level'', ''service_name'', ''event_name'', ''message'', ''exception''} \<longrightarrow>
          map_of fields k = (if context_field k then map_option log_json (map_of (lr_dict r) k) else None)) \<and>
       (\<forall>trace. lr_exception r = Some trace \<longrightarrow> map_of fields ''exception'' = Some (JStr trace)))"
proof -
  let ?fields = "log_payload service t r"
  note p = log_payload_printable [OF assms, of service t]
  have "json_loads (ascii_bytes (log_format service t r)) = Some (JObj ?fields)"
    using json_round_trip [OF p] by (simp only: log_format_def json_bytes_def)
  moreover have "\<forall>c \<in> set (log_format service t r). 32 \<le> (of_char c :: nat) \<and> (of_char c :: nat) \<le> 126"
    unfolding log_format_def by (rule printable_graphic [OF p])
  ultimately show ?thesis using log_payload_distinct [of service t r]
    by (intro conjI exI [of _ ?fields]) (simp_all add: log_payload_field log_header_def)
qed

definition sample_record :: LogRecord where
  "sample_record = \<lparr>lr_levelname = ''WARNING'', lr_message = ''forward'' @ [CHR 0x0A] @ ''failed'',
     lr_dict = [(''name'', LStr ''vendor''), (''attempt'', LInt 2), (''level'', LStr ''DEBUG''), (''_hidden'', LNull)], lr_exception = None\<rparr>"

theorem log_line_reads_back_witness:
  "\<exists>fields. json_loads (ascii_bytes (log_format ''vendor'' (utc 1784203200000000) sample_record)) = Some (JObj fields) \<and>
     map_of fields ''attempt'' = Some (jint 2) \<and> map_of fields ''level'' = Some (JStr ''WARNING'')"
proof -
  have "context_field ''attempt''" by (simp add: context_field_def STANDARD_FIELDS_def)
  moreover have "\<forall>(k, v) \<in> set (lr_dict sample_record). printable (log_json v)" by (simp add: sample_record_def)
  ultimately show ?thesis using log_line_reads_back [of sample_record "''vendor''" "utc 1784203200000000"] by (fastforce simp: sample_record_def)
qed

section \<open>One logger per service\<close>

text \<open>
  However often a service configures its logger, it has one handler, with its own name, its records do not
  reach the loggers above it, and no other logger is changed.
\<close>

lemma configured_once:
  assumes "configure_logging environ service loggers = (Inr lg, loggers')"
  shows "lg_handlers lg = [service] \<and> \<not> lg_propagate lg \<and> loggers' = loggers(service \<mapsto> lg)
    \<and> configure_logging environ service loggers' = (Inr lg, loggers')"
  using assms by (auto simp: configure_logging_def Let_def split: option.splits)

end
