(* ===== verification/Spacecraft_Sim.thy ===== *)
theory Spacecraft_Sim
  imports Mission_Common
begin

text \<open>
  The spacecraft simulator (\<^verbatim>\<open>mission_ground/services/spacecraft_sim.py\<close>): the command state with its
  memory of results, the command receiver, and the telemetry loop. The process is a record: the
  \<^verbatim>\<open>SpacecraftState\<close>, the loop's tick counter, the datagrams sent to the ground, and its Prometheus
  counters and gauges. \<^verbatim>\<open>math.sin\<close> is a parameter and \<^verbatim>\<open>random.uniform\<close>, the clock and the fate of a send are arguments;
  the properties assume of them what their documentation says (a sine between -1 and 1, a draw within
  its bounds, nanoseconds that fit 64 bits). Both loops of the process are sequences of events.
\<close>

section \<open>Command state\<close>

record SpacecraftState =
  sc_mode :: int
  sc_wheel_rpm :: int
  sc_fault_flags :: int
  sc_health_sequence :: int
  sc_ack_sequence :: int
  sc_command_results :: "int \<rightharpoonup> CommandAck"

definition initial_spacecraft :: SpacecraftState where
  "initial_spacecraft = \<lparr>sc_mode = 1, sc_wheel_rpm = 1200, sc_fault_flags = 0, sc_health_sequence = 0,
     sc_ack_sequence = 0, sc_command_results = Map.empty\<rparr>"

definition apply_command :: "int \<Rightarrow> bytes \<Rightarrow> SpacecraftState \<Rightarrow> (packet_error + CommandAck) \<times> SpacecraftState" where
  "apply_command now_ns raw self =
     (case decode_command raw of
        Inl e \<Rightarrow> (Inl e, self)
      | Inr frame \<Rightarrow>
          (case sc_command_results self (cf_command_id frame) of
             Some cached \<Rightarrow> (Inr cached, self)
           | None \<Rightarrow>
               (let name = map_of OPCODE_TO_NAME (cf_opcode frame); argument = cf_argument frame;
                    (status, self1) =
                      (if name = Some ''SET_MODE'' \<and> 0 \<le> argument \<and> argument \<le> 3
                       then (0, self\<lparr>sc_mode := argument\<rparr>)
                       else if name = Some ''SET_WHEEL_RPM'' \<and> -6000 \<le> argument \<and> argument \<le> 6000
                       then (0, self\<lparr>sc_wheel_rpm := argument\<rparr>)
                       else if name = Some ''RESET_FAULTS'' \<and> argument = 0
                       then (0, self\<lparr>sc_fault_flags := 0\<rparr>)
                       else (1, self));
                    ack = \<lparr>ca_command_id = cf_command_id frame, ca_status = status, ca_applied_value = argument,
                           ca_timestamp_ns = now_ns\<rparr>
                in (Inr ack, self1\<lparr>sc_command_results := (sc_command_results self1)(cf_command_id frame \<mapsto> ack)\<rparr>))))"

section \<open>The process\<close>

record spacecraft =
  sp_state :: SpacecraftState
  sp_tick :: int
  sp_connected :: bool
  sp_sent :: "bytes list"
  sp_counts :: "(string \<times> string) list"
  sp_bus_voltage :: rat
  sp_battery_temp :: rat

datatype sim_error = SimPacketError packet_error | SimAssertion | SimOSError | SimZeroDivision

abbreviation count :: "string \<Rightarrow> string \<Rightarrow> spacecraft \<Rightarrow> spacecraft" where
  "count counter label p \<equiv> p\<lparr>sp_counts := sp_counts p @ [(counter, label)]\<rparr>"

definition connection_made :: "spacecraft \<Rightarrow> spacecraft" where
  "connection_made p = p\<lparr>sp_connected := True\<rparr>"

definition next_sequence_count :: "int \<Rightarrow> int" where
  "next_sequence_count n = (n + 1) AND 0x3FFF"

definition malformed_command :: "spacecraft \<Rightarrow> (sim_error + unit) \<times> spacecraft" where
  "malformed_command p = (Inr (), count ''spacecraft_commands_received_total'' ''malformed'' p)"

text \<open>The handler catches \<^verbatim>\<open>PacketError\<close>, not \<^verbatim>\<open>struct.error\<close>.\<close>

definition datagram_received :: "int \<Rightarrow> bytes \<Rightarrow> spacecraft \<Rightarrow> (sim_error + unit) \<times> spacecraft" where
  "datagram_received now_ns data p =
     (case apply_command now_ns data (sp_state p) of
        (Inl (PacketError m), st) \<Rightarrow> malformed_command (p\<lparr>sp_state := st\<rparr>)
      | (Inl e, st) \<Rightarrow> (Inl (SimPacketError e), p\<lparr>sp_state := st\<rparr>)
      | (Inr ack, st) \<Rightarrow>
          (let status = (if ca_status ack = 0 then ''accepted'' else ''rejected'');
               p1 = count ''spacecraft_commands_received_total'' status (p\<lparr>sp_state := st\<rparr>)
           in case encode_ack (sc_ack_sequence st) ack of
                Inl (PacketError m) \<Rightarrow> malformed_command p1
              | Inl e \<Rightarrow> (Inl (SimPacketError e), p1)
              | Inr raw_ack \<Rightarrow>
                  (let p2 = p1\<lparr>sp_state := st\<lparr>sc_ack_sequence := next_sequence_count (sc_ack_sequence st)\<rparr>\<rparr>
                   in if \<not> sp_connected p2 then (Inl SimAssertion, p2)
                      else (Inr (), count ''spacecraft_packets_sent_total'' ''command_ack''
                              (p2\<lparr>sp_sent := sp_sent p2 @ [raw_ack]\<rparr>)))))"

text \<open>One turn of \<^verbatim>\<open>telemetry_loop\<close>; \<open>draw\<close> is what \<^verbatim>\<open>random.uniform(-0.4, 0.4)\<close> returns.\<close>

definition float_add :: "rat \<Rightarrow> rat \<Rightarrow> rat" where "float_add x y = round_double (x + y)"

definition float_mult :: "rat \<Rightarrow> rat \<Rightarrow> rat" where "float_mult x y = round_double (x * y)"

definition float_lit :: "rat \<Rightarrow> rat" where "float_lit x = round_double x"

text \<open>
  \<open>sent\<close> tells whether \<^verbatim>\<open>sock.sendto\<close> of the blocking socket succeeds; if not, its \<^verbatim>\<open>OSError\<close> leaves the loop.
  The turn ends with \<^verbatim>\<open>asyncio.sleep(1.0 / rate_hz)\<close>: the division by a zero raises, every other rate,
  negative, infinite or NaN, gives a delay that \<^verbatim>\<open>asyncio.sleep\<close> of Python 3.12 takes.
\<close>

definition telemetry_pause :: "py_num \<Rightarrow> sim_error + unit" where
  "telemetry_pause rate_hz = (if rate_hz = Finite 0 then Inl SimZeroDivision else Inr ())"

definition telemetry_tick ::
  "(rat \<Rightarrow> rat) \<Rightarrow> int \<Rightarrow> py_num \<Rightarrow> int \<Rightarrow> rat \<Rightarrow> bool \<Rightarrow> spacecraft \<Rightarrow> (sim_error + unit) \<times> spacecraft" where
  "telemetry_tick sine anomaly_every rate_hz now_ns draw sent p =
     (let tick = sp_tick p + 1;
          anomaly = (0 < anomaly_every \<and> tick mod anomaly_every = 0);
          voltage = (if anomaly then float_lit (228 / 10)
                     else float_add (float_lit (284 / 10)) (float_mult (sine (round_double (of_int tick / 30))) (float_lit (3 / 10))));
          temperature = (if anomaly then 69 else float_add 31 draw);
          st = (if anomaly then (sp_state p)\<lparr>sc_fault_flags := sc_fault_flags (sp_state p) OR 1\<rparr> else sp_state p);
          sample = \<lparr>ht_timestamp_ns = now_ns, ht_bus_voltage_v = voltage, ht_battery_temp_c = temperature,
                    ht_wheel_rpm = sc_wheel_rpm st, ht_mode = sc_mode st, ht_fault_flags = sc_fault_flags st\<rparr>;
          p1 = p\<lparr>sp_tick := tick, sp_state := st\<rparr>
      in case encode_health (sc_health_sequence st) sample of
           Inl e \<Rightarrow> (Inl (SimPacketError e), p1)
         | Inr raw \<Rightarrow>
             if \<not> sent then (Inl SimOSError, p1)
             else (telemetry_pause rate_hz, count ''spacecraft_packets_sent_total'' ''health''
                (p1\<lparr>sp_sent := sp_sent p1 @ [raw],
                    sp_state := st\<lparr>sc_health_sequence := next_sequence_count (sc_health_sequence st)\<rparr>,
                    sp_bus_voltage := voltage, sp_battery_temp := temperature\<rparr>)))"

definition initial_process :: spacecraft where
  "initial_process = connection_made
     \<lparr>sp_state = initial_spacecraft, sp_tick = 0, sp_connected = False, sp_sent = [], sp_counts = [],
      sp_bus_voltage = 0, sp_battery_temp = 0\<rparr>"

datatype sc_event = Datagram int bytes | Tick int rat bool

fun sc_step :: "(rat \<Rightarrow> rat) \<Rightarrow> int \<Rightarrow> py_num \<Rightarrow> sc_event \<Rightarrow> spacecraft \<Rightarrow> (sim_error + unit) \<times> spacecraft" where
  "sc_step sine every rate_hz (Datagram now data) p = datagram_received now data p"
| "sc_step sine every rate_hz (Tick now draw sent) p = telemetry_tick sine every rate_hz now draw sent p"

text \<open>
  An exception that escapes a datagram handler is logged by the event loop, which goes on; one that
  escapes the telemetry loop ends the process.
\<close>

fun sc_run :: "(rat \<Rightarrow> rat) \<Rightarrow> int \<Rightarrow> py_num \<Rightarrow> sc_event list \<Rightarrow> spacecraft \<Rightarrow> (sim_error + unit) \<times> spacecraft" where
  "sc_run sine every rate_hz [] p = (Inr (), p)"
| "sc_run sine every rate_hz (e # es) p =
     (case sc_step sine every rate_hz e p of
        (Inr _, p') \<Rightarrow> sc_run sine every rate_hz es p'
      | (Inl err, p') \<Rightarrow> (case e of Datagram _ _ \<Rightarrow> sc_run sine every rate_hz es p' | Tick _ _ _ \<Rightarrow> (Inl err, p')))"

section \<open>Bounds of the telemetry values\<close>

definition fits_health :: "HealthTelemetry \<Rightarrow> bool" where
  "fits_health h \<longleftrightarrow> 0 \<le> ht_timestamp_ns h \<and> ht_timestamp_ns h < 2 ^ 64 \<and>
     1 \<le> ht_bus_voltage_v h \<and> ht_bus_voltage_v h \<le> 60 \<and> - 300 \<le> ht_battery_temp_c h \<and> ht_battery_temp_c h \<le> 300 \<and>
     - 2147483648 \<le> ht_wheel_rpm h \<and> ht_wheel_rpm h < 2147483648 \<and> 0 \<le> ht_mode h \<and> ht_mode h < 256 \<and>
     0 \<le> ht_fault_flags h \<and> ht_fault_flags h < 256"

lemma encode_health_fits:
  assumes "fits_health h" "0 \<le> s" "s \<le> 16383"
  shows "\<exists>raw. encode_health s h = Inr raw"
proof -
  have v: "\<bar>of_int (round_scaled (ht_bus_voltage_v h) 1000) - ht_bus_voltage_v h * 1000\<bar> \<le> 1"
    "\<bar>of_int (round_scaled (ht_battery_temp_c h) 100) - ht_battery_temp_c h * 100\<bar> \<le> 1"
    using assms(1) round_scaled_near [of "ht_bus_voltage_v h" 1000] round_scaled_near [of "ht_battery_temp_c h" 100]
    by (auto simp: fits_health_def)
  have "0 < (of_int (round_scaled (ht_bus_voltage_v h) 1000) :: rat)" "(of_int (round_scaled (ht_bus_voltage_v h) 1000) :: rat) < 65000"
    "- 32000 < (of_int (round_scaled (ht_battery_temp_c h) 100) :: rat)" "(of_int (round_scaled (ht_battery_temp_c h) 100) :: rat) < 32000"
    using v assms(1) unfolding fits_health_def by linarith+
  then have "0 < round_scaled (ht_bus_voltage_v h) 1000" "round_scaled (ht_bus_voltage_v h) 1000 < 65000"
    "- 32000 < round_scaled (ht_battery_temp_c h) 100" "round_scaled (ht_battery_temp_c h) 100 < 32000"
    by linarith+
  then obtain payload where p: "struct_pack HEALTH_PAYLOAD [ht_timestamp_ns h, round_scaled (ht_bus_voltage_v h) 1000,
        round_scaled (ht_battery_temp_c h) 100, ht_wheel_rpm h, ht_mode h, ht_fault_flags h] = Some payload"
    using assms(1) by (simp add: HEALTH_PAYLOAD_def pack_code_def code_min_def code_limit_def fits_health_def)
  have "length payload = 18" by (rule health.pack_size [OF p])
  then have "payload \<noteq> []" by auto
  then show ?thesis using p assms(2,3) \<open>length payload = 18\<close>
    by (simp add: encode_health_def pack_or_error_def encode_space_packet_Inr APID_HEALTH_def)
qed

lemma encode_ack_fits:
  assumes "0 \<le> ca_command_id a" "ca_command_id a < 2 ^ 32" "0 \<le> ca_status a" "ca_status a < 256"
    "- 2147483648 \<le> ca_applied_value a" "ca_applied_value a < 2147483648" "0 \<le> ca_timestamp_ns a" "ca_timestamp_ns a < 2 ^ 64"
    "0 \<le> s" "s \<le> 16383"
  shows "\<exists>raw. encode_ack s a = Inr raw"
proof -
  obtain payload where p: "struct_pack ACK_PAYLOAD [ca_command_id a, ca_status a, ca_applied_value a, ca_timestamp_ns a] = Some payload"
    using assms by (simp add: ACK_PAYLOAD_def pack_code_def code_min_def code_limit_def)
  have "length payload = 17" by (rule ack_wire.pack_size [OF p])
  then have "payload \<noteq> []" by auto
  then show ?thesis using p assms(9,10) \<open>length payload = 17\<close>
    by (simp add: encode_ack_def pack_or_error_def encode_space_packet_Inr APID_COMMAND_ACK_def)
qed

lemma decode_command_bounds:
  assumes "decode_command raw = Inr f"
  shows "0 \<le> cf_command_id f \<and> cf_command_id f < 2 ^ 32 \<and> - 2147483648 \<le> cf_argument f \<and> cf_argument f < 2147483648"
  using assms
  by (auto simp: decode_iff_encode_command encode_command_Inr COMMAND_PAYLOAD_def pack_code_def code_min_def code_limit_def
      split: option.splits if_splits)

section \<open>The invariant of the command state\<close>

definition ack_ok :: "int \<Rightarrow> CommandAck \<Rightarrow> bool" where
  "ack_ok cid a \<longleftrightarrow> ca_command_id a = cid \<and> 0 \<le> cid \<and> cid < 2 ^ 32 \<and> (ca_status a = 0 \<or> ca_status a = 1) \<and>
     - 2147483648 \<le> ca_applied_value a \<and> ca_applied_value a < 2147483648 \<and> 0 \<le> ca_timestamp_ns a \<and> ca_timestamp_ns a < 2 ^ 64"

definition spacecraft_inv :: "SpacecraftState \<Rightarrow> bool" where
  "spacecraft_inv s \<longleftrightarrow> 0 \<le> sc_mode s \<and> sc_mode s \<le> 3 \<and> -6000 \<le> sc_wheel_rpm s \<and> sc_wheel_rpm s \<le> 6000 \<and>
     (sc_fault_flags s = 0 \<or> sc_fault_flags s = 1) \<and> 0 \<le> sc_health_sequence s \<and> sc_health_sequence s \<le> 16383 \<and>
     0 \<le> sc_ack_sequence s \<and> sc_ack_sequence s \<le> 16383 \<and>
     (\<forall>cid a. sc_command_results s cid = Some a \<longrightarrow> ack_ok cid a)"

text \<open>Executing a new command.\<close>

definition executes :: "CommandFrame \<Rightarrow> SpacecraftState \<Rightarrow> int \<times> SpacecraftState" where
  "executes frame s =
     (if cf_opcode frame = 1 \<and> 0 \<le> cf_argument frame \<and> cf_argument frame \<le> 3 then (0, s\<lparr>sc_mode := cf_argument frame\<rparr>)
      else if cf_opcode frame = 2 \<and> -6000 \<le> cf_argument frame \<and> cf_argument frame \<le> 6000
      then (0, s\<lparr>sc_wheel_rpm := cf_argument frame\<rparr>)
      else if cf_opcode frame = 3 \<and> cf_argument frame = 0 then (0, s\<lparr>sc_fault_flags := 0\<rparr>)
      else (1, s))"

lemma opcode_names:
  "map_of OPCODE_TO_NAME n = (if n = 1 then Some ''SET_MODE'' else if n = 2 then Some ''SET_WHEEL_RPM''
     else if n = 3 then Some ''RESET_FAULTS'' else None)"
  by (simp add: OPCODE_TO_NAME_def COMMANDS_def)

definition ack_of :: "int \<Rightarrow> CommandFrame \<Rightarrow> int \<Rightarrow> CommandAck" where
  "ack_of now frame status = \<lparr>ca_command_id = cf_command_id frame, ca_status = status, ca_applied_value = cf_argument frame,
     ca_timestamp_ns = now\<rparr>"

lemma apply_command_new:
  assumes "decode_command raw = Inr frame" "sc_command_results s (cf_command_id frame) = None"
  shows "apply_command now raw s =
    (Inr (ack_of now frame (fst (executes frame s))),
     (snd (executes frame s))\<lparr>sc_command_results := (sc_command_results s)(cf_command_id frame \<mapsto> ack_of now frame (fst (executes frame s)))\<rparr>)"
  using assms by (simp add: apply_command_def opcode_names executes_def Let_def ack_of_def)

lemma apply_command_cached:
  "decode_command raw = Inr frame \<Longrightarrow> sc_command_results s (cf_command_id frame) = Some a \<Longrightarrow> apply_command now raw s = (Inr a, s)"
  by (simp add: apply_command_def)

lemma apply_command_malformed: "decode_command raw = Inl e \<Longrightarrow> apply_command now raw s = (Inl e, s)"
  by (simp add: apply_command_def)

lemma decode_command_error: "decode_command raw = Inl e \<Longrightarrow> \<exists>m. e = PacketError m"
proof (cases "length raw = 21")
  case True
  assume "decode_command raw = Inl e"
  moreover obtain vs where "struct_unpack COMMAND_PAYLOAD (take 17 raw) = Some vs"
    using command_wire.unpack_total [of "take 17 raw"] True by auto
  ultimately show ?thesis using True by (auto simp: decode_command_long unpack_or_error_def split: if_splits)
qed (auto simp: decode_command_def)

lemma executes_inv:
  assumes "spacecraft_inv s"
  shows "spacecraft_inv (snd (executes frame s)) \<and> (fst (executes frame s) = 0 \<or> fst (executes frame s) = 1)
    \<and> sc_command_results (snd (executes frame s)) = sc_command_results s"
  using assms by (auto simp: executes_def spacecraft_inv_def)

lemma apply_command_inv:
  assumes s: "spacecraft_inv s" and now: "0 \<le> now" "now < 2 ^ 64"
  shows "spacecraft_inv (snd (apply_command now raw s)) \<and>
    (\<forall>a. fst (apply_command now raw s) = Inr a \<longrightarrow> ack_ok (ca_command_id a) a \<and> sc_command_results (snd (apply_command now raw s)) (ca_command_id a) = Some a)"
proof (cases "decode_command raw")
  case (Inl e)
  then show ?thesis using s by (simp add: apply_command_malformed)
next
  case (Inr frame)
  note b = decode_command_bounds [OF Inr]
  show ?thesis
  proof (cases "sc_command_results s (cf_command_id frame)")
    case None
    let ?a = "ack_of now frame (fst (executes frame s))"
    have "ack_ok (cf_command_id frame) ?a" using executes_inv [OF s, of frame] b now by (simp add: ack_ok_def ack_of_def)
    then show ?thesis using executes_inv [OF s, of frame] apply_command_new [OF Inr None, of now]
      by (auto simp: spacecraft_inv_def ack_of_def)
  next
    case (Some a)
    then have "ack_ok (cf_command_id frame) a" using s by (simp add: spacecraft_inv_def)
    then show ?thesis using apply_command_cached [OF Inr Some, of now] s Some by (auto simp: ack_ok_def)
  qed
qed

lemma next_sequence_range: "0 \<le> next_sequence_count n \<and> next_sequence_count n \<le> 16383"
  using and_low_bits [of "n + 1" 14] pos_mod_bound [of 16384 "n + 1"] by (simp add: next_sequence_count_def)

text \<open>What a received command leads to: the answer, and the state.\<close>

lemma datagram_received_command:
  assumes p: "spacecraft_inv (sp_state p)" "sp_connected p" and now: "0 \<le> now" "now < 2 ^ 64"
    and a: "apply_command now data (sp_state p) = (Inr a, st)"
  shows "\<exists>raw. encode_ack (sc_ack_sequence st) a = Inr raw \<and>
    datagram_received now data p =
      (Inr (), p\<lparr>sp_state := st\<lparr>sc_ack_sequence := next_sequence_count (sc_ack_sequence st)\<rparr>, sp_sent := sp_sent p @ [raw],
         sp_counts := sp_counts p @ [(''spacecraft_commands_received_total'', if ca_status a = 0 then ''accepted'' else ''rejected''),
            (''spacecraft_packets_sent_total'', ''command_ack'')]\<rparr>)"
proof -
  have "spacecraft_inv st" "ack_ok (ca_command_id a) a" using apply_command_inv [OF p(1) now, of data] a by auto
  then obtain raw where "encode_ack (sc_ack_sequence st) a = Inr raw"
    using encode_ack_fits [of a "sc_ack_sequence st"] by (auto simp: ack_ok_def spacecraft_inv_def)
  then show ?thesis using a p(2) by (simp add: datagram_received_def Let_def)
qed

lemma datagram_received_malformed:
  assumes "decode_command data = Inl e"
  shows "datagram_received now data p = (Inr (), count ''spacecraft_commands_received_total'' ''malformed'' p)"
  using decode_command_error [OF assms] apply_command_malformed [OF assms, of now "sp_state p"]
  by (auto simp: datagram_received_def malformed_command_def)

lemma nominal_voltage:
  assumes "\<bar>s\<bar> \<le> 1"
  shows "28 \<le> float_add (float_lit (284 / 10)) (float_mult s (float_lit (3 / 10)))"
    "float_add (float_lit (284 / 10)) (float_mult s (float_lit (3 / 10))) \<le> 29"
proof -
  have l: "\<bar>float_lit (3 / 10) - 3 / 10\<bar> \<le> 1 / 500" "\<bar>float_lit (284 / 10) - 284 / 10\<bar> \<le> 1 / 500"
    unfolding float_lit_def by (rule round_double_small, simp)+
  then have "\<bar>float_lit (3 / 10)\<bar> \<le> 302 / 1000" by linarith
  then have "\<bar>s * float_lit (3 / 10)\<bar> \<le> 1 * (302 / 1000)"
    unfolding abs_mult using assms by (intro mult_mono) auto
  then have m: "\<bar>float_mult s (float_lit (3 / 10))\<bar> \<le> 304 / 1000"
    using round_double_small [of "s * float_lit (3 / 10)"] unfolding float_mult_def by linarith
  then have "\<bar>float_add (float_lit (284 / 10)) (float_mult s (float_lit (3 / 10)))
      - (float_lit (284 / 10) + float_mult s (float_lit (3 / 10)))\<bar> \<le> 1 / 500"
    unfolding float_add_def using l by (intro round_double_small) linarith
  then show "28 \<le> float_add (float_lit (284 / 10)) (float_mult s (float_lit (3 / 10)))"
    "float_add (float_lit (284 / 10)) (float_mult s (float_lit (3 / 10))) \<le> 29"
    using l m by linarith+
qed

lemma anomaly_voltage: "22 \<le> float_lit (228 / 10)" "float_lit (228 / 10) \<le> 23"
  using round_double_small [of "228 / 10"] unfolding float_lit_def by linarith+

lemma nominal_temperature:
  assumes "\<bar>draw\<bar> \<le> float_lit (4 / 10)"
  shows "30 \<le> float_add 31 draw" "float_add 31 draw \<le> 32"
proof -
  have "\<bar>float_lit (4 / 10) - 4 / 10\<bar> \<le> 1 / 500" unfolding float_lit_def by (rule round_double_small) simp
  then have "\<bar>draw\<bar> \<le> 1 / 2" using assms by linarith
  then show "30 \<le> float_add 31 draw" "float_add 31 draw \<le> 32"
    using round_double_small [of "31 + draw"] unfolding float_add_def by linarith+
qed

lemma spacecraft_inv_bounds:
  assumes "spacecraft_inv s"
  shows "- 2147483648 \<le> sc_wheel_rpm s \<and> sc_wheel_rpm s < 2147483648 \<and> 0 \<le> sc_mode s \<and> sc_mode s < 256 \<and>
    0 \<le> sc_fault_flags s \<and> sc_fault_flags s < 256"
  using assms by (auto simp: spacecraft_inv_def)

lemma telemetry_tick_ok:
  assumes p: "spacecraft_inv (sp_state p)" and now: "0 \<le> now" "now < 2 ^ 64"
    and sine: "\<forall>x. \<bar>sine x\<bar> \<le> 1" and draw: "\<bar>draw\<bar> \<le> float_lit (4 / 10)"
  shows "\<exists>p' raw. telemetry_tick sine every rate_hz now draw sent p = (if sent then telemetry_pause rate_hz else Inl SimOSError, p') \<and>
    spacecraft_inv (sp_state p') \<and> sp_connected p' = sp_connected p \<and> sp_sent p' = sp_sent p @ (if sent then [raw] else []) \<and>
    (\<exists>q h. decode_space_packet raw = Inr q \<and> decode_health q = Inr h) \<and>
    sc_command_results (sp_state p') = sc_command_results (sp_state p)"
proof -
  let ?tick = "sp_tick p + 1"
  let ?anomaly = "0 < every \<and> ?tick mod every = 0"
  let ?v = "if ?anomaly then float_lit (228 / 10)
    else float_add (float_lit (284 / 10)) (float_mult (sine (round_double (of_int ?tick / 30))) (float_lit (3 / 10)))"
  let ?t = "if ?anomaly then 69 else float_add 31 draw"
  let ?st = "if ?anomaly then (sp_state p)\<lparr>sc_fault_flags := sc_fault_flags (sp_state p) OR 1\<rparr> else sp_state p"
  have between: "a \<le> (if c then x else y) \<and> (if c then x else y) \<le> b" if "a \<le> x \<and> x \<le> b" "a \<le> y \<and> y \<le> b"
    for a b x y :: rat and c using that by simp
  have s1: "\<bar>sine (round_double (of_int ?tick / 30))\<bar> \<le> 1" using sine by blast
  have v: "1 \<le> ?v \<and> ?v \<le> 60"
    by (rule between) (use anomaly_voltage nominal_voltage [OF s1] in linarith)+
  have t: "- 300 \<le> ?t \<and> ?t \<le> 300"
    by (rule between) (use nominal_temperature [OF draw] in linarith)+
  have st: "spacecraft_inv ?st" using p by (auto simp: spacecraft_inv_def)
  let ?sample = "\<lparr>ht_timestamp_ns = now, ht_bus_voltage_v = ?v, ht_battery_temp_c = ?t, ht_wheel_rpm = sc_wheel_rpm ?st,
     ht_mode = sc_mode ?st, ht_fault_flags = sc_fault_flags ?st\<rparr>"
  have "fits_health ?sample" unfolding fits_health_def HealthTelemetry.simps
    using v t spacecraft_inv_bounds [OF st] now by blast
  then obtain raw where raw: "encode_health (sc_health_sequence ?st) ?sample = Inr raw"
    using encode_health_fits [of ?sample "sc_health_sequence ?st"] st by (auto simp: spacecraft_inv_def)
  have "spacecraft_inv (?st\<lparr>sc_health_sequence := next_sequence_count (sc_health_sequence ?st)\<rparr>)"
    using st next_sequence_range [of "sc_health_sequence ?st"] by (simp add: spacecraft_inv_def)
  then show ?thesis using health_travels [OF raw] raw st unfolding telemetry_tick_def Let_def by (cases sent) auto
qed

text \<open>A datagram of any content is handled: the invariant stays, and what is sent decodes.\<close>

lemma datagram_received_ok:
  assumes p: "spacecraft_inv (sp_state p)" "sp_connected p" and now: "0 \<le> now" "now < 2 ^ 64"
  shows "\<exists>p'. datagram_received now data p = (Inr (), p') \<and> spacecraft_inv (sp_state p') \<and> sp_connected p' \<and>
    (sp_sent p' = sp_sent p \<or>
     (\<exists>raw q a. sp_sent p' = sp_sent p @ [raw] \<and> decode_space_packet raw = Inr q \<and> decode_ack q = Inr a \<and>
        sc_command_results (sp_state p') (ca_command_id a) = Some a))"
proof (cases "decode_command data")
  case (Inl e)
  then show ?thesis using datagram_received_malformed [OF Inl] p by simp
next
  case (Inr frame)
  obtain a st where a: "apply_command now data (sp_state p) = (Inr a, st)"
  proof (cases "sc_command_results (sp_state p) (cf_command_id frame)")
    case None
    then show ?thesis using that apply_command_new [OF Inr None] by blast
  next
    case (Some c)
    then show ?thesis using that apply_command_cached [OF Inr Some] by blast
  qed
  have st: "spacecraft_inv st" "sc_command_results st (ca_command_id a) = Some a"
    using apply_command_inv [OF p(1) now, of data] a by auto
  obtain raw where e: "encode_ack (sc_ack_sequence st) a = Inr raw"
    and d: "datagram_received now data p =
      (Inr (), p\<lparr>sp_state := st\<lparr>sc_ack_sequence := next_sequence_count (sc_ack_sequence st)\<rparr>, sp_sent := sp_sent p @ [raw],
         sp_counts := sp_counts p @ [(''spacecraft_commands_received_total'', if ca_status a = 0 then ''accepted'' else ''rejected''),
            (''spacecraft_packets_sent_total'', ''command_ack'')]\<rparr>)"
    using datagram_received_command [OF p now a] by blast
  show ?thesis
    using d ack_travels [OF e] st p(2) next_sequence_range [of "sc_ack_sequence st"] by (auto simp: spacecraft_inv_def)
qed

text \<open>What the environment may do: clocks of 64 bits, and draws within their bounds.\<close>

fun plausible :: "sc_event \<Rightarrow> bool" where
  "plausible (Datagram now data) \<longleftrightarrow> 0 \<le> now \<and> now < 2 ^ 64"
| "plausible (Tick now draw sent) \<longleftrightarrow> 0 \<le> now \<and> now < 2 ^ 64 \<and> \<bar>draw\<bar> \<le> float_lit (4 / 10)"

text \<open>A turn of the telemetry loop whose packet the socket does not take.\<close>

fun send_fails :: "sc_event \<Rightarrow> bool" where
  "send_fails (Datagram now data) = False"
| "send_fails (Tick now draw sent) = (\<not> sent)"

definition ground_readable :: "bytes \<Rightarrow> bool" where
  "ground_readable raw \<longleftrightarrow> (\<exists>q. decode_space_packet raw = Inr q \<and> ((\<exists>h. decode_health q = Inr h) \<or> (\<exists>a. decode_ack q = Inr a)))"

lemma sc_step_ok:
  assumes "spacecraft_inv (sp_state p)" "sp_connected p" "plausible e" "\<forall>x. \<bar>sine x\<bar> \<le> 1" "\<forall>raw \<in> set (sp_sent p). ground_readable raw"
    and rate: "rate_hz \<noteq> Finite 0"
  shows "\<exists>p'. sc_step sine every rate_hz e p = (if send_fails e then Inl SimOSError else Inr (), p') \<and>
    spacecraft_inv (sp_state p') \<and> sp_connected p' \<and> (\<forall>raw \<in> set (sp_sent p'). ground_readable raw)"
proof (cases e)
  case (Datagram now data)
  then show ?thesis using datagram_received_ok [of p now data] assms by (fastforce simp: ground_readable_def)
next
  case (Tick now draw sent)
  then show ?thesis using telemetry_tick_ok [of p now sine draw every rate_hz sent] assms
    by (cases sent) (fastforce simp: ground_readable_def telemetry_pause_def)+
qed

lemma sc_run_ok:
  assumes "spacecraft_inv (sp_state p)" "sp_connected p" "\<forall>e \<in> set es. plausible e" "\<forall>x. \<bar>sine x\<bar> \<le> 1"
    "\<forall>raw \<in> set (sp_sent p). ground_readable raw" and rate: "rate_hz \<noteq> Finite 0"
  shows "\<exists>p'. sc_run sine every rate_hz es p = (if list_ex send_fails es then Inl SimOSError else Inr (), p') \<and>
    spacecraft_inv (sp_state p') \<and> sp_connected p' \<and> (\<forall>raw \<in> set (sp_sent p'). ground_readable raw)"
  using assms(1-5)
proof (induction es arbitrary: p)
  case (Cons e es)
  obtain p1 where p1: "sc_step sine every rate_hz e p = (if send_fails e then Inl SimOSError else Inr (), p1)"
    "spacecraft_inv (sp_state p1)" "sp_connected p1" "\<forall>raw \<in> set (sp_sent p1). ground_readable raw"
    using sc_step_ok [of p e sine rate_hz every] Cons.prems rate by auto
  then show ?case using Cons.IH [of p1] Cons.prems by (cases e) auto
qed simp

section \<open>Properties\<close>

text \<open>Results are remembered for ever.\<close>

definition remembers :: "SpacecraftState \<Rightarrow> SpacecraftState \<Rightarrow> bool" where
  "remembers s s' \<longleftrightarrow> (\<forall>cid a. sc_command_results s cid = Some a \<longrightarrow> sc_command_results s' cid = Some a)"

lemma apply_command_remembers: "remembers s (snd (apply_command now raw s))"
proof (cases "decode_command raw")
  case (Inr frame)
  have e: "sc_command_results (snd (executes frame s)) = sc_command_results s" by (simp add: executes_def)
  show ?thesis
  proof (cases "sc_command_results s (cf_command_id frame)")
    case None
    then show ?thesis using apply_command_new [OF Inr None, of now] e by (auto simp: remembers_def)
  next
    case (Some a)
    then show ?thesis using apply_command_cached [OF Inr Some, of now] by (simp add: remembers_def)
  qed
qed (simp add: remembers_def apply_command_malformed)

lemma datagram_received_remembers: "remembers (snd (apply_command now data (sp_state p))) (sp_state (snd (datagram_received now data p)))"
  by (auto simp: datagram_received_def malformed_command_def remembers_def Let_def split: prod.splits sum.splits packet_error.splits)

lemma telemetry_tick_remembers: "remembers (sp_state p) (sp_state (snd (telemetry_tick sine every rate_hz now draw sent p)))"
  by (auto simp: telemetry_tick_def remembers_def Let_def split: sum.splits)

lemma sc_step_remembers: "remembers (sp_state p) (sp_state (snd (sc_step sine every rate_hz e p)))"
  using apply_command_remembers datagram_received_remembers telemetry_tick_remembers
  by (cases e) (fastforce simp: remembers_def)+

lemma sc_run_remembers: "remembers (sp_state p) (sp_state (snd (sc_run sine every rate_hz es p)))"
proof (induction es arbitrary: p)
  case (Cons e es)
  obtain r p1 where s: "sc_step sine every rate_hz e p = (r, p1)" by (cases "sc_step sine every rate_hz e p")
  have 1: "remembers (sp_state p) (sp_state p1)" using sc_step_remembers [of p sine every rate_hz e] s by simp
  then show ?case using Cons.IH [of p1] s by (auto simp: remembers_def split: sum.splits sc_event.splits)
qed (simp add: remembers_def)

text \<open>
  C27. The simulator survives whatever it receives. From its start, at any rate but zero and for every
  sequence of datagrams of any content and of telemetry turns, the process ends only by the error of the
  socket, exactly when a telemetry packet cannot be sent: no packet and no datagram raises anything else.
  Mode, wheel speed, fault flags and both sequence counters stay in their ranges, and every datagram it
  has sent decodes on the ground as a health sample or as an acknowledgement. This assumes of the libraries
  that a sine lies between -1 and 1, that a draw lies within its bounds and that the clock fits 64 bits.
\<close>

theorem simulator_survives:
  assumes "\<forall>x. \<bar>sine x\<bar> \<le> 1" and "\<forall>e \<in> set es. plausible e" and "rate_hz \<noteq> Finite 0"
  shows "\<exists>p. sc_run sine every rate_hz es initial_process = (if list_ex send_fails es then Inl SimOSError else Inr (), p) \<and>
    spacecraft_inv (sp_state p) \<and> (\<forall>raw \<in> set (sp_sent p). ground_readable raw)"
proof -
  have "spacecraft_inv (sp_state initial_process)" "sp_connected initial_process" "\<forall>raw \<in> set (sp_sent initial_process). ground_readable raw"
    by (simp_all add: initial_process_def connection_made_def initial_spacecraft_def spacecraft_inv_def)
  from sc_run_ok [OF this(1,2) assms(2,1) this(3) assms(3), of every] show ?thesis by blast
qed

definition sample_events :: "sc_event list" where
  "sample_events = [Tick 1767225600000000000 (1 / 10) True, Datagram 1767225600000000001 sample_frame,
     Datagram 1767225600000000002 [1, 2, 3], Tick 1767225600000000003 (- 1 / 10) True]"

theorem simulator_survives_witness:
  "\<exists>p. sc_run (\<lambda>_. 0) 200 (Finite 20) sample_events initial_process = (Inr (), p) \<and> spacecraft_inv (sp_state p) \<and>
    (\<forall>raw \<in> set (sp_sent p). ground_readable raw)"
proof -
  have "\<bar>float_lit (4 / 10) - 4 / 10\<bar> \<le> 1 / 500" unfolding float_lit_def by (rule round_double_small) simp
  then have "1 / 10 \<le> float_lit (4 / 10)" by linarith
  then show ?thesis using simulator_survives [of "\<lambda>_. 0" sample_events "Finite 20" 200] by (simp add: sample_events_def)
qed

text \<open>
  C26. A command takes effect at most once. Once a command frame has been received, whatever datagrams
  and ticks follow, any later frame with the same command identifier, even one with another opcode or
  argument, is answered with the original acknowledgement and leaves the command state as it is.
\<close>

theorem command_takes_effect_once:
  assumes "apply_command now raw (sp_state p) = (Inr ack, s)"
    and "decode_command raw = Inr frame"
    and "p' = snd (sc_run sine every rate_hz es (snd (datagram_received now raw p)))"
    and "decode_command raw' = Inr frame'" and "cf_command_id frame' = cf_command_id frame"
  shows "apply_command now' raw' (sp_state p') = (Inr ack, sp_state p')"
proof -
  have "sc_command_results s (cf_command_id frame) = Some ack"
  proof (cases "sc_command_results (sp_state p) (cf_command_id frame)")
    case None
    then show ?thesis using apply_command_new [OF assms(2) None, of now] assms(1) by auto
  next
    case (Some a)
    then show ?thesis using apply_command_cached [OF assms(2) Some, of now] assms(1) by auto
  qed
  then have "sc_command_results (sp_state p') (cf_command_id frame') = Some ack"
    using datagram_received_remembers [of now raw p] sc_run_remembers [of "snd (datagram_received now raw p)" sine every rate_hz es] assms
    by (auto simp: remembers_def)
  then show ?thesis using apply_command_cached [OF assms(4)] by blast
qed

theorem command_takes_effect_once_witness:
  "apply_command 9 sample_frame (sp_state (snd (sc_run (\<lambda>_. 0) 200 (Finite 20) [] (snd (datagram_received 5 sample_frame initial_process))))) =
     (Inr (ack_of 5 sample_command 0),
      sp_state (snd (sc_run (\<lambda>_. 0) 200 (Finite 20) [] (snd (datagram_received 5 sample_frame initial_process)))))"
proof -
  have "sc_command_results (sp_state initial_process) (cf_command_id sample_command) = None"
    by (simp add: initial_process_def connection_made_def initial_spacecraft_def)
  from apply_command_new [OF sample_frame_decodes this, of 5]
  obtain s where "apply_command 5 sample_frame (sp_state initial_process) = (Inr (ack_of 5 sample_command 0), s)"
    by (simp add: executes_def sample_command_def)
  from command_takes_effect_once [OF this sample_frame_decodes refl sample_frame_decodes refl] show ?thesis .
qed

lemma validated_opcode:
  "(\<exists>name d. validate_command name arg = Inr d \<and> cd_opcode d = opc) \<longleftrightarrow>
     (opc = 1 \<and> 0 \<le> arg \<and> arg \<le> 3) \<or> (opc = 2 \<and> -6000 \<le> arg \<and> arg \<le> 6000) \<or> (opc = 3 \<and> arg = 0)" (is "?l \<longleftrightarrow> ?r")
proof
  show "?l \<Longrightarrow> ?r" by (auto simp: validate_command_def COMMANDS_def split: option.splits if_splits)
  have "validate_command ''SET_MODE'' arg = Inr \<lparr>cd_opcode = 1, cd_minimum = 0, cd_maximum = 3\<rparr>" if "0 \<le> arg" "arg \<le> 3"
    using that by (simp add: validate_command_def COMMANDS_def)
  moreover have "validate_command ''SET_WHEEL_RPM'' arg = Inr \<lparr>cd_opcode = 2, cd_minimum = -6000, cd_maximum = 6000\<rparr>"
    if "-6000 \<le> arg" "arg \<le> 6000"
    using that by (simp add: validate_command_def COMMANDS_def)
  moreover have "validate_command ''RESET_FAULTS'' 0 = Inr \<lparr>cd_opcode = 3, cd_minimum = 0, cd_maximum = 0\<rparr>"
    by (simp add: validate_command_def COMMANDS_def)
  ultimately show "?r \<Longrightarrow> ?l" by fastforce
qed

text \<open>
  C28. The ground's command table and the spacecraft agree: a command with a new identifier is executed
  (status 0) exactly when some command name is validated by the ground with that argument and has that
  opcode; then the mode, the wheel speed or the fault flags take the commanded value and nothing else
  changes. Any other command is answered with status 1 and changes none of them.
\<close>

theorem ground_and_spacecraft_agree:
  assumes "decode_command raw = Inr frame" and "sc_command_results s (cf_command_id frame) = None"
  shows "\<exists>ack s'. apply_command now raw s = (Inr ack, s') \<and> ca_applied_value ack = cf_argument frame \<and>
    (ca_status ack = 0 \<longleftrightarrow> (\<exists>name d. validate_command name (cf_argument frame) = Inr d \<and> cd_opcode d = cf_opcode frame)) \<and>
    (sc_mode s', sc_wheel_rpm s', sc_fault_flags s') =
      (if ca_status ack \<noteq> 0 then (sc_mode s, sc_wheel_rpm s, sc_fault_flags s)
       else if cf_opcode frame = 1 then (cf_argument frame, sc_wheel_rpm s, sc_fault_flags s)
       else if cf_opcode frame = 2 then (sc_mode s, cf_argument frame, sc_fault_flags s)
       else (sc_mode s, sc_wheel_rpm s, 0))"
  unfolding validated_opcode apply_command_new [OF assms, of now]
  by (auto simp: executes_def ack_of_def)

theorem ground_and_spacecraft_agree_witness:
  "\<exists>ack s'. apply_command 5 sample_frame initial_spacecraft = (Inr ack, s') \<and> ca_status ack = 0 \<and> sc_wheel_rpm s' = -1500"
proof -
  have none: "sc_command_results initial_spacecraft (cf_command_id sample_command) = None" by (simp add: initial_spacecraft_def)
  have "\<exists>name d. validate_command name (cf_argument sample_command) = Inr d \<and> cd_opcode d = cf_opcode sample_command"
    unfolding validated_opcode by (simp add: sample_command_def)
  then show ?thesis
    using ground_and_spacecraft_agree [OF sample_frame_decodes none, of 5] by (auto simp: sample_command_def)
qed

end
