(* ===== verification/Telemetry_Ingest.thy ===== *)
theory Telemetry_Ingest
  imports Mission_World
begin

text \<open>
  The telemetry ingest (\<^verbatim>\<open>mission_ground/services/telemetry_ingest.py\<close>): one datagram from the spacecraft is
  decoded, its sequence count observed, and its content published as a JSON envelope. Every exception is
  caught and counted; the handler has no result.
\<close>

definition health_json :: "HealthTelemetry \<Rightarrow> json" where
  "health_json h = JObj [(''timestamp_ns'', jint (ht_timestamp_ns h)), (''bus_voltage_v'', jfloat (Finite (ht_bus_voltage_v h))),
     (''battery_temp_c'', jfloat (Finite (ht_battery_temp_c h))), (''wheel_rpm'', jint (ht_wheel_rpm h)),
     (''mode'', jint (ht_mode h)), (''fault_flags'', jint (ht_fault_flags h))]"

definition ack_json :: "CommandAck \<Rightarrow> json" where
  "ack_json a = JObj [(''command_id'', jint (ca_command_id a)), (''status'', jint (ca_status a)),
     (''applied_value'', jint (ca_applied_value a)), (''timestamp_ns'', jint (ca_timestamp_ns a))]"

definition envelope_json :: "SpacePacket \<Rightarrow> int \<Rightarrow> string \<times> int \<Rightarrow> json \<Rightarrow> json" where
  "envelope_json packet received_ns addr data =
     JObj [(''apid'', jint (sp_apid packet)), (''sequence_count'', jint (sp_sequence_count packet)),
       (''received_ns'', jint received_ns), (''source'', JStr (fst addr @ '':'' @ py_str (snd addr))), (''data'', data)]"

abbreviation ingest_packets :: string where "ingest_packets \<equiv> ''ingest_packets_total''"

definition latency_seconds :: "int \<Rightarrow> rat" where
  "latency_seconds ns = max 0 (round_double (of_int ns / 1000000000))"

text \<open>The body of the \<^verbatim>\<open>try\<close> after the packet is decoded.\<close>

definition ingest_packet :: "mission_schedule \<Rightarrow> string \<times> int \<Rightarrow> SpacePacket \<Rightarrow> unit mission_action" where
  "ingest_packet S addr packet w =
     (let (gaps, tracker) = observe (sp_apid packet) (sp_sequence_count packet) (m_tracker w);
          w1 = w\<lparr>m_tracker := tracker\<rparr>;
          w2 = (if gaps \<noteq> 0 then inc ''ingest_sequence_gaps_total'' [py_str (sp_apid packet)] gaps w1 else w1)
      in and_then (read_clock S w2) (\<lambda>received_ns w3.
         if sp_apid packet = APID_HEALTH
         then and_then (raising (map_sum PacketFault id (decode_health packet)) w3) (\<lambda>health w4.
              and_then (read_clock S w4) (\<lambda>now w5.
              let w6 = w5\<lparr>m_observed := m_observed w5 @ [latency_seconds (now - ht_timestamp_ns health)]\<rparr>
              in and_then (publish S ''telemetry.health'' (envelope_json packet received_ns addr (health_json health)) w6) (\<lambda>_ w7.
                 (Inr (), inc ingest_packets [''accepted'', ''health''] 1 w7))))
         else if sp_apid packet = APID_COMMAND_ACK
         then and_then (raising (map_sum PacketFault id (decode_ack packet)) w3) (\<lambda>ack w4.
              and_then (publish S ''telemetry.command_ack'' (envelope_json packet received_ns addr (ack_json ack)) w4) (\<lambda>_ w5.
              (Inr (), inc ingest_packets [''accepted'', ''command_ack''] 1 w5)))
         else (Inr (), inc ingest_packets [''unsupported'', py_str (sp_apid packet)] 1 w3)))"

definition ingest_process :: "mission_schedule \<Rightarrow> bytes \<Rightarrow> string \<times> int \<Rightarrow> unit mission_action" where
  "ingest_process S raw addr w =
     except (and_then (raising (map_sum PacketFault id (decode_space_packet raw)) w) (ingest_packet S addr))
       (\<lambda>e w1. case e of
          PacketFault (PacketError m) \<Rightarrow> (Inr (), inc ingest_packets [''rejected'', ''unknown''] 1 w1)
        | _ \<Rightarrow> (Inr (), inc ingest_packets [''error'', ''unknown''] 1 w1))"

end
