(* ===== verification/Mission_Api.thy ===== *)
theory Mission_Api
  imports Mission_World
begin

text \<open>
  The mission API (\<^verbatim>\<open>mission_ground/services/mission_api.py\<close>): the command request with its validation and
  the operator's two tokens, the queries, the readiness check, and the bounded queue of the event
  stream. An \<open>HttpError\<close> is an \<^verbatim>\<open>HTTPException\<close>; any other error is answered with 500 by the framework. Rows
  with the same time are returned in the order of their insertion.
\<close>

record CommandRequest =
  rq_name :: string
  rq_argument :: int
  rq_dry_run :: bool
  rq_operator_id :: string

record command_answer =
  ans_command_id :: int
  ans_status :: string
  ans_dry_run :: bool

definition request_json :: "CommandRequest \<Rightarrow> json" where
  "request_json r = JObj [(''name'', JStr (rq_name r)), (''argument'', jint (rq_argument r)),
     (''dry_run'', JBool (rq_dry_run r)), (''operator_id'', JStr (rq_operator_id r))]"

definition dispatch_event :: "int \<Rightarrow> CommandRequest \<Rightarrow> CommandDefinition \<Rightarrow> json" where
  "dispatch_event command_id r d = JObj [(''command_id'', jint command_id), (''name'', JStr (rq_name r)),
     (''opcode'', jint (cd_opcode d)), (''argument'', jint (rq_argument r)), (''operator_id'', JStr (rq_operator_id r))]"

definition truth_label :: "bool \<Rightarrow> string" where
  "truth_label b = (if b then ''true'' else ''false'')"

text \<open>The two statements of \<^verbatim>\<open>create_command\<close>; the sequence of a \<^verbatim>\<open>BIGSERIAL\<close> ends at the largest \<^verbatim>\<open>BIGINT\<close>.\<close>

definition insert_command :: "mission_schedule \<Rightarrow> CommandRequest \<Rightarrow> string \<Rightarrow> int mission_action" where
  "insert_command S r status w =
     sql S (pg_text (rq_name r) \<and> int4 (rq_argument r) \<and> pg_text (rq_operator_id r) \<and> int8 (commands_id_seq (m_db w) + 1))
       (\<lambda>now db. (commands_id_seq db + 1,
          db\<lparr>commands_id_seq := commands_id_seq db + 1,
             commands_table := commands_table db @
               [\<lparr>cm_id = commands_id_seq db + 1, cm_created_at = now, cm_updated_at = now, cm_name = rq_name r,
                 cm_argument = rq_argument r, cm_dry_run = rq_dry_run r, cm_status = status,
                 cm_operator_id = rq_operator_id r, cm_status_detail = None\<rparr>]\<rparr>)) w"

definition insert_command_audit :: "mission_schedule \<Rightarrow> string \<Rightarrow> string \<Rightarrow> string \<Rightarrow> json \<Rightarrow> unit mission_action" where
  "insert_command_audit S actor action object_id detail =
     sql S (pg_text actor \<and> pg_text object_id \<and> jsonb_ok detail)
       (\<lambda>now db. ((), db\<lparr>audit_events_table := audit_events_table db @
          [\<lparr>ad_created_at = now, ad_actor = actor, ad_action = action, ad_object_type = ''command'',
            ad_object_id = object_id, ad_detail = detail\<rparr>]\<rparr>))"

definition command_request_counter :: string where
  "command_request_counter = ''mission_api_command_requests_total''"

definition create_command ::
  "environment \<Rightarrow> mission_schedule \<Rightarrow> CommandRequest \<Rightarrow> string option \<Rightarrow> string option \<Rightarrow> command_answer mission_action" where
  "create_command environ S r x_operator_token x_command_arm w =
     (case validate_command (rq_name r) (rq_argument r) of
        Inl m \<Rightarrow> (Inl (HttpError 422 m), inc command_request_counter [''invalid'', truth_label (rq_dry_run r)] 1 w)
      | Inr d \<Rightarrow>
          if \<not> rq_dry_run r \<and> x_operator_token \<noteq> Some (env environ ''OPERATOR_TOKEN'' ''local-operator-token'')
          then (Inl (HttpError 401 ''invalid operator token''), inc command_request_counter [''unauthorized'', ''false''] 1 w)
          else if \<not> rq_dry_run r \<and> x_command_arm \<noteq> Some (env environ ''COMMAND_ARM_TOKEN'' ''local-arm-token'')
          then (Inl (HttpError 409 ''command path is not armed''), inc command_request_counter [''unarmed'', ''false''] 1 w)
          else let status = (if rq_dry_run r then ''DRY_RUN_VALIDATED'' else ''QUEUED'')
               in and_then (insert_command S r status w) (\<lambda>command_id w1.
                  and_then (insert_command_audit S (rq_operator_id r) ''COMMAND_CREATED'' (py_str command_id) (request_json r) w1) (\<lambda>_ w2.
                  and_then (if rq_dry_run r then (Inr (), w2)
                            else publish S ''commands.dispatch'' (dispatch_event command_id r d) w2) (\<lambda>_ w3.
                  (Inr \<lparr>ans_command_id = command_id, ans_status = status, ans_dry_run = rq_dry_run r\<rparr>,
                   inc command_request_counter [''accepted'', truth_label (rq_dry_run r)] 1 w3)))))"

text \<open>The bounds of the request model; the framework answers 422 before the handler runs.\<close>

definition post_commands ::
  "environment \<Rightarrow> mission_schedule \<Rightarrow> CommandRequest \<Rightarrow> string option \<Rightarrow> string option \<Rightarrow> command_answer mission_action" where
  "post_commands environ S r x_operator_token x_command_arm w =
     (if \<not> (1 \<le> length (rq_operator_id r) \<and> length (rq_operator_id r) \<le> 80) then (Inl (HttpError 422 ''operator_id''), w)
      else create_command environ S r x_operator_token x_command_arm w)"

section \<open>Queries\<close>

definition readyz :: "mission_schedule \<Rightarrow> string mission_action" where
  "readyz S w =
     and_then (sql S True (\<lambda>now db. ((), db)) w) (\<lambda>_ w1.
       if \<not> connected_at S (m_tick w1) then (Inl (HttpError 503 ''NATS disconnected''), w1) else (Inr ''ready'', w1))"

definition latest :: "('a \<Rightarrow> int) \<Rightarrow> int \<Rightarrow> 'a list \<Rightarrow> 'a list" where
  "latest time limit rows = take (nat limit) (sort_key (\<lambda>r. - time r) rows)"

definition latest_telemetry :: "mission_schedule \<Rightarrow> int \<Rightarrow> health_row list mission_action" where
  "latest_telemetry S limit w =
     (if \<not> (1 \<le> limit \<and> limit \<le> 500) then (Inl (HttpError 422 ''limit''), w)
      else sql S True (\<lambda>now db. (latest hr_received_at limit (telemetry_health_table db), db)) w)"

definition alerts :: "mission_schedule \<Rightarrow> int \<Rightarrow> alert_row list mission_action" where
  "alerts S limit w =
     (if \<not> (1 \<le> limit \<and> limit \<le> 500) then (Inl (HttpError 422 ''limit''), w)
      else sql S True (\<lambda>now db. (latest al_created_at limit (alerts_table db), db)) w)"

definition command_status :: "mission_schedule \<Rightarrow> int \<Rightarrow> command_row mission_action" where
  "command_status S command_id w =
     and_then (sql S (int8 command_id) (\<lambda>now db. (get_row cm_id command_id (commands_table db), db)) w) (\<lambda>row w1.
       case row of None \<Rightarrow> (Inl (HttpError 404 ''command not found''), w1) | Some r \<Rightarrow> (Inr r, w1))"

section \<open>The event stream\<close>

definition STREAM_QUEUE_SIZE :: nat where "STREAM_QUEUE_SIZE = 100"

text \<open>The callback of a subscription: a full queue loses its oldest event.\<close>

definition stream_callback :: "message \<Rightarrow> json list \<Rightarrow> mission_error + json list" where
  "stream_callback msg queue =
     bindE (loads (msg_data msg)) (\<lambda>payload.
       let event = JObj [(''subject'', JStr (msg_subject msg)), (''payload'', payload)];
           queue1 = (if STREAM_QUEUE_SIZE \<le> length queue then tl queue else queue)
       in Inr (queue1 @ [event]))"

end
