(* ===== verification/Telemetry_Processor.thy ===== *)
theory Telemetry_Processor
  imports Mission_Api
begin

text \<open>
  The telemetry processor (\<^verbatim>\<open>mission_ground/services/telemetry_processor.py\<close>): the three subscriptions,
  health samples, command acknowledgements and command status events. A delivery is named by a number; an
  exception anywhere in a handler is counted and the delivery is given back for redelivery. When that
  fails too, the error escapes to the client library.
\<close>

definition processor_messages :: string where "processor_messages = ''processor_messages_total''"

text \<open>The end of every handler: \<^verbatim>\<open>ack\<close> at the end of the \<^verbatim>\<open>try\<close>, \<^verbatim>\<open>nak(delay=1)\<close> in the \<^verbatim>\<open>except\<close>.\<close>

definition handled :: "mission_schedule \<Rightarrow> nat \<Rightarrow> string \<Rightarrow> unit mission_action \<Rightarrow> unit mission_action" where
  "handled S n subject body w =
     except (and_then (body w) (\<lambda>_ w1. settle S (Acked n) (inc processor_messages [subject, ''ok''] 1 w1)))
       (\<lambda>e w1. settle S (Naked n 1) (inc processor_messages [subject, ''error''] 1 w1))"

section \<open>Health\<close>

definition value_json :: "limit_value \<Rightarrow> json" where
  "value_json v = (case v of FloatValue x \<Rightarrow> jfloat x | IntValue n \<Rightarrow> jint n)"

definition value_float :: "limit_value \<Rightarrow> py_num" where
  "value_float v = (case v of FloatValue x \<Rightarrow> x | IntValue n \<Rightarrow> Finite (round_double (of_int n)))"

definition violation_json :: "LimitViolation \<Rightarrow> (string \<times> json) list" where
  "violation_json v = [(''parameter'', JStr (lv_parameter v)), (''value'', value_json (lv_value v)),
     (''severity'', JStr (lv_severity v)), (''message'', JStr (lv_message v))]"

definition raise_alert :: "mission_schedule \<Rightarrow> int \<Rightarrow> LimitViolation \<Rightarrow> unit mission_action" where
  "raise_alert S sequence_count v w =
     and_then (sql S (int4 sequence_count)
         (\<lambda>now db. ((), db\<lparr>alerts_table := alerts_table db @
            [\<lparr>al_created_at = now, al_parameter = lv_parameter v, al_value = value_float (lv_value v),
              al_severity = lv_severity v, al_message = lv_message v, al_telemetry_sequence = sequence_count\<rparr>]\<rparr>)) w) (\<lambda>_ w1.
     and_then (publish S ''alerts.limit'' (JObj (violation_json v @ [(''telemetry_sequence'', jint sequence_count)])) w1) (\<lambda>_ w2.
     (Inr (), inc ''processor_alerts_total'' [lv_severity v, lv_parameter v] 1 w2)))"

fun raise_alerts :: "mission_schedule \<Rightarrow> int \<Rightarrow> LimitViolation list \<Rightarrow> unit mission_action" where
  "raise_alerts S sequence_count [] w = (Inr (), w)"
| "raise_alerts S sequence_count (v # vs) w =
     and_then (raise_alert S sequence_count v w) (\<lambda>_. raise_alerts S sequence_count vs)"

definition with_member :: "json \<Rightarrow> string \<Rightarrow> json \<Rightarrow> json" where
  "with_member v key x = (case v of JObj kvs \<Rightarrow> JObj (AList.update key x kvs) | _ \<Rightarrow> v)"

definition health_body :: "mission_schedule \<Rightarrow> bytes \<Rightarrow> unit mission_action" where
  "health_body S data w =
     and_then (raising (loads data) w) (\<lambda>envelope w.
     and_then (raising (item envelope ''data'') w) (\<lambda>d w.
     and_then (raising (int_item d ''timestamp_ns'') w) (\<lambda>timestamp_ns w.
     and_then (raising (float_item d ''bus_voltage_v'') w) (\<lambda>voltage w.
     and_then (raising (float_item d ''battery_temp_c'') w) (\<lambda>temperature w.
     and_then (raising (int_item d ''wheel_rpm'') w) (\<lambda>rpm w.
     and_then (raising (int_item d ''mode'') w) (\<lambda>mode w.
     and_then (raising (int_item d ''fault_flags'') w) (\<lambda>flags w.
     and_then (raising (int_item envelope ''sequence_count'') w) (\<lambda>sequence_count w.
     and_then (sql S (int8 timestamp_ns \<and> int4 sequence_count \<and> int4 rpm \<and> int4 mode \<and> int4 flags \<and> jsonb_ok envelope)
         (\<lambda>now db. ((), db\<lparr>telemetry_health_table := telemetry_health_table db @
            [\<lparr>hr_spacecraft_time_ns = timestamp_ns, hr_received_at = now, hr_sequence_count = sequence_count,
              hr_bus_voltage_v = voltage, hr_battery_temp_c = temperature, hr_wheel_rpm = rpm, hr_mode = mode,
              hr_fault_flags = flags, hr_raw = envelope\<rparr>]\<rparr>)) w) (\<lambda>_ w.
     let w = set_gauge ''processor_latest_battery_temperature_celsius'' temperature
               (set_gauge ''processor_latest_bus_voltage_volts'' voltage w);
         violations = evaluate_health voltage temperature rpm flags
     in and_then (raise_alerts S sequence_count violations w) (\<lambda>_ w.
        publish S ''telemetry.processed''
          (with_member envelope ''violations'' (JArr (map (\<lambda>v. JObj (violation_json v)) violations))) w)))))))))))"

definition process_health :: "mission_schedule \<Rightarrow> nat \<Rightarrow> bytes \<Rightarrow> unit mission_action" where
  "process_health S n data = handled S n ''health'' (health_body S data)"

section \<open>Commands\<close>

text \<open>\<^verbatim>\<open>UPDATE commands SET status=$1, status_detail=$2, updated_at=now() WHERE id=$3\<close>; the number of rows.\<close>

definition update_command :: "mission_schedule \<Rightarrow> string \<Rightarrow> string option \<Rightarrow> int \<Rightarrow> nat mission_action" where
  "update_command S status detail command_id =
     sql S (pg_text status \<and> opt_ok pg_text detail \<and> int8 command_id)
       (\<lambda>now db. (length (filter (\<lambda>r. cm_id r = command_id) (commands_table db)),
          db\<lparr>commands_table := map (\<lambda>r. if cm_id r = command_id
               then r\<lparr>cm_status := status, cm_status_detail := detail, cm_updated_at := now\<rparr> else r) (commands_table db)\<rparr>))"

definition ack_body :: "mission_schedule \<Rightarrow> bytes \<Rightarrow> unit mission_action" where
  "ack_body S data w =
     and_then (raising (loads data) w) (\<lambda>envelope w.
     and_then (raising (item envelope ''data'') w) (\<lambda>d w.
     and_then (raising (int_item d ''command_id'') w) (\<lambda>command_id w.
     and_then (raising (int_item d ''status'') w) (\<lambda>code w.
     and_then (raising (int_item d ''applied_value'') w) (\<lambda>applied w.
     and_then (update_command S (if code = 0 then ''ACKED'' else ''REJECTED'')
         (Some (''spacecraft applied_value='' @ py_str applied)) command_id w) (\<lambda>_ w.
     insert_command_audit S ''spacecraft'' ''COMMAND_ACK'' (py_str command_id) envelope w))))))"

definition process_ack :: "mission_schedule \<Rightarrow> nat \<Rightarrow> bytes \<Rightarrow> unit mission_action" where
  "process_ack S n data = handled S n ''command_ack'' (ack_body S data)"

text \<open>The status and its detail are passed to the driver as they are; it takes texts, and for the detail \<^verbatim>\<open>None\<close>.\<close>

definition text_argument :: "json \<Rightarrow> mission_error + string" where
  "text_argument v = (case v of JStr s \<Rightarrow> Inr s | _ \<Rightarrow> Inl (DataError ''expected str''))"

definition optional_text :: "json \<Rightarrow> string \<Rightarrow> mission_error + string option" where
  "optional_text v key =
     (case v of
        JObj kvs \<Rightarrow> (case map_of kvs key of
            None \<Rightarrow> Inr None | Some JNull \<Rightarrow> Inr None | Some (JStr s) \<Rightarrow> Inr (Some s) | Some _ \<Rightarrow> Inl (DataError ''expected str''))
      | _ \<Rightarrow> Inl (TypeError ''no get''))"

definition status_body :: "mission_schedule \<Rightarrow> bytes \<Rightarrow> unit mission_action" where
  "status_body S data w =
     and_then (raising (loads data) w) (\<lambda>event w.
     and_then (raising (item event ''status'') w) (\<lambda>status w.
     and_then (raising (int_item event ''command_id'') w) (\<lambda>command_id w.
     and_then (raising (text_argument status) w) (\<lambda>text w.
     and_then (raising (optional_text event ''detail'') w) (\<lambda>detail w.
     and_then (update_command S text detail command_id w) (\<lambda>_ w.
     and_then (raising (item event ''command_id'') w) (\<lambda>shown w.
     insert_command_audit S ''dispatcher'' ''COMMAND_STATUS'' (str_of_json shown) event w)))))))"

definition process_status :: "mission_schedule \<Rightarrow> nat \<Rightarrow> bytes \<Rightarrow> unit mission_action" where
  "process_status S n data = handled S n ''command_status'' (status_body S data)"

end
