(* ===== verification/Command_Dispatcher.thy ===== *)
theory Command_Dispatcher
  imports Mission_World
begin

text \<open>
  The command dispatcher (\<^verbatim>\<open>mission_ground/services/command_dispatcher.py\<close>): one message of
  \<^verbatim>\<open>commands.dispatch\<close> becomes one datagram to the spacecraft and a status event. On any exception the
  dispatcher publishes an error event and gives the message back, also when the event cannot be
  published. The text of an exception is a parameter.
\<close>

definition dispatch_counter :: string where "dispatch_counter = ''command_dispatch_total''"

definition send_datagram :: "mission_schedule \<Rightarrow> bytes \<Rightarrow> unit mission_action" where
  "send_datagram S raw = service_call SocketError S (\<lambda>w. ((), w\<lparr>m_uplink := m_uplink w @ [raw]\<rparr>))"

definition status_json :: "int \<Rightarrow> string \<Rightarrow> string \<Rightarrow> json" where
  "status_json command_id status detail =
     JObj [(''command_id'', jint command_id), (''status'', JStr status), (''detail'', JStr detail)]"

text \<open>The name that labels the counter is assigned before anything else can fail.\<close>

definition dispatch_name :: "bytes \<Rightarrow> string" where
  "dispatch_name data =
     (case bindE (loads data) (\<lambda>event. item event ''name'') of Inl _ \<Rightarrow> ''unknown'' | Inr v \<Rightarrow> str_of_json v)"

definition dispatch_body :: "mission_schedule \<Rightarrow> string \<times> int \<Rightarrow> nat \<Rightarrow> bytes \<Rightarrow> unit mission_action" where
  "dispatch_body S target n data w =
     and_then (raising (loads data) w) (\<lambda>event w.
     and_then (raising (item event ''name'') w) (\<lambda>_ w.
     and_then (raising (int_item event ''command_id'') w) (\<lambda>command_id w.
     and_then (raising (int_item event ''opcode'') w) (\<lambda>opcode w.
     and_then (raising (int_item event ''argument'') w) (\<lambda>argument w.
     and_then (read_clock S w) (\<lambda>issued_ns w.
     and_then (raising (map_sum PacketFault id (encode_command
         \<lparr>cf_command_id = command_id, cf_opcode = opcode, cf_argument = argument, cf_issued_ns = issued_ns\<rparr>)) w) (\<lambda>raw w.
     and_then (send_datagram S raw w) (\<lambda>_ w.
     and_then (publish S ''commands.status''
         (status_json command_id ''DISPATCHED'' (''UDP target '' @ fst target @ '':'' @ py_str (snd target))) w) (\<lambda>_ w.
     settle S (Acked n) (inc dispatch_counter [''sent'', dispatch_name data] 1 w))))))))))"

definition dispatch_failed :: "mission_schedule \<Rightarrow> (mission_error \<Rightarrow> string) \<Rightarrow> bytes \<Rightarrow> mission_error \<Rightarrow> unit mission_action" where
  "dispatch_failed S exc_text data e w =
     and_then (raising (loads data) w) (\<lambda>event w.
     and_then (raising (int_item event ''command_id'') w) (\<lambda>command_id w.
     publish S ''commands.status'' (status_json command_id ''DISPATCH_ERROR'' (exc_text e)) w))"

text \<open>The \<^verbatim>\<open>finally\<close> clause runs in any case; an error of its own replaces the pending one.\<close>

definition dispatch :: "mission_schedule \<Rightarrow> (mission_error \<Rightarrow> string) \<Rightarrow> string \<times> int \<Rightarrow> nat \<Rightarrow> bytes \<Rightarrow> unit mission_action" where
  "dispatch S exc_text target n data w =
     except (dispatch_body S target n data w) (\<lambda>e w1.
       case dispatch_failed S exc_text data e (inc dispatch_counter [''error'', dispatch_name data] 1 w1) of
         (r, w2) \<Rightarrow> (case settle S (Naked n 2) w2 of
            (Inl e', w3) \<Rightarrow> (Inl e', w3)
          | (Inr _, w3) \<Rightarrow> (r, w3)))"

end
