(* ===== verification/Ai_Advisor.thy ===== *)
theory Ai_Advisor
  imports Mission_World
begin

text \<open>
  The advisory service (\<^verbatim>\<open>mission_ground/services/ai_advisor.py\<close>): an alert is sent to a language model,
  whose answer is published as an advisory. The model server is a parameter: it maps the request to an
  error or to the JSON body of its answer.
\<close>

definition ADVISOR_SYSTEM :: string where
  "ADVISOR_SYSTEM =
     ''You are an advisory-only spacecraft operations assistant. Summarize the supplied alert,'' @ [CHR 0x0A]
     @ ''identify the deterministic checks an operator should perform, and explicitly state that you cannot'' @ [CHR 0x0A]
     @ ''approve or transmit commands. Never invent telemetry or claim a fault is resolved.''"

text \<open>\<^verbatim>\<open>json.dumps(alert, sort_keys=True)\<close> with the default separators.\<close>

fun sorted_text :: "json \<Rightarrow> string" where
  "sorted_text (JArr vs) = ''['' @ join_with '', '' (map sorted_text vs) @ '']''"
| "sorted_text (JObj kvs) =
     ''{'' @ join_with '', '' (map snd (sort_key fst (map (\<lambda>(k, v). (k, json_string k @ '': '' @ sorted_text v)) kvs))) @ ''}''"
| "sorted_text v = json_text v"

definition advisor_request :: "string \<Rightarrow> json \<Rightarrow> json" where
  "advisor_request model alert =
     JObj [(''model'', JStr model), (''temperature'', jint 0), (''max_tokens'', jint 220),
       (''messages'', JArr [JObj [(''role'', JStr ''system''), (''content'', JStr ADVISOR_SYSTEM)],
         JObj [(''role'', JStr ''user''), (''content'', JStr (sorted_text alert))]])]"

definition first_element :: "json \<Rightarrow> mission_error + json" where
  "first_element v = (case v of JArr (x # _) \<Rightarrow> Inr x | JArr [] \<Rightarrow> Inl (KeyError ''0'') | _ \<Rightarrow> Inl (TypeError ''not a list''))"

definition advice_text :: "json \<Rightarrow> mission_error + json" where
  "advice_text body =
     bindE (item body ''choices'') (\<lambda>choices. bindE (first_element choices) (\<lambda>choice.
     bindE (item choice ''message'') (\<lambda>m. item m ''content'')))"

definition advise :: "(json \<Rightarrow> mission_error + json) \<Rightarrow> mission_schedule \<Rightarrow> string \<Rightarrow> nat \<Rightarrow> bytes \<Rightarrow> unit mission_action" where
  "advise vllm S model n data w =
     except
       (and_then (raising (loads data) w) (\<lambda>alert w.
        and_then (raising (vllm (advisor_request model alert)) w) (\<lambda>body w.
        and_then (raising (advice_text body) w) (\<lambda>answer w.
        and_then (publish S ''advisories.alert''
            (JObj [(''source_alert'', alert), (''model'', JStr model), (''advisory'', answer)]) w) (\<lambda>_ w.
        settle S (Acked n) (inc ''ai_advisor_requests_total'' [''ok''] 1 w))))))
       (\<lambda>e w. settle S (Naked n 10) (inc ''ai_advisor_requests_total'' [''error''] 1 w))"

end
