(* ===== verification/Mission_System.thy ===== *)
theory Mission_System
  imports Spacecraft_Sim Telemetry_Ingest Telemetry_Processor Command_Dispatcher Ai_Advisor
begin

text \<open>
  The legacy mission system as a whole: the mission API, the dispatcher, the spacecraft, the ingest, the
  processor and the advisory service, connected by the stream and by two datagram links. The broker may
  deliver a published message at any time, in any order and any number of times; a datagram may be
  lost, repeated and reordered, but is never invented. Every call of a ground service has its own fate.
  A telemetry packet may fail to be sent; that the simulator then ends is one of the runs, in which it does
  nothing more.
  The ghost field \<open>ms_orders\<close> collects the requests that carried both tokens of the operator.
\<close>

record mission_system =
  ms_world :: mission
  ms_spacecraft :: spacecraft
  ms_orders :: "CommandRequest list"

record mission_config =
  mc_environ :: environment
  mc_sine :: "rat \<Rightarrow> rat"
  mc_every :: int
  mc_target :: "string \<times> int"
  mc_exc_text :: "mission_error \<Rightarrow> string"
  mc_vllm :: "json \<Rightarrow> mission_error + json"
  mc_model :: string

definition armed :: "environment \<Rightarrow> string option \<Rightarrow> string option \<Rightarrow> bool" where
  "armed environ token arm \<longleftrightarrow> token = Some (env environ ''OPERATOR_TOKEN'' ''local-operator-token'') \<and>
     arm = Some (env environ ''COMMAND_ARM_TOKEN'' ''local-arm-token'')"

definition empty_mission :: mission where
  "empty_mission = \<lparr>m_db = empty_mission_db, m_stream = [], m_settled = [], m_uplink = [], m_counts = [],
     m_gauges = Map.empty, m_observed = [], m_tracker = Map.empty, m_tick = 0\<rparr>"

definition mission_start :: mission_system where
  "mission_start = \<lparr>ms_world = empty_mission, ms_spacecraft = initial_process, ms_orders = []\<rparr>"

inductive mission_run :: "mission_config \<Rightarrow> mission_system \<Rightarrow> bool" for C where
  run_start: "mission_run C mission_start"
| run_order: "mission_run C s \<Longrightarrow>
    mission_run C (s\<lparr>ms_world := snd (post_commands (mc_environ C) S r token arm (ms_world s)),
      ms_orders := ms_orders s @ (if armed (mc_environ C) token arm then [r] else [])\<rparr>)"
| run_dispatch: "mission_run C s \<Longrightarrow> \<lparr>msg_subject = ''commands.dispatch'', msg_data = data\<rparr> \<in> set (m_stream (ms_world s)) \<Longrightarrow>
    mission_run C (s\<lparr>ms_world := snd (dispatch S (mc_exc_text C) (mc_target C) n data (ms_world s))\<rparr>)"
| run_uplink: "mission_run C s \<Longrightarrow> raw \<in> set (m_uplink (ms_world s)) \<Longrightarrow> 0 \<le> now \<Longrightarrow> now < 2 ^ 64 \<Longrightarrow>
    mission_run C (s\<lparr>ms_spacecraft := snd (datagram_received now raw (ms_spacecraft s))\<rparr>)"
| run_tick: "mission_run C s \<Longrightarrow> 0 \<le> now \<Longrightarrow> now < 2 ^ 64 \<Longrightarrow> \<bar>draw\<bar> \<le> float_lit (4 / 10) \<Longrightarrow>
    mission_run C (s\<lparr>ms_spacecraft := snd (telemetry_tick (mc_sine C) (mc_every C) rate_hz now draw sent (ms_spacecraft s))\<rparr>)"
| run_ingest: "mission_run C s \<Longrightarrow> raw \<in> set (sp_sent (ms_spacecraft s)) \<Longrightarrow>
    mission_run C (s\<lparr>ms_world := snd (ingest_process S raw addr (ms_world s))\<rparr>)"
| run_health: "mission_run C s \<Longrightarrow> \<lparr>msg_subject = ''telemetry.health'', msg_data = data\<rparr> \<in> set (m_stream (ms_world s)) \<Longrightarrow>
    mission_run C (s\<lparr>ms_world := snd (process_health S n data (ms_world s))\<rparr>)"
| run_ack: "mission_run C s \<Longrightarrow> \<lparr>msg_subject = ''telemetry.command_ack'', msg_data = data\<rparr> \<in> set (m_stream (ms_world s)) \<Longrightarrow>
    mission_run C (s\<lparr>ms_world := snd (process_ack S n data (ms_world s))\<rparr>)"
| run_status: "mission_run C s \<Longrightarrow> \<lparr>msg_subject = ''commands.status'', msg_data = data\<rparr> \<in> set (m_stream (ms_world s)) \<Longrightarrow>
    mission_run C (s\<lparr>ms_world := snd (process_status S n data (ms_world s))\<rparr>)"
| run_advise: "mission_run C s \<Longrightarrow> m \<in> set (m_stream (ms_world s)) \<Longrightarrow> starts_with ''alerts.'' (msg_subject m) \<Longrightarrow>
    mission_run C (s\<lparr>ms_world := snd (advise (mc_vllm C) S (mc_model C) n (msg_data m) (ms_world s))\<rparr>)"

section \<open>The invariant\<close>

text \<open>A command of the table that is to be flown: its identifier, argument and opcode.\<close>

definition ordered :: "mission_db \<Rightarrow> int \<Rightarrow> int \<Rightarrow> int \<Rightarrow> bool" where
  "ordered db cid arg opc \<longleftrightarrow> (\<exists>row \<in> set (commands_table db). cm_id row = cid \<and> \<not> cm_dry_run row \<and> cm_argument row = arg \<and>
     (\<exists>d. validate_command (cm_name row) arg = Inr d \<and> cd_opcode d = opc))"

definition message_ok :: "(int \<rightharpoonup> CommandAck) \<Rightarrow> mission_db \<Rightarrow> message \<Rightarrow> bool" where
  "message_ok results db m \<longleftrightarrow>
     (msg_subject m = ''commands.dispatch'' \<longrightarrow>
        (\<exists>cid r d. msg_data m = json_bytes (dispatch_event cid r d) \<and> ordered db cid (rq_argument r) (cd_opcode d))) \<and>
     (msg_subject m = ''commands.status'' \<longrightarrow>
        (\<exists>cid arg opc status detail. msg_data m = json_bytes (status_json cid status detail) \<and> ordered db cid arg opc \<and>
           (status = ''DISPATCHED'' \<or> status = ''DISPATCH_ERROR''))) \<and>
     (msg_subject m = ''telemetry.command_ack'' \<longrightarrow>
        (\<exists>q t addr a. msg_data m = json_bytes (envelope_json q t addr (ack_json a)) \<and> results (ca_command_id a) = Some a))"

definition row_ok :: "(int \<rightharpoonup> CommandAck) \<Rightarrow> CommandRequest list \<Rightarrow> command_row \<Rightarrow> bool" where
  "row_ok results orders row \<longleftrightarrow>
     int8 (cm_id row) \<and> int4 (cm_argument row) \<and>
     (\<exists>d. validate_command (cm_name row) (cm_argument row) = Inr d) \<and>
     (if cm_dry_run row then cm_status row = ''DRY_RUN_VALIDATED''
      else (\<exists>r \<in> set orders. \<not> rq_dry_run r \<and> rq_name r = cm_name row \<and> rq_argument r = cm_argument row \<and>
              rq_operator_id r = cm_operator_id row)) \<and>
     cm_status row \<noteq> ''REJECTED'' \<and>
     (cm_status row = ''ACKED'' \<longrightarrow>
        (\<exists>a. results (cm_id row) = Some a \<and> ca_status a = 0 \<and> ca_applied_value a = cm_argument row))"

definition ground_state_ok :: "(int \<rightharpoonup> CommandAck) \<Rightarrow> CommandRequest list \<Rightarrow> mission \<Rightarrow> bool" where
  "ground_state_ok results orders w \<longleftrightarrow>
     (let db = m_db w in
      distinct (map cm_id (commands_table db)) \<and> (\<forall>row \<in> set (commands_table db). cm_id row \<le> commands_id_seq db \<and> row_ok results orders row) \<and>
      (\<forall>m \<in> set (m_stream w). message_ok results db m) \<and>
      (\<forall>raw \<in> set (m_uplink w). \<exists>f. decode_command raw = Inr f \<and> ordered db (cf_command_id f) (cf_argument f) (cf_opcode f)) \<and>
      (\<forall>cid a. results cid = Some a \<longrightarrow> ca_command_id a = cid \<and> ca_status a = 0 \<and> (\<exists>opc. ordered db cid (ca_applied_value a) opc) \<and> ack_ok cid a))"

definition downlink_ok :: "spacecraft \<Rightarrow> bool" where
  "downlink_ok p \<longleftrightarrow> spacecraft_inv (sp_state p) \<and> sp_connected p \<and>
     (\<forall>raw \<in> set (sp_sent p). \<forall>q a. decode_space_packet raw = Inr q \<longrightarrow> decode_ack q = Inr a \<longrightarrow>
        sc_command_results (sp_state p) (ca_command_id a) = Some a)"

definition mission_inv :: "mission_system \<Rightarrow> bool" where
  "mission_inv s \<longleftrightarrow> downlink_ok (ms_spacecraft s) \<and>
     ground_state_ok (sc_command_results (sp_state (ms_spacecraft s))) (ms_orders s) (ms_world s)"

section \<open>Invariants of ground actions\<close>

definition holds :: "(mission \<Rightarrow> bool) \<Rightarrow> ('a \<Rightarrow> mission \<Rightarrow> bool) \<Rightarrow> (mission_error, 'a, mission) outcome \<Rightarrow> bool" where
  "holds I Q out \<longleftrightarrow> I (snd out) \<and> (\<forall>x. fst out = Inr x \<longrightarrow> Q x (snd out))"

abbreviation stays :: "(mission \<Rightarrow> bool) \<Rightarrow> (mission_error, 'a, mission) outcome \<Rightarrow> bool" where
  "stays I \<equiv> holds I (\<lambda>_ _. True)"

lemma holds_and_then:
  "holds I Q m \<Longrightarrow> (\<And>x w. I w \<Longrightarrow> Q x w \<Longrightarrow> holds I R (k x w)) \<Longrightarrow> holds I R (and_then m k)"
  by (cases "(m, k)" rule: and_then.cases) (auto simp: holds_def)

lemma holds_except: "holds I Q m \<Longrightarrow> (\<And>e w. I w \<Longrightarrow> holds I Q (h e w)) \<Longrightarrow> holds I Q (except m h)"
  by (cases "(m, h)" rule: except.cases) (auto simp: holds_def)

lemma holds_raising: "I w \<Longrightarrow> holds I (\<lambda>x _. r = Inr x) (raising r w)"
  by (simp add: holds_def raising_def)

lemma holds_return: "I w \<Longrightarrow> Q x w \<Longrightarrow> holds I Q (Inr x, w)"
  by (simp add: holds_def)

lemma holds_error: "I w \<Longrightarrow> holds I Q (Inl e, w)"
  by (simp add: holds_def)

lemma holds_kept: "stays I m \<Longrightarrow> I (snd m)"
  by (simp add: holds_def)

lemma holds_weaken: "holds I Q m \<Longrightarrow> (\<And>x w. I w \<Longrightarrow> Q x w \<Longrightarrow> R x w) \<Longrightarrow> holds I R m"
  by (auto simp: holds_def)

text \<open>
  An invariant that depends on the database, the stream and the uplink only is not touched by the
  clock, the counters and the settlements, and a call keeps it when its effect does.
\<close>

locale ground_invariant =
  fixes I :: "mission \<Rightarrow> bool"
  assumes frame: "I w \<Longrightarrow> m_db w' = m_db w \<Longrightarrow> m_stream w' = m_stream w \<Longrightarrow> m_uplink w' = m_uplink w \<Longrightarrow> I w'"
begin

lemma inc_kept: "I w \<Longrightarrow> I (inc c l n w)"
  by (erule frame) (simp_all add: inc_def)

lemma gauge_kept: "I w \<Longrightarrow> I (set_gauge g v w)"
  by (erule frame) (simp_all add: set_gauge_def)

lemma clock_holds: "I w \<Longrightarrow> stays I (read_clock S w)"
  unfolding holds_def read_clock_def by (auto elim!: frame)

lemma call_holds:
  assumes I: "I w" and f: "\<And>w1. I w1 \<Longrightarrow> m_db w1 = m_db w \<Longrightarrow> m_stream w1 = m_stream w \<Longrightarrow> m_uplink w1 = m_uplink w \<Longrightarrow>
      I (snd (f w1)) \<and> Q (fst (f w1)) (snd (f w1))"
  shows "holds I Q (service_call e S f w)"
proof -
  let ?w = "w\<lparr>m_tick := Suc (m_tick w)\<rparr>"
  have "I ?w" by (rule frame [OF I]) simp_all
  then show ?thesis using f [of ?w] by (auto simp: service_call_def holds_def Let_def split: fate.splits prod.splits)
qed

lemma settle_holds: "I w \<Longrightarrow> stays I (settle S x w)"
  unfolding settle_def by (rule call_holds) (auto elim!: frame)

lemma sql_holds:
  assumes I: "I w" and f: "\<And>now w1. I w1 \<Longrightarrow> m_db w1 = m_db w \<Longrightarrow> m_stream w1 = m_stream w \<Longrightarrow> m_uplink w1 = m_uplink w \<Longrightarrow> ok \<Longrightarrow>
      I (w1\<lparr>m_db := snd (f now (m_db w1))\<rparr>) \<and> Q (fst (f now (m_db w1))) (w1\<lparr>m_db := snd (f now (m_db w1))\<rparr>)"
  shows "holds I Q (sql S ok f w)"
proof (cases ok)
  case True
  have "holds I Q (service_call DatabaseDown S
      (\<lambda>w1. case f (clock_ns S (m_tick w) div 1000) (m_db w1) of (x, db) \<Rightarrow> (x, w1\<lparr>m_db := db\<rparr>)) w)"
    by (rule call_holds [OF I]) (use f True in \<open>simp add: split_beta\<close>)
  then show ?thesis using True by (simp add: sql_def)
next
  case False
  have "I (w\<lparr>m_tick := Suc (m_tick w)\<rparr>)" by (rule frame [OF I]) simp_all
  then show ?thesis using False by (simp add: sql_def holds_def)
qed

lemma publish_holds:
  assumes I: "I w" and m: "\<And>w1. I w1 \<Longrightarrow> m_db w1 = m_db w \<Longrightarrow> m_stream w1 = m_stream w \<Longrightarrow> m_uplink w1 = m_uplink w \<Longrightarrow>
      I (w1\<lparr>m_stream := m_stream w1 @ [\<lparr>msg_subject = subject, msg_data = json_bytes v\<rparr>]\<rparr>)"
  shows "stays I (publish S subject v w)"
  unfolding publish_def using I m by (intro call_holds) auto

lemma send_holds:
  assumes I: "I w" and m: "\<And>w1. I w1 \<Longrightarrow> m_db w1 = m_db w \<Longrightarrow> m_stream w1 = m_stream w \<Longrightarrow> m_uplink w1 = m_uplink w \<Longrightarrow>
      I (w1\<lparr>m_uplink := m_uplink w1 @ [raw]\<rparr>)"
  shows "stays I (send_datagram S raw w)"
  unfolding send_datagram_def using I m by (intro call_holds) auto

lemma handled_kept:
  assumes I: "I w" and body: "stays I (body w)"
  shows "stays I (handled S n subject body w)"
  unfolding handled_def
proof (rule holds_except)
  show "stays I (and_then (body w) (\<lambda>_ w1. settle S (Acked n) (inc processor_messages [subject, ''ok''] 1 w1)))"
    by (rule holds_and_then [OF body]) (intro settle_holds inc_kept)
qed (intro settle_holds inc_kept)

end

section \<open>The invariant under the effects\<close>

lemma ground_state_ok_frame:
  "ground_state_ok results orders w \<Longrightarrow> m_db w' = m_db w \<Longrightarrow> m_stream w' = m_stream w \<Longrightarrow> m_uplink w' = m_uplink w \<Longrightarrow>
     ground_state_ok results orders w'"
  by (simp add: ground_state_ok_def)

interpretation ground: ground_invariant "ground_state_ok results orders" for results orders
  by unfold_locales (rule ground_state_ok_frame)

lemma ground_state_ok_publish:
  assumes "ground_state_ok results orders w" "message_ok results (m_db w) m"
  shows "ground_state_ok results orders (w\<lparr>m_stream := m_stream w @ [m]\<rparr>)"
  using assms by (auto simp: ground_state_ok_def Let_def)

lemma publish_ok:
  assumes "ground_state_ok results orders w" "message_ok results (m_db w) \<lparr>msg_subject = subject, msg_data = json_bytes v\<rparr>"
  shows "stays (ground_state_ok results orders) (publish S subject v w)"
  by (rule ground.publish_holds [OF assms(1)]) (rule ground_state_ok_publish, use assms(2) in simp_all)

lemma message_ok_other:
  "subject \<noteq> ''commands.dispatch'' \<Longrightarrow> subject \<noteq> ''commands.status'' \<Longrightarrow> subject \<noteq> ''telemetry.command_ack'' \<Longrightarrow>
     message_ok results db \<lparr>msg_subject = subject, msg_data = data\<rparr>"
  by (simp add: message_ok_def)

text \<open>Changes of the database that keep every order.\<close>

definition keeps_orders :: "mission_db \<Rightarrow> mission_db \<Rightarrow> bool" where
  "keeps_orders db db' \<longleftrightarrow> (\<forall>cid arg opc. ordered db cid arg opc \<longrightarrow> ordered db' cid arg opc)"

lemma message_ok_mono: "keeps_orders db db' \<Longrightarrow> message_ok results db m \<Longrightarrow> message_ok results db' m"
  unfolding message_ok_def keeps_orders_def by metis

lemma ground_state_ok_database:
  assumes w: "ground_state_ok results orders w" and o: "keeps_orders (m_db w) db"
    and d: "distinct (map cm_id (commands_table db))"
    and r: "\<And>row. row \<in> set (commands_table db) \<Longrightarrow> cm_id row \<le> commands_id_seq db \<and> row_ok results orders row"
  shows "ground_state_ok results orders (w\<lparr>m_db := db\<rparr>)"
proof -
  have "\<forall>m \<in> set (m_stream w). message_ok results db m"
    using w message_ok_mono [OF o] by (auto simp: ground_state_ok_def Let_def)
  moreover have "\<forall>raw \<in> set (m_uplink w). \<exists>f. decode_command raw = Inr f \<and> ordered db (cf_command_id f) (cf_argument f) (cf_opcode f)"
    using w o unfolding ground_state_ok_def Let_def keeps_orders_def by metis
  moreover have "\<forall>cid a. results cid = Some a \<longrightarrow> ca_command_id a = cid \<and> ca_status a = 0 \<and> (\<exists>opc. ordered db cid (ca_applied_value a) opc) \<and> ack_ok cid a"
    using w o unfolding ground_state_ok_def Let_def keeps_orders_def by metis
  ultimately show ?thesis using d r by (simp add: ground_state_ok_def Let_def)
qed

lemma ground_state_ok_other_tables:
  assumes "ground_state_ok results orders w" "commands_table db = commands_table (m_db w)" "commands_id_seq db = commands_id_seq (m_db w)"
  shows "ground_state_ok results orders (w\<lparr>m_db := db\<rparr>)"
  using assms by (intro ground_state_ok_database) (auto simp: ground_state_ok_def Let_def keeps_orders_def ordered_def)

lemma audit_ok: "ground_state_ok results orders w \<Longrightarrow> stays (ground_state_ok results orders) (insert_command_audit S actor action oid detail w)"
  unfolding insert_command_audit_def by (rule ground.sql_holds) (auto intro!: ground_state_ok_other_tables)

end
