(* ===== verification/Mission_Invariant.thy ===== *)
theory Mission_Invariant
  imports Mission_System
begin

text \<open>
  Every service of the legacy mission system keeps the invariant of \<open>Mission_System\<close>: the lemmas for the
  handlers of the processor, the dispatcher, the API, the ingest and the advisory service, for the
  spacecraft, and by rule induction for every run (\<open>mission_run_inv\<close>).
\<close>

section \<open>The services keep the invariant\<close>

abbreviation ground_stays :: "(int \<rightharpoonup> CommandAck) \<Rightarrow> CommandRequest list \<Rightarrow> (mission_error, 'a, mission) outcome \<Rightarrow> bool" where
  "ground_stays results orders \<equiv> stays (ground_state_ok results orders)"

lemma stays_raising: "I w \<Longrightarrow> stays I (raising r w)"
  by (simp add: holds_def raising_def)

lemma raise_alert_ok: "ground_state_ok results orders w \<Longrightarrow> ground_stays results orders (raise_alert S n v w)"
  unfolding raise_alert_def
  by (rule holds_and_then [where Q = "\<lambda>_ _. True"], rule ground.sql_holds)
    (auto intro!: ground_state_ok_other_tables holds_and_then [where Q = "\<lambda>_ _. True"] publish_ok message_ok_other holds_return ground.inc_kept)

lemma raise_alerts_ok: "ground_state_ok results orders w \<Longrightarrow> ground_stays results orders (raise_alerts S n vs w)"
proof (induction vs arbitrary: w)
  case (Cons v vs)
  show ?case unfolding raise_alerts.simps by (rule holds_and_then [OF raise_alert_ok]) (use Cons in auto)
qed (simp add: holds_return)

lemma health_body_ok: "ground_state_ok results orders w \<Longrightarrow> ground_stays results orders (health_body S data w)"
  unfolding health_body_def
proof (intro holds_and_then [where Q = "\<lambda>_ _. True"] stays_raising, assumption+, goal_cases)
  case (1 w _ _ _ _ _ _ _ _ _)
  then show ?case by (intro ground.sql_holds) (auto intro!: ground_state_ok_other_tables)
next
  case 2
  then show ?case unfolding Let_def
    by (intro holds_and_then [where Q = "\<lambda>_ _. True"] raise_alerts_ok ground.gauge_kept publish_ok message_ok_other) simp_all
qed

lemma process_health_ok: "ground_state_ok results orders w \<Longrightarrow> ground_stays results orders (process_health S n data w)"
  unfolding process_health_def by (intro ground.handled_kept health_body_ok)

lemma advise_ok: "ground_state_ok results orders w \<Longrightarrow> ground_stays results orders (advise vllm S model n data w)"
  unfolding advise_def
  by (intro holds_except holds_and_then [where Q = "\<lambda>_ _. True"] stays_raising publish_ok message_ok_other
      ground.settle_holds ground.inc_kept) simp_all

lemma read_dispatch: "loads (json_bytes (dispatch_event cid r d)) = Inr (dispatch_event cid r d)"
  by (rule loads_bytes) (auto simp: dispatch_event_def intro!: as_dict_object)

lemma read_status: "loads (json_bytes (status_json cid status detail)) = Inr (status_json cid status detail)"
  by (rule loads_bytes) (auto simp: status_json_def intro!: as_dict_object)

lemma read_ack: "loads (json_bytes (envelope_json q t addr (ack_json a))) = Inr (envelope_json q t addr (ack_json a))"
proof (rule loads_bytes)
  have "as_dict (ack_json a) = ack_json a" unfolding ack_json_def by (rule as_dict_object) auto
  then show "as_dict (envelope_json q t addr (ack_json a)) = envelope_json q t addr (ack_json a)"
    unfolding envelope_json_def by (intro as_dict_object) auto
qed (auto simp: envelope_json_def ack_json_def)

lemma item_simps:
  "item (JObj kvs) key = (case map_of kvs key of None \<Rightarrow> Inl (KeyError key) | Some x \<Rightarrow> Inr x)"
  by (simp add: item_def)

lemma dispatch_items:
  "item (dispatch_event cid r d) ''name'' = Inr (JStr (rq_name r))"
  "int8 cid \<Longrightarrow> int_item (dispatch_event cid r d) ''command_id'' = Inr cid"
  "int8 (cd_opcode d) \<Longrightarrow> int_item (dispatch_event cid r d) ''opcode'' = Inr (cd_opcode d)"
  "int8 (rq_argument r) \<Longrightarrow> int_item (dispatch_event cid r d) ''argument'' = Inr (rq_argument r)"
  by (simp_all add: dispatch_event_def item_simps int_item_def int_of_jint)

lemma status_items:
  "item (status_json cid status detail) ''status'' = Inr (JStr status)"
  "item (status_json cid status detail) ''command_id'' = Inr (jint cid)"
  "int8 cid \<Longrightarrow> int_item (status_json cid status detail) ''command_id'' = Inr cid"
  "optional_text (status_json cid status detail) ''detail'' = Inr (Some detail)"
  by (simp_all add: status_json_def item_simps int_item_def int_of_jint optional_text_def)

lemma ack_items:
  "item (envelope_json q t addr (ack_json a)) ''data'' = Inr (ack_json a)"
  "int8 (ca_command_id a) \<Longrightarrow> int_item (ack_json a) ''command_id'' = Inr (ca_command_id a)"
  "int8 (ca_status a) \<Longrightarrow> int_item (ack_json a) ''status'' = Inr (ca_status a)"
  "int8 (ca_applied_value a) \<Longrightarrow> int_item (ack_json a) ''applied_value'' = Inr (ca_applied_value a)"
  by (simp_all add: envelope_json_def ack_json_def item_simps int_item_def int_of_jint)

lemma ordered_row:
  assumes "ground_state_ok results orders w" "ordered (m_db w) cid arg opc"
  shows "int8 cid \<and> int8 arg \<and> int8 opc"
proof -
  obtain row d where row: "row \<in> set (commands_table (m_db w))" "cm_id row = cid" "cm_argument row = arg"
    and d: "validate_command (cm_name row) arg = Inr d" "cd_opcode d = opc"
    using assms(2) by (auto simp: ordered_def)
  have "row_ok results orders row" using assms(1) row(1) by (auto simp: ground_state_ok_def Let_def)
  moreover have "opc = 1 \<or> opc = 2 \<or> opc = 3" using validated_opcode [of arg opc] d by blast
  ultimately show ?thesis using row by (auto simp: row_ok_def int4_int8 int8_def [of 1] int8_def [of 2] int8_def [of 3])
qed

text \<open>An order stays an order while a handler does not touch the database.\<close>

interpretation order: ground_invariant "\<lambda>w. ground_state_ok results orders w \<and> ordered (m_db w) cid arg opc"
  for results orders cid arg opc
  by unfold_locales (auto intro: ground_state_ok_frame)

lemma order_publish:
  assumes "ground_state_ok results orders w \<and> ordered (m_db w) cid arg opc"
    and "\<And>db. ordered db cid arg opc \<Longrightarrow> message_ok results db \<lparr>msg_subject = subject, msg_data = json_bytes v\<rparr>"
  shows "stays (\<lambda>w. ground_state_ok results orders w \<and> ordered (m_db w) cid arg opc) (publish S subject v w)"
proof (rule order.publish_holds [OF assms(1)])
  fix w1 assume "ground_state_ok results orders w1 \<and> ordered (m_db w1) cid arg opc"
  then show "ground_state_ok results orders (w1\<lparr>m_stream := m_stream w1 @ [\<lparr>msg_subject = subject, msg_data = json_bytes v\<rparr>]\<rparr>)
      \<and> ordered (m_db (w1\<lparr>m_stream := m_stream w1 @ [\<lparr>msg_subject = subject, msg_data = json_bytes v\<rparr>]\<rparr>)) cid arg opc"
    using assms(2) ground_state_ok_publish by auto
qed

lemma status_message_ok:
  assumes "ordered db cid arg opc" "status = ''DISPATCHED'' \<or> status = ''DISPATCH_ERROR''"
  shows "message_ok results db \<lparr>msg_subject = ''commands.status'', msg_data = json_bytes (status_json cid status detail)\<rparr>"
  using assms unfolding message_ok_def by (simp, blast)

lemma dispatch_body_ok:
  assumes w: "ground_state_ok results orders w \<and> ordered (m_db w) cid (rq_argument r) (cd_opcode d)"
  shows "stays (\<lambda>w. ground_state_ok results orders w \<and> ordered (m_db w) cid (rq_argument r) (cd_opcode d))
    (dispatch_body S target n (json_bytes (dispatch_event cid r d)) w)"
proof -
  have i: "int8 cid" "int8 (rq_argument r)" "int8 (cd_opcode d)" using ordered_row w by auto
  have st: "ordered db cid (rq_argument r) (cd_opcode d) \<Longrightarrow>
      message_ok results db \<lparr>msg_subject = ''commands.status'', msg_data = json_bytes (status_json cid ''DISPATCHED'' detail)\<rparr>" for db detail
    by (rule status_message_ok) simp_all
  let ?I = "\<lambda>w. ground_state_ok results orders w \<and> ordered (m_db w) cid (rq_argument r) (cd_opcode d)"
  have sent: "?I (w\<lparr>m_uplink := m_uplink w @ [raw]\<rparr>)" if "?I w" and
    "encode_command \<lparr>cf_command_id = cid, cf_opcode = cd_opcode d, cf_argument = rq_argument r, cf_issued_ns = t\<rparr> = Inr raw" for w raw t
    using that decode_iff_encode_command [of raw] by (auto simp: ground_state_ok_def Let_def)
  have tail: "stays ?I (and_then (send_datagram S raw w) (\<lambda>_ w.
      and_then (publish S ''commands.status'' (status_json cid ''DISPATCHED'' detail) w) (\<lambda>_ w.
      settle S (Acked n) (inc dispatch_counter [''sent'', label] 1 w))))"
    if w: "?I w" and e: "encode_command \<lparr>cf_command_id = cid, cf_opcode = cd_opcode d, cf_argument = rq_argument r, cf_issued_ns = t\<rparr> = Inr raw"
    for w raw t detail label
  proof (rule holds_and_then [OF order.send_holds [OF w]])
    show "?I (w1\<lparr>m_uplink := m_uplink w1 @ [raw]\<rparr>)" if "?I w1" for w1 using sent [OF that e] .
  next
    fix w assume "?I w"
    then show "stays ?I (and_then (publish S ''commands.status'' (status_json cid ''DISPATCHED'' detail) w) (\<lambda>_ w.
      settle S (Acked n) (inc dispatch_counter [''sent'', label] 1 w)))"
      by (intro holds_and_then [OF order_publish] order.settle_holds order.inc_kept st)
  qed
  have "stays ?I (and_then (read_clock S w) (\<lambda>t w. and_then (raising (map_sum PacketFault id (encode_command
        \<lparr>cf_command_id = cid, cf_opcode = cd_opcode d, cf_argument = rq_argument r, cf_issued_ns = t\<rparr>)) w) (\<lambda>raw w.
      and_then (send_datagram S raw w) (\<lambda>_ w.
      and_then (publish S ''commands.status'' (status_json cid ''DISPATCHED'' detail) w) (\<lambda>_ w.
      settle S (Acked n) (inc dispatch_counter [''sent'', label] 1 w))))))" for detail label
  proof (rule holds_and_then [OF order.clock_holds [OF w]], rule holds_and_then [OF holds_raising], assumption)
    fix t raw w1 assume "?I w1" "map_sum PacketFault id (encode_command
        \<lparr>cf_command_id = cid, cf_opcode = cd_opcode d, cf_argument = rq_argument r, cf_issued_ns = t\<rparr>) = Inr raw"
    then show "stays ?I (and_then (send_datagram S raw w1) (\<lambda>_ w.
      and_then (publish S ''commands.status'' (status_json cid ''DISPATCHED'' detail) w) (\<lambda>_ w.
      settle S (Acked n) (inc dispatch_counter [''sent'', label] 1 w))))"
      using tail [of w1 t raw detail label] by (auto split: sum.splits simp: map_sum_def)
  qed
  then show ?thesis unfolding dispatch_body_def
    by (simp add: raising_def read_dispatch dispatch_items i)
qed

lemma dispatch_ok:
  assumes w: "ground_state_ok results orders w"
    and m: "message_ok results (m_db w) \<lparr>msg_subject = ''commands.dispatch'', msg_data = data\<rparr>"
  shows "ground_stays results orders (dispatch S exc_text target n data w)"
proof -
  obtain cid r d where data: "data = json_bytes (dispatch_event cid r d)" and o: "ordered (m_db w) cid (rq_argument r) (cd_opcode d)"
    using m by (auto simp: message_ok_def)
  let ?I = "\<lambda>w. ground_state_ok results orders w \<and> ordered (m_db w) cid (rq_argument r) (cd_opcode d)"
  have i: "int8 cid" using ordered_row w o by blast
  have failed: "stays ?I (dispatch_failed S exc_text data e w)" if "?I w" for e w
    unfolding dispatch_failed_def data
    by (simp add: raising_def read_dispatch dispatch_items i) (rule order_publish [OF that], rule status_message_ok, simp_all)
  have final: "stays ?I (case m of (r, w2) \<Rightarrow> case settle S (Naked n 2) w2 of (Inl e', w3) \<Rightarrow> (Inl e', w3) | (Inr _, w3) \<Rightarrow> (r, w3))"
    if "stays ?I m" for m :: "(mission_error, unit, mission) outcome"
    using that order.settle_holds [of results orders "snd m" cid "rq_argument r" "cd_opcode d" S "Naked n 2"]
    by (auto simp: holds_def split: prod.splits sum.splits)
  have "stays ?I (dispatch S exc_text target n data w)"
    unfolding dispatch_def
  proof (rule holds_except)
    show "stays ?I (dispatch_body S target n data w)" unfolding data using dispatch_body_ok w o by blast
    fix e w1 assume "?I w1"
    then have "?I (inc dispatch_counter [''error'', dispatch_name data] 1 w1)" by (rule order.inc_kept)
    then show "stays ?I (case dispatch_failed S exc_text data e (inc dispatch_counter [''error'', dispatch_name data] 1 w1) of
         (r, w2) \<Rightarrow> (case settle S (Naked n 2) w2 of (Inl e', w3) \<Rightarrow> (Inl e', w3) | (Inr _, w3) \<Rightarrow> (r, w3)))"
      by (intro final failed)
  qed
  then show ?thesis by (simp add: holds_def)
qed

definition status_earned :: "(int \<rightharpoonup> CommandAck) \<Rightarrow> int \<Rightarrow> int \<Rightarrow> string \<Rightarrow> bool" where
  "status_earned results cid arg status \<longleftrightarrow> status = ''DISPATCHED'' \<or> status = ''DISPATCH_ERROR'' \<or>
     (status = ''ACKED'' \<and> (\<exists>a. results cid = Some a \<and> ca_status a = 0 \<and> ca_applied_value a = arg))"

lemma ordered_unique:
  assumes "ground_state_ok results orders w" "ordered (m_db w) cid arg opc" "row \<in> set (commands_table (m_db w))" "cm_id row = cid"
  shows "\<not> cm_dry_run row \<and> cm_argument row = arg"
  using assms row_unique [of cm_id "commands_table (m_db w)" row] unfolding ordered_def ground_state_ok_def Let_def by metis

lemma update_command_ok:
  assumes w: "ground_state_ok results orders w" and o: "ordered (m_db w) cid arg opc" and s: "status_earned results cid arg status"
  shows "ground_stays results orders (update_command S status detail cid w)"
  unfolding update_command_def
proof (rule ground.sql_holds [OF w], simp)
  fix now w1
  assume w1: "ground_state_ok results orders w1" and db: "m_db w1 = m_db w"
  let ?f = "\<lambda>r. if cm_id r = cid then r\<lparr>cm_status := status, cm_status_detail := detail, cm_updated_at := now\<rparr> else r"
  let ?db = "(m_db w)\<lparr>commands_table := map ?f (commands_table (m_db w))\<rparr>"
  have f: "cm_id (?f r) = cm_id r" "cm_dry_run (?f r) = cm_dry_run r" "cm_argument (?f r) = cm_argument r" "cm_name (?f r) = cm_name r" for r
    by simp_all
  have "ground_state_ok results orders (w1\<lparr>m_db := ?db\<rparr>)"
  proof (rule ground_state_ok_database [OF w1])
    show "keeps_orders (m_db w1) ?db" unfolding keeps_orders_def
    proof (intro allI impI)
      fix c x p assume "ordered (m_db w1) c x p"
      then obtain r where "r \<in> set (commands_table (m_db w))" "cm_id r = c \<and> \<not> cm_dry_run r \<and> cm_argument r = x \<and>
        (\<exists>d. validate_command (cm_name r) x = Inr d \<and> cd_opcode d = p)" unfolding ordered_def db by blast
      then show "ordered ?db c x p" unfolding ordered_def by (intro bexI [of _ "?f r"]) simp_all
    qed
    have e: "map cm_id (commands_table ?db) = map cm_id (commands_table (m_db w))" by simp
    show "distinct (map cm_id (commands_table ?db))" unfolding e using w unfolding ground_state_ok_def Let_def by blast
    fix row assume "row \<in> set (commands_table ?db)"
    then obtain r0 where r0: "r0 \<in> set (commands_table (m_db w))" and row: "row = ?f r0" by auto
    have ok0: "cm_id r0 \<le> commands_id_seq (m_db w) \<and> row_ok results orders r0" using w r0 by (auto simp: ground_state_ok_def Let_def)
    show "cm_id row \<le> commands_id_seq ?db \<and> row_ok results orders row"
      using ok0 ordered_unique [OF w o r0] s unfolding row by (auto simp: row_ok_def status_earned_def)
  qed
  then show "ground_state_ok results orders (w1\<lparr>m_db := ?db\<rparr>)" .
qed

lemma status_body_ok:
  assumes w: "ground_state_ok results orders w"
    and m: "message_ok results (m_db w) \<lparr>msg_subject = ''commands.status'', msg_data = data\<rparr>"
  shows "ground_stays results orders (status_body S data w)"
proof -
  obtain cid arg opc status detail where data: "data = json_bytes (status_json cid status detail)"
    and o: "ordered (m_db w) cid arg opc" and s: "status = ''DISPATCHED'' \<or> status = ''DISPATCH_ERROR''"
    using m by (auto simp: message_ok_def)
  have i: "int8 cid" using ordered_row [OF w o] by blast
  have "status_earned results cid arg status" unfolding status_earned_def using s by blast
  then have "ground_stays results orders (and_then (update_command S status (Some detail) cid w) (\<lambda>_ w.
      insert_command_audit S ''dispatcher'' ''COMMAND_STATUS'' (str_of_json (jint cid)) (status_json cid status detail) w))"
    by (rule holds_and_then [OF update_command_ok [OF w o]]) (rule audit_ok)
  then show ?thesis unfolding status_body_def data by (simp add: raising_def read_status status_items i text_argument_def)
qed

lemma ack_body_ok:
  assumes w: "ground_state_ok results orders w"
    and m: "message_ok results (m_db w) \<lparr>msg_subject = ''telemetry.command_ack'', msg_data = data\<rparr>"
  shows "ground_stays results orders (ack_body S data w)"
proof -
  obtain q t addr a where data: "data = json_bytes (envelope_json q t addr (ack_json a))" and a: "results (ca_command_id a) = Some a"
    using m by (auto simp: message_ok_def)
  obtain opc where o: "ordered (m_db w) (ca_command_id a) (ca_applied_value a) opc" and st: "ca_status a = 0" "ack_ok (ca_command_id a) a"
    using w a unfolding ground_state_ok_def Let_def by metis
  have i: "int8 (ca_command_id a)" "int8 (ca_applied_value a)" "int8 (ca_status a)"
    using ordered_row [OF w o] st by (auto simp: int8_def)
  have "status_earned results (ca_command_id a) (ca_applied_value a) ''ACKED''" unfolding status_earned_def using a st by blast
  then have "ground_stays results orders (and_then (update_command S ''ACKED'' (Some detail) (ca_command_id a) w) (\<lambda>_ w.
      insert_command_audit S ''spacecraft'' ''COMMAND_ACK'' (py_str (ca_command_id a)) (envelope_json q t addr (ack_json a)) w))" for detail
    by (rule holds_and_then [OF update_command_ok [OF w o]]) (rule audit_ok)
  then show ?thesis unfolding ack_body_def data by (simp add: raising_def read_ack ack_items i st int8_def [of 0])
qed

lemma process_ack_ok:
  "ground_state_ok results orders w \<Longrightarrow> message_ok results (m_db w) \<lparr>msg_subject = ''telemetry.command_ack'', msg_data = data\<rparr> \<Longrightarrow>
     ground_stays results orders (process_ack S n data w)"
  unfolding process_ack_def by (intro ground.handled_kept ack_body_ok)

lemma process_status_ok:
  "ground_state_ok results orders w \<Longrightarrow> message_ok results (m_db w) \<lparr>msg_subject = ''commands.status'', msg_data = data\<rparr> \<Longrightarrow>
     ground_stays results orders (process_status S n data w)"
  unfolding process_status_def by (intro ground.handled_kept status_body_ok)

lemma ack_message_ok:
  assumes "results (ca_command_id a) = Some a"
  shows "message_ok results db \<lparr>msg_subject = ''telemetry.command_ack'', msg_data = json_bytes (envelope_json q t addr (ack_json a))\<rparr>"
  using assms unfolding message_ok_def by (simp del: split_paired_Ex) blast

lemma ingest_ok:
  assumes w: "ground_state_ok results orders w"
    and d: "\<And>q a. decode_space_packet raw = Inr q \<Longrightarrow> decode_ack q = Inr a \<Longrightarrow> results (ca_command_id a) = Some a"
  shows "ground_stays results orders (ingest_process S raw addr w)"
  unfolding ingest_process_def
proof (rule holds_except)
  have packet: "ground_stays results orders (ingest_packet S addr q w)"
    if w: "ground_state_ok results orders w" and q: "decode_space_packet raw = Inr q" for q w
  proof -
    have t: "ground_state_ok results orders (w\<lparr>m_tracker := t\<rparr>)" for t by (rule ground_state_ok_frame [OF w]) simp_all
    have obs: "ground_state_ok results orders (w\<lparr>m_observed := x\<rparr>)" if "ground_state_ok results orders w" for w x
      by (rule ground_state_ok_frame [OF that]) simp_all
    have am: "message_ok results db \<lparr>msg_subject = ''telemetry.command_ack'', msg_data = json_bytes (envelope_json q n addr (ack_json a))\<rparr>"
      if "map_sum PacketFault id (decode_ack q) = Inr a" for a n db
    proof -
      have "decode_ack q = Inr a" using that by (cases "decode_ack q") auto
      then show ?thesis using d [OF q] by (intro ack_message_ok) blast
    qed
    show ?thesis unfolding ingest_packet_def Let_def split_beta
      by (auto intro!: holds_and_then [OF ground.clock_holds] holds_and_then [OF holds_raising] holds_and_then [OF publish_ok]
          holds_return ground.inc_kept message_ok_other t obs am)
  qed
  show "ground_stays results orders (and_then (raising (map_sum PacketFault id (decode_space_packet raw)) w) (ingest_packet S addr))"
  proof (rule holds_and_then [OF holds_raising], rule w)
    fix q w1 assume "ground_state_ok results orders w1" "map_sum PacketFault id (decode_space_packet raw) = Inr q"
    then show "ground_stays results orders (ingest_packet S addr q w1)" using packet [of w1 q] by (cases "decode_space_packet raw") auto
  qed
qed (auto intro!: holds_return ground.inc_kept split: mission_error.splits packet_error.splits)

lemma row_ok_orders: "set orders \<subseteq> set orders' \<Longrightarrow> row_ok results orders row \<Longrightarrow> row_ok results orders' row"
  unfolding row_ok_def by (auto split: if_splits)

lemma ground_state_ok_orders: "set orders \<subseteq> set orders' \<Longrightarrow> ground_state_ok results orders w \<Longrightarrow> ground_state_ok results orders' w"
  using row_ok_orders unfolding ground_state_ok_def Let_def by blast

lemma ordered_new:
  assumes "validate_command (rq_name r) (rq_argument r) = Inr d" "\<not> rq_dry_run r" "cm_name row = rq_name r"
    "cm_argument row = rq_argument r" "\<not> cm_dry_run row" "row \<in> set (commands_table db)"
  shows "ordered db (cm_id row) (rq_argument r) (cd_opcode d)"
  using assms unfolding ordered_def by (intro bexI [of _ row]) auto

lemma insert_command_ok:
  assumes w: "ground_state_ok results orders w" and v: "validate_command (rq_name r) (rq_argument r) = Inr d"
    and o: "\<not> rq_dry_run r \<Longrightarrow> r \<in> set orders"
  shows "holds (ground_state_ok results orders) (\<lambda>cid w. \<not> rq_dry_run r \<longrightarrow> ordered (m_db w) cid (rq_argument r) (cd_opcode d))
    (insert_command S r (if rq_dry_run r then ''DRY_RUN_VALIDATED'' else ''QUEUED'') w)"
  unfolding insert_command_def
proof (rule ground.sql_holds [OF w], unfold fst_conv snd_conv)
  fix now w1
  assume w1: "ground_state_ok results orders w1" and db: "m_db w1 = m_db w"
    and ok: "pg_text (rq_name r) \<and> int4 (rq_argument r) \<and> pg_text (rq_operator_id r) \<and> int8 (commands_id_seq (m_db w) + 1)"
  let ?row = "\<lparr>cm_id = commands_id_seq (m_db w1) + 1, cm_created_at = now, cm_updated_at = now, cm_name = rq_name r,
     cm_argument = rq_argument r, cm_dry_run = rq_dry_run r,
     cm_status = if rq_dry_run r then ''DRY_RUN_VALIDATED'' else ''QUEUED'', cm_operator_id = rq_operator_id r, cm_status_detail = None\<rparr>"
  let ?db = "(m_db w1)\<lparr>commands_id_seq := commands_id_seq (m_db w1) + 1, commands_table := commands_table (m_db w1) @ [?row]\<rparr>"
  have old: "distinct (map cm_id (commands_table (m_db w1)))"
    "\<And>row. row \<in> set (commands_table (m_db w1)) \<Longrightarrow> cm_id row \<le> commands_id_seq (m_db w1) \<and> row_ok results orders row"
    using w1 by (auto simp: ground_state_ok_def Let_def)
  have new: "row_ok results orders ?row" using ok v o by (auto simp: row_ok_def db)
  have "ground_state_ok results orders (w1\<lparr>m_db := ?db\<rparr>)"
  proof (rule ground_state_ok_database [OF w1])
    show "keeps_orders (m_db w1) ?db" unfolding keeps_orders_def ordered_def by auto
    show "distinct (map cm_id (commands_table ?db))" using old by force
    show "cm_id row \<le> commands_id_seq ?db \<and> row_ok results orders row" if "row \<in> set (commands_table ?db)" for row
      using that old(2) [of row] new by auto
  qed
  moreover have "\<not> rq_dry_run r \<longrightarrow> ordered (m_db (w1\<lparr>m_db := ?db\<rparr>)) (commands_id_seq (m_db w1) + 1) (rq_argument r) (cd_opcode d)"
    using ordered_new [of r d ?row ?db] v by auto
  ultimately show "ground_state_ok results orders (w1\<lparr>m_db := ?db\<rparr>) \<and>
    (\<not> rq_dry_run r \<longrightarrow> ordered (m_db (w1\<lparr>m_db := ?db\<rparr>)) (commands_id_seq (m_db w1) + 1) (rq_argument r) (cd_opcode d))"
    by blast
qed

lemma audit_order:
  assumes "ground_state_ok results orders w \<and> (p \<longrightarrow> ordered (m_db w) cid arg opc)"
  shows "stays (\<lambda>w. ground_state_ok results orders w \<and> (p \<longrightarrow> ordered (m_db w) cid arg opc)) (insert_command_audit S actor action oid detail w)"
proof -
  have "ground_stays results orders (insert_command_audit S actor action oid detail w)" using assms by (intro audit_ok) blast
  moreover have "commands_table (m_db (snd (insert_command_audit S actor action oid detail w))) = commands_table (m_db w)"
    by (auto simp: insert_command_audit_def sql_def service_call_def Let_def split: fate.splits prod.splits)
  ultimately show ?thesis using assms by (simp add: holds_def ordered_def)
qed

lemma dispatch_message_ok:
  "ordered db cid (rq_argument r) (cd_opcode d) \<Longrightarrow>
     message_ok results db \<lparr>msg_subject = ''commands.dispatch'', msg_data = json_bytes (dispatch_event cid r d)\<rparr>"
  unfolding message_ok_def by (simp, blast)

lemma create_command_ok:
  assumes w: "ground_state_ok results orders w" and o: "armed environ token arm \<Longrightarrow> r \<in> set orders"
  shows "ground_stays results orders (create_command environ S r token arm w)"
proof (cases "validate_command (rq_name r) (rq_argument r)")
  case (Inl m)
  then show ?thesis using w by (simp add: create_command_def holds_error ground.inc_kept)
next
  case (Inr d)
  show ?thesis
  proof (cases "rq_dry_run r \<or> armed environ token arm")
    case False
    then show ?thesis using w Inr by (auto simp: create_command_def armed_def holds_error ground.inc_kept)
  next
    case True
    let ?status = "if rq_dry_run r then ''DRY_RUN_VALIDATED'' else ''QUEUED''"
    have "ground_stays results orders (and_then (insert_command S r ?status w) (\<lambda>command_id w1.
                  and_then (insert_command_audit S (rq_operator_id r) ''COMMAND_CREATED'' (py_str command_id) (request_json r) w1) (\<lambda>_ w2.
                  and_then (if rq_dry_run r then (Inr (), w2)
                            else publish S ''commands.dispatch'' (dispatch_event command_id r d) w2) (\<lambda>_ w3.
                  (Inr \<lparr>ans_command_id = command_id, ans_status = ?status, ans_dry_run = rq_dry_run r\<rparr>,
                   inc command_request_counter [''accepted'', truth_label (rq_dry_run r)] 1 w3)))))"
    proof (rule holds_and_then [OF insert_command_ok [OF w Inr]])
      show "r \<in> set orders" if "\<not> rq_dry_run r" using that True o by blast
      fix cid w1 assume w1: "ground_state_ok results orders w1" "\<not> rq_dry_run r \<longrightarrow> ordered (m_db w1) cid (rq_argument r) (cd_opcode d)"
      let ?I = "\<lambda>w. ground_state_ok results orders w \<and> (\<not> rq_dry_run r \<longrightarrow> ordered (m_db w) cid (rq_argument r) (cd_opcode d))"
      have "stays ?I (insert_command_audit S (rq_operator_id r) ''COMMAND_CREATED'' (py_str cid) (request_json r) w1)"
        using w1 by (intro audit_order) blast
      then have a: "holds (ground_state_ok results orders) (\<lambda>_. ?I) (insert_command_audit S (rq_operator_id r) ''COMMAND_CREATED'' (py_str cid) (request_json r) w1)"
        by (simp add: holds_def)
      show "ground_stays results orders (and_then (insert_command_audit S (rq_operator_id r) ''COMMAND_CREATED'' (py_str cid) (request_json r) w1) (\<lambda>_ w2.
                  and_then (if rq_dry_run r then (Inr (), w2)
                            else publish S ''commands.dispatch'' (dispatch_event cid r d) w2) (\<lambda>_ w3.
                  (Inr \<lparr>ans_command_id = cid, ans_status = ?status, ans_dry_run = rq_dry_run r\<rparr>,
                   inc command_request_counter [''accepted'', truth_label (rq_dry_run r)] 1 w3))))"
        by (rule holds_and_then [OF a], rule holds_and_then [where Q = "\<lambda>_ _. True"])
          (auto intro!: holds_return publish_ok dispatch_message_ok ground.inc_kept)
    qed
    then show ?thesis using True Inr by (auto simp: create_command_def armed_def Let_def)
  qed
qed

lemma post_commands_ok:
  assumes "ground_state_ok results orders w" "armed environ token arm \<Longrightarrow> r \<in> set orders"
  shows "ground_stays results orders (post_commands environ S r token arm w)"
  using assms create_command_ok by (auto simp: post_commands_def holds_error)

section \<open>The spacecraft keeps the invariant\<close>

lemma ground_state_ok_results:
  assumes w: "ground_state_ok results orders w" and sub: "\<And>cid a. results cid = Some a \<Longrightarrow> results' cid = Some a"
    and new: "\<And>cid a. results' cid = Some a \<Longrightarrow> ca_command_id a = cid \<and> ca_status a = 0 \<and>
      (\<exists>opc. ordered (m_db w) cid (ca_applied_value a) opc) \<and> ack_ok cid a"
  shows "ground_state_ok results' orders w"
proof -
  have "message_ok results' db m" if "message_ok results db m" for db m
    using that unfolding message_ok_def by (elim conjE) (intro conjI, assumption, assumption, use sub in blast)
  moreover have "row_ok results' orders row" if "row_ok results orders row" for row
    using that sub unfolding row_ok_def by meson
  ultimately show ?thesis using w new unfolding ground_state_ok_def Let_def by simp
qed

lemma executes_validated:
  assumes "validate_command name (cf_argument f) = Inr d" "cd_opcode d = cf_opcode f"
  shows "fst (executes f s) = 0"
proof -
  have "\<exists>name d. validate_command name (cf_argument f) = Inr d \<and> cd_opcode d = cf_opcode f" using assms by blast
  then show ?thesis unfolding validated_opcode by (auto simp: executes_def)
qed

lemma apply_ordered:
  assumes w: "ground_state_ok (sc_command_results s) orders w" and s: "spacecraft_inv s" and now: "0 \<le> now" "now < 2 ^ 64"
    and d: "decode_command raw = Inr f" and o: "ordered (m_db w) (cf_command_id f) (cf_argument f) (cf_opcode f)"
  shows "ground_state_ok (sc_command_results (snd (apply_command now raw s))) orders w"
proof (cases "sc_command_results s (cf_command_id f)")
  case (Some a)
  then show ?thesis using apply_command_cached [OF d Some, of now] w by simp
next
  case None
  let ?a = "ack_of now f (fst (executes f s))"
  obtain row df where "row \<in> set (commands_table (m_db w))" and v: "validate_command (cm_name row) (cf_argument f) = Inr df" "cd_opcode df = cf_opcode f"
    using o by (auto simp: ordered_def)
  have res: "sc_command_results (snd (apply_command now raw s)) = (sc_command_results s)(cf_command_id f \<mapsto> ?a)"
    using apply_command_new [OF d None, of now] by simp
  have ok: "ack_ok (cf_command_id f) ?a" "ca_status ?a = 0"
    using apply_command_inv [OF s now, of raw] apply_command_new [OF d None, of now] executes_validated [OF v, of s]
    by (auto simp: ack_of_def)
  show ?thesis
  proof (rule ground_state_ok_results [OF w])
    show "sc_command_results (snd (apply_command now raw s)) cid = Some a" if "sc_command_results s cid = Some a" for cid a
      using that None by (auto simp: res)
    fix cid a assume a: "sc_command_results (snd (apply_command now raw s)) cid = Some a"
    show "ca_command_id a = cid \<and> ca_status a = 0 \<and> (\<exists>opc. ordered (m_db w) cid (ca_applied_value a) opc) \<and> ack_ok cid a"
    proof (cases "cid = cf_command_id f")
      case True
      then have "a = ?a" using a res by simp
      then show ?thesis using ok o True by (auto simp: ack_of_def)
    next
      case False
      then have "sc_command_results s cid = Some a" using a res by simp
      then show ?thesis using w by (auto simp: ground_state_ok_def Let_def)
    qed
  qed
qed

lemma datagram_results: "sc_command_results (sp_state (snd (datagram_received now raw p))) = sc_command_results (snd (apply_command now raw (sp_state p)))"
  by (auto simp: datagram_received_def malformed_command_def Let_def split: prod.splits sum.splits packet_error.splits)

lemma downlink_sent:
  assumes p: "downlink_ok p" and r: "remembers (sp_state p) (sp_state p')" and i: "spacecraft_inv (sp_state p')" "sp_connected p'"
    and s: "sp_sent p' = sp_sent p \<or> (\<exists>raw. sp_sent p' = sp_sent p @ [raw] \<and>
      (\<forall>q a. decode_space_packet raw = Inr q \<longrightarrow> decode_ack q = Inr a \<longrightarrow> sc_command_results (sp_state p') (ca_command_id a) = Some a))"
  shows "downlink_ok p'"
  using assms unfolding downlink_ok_def remembers_def by auto

lemma uplink_inv:
  assumes s: "mission_inv s" and raw: "raw \<in> set (m_uplink (ms_world s))" and now: "0 \<le> now" "now < 2 ^ 64"
  shows "mission_inv (s\<lparr>ms_spacecraft := snd (datagram_received now raw (ms_spacecraft s))\<rparr>)"
proof -
  let ?p = "ms_spacecraft s" and ?p' = "snd (datagram_received now raw (ms_spacecraft s))"
  have p: "downlink_ok ?p" "spacecraft_inv (sp_state ?p)" "sp_connected ?p" and w: "ground_state_ok (sc_command_results (sp_state ?p)) (ms_orders s) (ms_world s)"
    using s by (auto simp: mission_inv_def downlink_ok_def)
  obtain f where f: "decode_command raw = Inr f" "ordered (m_db (ms_world s)) (cf_command_id f) (cf_argument f) (cf_opcode f)"
    using w raw by (auto simp: ground_state_ok_def Let_def)
  have "ground_state_ok (sc_command_results (sp_state ?p')) (ms_orders s) (ms_world s)"
    unfolding datagram_results by (rule apply_ordered [OF w p(2) now f])
  moreover have "remembers (sp_state ?p) (sp_state ?p')"
    using apply_command_remembers [of "sp_state ?p" now raw] datagram_received_remembers [of now raw ?p] by (auto simp: remembers_def)
  then have "downlink_ok ?p'" using datagram_received_ok [OF p(2,3) now, of raw] by (intro downlink_sent [OF p(1)]) auto
  ultimately show ?thesis by (simp add: mission_inv_def)
qed

lemma health_is_no_ack: "decode_health q = Inr h \<Longrightarrow> decode_ack q \<noteq> Inr a"
  by (auto simp: decode_health_Inr decode_ack_def APID_HEALTH_def APID_COMMAND_ACK_def)

lemma tick_inv:
  assumes s: "mission_inv s" and now: "0 \<le> now" "now < 2 ^ 64" and draw: "\<bar>draw\<bar> \<le> float_lit (4 / 10)" and sine: "\<forall>x. \<bar>sine x\<bar> \<le> 1"
  shows "mission_inv (s\<lparr>ms_spacecraft := snd (telemetry_tick sine every rate_hz now draw sent (ms_spacecraft s))\<rparr>)"
proof -
  let ?p = "ms_spacecraft s"
  have p: "downlink_ok ?p" "spacecraft_inv (sp_state ?p)" "sp_connected ?p" using s by (auto simp: mission_inv_def downlink_ok_def)
  obtain p' raw q h where t: "telemetry_tick sine every rate_hz now draw sent ?p = (if sent then telemetry_pause rate_hz else Inl SimOSError, p')"
    "spacecraft_inv (sp_state p')" "sp_connected p'" "sp_sent p' = sp_sent ?p @ (if sent then [raw] else [])"
    "decode_space_packet raw = Inr q" "decode_health q = Inr h"
    and r: "sc_command_results (sp_state p') = sc_command_results (sp_state ?p)"
    using telemetry_tick_ok [OF p(2) now sine draw, of every rate_hz sent] p(3) by auto
  have "downlink_ok p'" using t r health_is_no_ack [OF t(6)] by (intro downlink_sent [OF p(1)]) (auto simp: remembers_def)
  then show ?thesis using s t(1) r by (simp add: mission_inv_def)
qed

lemma mission_inv_start: "mission_inv mission_start"
  by (simp add: mission_inv_def mission_start_def downlink_ok_def ground_state_ok_def Let_def empty_mission_def empty_mission_db_def
      initial_process_def connection_made_def initial_spacecraft_def spacecraft_inv_def)

lemma ground_step:
  assumes "mission_inv s" "ground_stays (sc_command_results (sp_state (ms_spacecraft s))) (ms_orders s) out"
  shows "mission_inv (s\<lparr>ms_world := snd out\<rparr>)"
  using assms by (simp add: mission_inv_def holds_def)

lemma mission_run_inv:
  assumes "mission_run C s" and sine: "\<forall>x. \<bar>mc_sine C x\<bar> \<le> 1"
  shows "mission_inv s"
  using assms(1)
proof induction
  case run_start
  show ?case by (rule mission_inv_start)
next
  case (run_order s token arm r S)
  let ?orders = "ms_orders s @ (if armed (mc_environ C) token arm then [r] else [])"
  have "ground_state_ok (sc_command_results (sp_state (ms_spacecraft s))) ?orders (ms_world s)"
    using run_order.IH ground_state_ok_orders [of "ms_orders s" ?orders] by (auto simp: mission_inv_def)
  then have "ground_stays (sc_command_results (sp_state (ms_spacecraft s))) ?orders (post_commands (mc_environ C) S r token arm (ms_world s))"
    by (rule post_commands_ok) simp
  then show ?case using run_order.IH by (simp add: mission_inv_def holds_def)
next
  case (run_dispatch s data S n)
  have "message_ok (sc_command_results (sp_state (ms_spacecraft s))) (m_db (ms_world s)) \<lparr>msg_subject = ''commands.dispatch'', msg_data = data\<rparr>"
    using run_dispatch by (auto simp: mission_inv_def ground_state_ok_def Let_def)
  then show ?case using run_dispatch.IH by (intro ground_step dispatch_ok) (simp_all add: mission_inv_def)
next
  case (run_uplink s raw now)
  then show ?case by (intro uplink_inv)
next
  case (run_tick s now draw rate_hz sent)
  then show ?case using sine by (intro tick_inv)
next
  case (run_ingest s raw S addr)
  then show ?case by (intro ground_step ingest_ok) (auto simp: mission_inv_def downlink_ok_def)
next
  case (run_health s data S n)
  then show ?case by (intro ground_step process_health_ok) (simp_all add: mission_inv_def)
next
  case (run_ack s data S n)
  have "message_ok (sc_command_results (sp_state (ms_spacecraft s))) (m_db (ms_world s)) \<lparr>msg_subject = ''telemetry.command_ack'', msg_data = data\<rparr>"
    using run_ack by (auto simp: mission_inv_def ground_state_ok_def Let_def)
  then show ?case using run_ack.IH by (intro ground_step process_ack_ok) (simp_all add: mission_inv_def)
next
  case (run_status s data S n)
  have "message_ok (sc_command_results (sp_state (ms_spacecraft s))) (m_db (ms_world s)) \<lparr>msg_subject = ''commands.status'', msg_data = data\<rparr>"
    using run_status by (auto simp: mission_inv_def ground_state_ok_def Let_def)
  then show ?case using run_status.IH by (intro ground_step process_status_ok) (simp_all add: mission_inv_def)
next
  case (run_advise s m S n)
  then show ?case by (intro ground_step advise_ok) (simp_all add: mission_inv_def)
qed

end
