(* ===== verification/Mission_Properties.thy ===== *)
theory Mission_Properties
  imports Mission_Invariant
begin

text \<open>
  Properties of the legacy mission system as a whole, with a complete run as their witness: an operator
  orders a wheel speed, the dispatcher sends it, the spacecraft executes it, and the acknowledgement
  reaches the command table.
\<close>

section \<open>A complete command\<close>

definition calm :: mission_schedule where
  "calm = \<lparr>fate_at = (\<lambda>_. Answered), clock_ns = (\<lambda>_. 1767225600000000000), connected_at = (\<lambda>_. True)\<rparr>"

definition plain_config :: mission_config where
  "plain_config = \<lparr>mc_environ = Map.empty, mc_sine = (\<lambda>_. 0), mc_every = 200, mc_target = (''spacecraft-sim'', 5006),
     mc_exc_text = (\<lambda>_. ''error''), mc_vllm = (\<lambda>_. Inl (ValueError ''down'')), mc_model = ''model''\<rparr>"

definition wheel_request :: CommandRequest where
  "wheel_request = \<lparr>rq_name = ''SET_WHEEL_RPM'', rq_argument = -1500, rq_dry_run = False, rq_operator_id = ''op''\<rparr>"

definition wheel_definition :: CommandDefinition where
  "wheel_definition = \<lparr>cd_opcode = 2, cd_minimum = -6000, cd_maximum = 6000\<rparr>"

definition wheel_frame :: CommandFrame where
  "wheel_frame = \<lparr>cf_command_id = 1, cf_opcode = 2, cf_argument = -1500, cf_issued_ns = 1767225600000000000\<rparr>"

definition wheel_ack :: CommandAck where
  "wheel_ack = \<lparr>ca_command_id = 1, ca_status = 0, ca_applied_value = -1500, ca_timestamp_ns = 5\<rparr>"

definition wheel_status :: json where
  "wheel_status = status_json 1 ''DISPATCHED'' ''UDP target spacecraft-sim:5006''"

lemma calm_call: "service_call e calm f w = (case f (w\<lparr>m_tick := Suc (m_tick w)\<rparr>) of (x, w2) \<Rightarrow> (Inr x, w2))"
  by (simp add: service_call_def calm_def Let_def)

lemma calm_clock: "read_clock calm w = (Inr 1767225600000000000, w\<lparr>m_tick := Suc (m_tick w)\<rparr>)"
  by (simp add: read_clock_def calm_def)

lemma wheel_validates: "validate_command (rq_name wheel_request) (rq_argument wheel_request) = Inr wheel_definition"
  by (simp add: wheel_request_def wheel_definition_def validate_command_def COMMANDS_def)

lemma number_py_str_jsonb: "jsonb_ok (jint n)"
  by (simp add: jint_def number_py_str)

lemma pg_text_py_str: "pg_text (py_str n)"
  using ascii_number [OF number_py_str [of n]] by (auto simp: pg_text_def list_all_iff ascii_char_def)

text \<open>The effect of an answered order.\<close>

lemma wheel_ordered:
  fixes w :: mission
  assumes "commands_table (m_db w) = []" "commands_id_seq (m_db w) = 0"
  shows "\<exists>w' row. post_commands Map.empty calm wheel_request (Some ''local-operator-token'') (Some ''local-arm-token'') w =
      (Inr \<lparr>ans_command_id = 1, ans_status = ''QUEUED'', ans_dry_run = False\<rparr>, w') \<and>
    commands_table (m_db w') = [row] \<and> cm_id row = 1 \<and>
    m_stream w' = m_stream w @ [\<lparr>msg_subject = ''commands.dispatch'', msg_data = json_bytes (dispatch_event 1 wheel_request wheel_definition)\<rparr>]"
proof -
  have p: "pg_text ''SET_WHEEL_RPM''" "pg_text ''op''" "int4 (-1500)" "int8 1" by (simp_all add: pg_text_def int4_def int8_def)
  have one: "pg_text (py_str 1)" "jsonb_ok (request_json wheel_request)"
    using p pg_text_py_str by (auto simp: request_json_def number_py_str_jsonb wheel_request_def pg_text_def [of "''name''"]
      pg_text_def [of "''argument''"] pg_text_def [of "''dry_run''"] pg_text_def [of "''operator_id''"])
  show ?thesis
    using wheel_validates p one assms
    by (simp add: post_commands_def create_command_def insert_command_def insert_command_audit_def publish_def sql_def calm_call
        env_def getenv_def wheel_request_def inc_def Let_def)
qed

lemma wheel_dispatched:
  obtains raw w' where "encode_command wheel_frame = Inr raw"
    "dispatch calm exc_text (''spacecraft-sim'', 5006) n (json_bytes (dispatch_event 1 wheel_request wheel_definition)) w = (Inr (), w')"
    "m_uplink w' = m_uplink w @ [raw]" "m_db w' = m_db w"
    "m_stream w' = m_stream w @ [\<lparr>msg_subject = ''commands.status'', msg_data = json_bytes wheel_status\<rparr>]"
proof -
  obtain payload where "struct_pack COMMAND_PAYLOAD [1, 2, -1500, 1767225600000000000] = Some payload"
    by (simp add: COMMAND_PAYLOAD_def pack_code_def code_min_def code_limit_def)
  then obtain raw where raw: "encode_command wheel_frame = Inr raw" by (auto simp: encode_command_Inr wheel_frame_def)
  have i: "int8 1" "int8 2" "int8 (- 1500)" by (simp_all add: int8_def)
  have items: "int_item (dispatch_event 1 wheel_request wheel_definition) ''command_id'' = Inr 1"
    "int_item (dispatch_event 1 wheel_request wheel_definition) ''opcode'' = Inr 2"
    "int_item (dispatch_event 1 wheel_request wheel_definition) ''argument'' = Inr (-1500)"
    using i by (simp_all add: dispatch_event_def item_simps int_item_def int_of_jint wheel_definition_def wheel_request_def)
  have port: "py_str 5006 = ''5006''" by (simp add: py_format_def zero_fill_def nat_digits.simps upper_digit_def char_of_def bit_0)
  have "\<exists>w'. dispatch calm exc_text (''spacecraft-sim'', 5006) n (json_bytes (dispatch_event 1 wheel_request wheel_definition)) w = (Inr (), w') \<and>
    m_uplink w' = m_uplink w @ [raw] \<and> m_db w' = m_db w \<and>
    m_stream w' = m_stream w @ [\<lparr>msg_subject = ''commands.status'', msg_data = json_bytes wheel_status\<rparr>]"
    using raw by (simp add: wheel_status_def port dispatch_def dispatch_body_def raising_def read_dispatch dispatch_items(1) items calm_clock send_datagram_def publish_def
        settle_def calm_call inc_def wheel_frame_def)
  then show ?thesis using that raw by blast
qed

lemma wheel_executed:
  assumes p: "spacecraft_inv (sp_state p)" "sp_connected p" "sc_command_results (sp_state p) 1 = None"
    and raw: "encode_command wheel_frame = Inr raw"
  obtains p' down q where "datagram_received 5 raw p = (Inr (), p')" "down \<in> set (sp_sent p')"
    "decode_space_packet down = Inr q" "sp_apid q = APID_COMMAND_ACK" "decode_ack q = Inr wheel_ack"
proof -
  have d: "decode_command raw = Inr wheel_frame" using raw by (simp add: decode_iff_encode_command)
  have none: "sc_command_results (sp_state p) (cf_command_id wheel_frame) = None" using p(3) by (simp add: wheel_frame_def)
  obtain st where a: "apply_command 5 raw (sp_state p) = (Inr wheel_ack, st)"
    using apply_command_new [OF d none, of 5] by (simp add: executes_def wheel_frame_def ack_of_def wheel_ack_def)
  obtain down p' where e: "encode_ack (sc_ack_sequence st) wheel_ack = Inr down" and r: "datagram_received 5 raw p = (Inr (), p')"
    and s: "down \<in> set (sp_sent p')"
    using datagram_received_command [OF p(1,2) _ _ a] by auto
  obtain payload where "decode_space_packet down = Inr \<lparr>sp_apid = APID_COMMAND_ACK, sp_sequence_count = sc_ack_sequence st, sp_payload = payload, sp_packet_type = 0\<rparr>"
    "decode_ack \<lparr>sp_apid = APID_COMMAND_ACK, sp_sequence_count = sc_ack_sequence st, sp_payload = payload, sp_packet_type = 0\<rparr> = Inr wheel_ack"
    using ack_travels [OF e] by blast
  then show ?thesis using that [OF r s] by simp
qed

lemma ack_ingested:
  assumes "decode_space_packet down = Inr q" "sp_apid q = APID_COMMAND_ACK" "decode_ack q = Inr a"
  obtains w' t where "ingest_process calm down addr w = (Inr (), w')" "m_db w' = m_db w" "m_uplink w' = m_uplink w"
    "set (m_stream w) \<subseteq> set (m_stream w')"
    "\<lparr>msg_subject = ''telemetry.command_ack'', msg_data = json_bytes (envelope_json q t addr (ack_json a))\<rparr> \<in> set (m_stream w')"
proof -
  have ne: "APID_COMMAND_ACK \<noteq> APID_HEALTH" by (simp add: APID_COMMAND_ACK_def APID_HEALTH_def)
  have "\<exists>w'. ingest_process calm down addr w = (Inr (), w') \<and> m_db w' = m_db w \<and> m_uplink w' = m_uplink w \<and>
    set (m_stream w) \<subseteq> set (m_stream w') \<and>
    \<lparr>msg_subject = ''telemetry.command_ack'', msg_data = json_bytes (envelope_json q 1767225600000000000 addr (ack_json a))\<rparr> \<in> set (m_stream w')"
    using assms ne by (simp add: ingest_process_def ingest_packet_def raising_def calm_clock publish_def calm_call inc_def Let_def split_beta subset_insertI)
  then show ?thesis using that by blast
qed

lemma wheel_acknowledged:
  assumes "commands_table (m_db w) = [row]" "cm_id row = 1"
  shows "\<exists>row'. commands_table (m_db (snd (process_ack calm n (json_bytes (envelope_json q t addr (ack_json wheel_ack))) w))) = [row'] \<and>
    cm_id row' = 1 \<and> cm_status row' = ''ACKED'' \<and>
    m_uplink (snd (process_ack calm n (json_bytes (envelope_json q t addr (ack_json wheel_ack))) w)) = m_uplink w \<and>
    m_stream (snd (process_ack calm n (json_bytes (envelope_json q t addr (ack_json wheel_ack))) w)) = m_stream w"
proof -
  have i: "int8 (ca_command_id wheel_ack)" "int8 (ca_status wheel_ack)" "int8 (ca_applied_value wheel_ack)"
    by (simp_all add: wheel_ack_def int8_def)
  have st: "ca_status wheel_ack = 0" "ca_command_id wheel_ack = 1" by (simp_all add: wheel_ack_def)
  have pg: "pg_text ''ACKED''" "pg_text (''spacecraft applied_value='' @ py_str n)" for n
    using pg_text_py_str [of n] by (auto simp: pg_text_def)
  show ?thesis using assms i st pg
    by (simp add: process_ack_def handled_def ack_body_def raising_def read_ack ack_items update_command_def insert_command_audit_def
        sql_def calm_call opt_ok_def settle_def inc_def)
qed

text \<open>An order and its dispatch, then its execution and its acknowledgement.\<close>

lemma wheel_flown:
  obtains s row raw where "mission_run plain_config s" "commands_table (m_db (ms_world s)) = [row]" "cm_id row = 1"
    "ms_spacecraft s = initial_process" "encode_command wheel_frame = Inr raw" "raw \<in> set (m_uplink (ms_world s))"
    "\<lparr>msg_subject = ''commands.status'', msg_data = json_bytes wheel_status\<rparr> \<in> set (m_stream (ms_world s))"
proof -
  have T: "mc_target plain_config = (''spacecraft-sim'', 5006)" by (simp add: plain_config_def)
  have C: "mc_environ plain_config = Map.empty" by (simp add: plain_config_def)
  have start: "commands_table (m_db (ms_world mission_start)) = []" "commands_id_seq (m_db (ms_world mission_start)) = 0"
    by (simp_all add: mission_start_def empty_mission_def empty_mission_db_def)
  obtain w1 row1 where w1: "snd (post_commands (mc_environ plain_config) calm wheel_request (Some ''local-operator-token'') (Some ''local-arm-token'') (ms_world mission_start)) = w1"
    "commands_table (m_db w1) = [row1]" "cm_id row1 = 1"
    "\<lparr>msg_subject = ''commands.dispatch'', msg_data = json_bytes (dispatch_event 1 wheel_request wheel_definition)\<rparr> \<in> set (m_stream w1)"
    using wheel_ordered [OF start] unfolding C by fastforce
  define s1 where "s1 = mission_start\<lparr>ms_world := w1, ms_orders := [wheel_request]\<rparr>"
  have "armed Map.empty (Some ''local-operator-token'') (Some ''local-arm-token'')" by (simp add: armed_def env_def getenv_def)
  then have r1: "mission_run plain_config s1"
    using run_order [OF run_start [of plain_config], where S = calm and r = wheel_request and token = "Some ''local-operator-token''"
      and arm = "Some ''local-arm-token''"] w1(1) C by (simp add: s1_def mission_start_def)
  obtain raw w2 where w2: "encode_command wheel_frame = Inr raw"
    "dispatch calm (mc_exc_text plain_config) (mc_target plain_config) 0 (json_bytes (dispatch_event 1 wheel_request wheel_definition)) w1 = (Inr (), w2)"
    "m_uplink w2 = m_uplink w1 @ [raw]" "m_db w2 = m_db w1"
    "m_stream w2 = m_stream w1 @ [\<lparr>msg_subject = ''commands.status'', msg_data = json_bytes wheel_status\<rparr>]"
    unfolding T by (rule wheel_dispatched)
  have "mission_run plain_config (s1\<lparr>ms_world := w2\<rparr>)"
    using run_dispatch [OF r1, where S = calm and n = 0] w1(4) w2(2) by (fastforce simp: s1_def)
  moreover have "raw \<in> set (m_uplink w2)" unfolding w2(3) by simp
  ultimately show ?thesis using that [of "s1\<lparr>ms_world := w2\<rparr>" row1 raw] w1(2,3) w2(1,4,5) by (simp add: s1_def mission_start_def)
qed

lemma wheel_run:
  obtains s row where "mission_run plain_config s" "m_uplink (ms_world s) \<noteq> []"
    "commands_table (m_db (ms_world s)) = [row]" "cm_id row = 1" "cm_status row = ''ACKED''"
    "\<lparr>msg_subject = ''commands.status'', msg_data = json_bytes wheel_status\<rparr> \<in> set (m_stream (ms_world s))"
proof -
  obtain s2 row raw where s2: "mission_run plain_config s2" "commands_table (m_db (ms_world s2)) = [row]" "cm_id row = 1"
    "ms_spacecraft s2 = initial_process" "encode_command wheel_frame = Inr raw" "raw \<in> set (m_uplink (ms_world s2))"
    "\<lparr>msg_subject = ''commands.status'', msg_data = json_bytes wheel_status\<rparr> \<in> set (m_stream (ms_world s2))"
    by (rule wheel_flown)
  have "spacecraft_inv (sp_state initial_process)" "sp_connected initial_process" "sc_command_results (sp_state initial_process) 1 = None"
    by (simp_all add: initial_process_def connection_made_def initial_spacecraft_def spacecraft_inv_def)
  then obtain p3 down q where p3: "datagram_received 5 raw (ms_spacecraft s2) = (Inr (), p3)" "down \<in> set (sp_sent p3)"
    "decode_space_packet down = Inr q" "sp_apid q = APID_COMMAND_ACK" "decode_ack q = Inr wheel_ack"
    using wheel_executed [of "ms_spacecraft s2" raw] s2(4,5) by metis
  have r3: "mission_run plain_config (s2\<lparr>ms_spacecraft := p3\<rparr>)"
    using run_uplink [OF s2(1,6), of 5] p3(1) by simp
  obtain w4 t where w4: "ingest_process calm down (''10.0.0.2'', 4000) (ms_world s2) = (Inr (), w4)" "m_db w4 = m_db (ms_world s2)"
    "m_uplink w4 = m_uplink (ms_world s2)" "set (m_stream (ms_world s2)) \<subseteq> set (m_stream w4)"
    "\<lparr>msg_subject = ''telemetry.command_ack'', msg_data = json_bytes (envelope_json q t (''10.0.0.2'', 4000) (ack_json wheel_ack))\<rparr> \<in> set (m_stream w4)"
    by (rule ack_ingested [OF p3(3-5)])
  have r4: "mission_run plain_config (s2\<lparr>ms_spacecraft := p3, ms_world := w4\<rparr>)"
    using run_ingest [OF r3, of down calm "(''10.0.0.2'', 4000)"] p3(2) w4(1) by simp
  let ?w5 = "snd (process_ack calm 1 (json_bytes (envelope_json q t (''10.0.0.2'', 4000) (ack_json wheel_ack))) w4)"
  have r5: "mission_run plain_config (s2\<lparr>ms_spacecraft := p3, ms_world := ?w5\<rparr>)"
    using run_ack [OF r4, of "json_bytes (envelope_json q t (''10.0.0.2'', 4000) (ack_json wheel_ack))" calm 1] w4(5) by simp
  obtain row' where "commands_table (m_db ?w5) = [row']" "cm_id row' = 1" "cm_status row' = ''ACKED''" "m_uplink ?w5 = m_uplink w4"
    "m_stream ?w5 = m_stream w4"
    using wheel_acknowledged [of w4 row 1 q t "(''10.0.0.2'', 4000)"] s2(2,3) w4(2) by auto
  moreover have "m_uplink (ms_world s2) \<noteq> []" using s2(6) by (cases "m_uplink (ms_world s2)") simp_all
  ultimately show ?thesis using that [OF r5, of row'] w4(3) subsetD [OF w4(4) s2(7)] by simp
qed

section \<open>Properties\<close>

text \<open>
  C6. Only armed orders fly. Whatever the services, the broker and the links do, every datagram the
  ground has sent to the spacecraft is a well-formed command that stands in the command table, not as a
  dry run, and that an operator ordered with both tokens: the same name and argument, which the command
  table of the ground allows, with the opcode of that name.
\<close>

theorem only_armed_orders_fly:
  assumes "mission_run C s" and "\<forall>x. \<bar>mc_sine C x\<bar> \<le> 1" and "raw \<in> set (m_uplink (ms_world s))"
  shows "\<exists>f row r d. decode_command raw = Inr f \<and> row \<in> set (commands_table (m_db (ms_world s))) \<and> cm_id row = cf_command_id f \<and>
    \<not> cm_dry_run row \<and> r \<in> set (ms_orders s) \<and> rq_name r = cm_name row \<and> rq_argument r = cf_argument f \<and>
    validate_command (rq_name r) (rq_argument r) = Inr d \<and> cd_opcode d = cf_opcode f"
proof -
  have g: "ground_state_ok (sc_command_results (sp_state (ms_spacecraft s))) (ms_orders s) (ms_world s)"
    using mission_run_inv [OF assms(1,2)] by (simp add: mission_inv_def)
  obtain f where f: "decode_command raw = Inr f" "ordered (m_db (ms_world s)) (cf_command_id f) (cf_argument f) (cf_opcode f)"
    using g assms(3) by (auto simp: ground_state_ok_def Let_def)
  then obtain row d where row: "row \<in> set (commands_table (m_db (ms_world s)))" "cm_id row = cf_command_id f" "\<not> cm_dry_run row"
    "cm_argument row = cf_argument f" "validate_command (cm_name row) (cf_argument f) = Inr d" "cd_opcode d = cf_opcode f"
    by (auto simp: ordered_def)
  have "row_ok (sc_command_results (sp_state (ms_spacecraft s))) (ms_orders s) row" using g row(1) by (auto simp: ground_state_ok_def Let_def)
  then obtain r where "r \<in> set (ms_orders s)" "rq_name r = cm_name row" "rq_argument r = cm_argument row"
    using row(3) by (auto simp: row_ok_def)
  then show ?thesis using f(1) row by metis
qed

theorem only_armed_orders_fly_witness:
  "\<exists>s. mission_run plain_config s \<and> (\<exists>raw f r. raw \<in> set (m_uplink (ms_world s)) \<and> decode_command raw = Inr f \<and>
     r \<in> set (ms_orders s) \<and> rq_argument r = cf_argument f)"
proof -
  obtain s where s: "mission_run plain_config s" "m_uplink (ms_world s) \<noteq> []" by (rule wheel_run)
  then have "hd (m_uplink (ms_world s)) \<in> set (m_uplink (ms_world s))" by simp
  then show ?thesis
    using only_armed_orders_fly [of plain_config s "hd (m_uplink (ms_world s))"] s(1) by (auto simp: plain_config_def)
qed

text \<open>
  C7. The command table tells the truth about the spacecraft. In every reachable state a command with
  status \<^verbatim>\<open>ACKED\<close> was executed by the spacecraft with exactly the argument of its row, no command ever has
  status \<^verbatim>\<open>REJECTED\<close>, and a dry run keeps its status and is unknown to the spacecraft.
\<close>

theorem acknowledged_means_executed:
  assumes "mission_run C s" and "\<forall>x. \<bar>mc_sine C x\<bar> \<le> 1" and "row \<in> set (commands_table (m_db (ms_world s)))"
  shows "(cm_status row = ''ACKED'' \<longrightarrow>
      (\<exists>a. sc_command_results (sp_state (ms_spacecraft s)) (cm_id row) = Some a \<and> ca_status a = 0 \<and> ca_applied_value a = cm_argument row)) \<and>
    cm_status row \<noteq> ''REJECTED'' \<and>
    (cm_dry_run row \<longrightarrow> cm_status row = ''DRY_RUN_VALIDATED'' \<and> sc_command_results (sp_state (ms_spacecraft s)) (cm_id row) = None)"
proof -
  let ?results = "sc_command_results (sp_state (ms_spacecraft s))"
  have g: "ground_state_ok ?results (ms_orders s) (ms_world s)"
    using mission_run_inv [OF assms(1,2)] by (simp add: mission_inv_def)
  have ok: "row_ok ?results (ms_orders s) row" using g assms(3) by (auto simp: ground_state_ok_def Let_def)
  have "?results (cm_id row) = None" if dry: "cm_dry_run row"
  proof (rule ccontr)
    assume "?results (cm_id row) \<noteq> None"
    then obtain a where a: "?results (cm_id row) = Some a" by blast
    then obtain opc where "ordered (m_db (ms_world s)) (cm_id row) (ca_applied_value a) opc"
      using g unfolding ground_state_ok_def Let_def by blast
    then show False using ordered_unique [OF g _ assms(3) refl] dry by blast
  qed
  then show ?thesis using ok by (auto simp: row_ok_def split: if_splits)
qed

theorem acknowledged_means_executed_witness:
  "\<exists>s row a. mission_run plain_config s \<and> row \<in> set (commands_table (m_db (ms_world s))) \<and> cm_status row = ''ACKED'' \<and>
     sc_command_results (sp_state (ms_spacecraft s)) (cm_id row) = Some a \<and> ca_status a = 0"
proof -
  obtain s row where s: "mission_run plain_config s" "commands_table (m_db (ms_world s)) = [row]" "cm_status row = ''ACKED''"
    by (rule wheel_run)
  then show ?thesis using acknowledged_means_executed [of plain_config s row] by (auto simp: plain_config_def)
qed

text \<open>
  The order of the events is not part of what the table tells: the status event of the dispatcher may be
  delivered after the acknowledgement, and then the status falls back to \<^verbatim>\<open>DISPATCHED\<close>.
\<close>

lemma late_status_overwrites_ack:
  "\<exists>s w row row'. mission_run plain_config s \<and> mission_run plain_config (s\<lparr>ms_world := w\<rparr>) \<and>
     commands_table (m_db (ms_world s)) = [row] \<and> cm_status row = ''ACKED'' \<and>
     commands_table (m_db w) = [row'] \<and> cm_id row' = cm_id row \<and> cm_status row' = ''DISPATCHED''"
proof -
  obtain s row where s: "mission_run plain_config s" "commands_table (m_db (ms_world s)) = [row]" "cm_id row = 1" "cm_status row = ''ACKED''"
    "\<lparr>msg_subject = ''commands.status'', msg_data = json_bytes wheel_status\<rparr> \<in> set (m_stream (ms_world s))"
    by (rule wheel_run)
  let ?w = "snd (process_status calm 2 (json_bytes wheel_status) (ms_world s))"
  have "int8 1" "pg_text ''DISPATCHED''" "pg_text ''UDP target spacecraft-sim:5006''" by (simp_all add: int8_def pg_text_def)
  then have "\<exists>row'. commands_table (m_db ?w) = [row'] \<and> cm_id row' = 1 \<and> cm_status row' = ''DISPATCHED''"
    using s(2,3) by (simp add: process_status_def handled_def status_body_def wheel_status_def raising_def read_status status_items
        text_argument_def update_command_def insert_command_audit_def sql_def calm_call opt_ok_def settle_def inc_def)
  moreover have "mission_run plain_config (s\<lparr>ms_world := ?w\<rparr>)" using run_status [OF s(1,5)] .
  ultimately show ?thesis using s by metis
qed

end
