(* ===== verification/Mission_Stream.thy ===== *)
theory Mission_Stream
  imports Mission_Properties Mission_Startup
begin

text \<open>
  The stream carries all messages of the system: the subjects \<^verbatim>\<open>connect_nats\<close> gives the stream cover
  every subject a service publishes. How NATS matches subjects is a parameter; the documentation
  promises that a pattern ending in \<^verbatim>\<open>.>\<close> matches one or more further tokens.
\<close>

definition tail_wildcard :: "(string \<Rightarrow> string \<Rightarrow> bool) \<Rightarrow> bool" where
  "tail_wildcard matches \<longleftrightarrow> (\<forall>p s. s \<noteq> [] \<longrightarrow> matches (p @ ''.>'') (p @ ''.'' @ s))"

definition carried :: "(string \<Rightarrow> string \<Rightarrow> bool) \<Rightarrow> string \<Rightarrow> bool" where
  "carried matches subject \<longleftrightarrow> (\<exists>pattern \<in> set GROUND_SUBJECTS. matches pattern subject)"

definition all_carried :: "(string \<Rightarrow> string \<Rightarrow> bool) \<Rightarrow> mission \<Rightarrow> bool" where
  "all_carried matches w \<longleftrightarrow> (\<forall>m \<in> set (m_stream w). carried matches (msg_subject m))"

lemma carried_pattern: "tail_wildcard matches \<Longrightarrow> p @ ''.>'' \<in> set GROUND_SUBJECTS \<Longrightarrow> s \<noteq> [] \<Longrightarrow> carried matches (p @ ''.'' @ s)"
  by (auto simp: tail_wildcard_def carried_def)

lemma subjects_carried:
  assumes "tail_wildcard matches"
  shows "carried matches ''telemetry.health''" "carried matches ''telemetry.command_ack''" "carried matches ''telemetry.processed''"
    "carried matches ''alerts.limit''" "carried matches ''commands.dispatch''" "carried matches ''commands.status''"
    "carried matches ''advisories.alert''"
  using carried_pattern [OF assms, of "''telemetry''" "''health''"] carried_pattern [OF assms, of "''telemetry''" "''command_ack''"]
    carried_pattern [OF assms, of "''telemetry''" "''processed''"] carried_pattern [OF assms, of "''alerts''" "''limit''"]
    carried_pattern [OF assms, of "''commands''" "''dispatch''"] carried_pattern [OF assms, of "''commands''" "''status''"]
    carried_pattern [OF assms, of "''advisories''" "''alert''"] by (simp_all add: GROUND_SUBJECTS_def)

interpretation carried_subjects: ground_invariant "all_carried matches" for matches
  by unfold_locales (simp add: all_carried_def)

lemma stays_then: "stays I m \<Longrightarrow> (\<And>x w. I w \<Longrightarrow> stays I (k x w)) \<Longrightarrow> stays I (and_then m k)"
  by (rule holds_and_then)

lemma stays_sql: "all_carried matches w \<Longrightarrow> stays (all_carried matches) (sql S ok f w)"
  by (rule carried_subjects.sql_holds) (simp_all add: all_carried_def)

lemma stays_publish: "carried matches subject \<Longrightarrow> all_carried matches w \<Longrightarrow> stays (all_carried matches) (publish S subject v w)"
  by (rule carried_subjects.publish_holds) (auto simp: all_carried_def)

lemma stays_send: "all_carried matches w \<Longrightarrow> stays (all_carried matches) (send_datagram S raw w)"
  by (rule carried_subjects.send_holds) (auto simp: all_carried_def)

lemmas stays_rules = stays_then stays_raising stays_sql stays_publish stays_send carried_subjects.settle_holds
  carried_subjects.clock_holds carried_subjects.inc_kept carried_subjects.gauge_kept holds_return holds_error

lemma all_carried_tracker: "all_carried matches w \<Longrightarrow> all_carried matches (w\<lparr>m_tracker := t\<rparr>)"
  and all_carried_observed: "all_carried matches w \<Longrightarrow> all_carried matches (w\<lparr>m_observed := xs\<rparr>)"
  by (simp_all add: all_carried_def)

lemma order_carried:
  "tail_wildcard matches \<Longrightarrow> all_carried matches w \<Longrightarrow> stays (all_carried matches) (post_commands environ S r token arm w)"
  unfolding post_commands_def create_command_def insert_command_def insert_command_audit_def Let_def
  by (auto intro!: stays_rules subjects_carried split: sum.splits)

lemma dispatch_carried:
  "tail_wildcard matches \<Longrightarrow> all_carried matches w \<Longrightarrow> stays (all_carried matches) (dispatch_body S target n data w)"
  unfolding dispatch_body_def by (intro stays_rules subjects_carried)

lemma dispatch_failed_carried:
  "tail_wildcard matches \<Longrightarrow> all_carried matches w \<Longrightarrow> stays (all_carried matches) (dispatch_failed S exc_text data e w)"
  unfolding dispatch_failed_def by (intro stays_rules subjects_carried)

lemma ingest_carried:
  "tail_wildcard matches \<Longrightarrow> all_carried matches w \<Longrightarrow> stays (all_carried matches) (ingest_process S raw addr w)"
  unfolding ingest_process_def ingest_packet_def Let_def
  by (intro holds_except stays_rules) (auto intro!: stays_rules subjects_carried all_carried_tracker all_carried_observed
      split: prod.splits mission_error.splits packet_error.splits)

lemma alerts_carried:
  "tail_wildcard matches \<Longrightarrow> all_carried matches w \<Longrightarrow> stays (all_carried matches) (raise_alerts S q vs w)"
  by (induction vs arbitrary: w) (auto simp: raise_alert_def intro!: stays_rules subjects_carried)

lemma health_carried:
  "tail_wildcard matches \<Longrightarrow> all_carried matches w \<Longrightarrow> stays (all_carried matches) (health_body S data w)"
  unfolding health_body_def Let_def by (intro stays_rules alerts_carried subjects_carried)

lemma ack_carried: "all_carried matches w \<Longrightarrow> stays (all_carried matches) (ack_body S data w)"
  unfolding ack_body_def update_command_def insert_command_audit_def by (intro stays_rules)

lemma status_carried: "all_carried matches w \<Longrightarrow> stays (all_carried matches) (status_body S data w)"
  unfolding status_body_def update_command_def insert_command_audit_def by (intro stays_rules)

lemma advise_carried:
  "tail_wildcard matches \<Longrightarrow> all_carried matches w \<Longrightarrow> stays (all_carried matches) (advise vllm S model n data w)"
  unfolding advise_def by (intro holds_except stays_rules subjects_carried)

lemma processing_carried:
  "tail_wildcard matches \<Longrightarrow> all_carried matches w \<Longrightarrow> stays (all_carried matches) (process_health S n data w)"
  "all_carried matches w \<Longrightarrow> stays (all_carried matches) (process_ack S n data w)"
  "all_carried matches w \<Longrightarrow> stays (all_carried matches) (process_status S n data w)"
  unfolding process_health_def process_ack_def process_status_def
  by (intro carried_subjects.handled_kept health_carried ack_carried status_carried; assumption)+

lemma dispatch_handler_carried:
  assumes "tail_wildcard matches" "all_carried matches w"
  shows "all_carried matches (snd (dispatch S exc_text target n data w))"
proof -
  have "stays (all_carried matches) (dispatch S exc_text target n data w)"
    unfolding dispatch_def
  proof (rule holds_except [OF dispatch_carried [OF assms]])
    fix e w1
    assume w1: "all_carried matches w1"
    obtain r w2 where f: "dispatch_failed S exc_text data e (inc dispatch_counter [''error'', dispatch_name data] 1 w1) = (r, w2)" by fastforce
    then have "all_carried matches w2"
      using holds_kept [OF dispatch_failed_carried [OF assms(1) carried_subjects.inc_kept [OF w1]]] by (metis snd_conv)
    then have "stays (all_carried matches) (settle S (Naked n 2) w2)" by (rule carried_subjects.settle_holds)
    then show "stays (all_carried matches) (case dispatch_failed S exc_text data e (inc dispatch_counter [''error'', dispatch_name data] 1 w1) of
        (r, w2) \<Rightarrow> (case settle S (Naked n 2) w2 of (Inl e', w3) \<Rightarrow> (Inl e', w3) | (Inr _, w3) \<Rightarrow> (r, w3)))"
      unfolding f by (auto simp: holds_def split: prod.splits sum.splits)
  qed
  then show ?thesis by (rule holds_kept)
qed

text \<open>
  C33. The stream carries every message. In every run of the mission system each message a service has
  published has a subject that one of the four subjects of the stream matches, so no publication is
  ever refused for want of a stream.
\<close>

theorem stream_carries_every_message:
  assumes wild: "tail_wildcard matches" and run: "mission_run C s"
  shows "\<forall>m \<in> set (m_stream (ms_world s)). \<exists>pattern \<in> set GROUND_SUBJECTS. matches pattern (msg_subject m)"
proof -
  have "all_carried matches (ms_world s)"
    using run
  proof (induction rule: mission_run.induct)
    case run_start
    then show ?case by (simp add: mission_start_def empty_mission_def all_carried_def)
  qed (use holds_kept [OF order_carried [OF wild]] dispatch_handler_carried [OF wild] holds_kept [OF ingest_carried [OF wild]]
      holds_kept [OF advise_carried [OF wild]] holds_kept [OF processing_carried(1) [OF wild]] holds_kept [OF processing_carried(2)]
      holds_kept [OF processing_carried(3)] in simp_all)
  then show ?thesis by (simp add: all_carried_def carried_def)
qed

text \<open>Matching for patterns that end in a wildcard, and for plain subjects.\<close>

definition tail_match :: "string \<Rightarrow> string \<Rightarrow> bool" where
  "tail_match pattern subject \<longleftrightarrow>
     (if last pattern = CHR ''>'' then starts_with (butlast pattern) subject \<and> length pattern \<le> length subject else pattern = subject)"

lemma starts_with_self: "starts_with p (p @ s)"
  by (induction p) auto

lemma tail_match_wildcard: "tail_wildcard tail_match"
proof -
  have "starts_with (butlast (p @ ''.>'')) (p @ ''.'' @ s)" for p s
    using starts_with_self [of "p @ ''.''" s] by (simp add: butlast_append)
  then show ?thesis by (auto simp: tail_wildcard_def tail_match_def Suc_le_eq)
qed

theorem stream_carries_every_message_witness:
  "\<exists>s m. mission_run plain_config s \<and> m \<in> set (m_stream (ms_world s)) \<and> msg_subject m = ''commands.status'' \<and>
     (\<exists>pattern \<in> set GROUND_SUBJECTS. tail_match pattern (msg_subject m))"
proof -
  obtain s where s: "mission_run plain_config s"
    "\<lparr>msg_subject = ''commands.status'', msg_data = json_bytes wheel_status\<rparr> \<in> set (m_stream (ms_world s))" by (rule wheel_run)
  then show ?thesis using stream_carries_every_message [OF tail_match_wildcard s(1)] by fastforce
qed

end
