(* ===== verification/Traceability.thy ===== *)
theory Traceability
  imports Py_Text
begin

text \<open>
  The check of the requirement manifest (\<^verbatim>\<open>scripts/verify_traceability.py\<close>): every requirement has an
  identifier of its own, an existing test file with the test function it names, and an existing document.
  The parsed manifest and the files of the repository, by their path below its root, are arguments.
\<close>

type_synonym requirement = "(string \<times> string) list"

datatype manifest_error = MissingKey string

definition field :: "requirement \<Rightarrow> string \<Rightarrow> manifest_error + string" where
  "field r key = (case map_of r key of None \<Rightarrow> Inl (MissingKey key) | Some v \<Rightarrow> Inr v)"

text \<open>\<^verbatim>\<open>s.partition(sep)\<close> without the separator, and \<^verbatim>\<open>sub in s\<close>.\<close>

fun partition_at :: "string \<Rightarrow> string \<Rightarrow> string \<times> string" where
  "partition_at sep [] = ([], [])"
| "partition_at sep (c # cs) =
     (if starts_with sep (c # cs) then ([], drop (length sep) (c # cs)) else apfst ((#) c) (partition_at sep cs))"

fun contains :: "string \<Rightarrow> string \<Rightarrow> bool" where
  "contains sub [] = (sub = [])"
| "contains sub (c # cs) = (starts_with sub (c # cs) \<or> contains sub cs)"

definition test_errors :: "(string \<rightharpoonup> string) \<Rightarrow> string \<Rightarrow> string \<Rightarrow> string list" where
  "test_errors files rid test =
     (let (test_path, test_name) = partition_at ''::'' test
      in case files test_path of
           None \<Rightarrow> [rid @ '': missing test file '' @ test_path]
         | Some content \<Rightarrow>
             if test_name \<noteq> [] \<and> \<not> contains (''def '' @ test_name @ ''('') content
             then [rid @ '': missing test function '' @ test_name] else [])"

definition check_requirement ::
  "(string \<rightharpoonup> string) \<Rightarrow> requirement \<Rightarrow> string list \<times> string set \<Rightarrow> manifest_error + string list \<times> string set" where
  "check_requirement files r st =
     (case st of (errors, seen) \<Rightarrow>
      bindE (field r ''id'') (\<lambda>rid.
      bindE (field r ''test'') (\<lambda>test.
      bindE (field r ''doc'') (\<lambda>doc.
      Inr (errors @ (if rid \<in> seen then [''duplicate requirement ID: '' @ rid] else [])
             @ test_errors files rid test
             @ (if files doc = None then [rid @ '': missing document '' @ doc] else []),
           insert rid seen)))))"

fun check_requirements ::
  "(string \<rightharpoonup> string) \<Rightarrow> requirement list \<Rightarrow> string list \<times> string set \<Rightarrow> manifest_error + string list \<times> string set" where
  "check_requirements files [] st = Inr st"
| "check_requirements files (r # rs) st = bindE (check_requirement files r st) (check_requirements files rs)"

text \<open>The exit status and the lines that are printed.\<close>

definition verify_traceability :: "(string \<rightharpoonup> string) \<Rightarrow> requirement list \<Rightarrow> manifest_error + int \<times> string list" where
  "verify_traceability files requirements =
     bindE (check_requirements files requirements ([], {})) (\<lambda>(errors, seen).
       Inr (if errors \<noteq> [] then (1, ''TRACEABILITY FAILED'' # map (\<lambda>e. ''- '' @ e) errors)
            else (0, [''TRACEABILITY PASS: '' @ py_str (int (card seen)) @ '' requirements mapped to tests and documents''])))"

section \<open>What a pass means\<close>

definition traced :: "(string \<rightharpoonup> string) \<Rightarrow> requirement \<Rightarrow> bool" where
  "traced files r \<longleftrightarrow> (\<exists>rid test doc test_path test_name content. map_of r ''id'' = Some rid \<and> map_of r ''test'' = Some test \<and> map_of r ''doc'' = Some doc \<and>
     partition_at ''::'' test = (test_path, test_name) \<and> files test_path = Some content \<and>
     (test_name \<noteq> [] \<longrightarrow> contains (''def '' @ test_name @ ''('') content) \<and> files doc \<noteq> None)"

definition req_id :: "requirement \<Rightarrow> string" where
  "req_id r = the (map_of r ''id'')"

lemma check_requirement_clean:
  "check_requirement files r (errors, seen) = Inr ([], seen') \<longleftrightarrow>
     errors = [] \<and> traced files r \<and> req_id r \<notin> seen \<and> seen' = insert (req_id r) seen"
  by (auto simp: check_requirement_def field_def traced_def test_errors_def req_id_def split: option.splits prod.splits if_splits)

lemma check_requirements_grow:
  "check_requirements files rs (errors, seen) = Inr ([], seen') \<Longrightarrow> errors = []"
proof (induction rs arbitrary: errors seen)
  case (Cons r rs)
  obtain errors1 seen1 where r: "check_requirement files r (errors, seen) = Inr (errors1, seen1)"
    "check_requirements files rs (errors1, seen1) = Inr ([], seen')"
    using Cons.prems by (cases "check_requirement files r (errors, seen)") auto
  then have "errors1 = []" using Cons.IH by blast
  then show ?case using r(1) check_requirement_clean by blast
qed simp

text \<open>
  The check passes exactly when the identifiers are pairwise different and every requirement is traced to an
  existing test function and document.
\<close>

lemma check_requirements_clean:
  "check_requirements files rs ([], seen) = Inr ([], seen') \<longleftrightarrow>
     list_all (traced files) rs \<and> distinct (map req_id rs) \<and> req_id ` set rs \<inter> seen = {} \<and> seen' = req_id ` set rs \<union> seen"
proof (induction rs arbitrary: seen)
  case (Cons r rs)
  have "check_requirements files (r # rs) ([], seen) = Inr ([], seen') \<longleftrightarrow>
      (\<exists>seen1. check_requirement files r ([], seen) = Inr ([], seen1) \<and> check_requirements files rs ([], seen1) = Inr ([], seen'))"
    using check_requirements_grow [of files rs] by (cases "check_requirement files r ([], seen)") fastforce+
  also have "\<dots> \<longleftrightarrow> traced files r \<and> req_id r \<notin> seen \<and> check_requirements files rs ([], insert (req_id r) seen) = Inr ([], seen')"
    by (auto simp: check_requirement_clean)
  also have "\<dots> \<longleftrightarrow> traced files r \<and> req_id r \<notin> seen \<and> list_all (traced files) rs \<and> distinct (map req_id rs) \<and>
      req_id ` set rs \<inter> insert (req_id r) seen = {} \<and> seen' = req_id ` set rs \<union> insert (req_id r) seen"
    by (simp only: Cons.IH)
  also have "\<dots> \<longleftrightarrow> list_all (traced files) (r # rs) \<and> distinct (map req_id (r # rs)) \<and> req_id ` set (r # rs) \<inter> seen = {} \<and>
      seen' = req_id ` set (r # rs) \<union> seen"
    by (simp add: image_iff) blast
  finally show ?case .
qed auto

lemma verify_traceability_pass:
  "(\<exists>out. verify_traceability files rs = Inr (0, out)) \<longleftrightarrow> list_all (traced files) rs \<and> distinct (map req_id rs)"
proof -
  have "(\<exists>out. verify_traceability files rs = Inr (0, out)) \<longleftrightarrow> (\<exists>seen. check_requirements files rs ([], {}) = Inr ([], seen))"
    by (cases "check_requirements files rs ([], {})") (auto simp: verify_traceability_def split: if_splits)
  then show ?thesis by (simp add: check_requirements_clean)
qed

end
