(* ===== verification/Spec2Isabelle.thy ===== *)
theory Spec2Isabelle
  imports Telemetry_Codec Telemetry_Sequence Telemetry_Health Telemetry_Queue Repository_Deliveries Repository_Jobs
    Telemetry_Config Telemetry_Metrics Service_Properties Service_Progress Gateway_Access End_To_End Structured_Logging
    Space_Packet Mission_Common Spacecraft_Sim Mission_Properties Mission_Stream Vendor_Life Traceability
begin

text \<open>
  Verification of the ground platform \<^verbatim>\<open>mission_ground\<close>: the secure payload telemetry gateway and the
  legacy mission system. All paths are relative to \<^verbatim>\<open>src/mission_ground\<close>.

  The program. It has two halves. In the telemetry half a payload makes binary frames, a vendor posts
  them to the gateway (\<^verbatim>\<open>services/ground_api.py\<close>), the gateway preserves every delivery in PostgreSQL
  before it validates it (\<^verbatim>\<open>telemetry/storage.py\<close>, \<^verbatim>\<open>telemetry/codec.py\<close>, \<^verbatim>\<open>telemetry/sequence.py\<close>),
  creates one processing job per packet and puts its reference into a Redis queue
  (\<^verbatim>\<open>telemetry/queue.py\<close>), and a worker (\<^verbatim>\<open>services/payload_worker.py\<close>) decodes the preserved bytes again
  and stores their engineering reading. In the mission half an operator orders a command at the API
  (\<^verbatim>\<open>services/mission_api.py\<close>), a dispatcher sends it to the spacecraft over UDP, the spacecraft executes it and
  answers, and ingest and processor carry its acknowledgement and its health samples into the database;
  the services talk over one NATS stream.

  Where the parts are.
  \<^item> Standard library and shared vocabulary: \<open>Ground_Prelude\<close> (bytes, \<^verbatim>\<open>struct\<close>, numbers as text, errors
    and outcomes), \<open>Crc32\<close>, \<open>Sha256\<close>, \<open>Py_Text\<close>, \<open>Py_Json\<close>, \<open>Py_Json_Print\<close>, \<open>Py_Float\<close> and \<open>Py_Float_Text\<close>
    (IEEE doubles as the rationals they denote, with their rounding and their shortest decimal),
    \<open>Py_Datetime\<close>, \<open>Db_Tables\<close> (tables as lists of rows), \<open>Redis_Service\<close> (the server's commands as a
    parameter with their laws).
  \<^item> Telemetry components: \<open>Telemetry_Codec\<close>, \<open>Telemetry_Sequence\<close>, \<open>Telemetry_Health\<close>, \<open>Telemetry_Queue\<close>,
    \<open>Telemetry_Config\<close>, \<open>Telemetry_Metrics\<close>, each for the file of its name under \<^verbatim>\<open>telemetry/\<close>.
    \<^verbatim>\<open>telemetry/storage.py\<close> is \<open>Telemetry_Storage\<close> (rows, columns, checks), \<open>Telemetry_Repository\<close> (the
    operations, one definition per transaction), and its properties in the theories \<open>Repository_...\<close>.
  \<^item> Telemetry services: \<open>Service_World\<close> (database, Redis, outages and interference), \<open>Ground_Api\<close>,
    \<open>Payload_Worker\<close>, and their joint properties in \<open>Service_Steps\<close>, \<open>Service_Invariant\<close>, \<open>Service_Safety\<close>,
    \<open>Service_Handlers\<close>, \<open>Service_Samples\<close>, \<open>Service_Properties\<close>,
    \<open>Service_Progress\<close> and \<open>Gateway_Access\<close>. The payload and vendor simulator is
    \<open>Vendor_Simulator\<close> with its properties in \<open>Vendor_Life\<close>; \<open>End_To_End\<close> follows a measurement from the
    simulator to its stored result. \<open>Structured_Logging\<close> is \<^verbatim>\<open>telemetry/structured_logging.py\<close>.
  \<^item> Mission half: \<open>Space_Packet\<close> (\<^verbatim>\<open>common/packet.py\<close>), \<open>Mission_Common\<close> (\<^verbatim>\<open>config\<close>, \<^verbatim>\<open>retry\<close>, \<^verbatim>\<open>sequence\<close>,
    \<^verbatim>\<open>limits\<close> and \<^verbatim>\<open>commands\<close> of \<^verbatim>\<open>common/\<close>), \<open>Mission_World\<close> (the tables of \<^verbatim>\<open>common/db.py\<close>, stream, links
    and counters), \<open>Mission_Api\<close>, \<open>Telemetry_Ingest\<close>, \<open>Telemetry_Processor\<close>, \<open>Command_Dispatcher\<close>,
    \<open>Ai_Advisor\<close> and \<open>Spacecraft_Sim\<close> for the services of these names, and their composition in
    \<open>Mission_System\<close>, \<open>Mission_Invariant\<close> and \<open>Mission_Properties\<close>. \<open>Mission_Startup\<close> is \<^verbatim>\<open>common/nats.py\<close> and
    the start of every mission service over a parameter platform, \<open>Mission_Stream\<close> connects it to the system.
  \<^item> \<open>Traceability\<close> is the manifest check \<^verbatim>\<open>src/scripts/verify_traceability.py\<close>.

  How state and effects are modelled. Data classes and tables are records, enumerations datatypes, and every
  exception a value of an error type, so that each operation returns an error or a result together with
  the new state. Python integers are \<open>int\<close>, wire fields are bytes, doubles are rationals. A service call takes its
  fate from a schedule the theorems quantify over: answered, refused, or carried out with the answer lost;
  in the telemetry half the schedule also holds what other processes do between two calls. Clock readings,
  random draws and fresh identifiers are arguments.

  What the properties show.
  \<^item> Whole systems: a measurement of the simulator is what the ground stores (C1), no job is lost (C2), a
    202 is durable (C3), results are readings of the preserved bytes (C4), the
    worker empties its queue (C5); only armed orders fly (C6) and
    the command table tells the truth about the spacecraft (C7); the gateway serves exactly the holders of
    its tokens (C25).
  \<^item> Repository (C8, C9, C16 to C24): evidence is permanent, packets, jobs and results are unique, the
    sequence accounts balance, leases exclude other workers, jobs follow their life cycle, retries are
    bounded, the first result wins, races end as the locks allow (and where they end in a wrong verdict).
  \<^item> Queue (C10, C11): it implements three lists and holds a job once.
  \<^item> Frames (C12 to C15, C37): the codec is exact, damage is refused, the receiver follows the rules of the
    interface document in their order; sequence decisions and health assessment.
  \<^item> Spacecraft and its link (C26 to C28, C34 to C36): a command takes effect once, the simulator
    ends only where a packet cannot be sent, ground and spacecraft agree, the link codecs correspond.
  \<^item> Vendor simulator (C29 to C31): identifiers never repeat over restarts, frames do on the ground what
    their failure mode says, forwarding ends and repeats exact bytes.
  \<^item> Start-up and operation (C32, C33, C38 to C40): services connect in spite of the race for the stream,
    the stream carries every message, counters show increments, a log record is one faithful line, settings
    are validated.

  Interfaces are locales, interpreted on the model: \<open>wire_struct\<close> (a struct layout), the Redis laws,
  \<open>environment\<close> and \<open>shared_system\<close> (what a telemetry service may assume of the others),
  \<open>ground_invariant\<close> (what a mission handler must keep), \<open>ground_platform\<close> and \<open>available_platform\<close> (what a
  starting service may assume of the servers) and \<open>key_source\<close> (a source of fresh keys).

  Bounds. No definition uses fuel except the worker, whose endless loop is a number of iterations and
  whose properties hold for every number; the recovery loop of the queue is a \<open>partial_function\<close> shown to
  return. Timestamps of the simulator are exact until January 2038, where a double of seconds no longer
  carries microseconds.

  Not modelled: FastAPI routing and application assembly, the WebSocket transport, the connection pools'
  construction, closing of connections and signal handling, the calls that write log lines, the re-exports of
  \<^verbatim>\<open>telemetry/__init__.py\<close> and the benchmark \<^verbatim>\<open>src/scripts/perf_packet_codec.py\<close>. Text is Latin-1, the repertoire
  of HTTP headers; overflow of a double to infinity is left out, which no quotient of the services reaches.
\<close>

end
